(* ===== verification/Prelude.thy ===== *)
theory Prelude
  imports Complex_Main "HOL-Library.Char_ord" "HOL-Library.List_Lexorder" "HOL-Library.Sublist"
begin

text \<open>
  The vocabulary shared by the theories of the development: Python's exceptions as values,
  the string and list operations of the standard library that the program calls, insertion-ordered
  dictionaries, stable sorting by a key, and the interface \<open>keyed_store\<close> that every
  "look a key up / write a key" component of the program implements.

  Strings are lists of \<^typ>\<open>char\<close>; a \<^typ>\<open>char\<close> stands for the Unicode code point with
  the same number, so the model covers exactly the texts over U+0000 to U+00FF. Lower-casing and
  white space are those of Python on that range.
\<close>

named_theorems py_simps \<open>defining equations of the modelled standard library\<close>
named_theorems bounds \<open>range facts about numbers\<close>

section \<open>Exceptions as values\<close>

datatype pyexc =
    ValueError string
  | TypeError
  | KeyError string
  | ValidationError
  | SandboxError string
  | MultipleResultsFound
  | RuntimeFailure string

type_synonym 'a res = "pyexc + 'a"

definition rbind :: "'a res \<Rightarrow> ('a \<Rightarrow> 'b res) \<Rightarrow> 'b res" where
  "rbind m f = (case m of Inl e \<Rightarrow> Inl e | Inr x \<Rightarrow> f x)"

lemma rbind_simps [simp]: "rbind (Inl e) f = Inl e" "rbind (Inr x) f = f x"
  by (simp_all add: rbind_def)

lemma rbind_eq_Inr: "rbind m f = Inr y \<longleftrightarrow> (\<exists>x. m = Inr x \<and> f x = Inr y)"
  by (cases m) auto

definition succeeds :: "'a res \<Rightarrow> bool" where
  "succeeds m = (case m of Inl _ \<Rightarrow> False | Inr _ \<Rightarrow> True)"

lemma succeeds_simps [simp]: "\<not> succeeds (Inl e)" "succeeds (Inr x)"
  by (simp_all add: succeeds_def)

section \<open>Strings\<close>

definition py_isspace :: "char \<Rightarrow> bool" where
  "py_isspace c = (let n = of_char c :: int in
     9 \<le> n \<and> n \<le> 13 \<or> 28 \<le> n \<and> n \<le> 32 \<or> n = 133 \<or> n = 160)"

definition py_lower_char :: "char \<Rightarrow> char" where
  "py_lower_char c = (let n = of_char c :: int in
     if 65 \<le> n \<and> n \<le> 90 \<or> 192 \<le> n \<and> n \<le> 222 \<and> n \<noteq> 215 then char_of (n + 32) else c)"

definition py_lower :: "string \<Rightarrow> string" where
  "py_lower s = map py_lower_char s"

definition py_strip_by :: "(char \<Rightarrow> bool) \<Rightarrow> string \<Rightarrow> string" where
  "py_strip_by p s = rev (dropWhile p (rev (dropWhile p s)))"

definition py_strip :: "string \<Rightarrow> string" where
  "py_strip s = py_strip_by py_isspace s"

definition py_rstrip :: "string \<Rightarrow> string" where
  "py_rstrip s = rev (dropWhile py_isspace (rev s))"

definition py_startswith :: "string \<Rightarrow> string \<Rightarrow> bool" where
  "py_startswith s p = (take (length p) s = p)"

fun py_contains :: "string \<Rightarrow> string \<Rightarrow> bool" where
  "py_contains [] t = (t = [])"
| "py_contains (c # s) t = (py_startswith (c # s) t \<or> py_contains s t)"

fun py_split :: "char \<Rightarrow> string \<Rightarrow> string list" where
  "py_split sep [] = [[]]"
| "py_split sep (c # s) =
     (if c = sep then [] # py_split sep s
      else (case py_split sep s of [] \<Rightarrow> [[c]] | w # ws \<Rightarrow> (c # w) # ws))"

fun py_join :: "string \<Rightarrow> string list \<Rightarrow> string" where
  "py_join sep [] = []"
| "py_join sep [x] = x"
| "py_join sep (x # y # xs) = x @ sep @ py_join sep (y # xs)"

definition py_replace_char :: "char \<Rightarrow> char \<Rightarrow> string \<Rightarrow> string" where
  "py_replace_char a b s = map (\<lambda>c. if c = a then b else c) s"

function int_digits :: "int \<Rightarrow> string" where
  "int_digits n = (if n < 10 then [char_of (48 + n)] else int_digits (n div 10) @ [char_of (48 + n mod 10)])"
  by pat_completeness auto
termination
  by (relation "measure nat") auto

definition py_str_int :: "int \<Rightarrow> string" where
  "py_str_int i = (if i < 0 then ''-'' @ int_digits (- i) else int_digits i)"

declare int_digits.simps [simp del]

lemma py_split_ne [simp]: "py_split sep s \<noteq> []"
  by (induction s) (auto split: list.splits)

lemma py_split_sep_free: "w \<in> set (py_split sep s) \<Longrightarrow> sep \<notin> set w"
proof (induction s arbitrary: w)
  case (Cons c s)
  then show ?case by (cases "py_split sep s") (auto split: if_splits)
qed simp

lemma py_split_no_sep: "sep \<notin> set w \<Longrightarrow> py_split sep w = [w]"
  by (induction w) auto

lemma py_split_append_sep: "sep \<notin> set w \<Longrightarrow> py_split sep (w @ sep # s) = w # py_split sep s"
  by (induction w) auto

text \<open>Splitting what was joined gives the parts back, when no part contains the separator.\<close>

lemma py_split_join:
  "ws \<noteq> [] \<Longrightarrow> (\<forall>w \<in> set ws. sep \<notin> set w) \<Longrightarrow> py_split sep (py_join [sep] ws) = ws"
  by (induction "[sep]" ws rule: py_join.induct) (auto simp: py_split_no_sep py_split_append_sep)

lemma py_join_ne: "ws \<noteq> [] \<Longrightarrow> \<forall>w \<in> set ws. w \<noteq> [] \<Longrightarrow> py_join sep ws \<noteq> []"
  by (cases "(sep, ws)" rule: py_join.cases) auto

lemma hd_py_join: "ws \<noteq> [] \<Longrightarrow> hd ws \<noteq> [] \<Longrightarrow> hd (py_join sep ws) = hd (hd ws)"
  by (cases "(sep, ws)" rule: py_join.cases) auto

lemma length_py_join:
  "length (py_join sep ws) = sum_list (map length ws) + length sep * (length ws - 1)"
  by (induction sep ws rule: py_join.induct) auto

lemma length_py_lower [simp]: "length (py_lower s) = length s"
  by (simp add: py_lower_def)

lemma py_lower_char_idem: "py_lower_char (py_lower_char c) = py_lower_char c"
proof -
  have "of_char c mod (256 :: int) < 256" by (rule pos_mod_bound) simp
  then have "of_char c < (256 :: int)" by simp
  then show ?thesis by (auto simp: py_lower_char_def Let_def)
qed

lemma py_lower_idem [simp]: "py_lower (py_lower s) = py_lower s"
  by (simp add: py_lower_def py_lower_char_idem)

lemma py_startswith_append [simp]: "py_startswith (p @ s) p"
  by (simp add: py_startswith_def)

lemma py_startswith_prefix: "py_startswith s p \<longleftrightarrow> prefix p s"
  unfolding py_startswith_def by (metis append_eq_conv_conj prefix_def)

lemma py_contains_sublist: "py_contains s t \<longleftrightarrow> sublist t s"
  by (induction s) (auto simp: py_startswith_prefix sublist_Cons_right)

lemma py_str_int_ne [simp]: "py_str_int n \<noteq> []"
proof -
  have "int_digits m \<noteq> []" for m by (subst int_digits.simps) simp
  then show ?thesis by (simp add: py_str_int_def)
qed

section \<open>Identifiers\<close>

text \<open>
  \<open>uuid.UUID(text)\<close> of the standard library: the prefixes and dashes are dropped, 32 characters must
  remain, and they are read by \<open>int(_, 16)\<close>, which takes surrounding blanks, a sign, a \<open>0x\<close> prefix
  and single underscores between digits. The value is kept in its canonical spelling.
\<close>

definition hex_value :: "char \<Rightarrow> int option" where
  "hex_value c = (let n = of_char c :: int in
     if 48 \<le> n \<and> n \<le> 57 then Some (n - 48)
     else if 97 \<le> n \<and> n \<le> 102 then Some (n - 87)
     else if 65 \<le> n \<and> n \<le> 70 then Some (n - 55) else None)"

fun hex_digits :: "int \<Rightarrow> bool \<Rightarrow> string \<Rightarrow> int option" where
  "hex_digits acc prev [] = (if prev then Some acc else None)"
| "hex_digits acc prev (c # s) =
     (case hex_value c of
        Some v \<Rightarrow> hex_digits (16 * acc + v) True s
      | None \<Rightarrow> if c = CHR ''_'' \<and> prev then hex_digits acc False s else None)"

definition py_int16_unsigned :: "string \<Rightarrow> int option" where
  "py_int16_unsigned s =
     (if py_startswith s ''0x'' \<or> py_startswith s ''0X''
      then hex_digits 0 False (let r = drop 2 s in if py_startswith r ''_'' then tl r else r)
      else hex_digits 0 False s)"

definition py_int16 :: "string \<Rightarrow> int option" where
  "py_int16 t = (let s = py_strip t in
     if py_startswith s ''-'' then map_option uminus (py_int16_unsigned (tl s))
     else if py_startswith s ''+'' then py_int16_unsigned (tl s)
     else py_int16_unsigned s)"

fun py_remove :: "string \<Rightarrow> string \<Rightarrow> string" where
  "py_remove p [] = []"
| "py_remove p (c # s) =
     (if p \<noteq> [] \<and> py_startswith (c # s) p then py_remove p (drop (length p - 1) s)
      else c # py_remove p s)"

fun hex_string :: "nat \<Rightarrow> int \<Rightarrow> string" where
  "hex_string 0 n = []"
| "hex_string (Suc k) n =
     hex_string k (n div 16) @ [let d = n mod 16 in char_of (if d < 10 then 48 + d else 87 + d)]"

definition uuid_canonical :: "int \<Rightarrow> string" where
  "uuid_canonical n = (let h = hex_string 32 n in
     take 8 h @ ''-'' @ take 4 (drop 8 h) @ ''-'' @ take 4 (drop 12 h) @ ''-'' @
     take 4 (drop 16 h) @ ''-'' @ drop 20 h)"

definition py_uuid :: "string \<Rightarrow> string option" where
  "py_uuid t =
     (let h = filter (\<lambda>c. c \<noteq> CHR ''-'')
                (py_strip_by (\<lambda>c. c = CHR ''{'' \<or> c = CHR ''}'') (py_remove ''uuid:'' (py_remove ''urn:'' t)))
      in if length h \<noteq> 32 then None
         else (case py_int16 h of
                 None \<Rightarrow> None
               | Some v \<Rightarrow> if 0 \<le> v \<and> v < 2 ^ 128 then Some (uuid_canonical v) else None))"

section \<open>Insertion-ordered dictionaries\<close>

type_synonym ('k, 'v) dict = "('k \<times> 'v) list"

definition dget :: "('k, 'v) dict \<Rightarrow> 'k \<Rightarrow> 'v option" where
  "dget d k = map_of d k"

fun dset :: "'k \<Rightarrow> 'v \<Rightarrow> ('k, 'v) dict \<Rightarrow> ('k, 'v) dict" where
  "dset k v [] = [(k, v)]"
| "dset k v ((k', v') # d) = (if k = k' then (k, v) # d else (k', v') # dset k v d)"

definition dget_or :: "('k, 'v) dict \<Rightarrow> 'k \<Rightarrow> 'v \<Rightarrow> 'v" where
  "dget_or d k v = (case dget d k of None \<Rightarrow> v | Some x \<Rightarrow> x)"

definition ddel :: "'k \<Rightarrow> ('k, 'v) dict \<Rightarrow> ('k, 'v) dict" where
  "ddel k d = filter (\<lambda>p. fst p \<noteq> k) d"

definition dkeys :: "('k, 'v) dict \<Rightarrow> 'k list" where
  "dkeys d = map fst d"

definition dvalues :: "('k, 'v) dict \<Rightarrow> 'v list" where
  "dvalues d = map snd d"

text \<open>\<open>{**d, **e}\<close>: the entries of \<open>e\<close> overwrite those of \<open>d\<close> in place or go to the end.\<close>

definition dmerge :: "('k, 'v) dict \<Rightarrow> ('k, 'v) dict \<Rightarrow> ('k, 'v) dict" where
  "dmerge d e = fold (\<lambda>(k, v). dset k v) e d"

definition dict_ok :: "('k, 'v) dict \<Rightarrow> bool" where
  "dict_ok d = distinct (dkeys d)"

lemma dkeys_dset: "dkeys (dset k v d) = (if k \<in> set (dkeys d) then dkeys d else dkeys d @ [k])"
  by (induction k v d rule: dset.induct) (auto simp: dkeys_def)

lemma dict_ok_dset [simp]: "dict_ok d \<Longrightarrow> dict_ok (dset k v d)"
  by (auto simp: dict_ok_def dkeys_dset)

lemma dget_Some_keys: "dget d k = Some v \<Longrightarrow> k \<in> set (dkeys d)"
  unfolding dget_def dkeys_def by (metis map_of_SomeD image_eqI fst_conv image_set)

lemma dget_None: "dget d k = None \<longleftrightarrow> k \<notin> set (dkeys d)"
  by (auto simp: dget_def dkeys_def map_of_eq_None_iff)

lemma dget_in: "dict_ok d \<Longrightarrow> (k, v) \<in> set d \<Longrightarrow> dget d k = Some v"
  by (simp add: dget_def dict_ok_def dkeys_def)

lemma dget_map: "k \<in> set ks \<Longrightarrow> dget (map (\<lambda>k. (k, g k)) ks) k = Some (g k)"
  by (simp add: dget_def map_of_map_restrict)

lemma dget_or_map [simp]: "k \<in> set ks \<Longrightarrow> dget_or (map (\<lambda>k. (k, g k)) ks) k d = g k"
  by (simp add: dget_or_def dget_map)

lemma dget_ddel: "dget (ddel k d) k' = (if k = k' then None else dget d k')"
  by (induction d) (auto simp: dget_def ddel_def)

lemma dict_ok_ddel [simp]: "dict_ok d \<Longrightarrow> dict_ok (ddel k d)"
  unfolding dict_ok_def dkeys_def ddel_def by (simp add: distinct_map_filter)

section \<open>The keyed-store interface\<close>

text \<open>
  Dictionaries, the in-process memory, the tool registry, the org chart and the team memory all
  promise the same two laws of a write followed by a read. What follows from them is proved once.
\<close>

locale keyed_store =
  fixes get :: "'s \<Rightarrow> 'k \<Rightarrow> 'v option"
    and put :: "'k \<Rightarrow> 'v \<Rightarrow> 's \<Rightarrow> 's"
  assumes get_put_same: "get (put k v s) k = Some v"
    and get_put_other: "k \<noteq> k' \<Longrightarrow> get (put k v s) k' = get s k'"
begin

lemma get_put: "get (put k v s) k' = (if k = k' then Some v else get s k')"
  by (simp add: get_put_same get_put_other)

lemma get_put_put: "get (put k v (put k w s)) k' = get (put k v s) k'"
  by (simp add: get_put)

lemma get_put_comm: "k \<noteq> l \<Longrightarrow> get (put k v (put l w s)) m = get (put l w (put k v s)) m"
  by (auto simp: get_put)

text \<open>A sequence of writes: the last write to a key wins, the other keys are untouched.\<close>

lemma get_fold_put:
  "get (fold (\<lambda>(k, v). put k v) kvs s) k =
     (case map_of (rev kvs) k of None \<Rightarrow> get s k | Some v \<Rightarrow> Some v)"
  by (induction kvs arbitrary: s) (auto simp: get_put map_add_def split: option.splits)

end

interpretation dict: keyed_store dget dset
proof
  show "dget (dset k v d) k = Some v" for k :: 'k and v :: 'v and d
    by (induction k v d rule: dset.induct) (auto simp: dget_def)
  show "k \<noteq> k' \<Longrightarrow> dget (dset k v d) k' = dget d k'" for k k' :: 'k and v :: 'v and d
    by (induction k v d rule: dset.induct) (auto simp: dget_def)
qed

lemmas dget_dset = dict.get_put

lemma dget_dmerge:
  "dget (dmerge d e) k = (case map_of (rev e) k of None \<Rightarrow> dget d k | Some v \<Rightarrow> Some v)"
  unfolding dmerge_def by (rule dict.get_fold_put)

lemma dict_ok_dmerge [simp]: "dict_ok d \<Longrightarrow> dict_ok (dmerge d e)"
  unfolding dmerge_def by (induction e arbitrary: d) auto

section \<open>Stable sorting by a key\<close>

text \<open>\<open>sorted(xs, key=f, reverse=True)\<close> keeps the original order of items with equal keys.\<close>

definition sort_desc :: "('a \<Rightarrow> 'b :: linorder) \<Rightarrow> 'a list \<Rightarrow> 'a list" where
  "sort_desc f xs = rev (sort_key f (rev xs))"

lemma set_sort_desc [simp]: "set (sort_desc f xs) = set xs"
  by (simp add: sort_desc_def)

lemma length_sort_desc [simp]: "length (sort_desc f xs) = length xs"
  by (simp add: sort_desc_def)

lemma distinct_sort_desc [simp]: "distinct (sort_desc f xs) = distinct xs"
  by (simp add: sort_desc_def)

lemma sorted_sort_desc: "sorted_wrt (\<lambda>a b. f b \<le> f a) (sort_desc f xs)"
  using sorted_sort_key [of f "rev xs"]
  by (simp add: sort_desc_def sorted_wrt_rev sorted_map)

lemma sort_desc_stable: "filter (\<lambda>x. f x = k) (sort_desc f xs) = filter (\<lambda>x. f x = k) xs"
  by (simp add: sort_desc_def rev_filter [symmetric] sort_key_stable)

section \<open>Keeping first occurrences\<close>

text \<open>
  \<open>list(dict.fromkeys(xs))\<close> and the \<open>seen\<close>-set loops of the program keep the first element
  for each key and drop the later ones.
\<close>

fun dedup_from :: "('a \<Rightarrow> 'b) \<Rightarrow> 'b list \<Rightarrow> 'a list \<Rightarrow> 'a list" where
  "dedup_from f seen [] = []"
| "dedup_from f seen (x # xs) =
     (if f x \<in> set seen then dedup_from f seen xs else x # dedup_from f (f x # seen) xs)"

definition dedup_by :: "('a \<Rightarrow> 'b) \<Rightarrow> 'a list \<Rightarrow> 'a list" where
  "dedup_by f xs = dedup_from f [] xs"

lemma dedup_from_keys: "f ` set (dedup_from f seen xs) = f ` set xs - set seen"
  by (induction f seen xs rule: dedup_from.induct) auto

lemma dedup_from_distinct: "distinct (map f (dedup_from f seen xs))"
  by (induction f seen xs rule: dedup_from.induct) (auto simp: dedup_from_keys)

lemma dedup_from_subseq: "subseq (dedup_from f seen xs) xs"
  by (induction f seen xs rule: dedup_from.induct) auto

lemma dedup_from_id:
  "distinct (map f xs) \<Longrightarrow> f ` set xs \<inter> set seen = {} \<Longrightarrow> dedup_from f seen xs = xs"
  by (induction f seen xs rule: dedup_from.induct) auto

lemma dedup_by_distinct [simp]: "distinct (map f (dedup_by f xs))"
  by (simp add: dedup_by_def dedup_from_distinct)

lemma dedup_by_keys: "f ` set (dedup_by f xs) = f ` set xs"
  by (simp add: dedup_by_def dedup_from_keys)

lemma dedup_by_subseq: "subseq (dedup_by f xs) xs"
  by (simp add: dedup_by_def dedup_from_subseq)

lemma dedup_by_idem [simp]: "dedup_by f (dedup_by f xs) = dedup_by f xs"
  by (simp add: dedup_by_def dedup_from_distinct dedup_from_id)

lemma dedup_by_subset: "set (dedup_by f xs) \<subseteq> set xs"
  using list_emb_set [OF dedup_by_subseq [of f xs]] by blast

lemma length_dedup_by: "length (dedup_by f xs) \<le> length xs"
  by (rule list_emb_length [OF dedup_by_subseq])

section \<open>Invariants of transition systems\<close>

text \<open>
  The stores of the program evolve by transactions. An invariant holds initially and is kept by
  every step; a stable fact is one that, on states satisfying the invariant, no step undoes.
\<close>

locale invariant_system =
  fixes step :: "'s \<Rightarrow> 's \<Rightarrow> bool"
    and init :: "'s \<Rightarrow> bool"
    and inv :: "'s \<Rightarrow> bool"
  assumes init_inv: "init s \<Longrightarrow> inv s"
    and step_inv: "step s s' \<Longrightarrow> inv s \<Longrightarrow> inv s'"
begin

lemma steps_inv: "step\<^sup>*\<^sup>* s s' \<Longrightarrow> inv s \<Longrightarrow> inv s'"
  by (induction rule: rtranclp_induct) (auto dest: step_inv)

lemma reachable_inv: "init s \<Longrightarrow> step\<^sup>*\<^sup>* s s' \<Longrightarrow> inv s'"
  using steps_inv init_inv by blast

end

locale stable_fact = invariant_system +
  fixes holds :: "'s \<Rightarrow> 'x \<Rightarrow> bool"
  assumes step_stable: "inv s \<Longrightarrow> step s s' \<Longrightarrow> holds s x \<Longrightarrow> holds s' x"
begin

lemma steps_stable: "step\<^sup>*\<^sup>* s s' \<Longrightarrow> inv s \<Longrightarrow> holds s x \<Longrightarrow> holds s' x"
  by (induction rule: rtranclp_induct) (auto intro: step_stable steps_inv)

end

end
