(* ===== verification/PyFloat.thy ===== *)
theory PyFloat
  imports Prelude "HOL-Library.Log_Nat"
begin

text \<open>
  Python's \<open>float\<close>: IEEE binary64 with round-to-nearest, ties to even, as an executable function
  \<open>fl\<close> on exact rationals. A float value is a rational \<open>x\<close> with \<open>fl x = x\<close>; each arithmetic operation
  is the exact operation followed by one rounding. Subnormal spacing is kept; infinities, NaN and
  the sign of zero are not represented, and there is no overflow threshold: every number the
  program computes with these operations is far below it unless a caller supplies weights above
  \<open>2 ^ 1000\<close>. A decimal literal such as 0.7 is \<open>fl (7 / 10)\<close>.

  Also here: \<open>round(x, n)\<close>, \<open>int(x)\<close>, the clamp idiom \<open>max(0.0, min(1.0, x))\<close>, and \<open>sum()\<close> in both
  the plain form (before Python 3.12) and the compensated form (from 3.12), since the program
  accepts Python 3.10 and later.
\<close>

section \<open>Rounding to binary64\<close>

definition rne :: "rat \<Rightarrow> int" where
  "rne y = (let f = \<lfloor>y\<rfloor>; d = y - of_int f in
     if d < 1/2 then f else if 1/2 < d then f + 1 else if even f then f else f + 1)"

definition ilog2 :: "rat \<Rightarrow> int" where
  "ilog2 x = (let (p, q) = quotient_of x; k = bitlen p - bitlen q in
     if (2::rat) powi k \<le> x then k else k - 1)"

definition ulp :: "rat \<Rightarrow> rat" where
  "ulp x = 2 powi (max (ilog2 \<bar>x\<bar>) (- 1022) - 52)"

definition fl :: "rat \<Rightarrow> rat" where
  "fl x = (if x = 0 then 0 else of_int (rne (x / ulp x)) * ulp x)"

type_synonym float64 = rat

definition is_float :: "rat \<Rightarrow> bool" where
  "is_float x = (fl x = x)"

definition fadd :: "float64 \<Rightarrow> float64 \<Rightarrow> float64" where "fadd x y = fl (x + y)"
definition fsub :: "float64 \<Rightarrow> float64 \<Rightarrow> float64" where "fsub x y = fl (x - y)"
definition fmul :: "float64 \<Rightarrow> float64 \<Rightarrow> float64" where "fmul x y = fl (x * y)"
definition fdiv :: "float64 \<Rightarrow> float64 \<Rightarrow> float64" where "fdiv x y = fl (x / y)"

definition py_round :: "nat \<Rightarrow> float64 \<Rightarrow> float64" where
  "py_round n x = fl (of_int (rne (x * 10 ^ n)) / 10 ^ n)"

definition py_int :: "float64 \<Rightarrow> int" where
  "py_int x = (if 0 \<le> x then \<lfloor>x\<rfloor> else \<lceil>x\<rceil>)"

definition clamp01 :: "float64 \<Rightarrow> float64" where
  "clamp01 x = max 0 (min 1 x)"

datatype summation = Plain | Compensated

fun sum_plain :: "float64 \<Rightarrow> float64 list \<Rightarrow> float64" where
  "sum_plain r [] = r"
| "sum_plain r (x # xs) = sum_plain (fadd r x) xs"

definition comp_err :: "float64 \<Rightarrow> float64 \<Rightarrow> float64 \<Rightarrow> float64" where
  "comp_err r x t = (if \<bar>x\<bar> \<le> \<bar>r\<bar> then fadd (fsub r t) x else fadd (fsub x t) r)"

fun sum_comp :: "float64 \<Rightarrow> float64 \<Rightarrow> float64 list \<Rightarrow> float64" where
  "sum_comp r c [] = (if c \<noteq> 0 then fadd r c else r)"
| "sum_comp r c (x # xs) =
     sum_comp (fadd r x) (fadd c (comp_err r x (fadd r x))) xs"

fun py_sum :: "summation \<Rightarrow> float64 list \<Rightarrow> float64" where
  "py_sum m [] = 0"
| "py_sum Plain (x # xs) = sum_plain x xs"
| "py_sum Compensated (x # xs) = sum_comp x 0 xs"

lemma rne_of_int [simp]: "rne (of_int n) = n"
  by (simp add: rne_def)

lemma rne_lower: "y - 1/2 \<le> of_int (rne y)"
  and rne_upper: "of_int (rne y) \<le> y + 1/2"
  unfolding rne_def Let_def by (auto; linarith)+

lemma rne_mono:
  assumes "x \<le> y"
  shows "rne x \<le> rne y"
proof (cases "\<lfloor>x\<rfloor> = \<lfloor>y\<rfloor>")
  case True
  with assms show ?thesis by (auto simp: rne_def Let_def)
next
  case False
  with assms have "\<lfloor>x\<rfloor> < \<lfloor>y\<rfloor>" by (simp add: floor_mono less_le)
  moreover have "rne x \<le> \<lfloor>x\<rfloor> + 1" "\<lfloor>y\<rfloor> \<le> rne y" by (auto simp: rne_def Let_def)
  ultimately show ?thesis by linarith
qed

lemma rne_uminus: "rne (- y) = - rne y"
proof (cases "of_int \<lfloor>y\<rfloor> = y")
  case True
  then show ?thesis by (metis of_int_minus rne_of_int)
next
  case False
  define f where "f = \<lfloor>y\<rfloor>"
  have lt: "of_int f < y" "y < of_int f + 1" using False unfolding f_def by linarith+
  have fm: "\<lfloor>- y\<rfloor> = - f - 1" using lt by (intro floor_unique) auto
  show ?thesis unfolding rne_def Let_def fm f_def [symmetric] by auto
qed

lemma powi2_pos [simp]: "0 < (2::rat) powi k"
  by simp

lemma ilog2_spec:
  assumes "0 < x"
  shows "2 powi (ilog2 x) \<le> x" and "x < 2 powi (ilog2 x + 1)"
proof -
  obtain p q where pq: "quotient_of x = (p, q)" by fastforce
  define k where "k = bitlen p - bitlen q"
  have q: "0 < q" using pq by (rule quotient_of_denom_pos)
  have x: "x = of_int p / of_int q" using pq by (rule quotient_of_div)
  have p: "0 < p" using assms q x by (simp add: zero_less_divide_iff)
  have bp: "2 ^ nat (bitlen p - 1) \<le> p" "p < 2 ^ nat (bitlen p)" using bitlen_bounds [OF p] by auto
  have bq: "2 ^ nat (bitlen q - 1) \<le> q" "q < 2 ^ nat (bitlen q)" using bitlen_bounds [OF q] by auto
  have lens: "1 \<le> bitlen p" "1 \<le> bitlen q" using p q by (auto simp: bitlen_def floorlog_def)
  have R: "(2::rat) powi j = of_int (2 ^ nat j)" if "0 \<le> j" for j
    using that by (simp add: power_int_def)
  have p1: "2 powi (bitlen p - 1) \<le> rat_of_int p" "rat_of_int p < 2 powi bitlen p"
    using bp lens by (auto simp: R of_int_le_iff simp del: of_int_power of_int_numeral)
  have q1: "2 powi (bitlen q - 1) \<le> rat_of_int q" "rat_of_int q < 2 powi bitlen q"
    using bq lens by (auto simp: R of_int_le_iff simp del: of_int_power of_int_numeral)
  have "x < 2 powi bitlen p / 2 powi (bitlen q - 1)"
    unfolding x using p1 q1 p q by (intro frac_less) auto
  also have "\<dots> = 2 powi (k + 1)"
    by (simp add: k_def power_int_diff [symmetric] algebra_simps)
  finally have up: "x < 2 powi (k + 1)" .
  have "2 powi (k - 1) = (2::rat) powi (bitlen p - 1) / 2 powi bitlen q"
    by (simp add: k_def power_int_diff [symmetric] algebra_simps)
  also have "\<dots> \<le> x"
    unfolding x using p1 q1 p q by (intro frac_le) auto
  finally have lo: "2 powi (k - 1) \<le> x" .
  have e: "ilog2 x = (if 2 powi k \<le> x then k else k - 1)"
    by (simp add: ilog2_def pq k_def Let_def)
  show "2 powi (ilog2 x) \<le> x" using lo by (simp add: e)
  show "x < 2 powi (ilog2 x + 1)" using up by (auto simp: e)
qed

lemma powi2_less_iff: "(2::rat) powi a < 2 powi b \<longleftrightarrow> a < b"
  using power_int_strict_increasing [of a b "2::rat"] power_int_increasing [of b a "2::rat"]
  by (meson linorder_not_le one_less_numeral_iff semiring_norm(76) less_imp_le)

lemma ilog2_unique: "2 powi e \<le> x \<Longrightarrow> x < 2 powi (e + 1) \<Longrightarrow> ilog2 x = e"
proof -
  assume a: "2 powi e \<le> x" "x < 2 powi (e + 1)"
  have x: "0 < x" using a(1) powi2_pos [of e] by linarith
  note s = ilog2_spec [OF x]
  have "2 powi e < (2::rat) powi (ilog2 x + 1)" "2 powi (ilog2 x) < (2::rat) powi (e + 1)"
    using a s by linarith+
  then show ?thesis by (simp add: powi2_less_iff)
qed

lemma ulp_pos [simp]: "0 < ulp x"
  by (simp add: ulp_def)

lemma ulp_nonzero [simp]: "ulp x \<noteq> 0"
  by (simp add: ulp_def)

lemma abs_ulp [simp]: "\<bar>ulp x\<bar> = ulp x"
  by (simp add: less_imp_le)

lemma ulp_uminus [simp]: "ulp (- x) = ulp x"
  by (simp add: ulp_def)

lemma fl_uminus: "fl (- x) = - fl x"
  by (simp add: fl_def rne_uminus)

lemma fl_zero [simp]: "fl 0 = 0"
  by (simp add: fl_def)

lemma fl_error: "\<bar>fl x - x\<bar> \<le> ulp x / 2"
proof (cases "x = 0")
  case False
  have "\<bar>of_int (rne (x / ulp x)) - x / ulp x\<bar> \<le> 1/2"
    using rne_lower [of "x / ulp x"] rne_upper [of "x / ulp x"] by linarith
  then have "\<bar>of_int (rne (x / ulp x)) - x / ulp x\<bar> * ulp x \<le> 1/2 * ulp x"
    by (intro mult_right_mono) (auto simp: less_imp_le)
  also have "\<bar>of_int (rne (x / ulp x)) - x / ulp x\<bar> * ulp x =
      \<bar>(of_int (rne (x / ulp x)) - x / ulp x) * ulp x\<bar>" by (simp add: abs_mult)
  also have "(of_int (rne (x / ulp x)) - x / ulp x) * ulp x = fl x - x"
    using False by (simp add: fl_def left_diff_distrib)
  finally show ?thesis by simp
qed (simp add: fl_def less_imp_le)

text \<open>A multiple of the spacing bounds the rounded value whenever it bounds the exact one.\<close>

lemma powi2_int: "0 \<le> k \<Longrightarrow> (2::rat) powi k = of_int (2 ^ nat k)"
  by (simp add: power_int_def)

lemma fl_ge_of_grid:
  assumes "x \<noteq> 0" and "g = of_int n * ulp x" and "g \<le> x"
  shows "g \<le> fl x"
proof -
  have "of_int n \<le> x / ulp x" using assms by (simp add: pos_le_divide_eq)
  then have "n \<le> rne (x / ulp x)" using rne_mono by fastforce
  then show ?thesis using assms by (simp add: fl_def)
qed

lemma fl_le_of_grid:
  assumes "x \<noteq> 0" and "g = of_int n * ulp x" and "x \<le> g"
  shows "fl x \<le> g"
proof -
  have "x / ulp x \<le> of_int n" using assms by (simp add: pos_divide_le_eq)
  then have "rne (x / ulp x) \<le> n" using rne_mono by fastforce
  then show ?thesis using assms by (simp add: fl_def)
qed

lemma powi2_grid:
  assumes "max (ilog2 \<bar>x\<bar>) (- 1022) - 52 \<le> k"
  shows "(2::rat) powi k = of_int (2 ^ nat (k - (max (ilog2 \<bar>x\<bar>) (- 1022) - 52))) * ulp x"
  using assms by (simp add: ulp_def powi2_int [symmetric] power_int_add [symmetric] del: of_int_power)

lemma fl_nonneg: "0 \<le> x \<Longrightarrow> 0 \<le> fl x"
  by (cases "x = 0") (auto intro: fl_ge_of_grid [of _ _ 0])

lemma fl_lower_binade:
  assumes "0 < x" "- 1022 \<le> ilog2 x"
  shows "2 powi (ilog2 x) \<le> fl x"
  using assms ilog2_spec [OF assms(1)]
  by (intro fl_ge_of_grid [OF _ powi2_grid]) auto

lemma fl_upper_binade:
  assumes "0 < x" "ilog2 x \<le> k" "- 1022 \<le> k"
  shows "fl x \<le> 2 powi (k + 1)"
proof -
  have "x < 2 powi (ilog2 x + 1)" using ilog2_spec [OF assms(1)] by simp
  also have "\<dots> \<le> 2 powi (k + 1)" using assms(2) by (intro power_int_increasing) auto
  finally show ?thesis using assms
    by (intro fl_le_of_grid [OF _ powi2_grid]) auto
qed

lemma fl_mono_pos:
  assumes "0 < x" "x \<le> y"
  shows "fl x \<le> fl y"
proof -
  have y: "0 < y" using assms by linarith
  have le: "ilog2 x \<le> ilog2 y"
  proof -
    have "(2::rat) powi (ilog2 x) < 2 powi (ilog2 y + 1)"
      using ilog2_spec [OF assms(1)] ilog2_spec [OF y] assms by linarith
    then show ?thesis by (simp add: powi2_less_iff)
  qed
  show ?thesis
  proof (cases "max (ilog2 x) (- 1022) = max (ilog2 y) (- 1022)")
    case True
    then have u: "ulp x = ulp y" using assms y by (simp add: ulp_def)
    have "rne (x / ulp x) \<le> rne (y / ulp x)"
      using assms by (intro rne_mono divide_right_mono) (auto simp: less_imp_le)
    then show ?thesis using assms y u by (simp add: fl_def less_imp_le)
  next
    case False
    with le have "max (ilog2 x) (- 1022) + 1 \<le> ilog2 y" "- 1022 \<le> ilog2 y" by auto
    have "fl x \<le> 2 powi (max (ilog2 x) (- 1022) + 1)"
      using assms by (intro fl_upper_binade) auto
    also have "\<dots> \<le> 2 powi (ilog2 y)"
      using \<open>max (ilog2 x) (- 1022) + 1 \<le> ilog2 y\<close> by (intro power_int_increasing) auto
    also have "\<dots> \<le> fl y" using y \<open>- 1022 \<le> ilog2 y\<close> by (rule fl_lower_binade)
    finally show ?thesis .
  qed
qed

lemma fl_mono: "x \<le> y \<Longrightarrow> fl x \<le> fl y"
proof -
  assume xy: "x \<le> y"
  consider "0 < x" | "x \<le> 0" "0 \<le> y" | "y < 0" by linarith
  then show ?thesis
  proof cases
    case 1 then show ?thesis using xy by (rule fl_mono_pos)
  next
    case 2
    then have "fl x \<le> 0" "0 \<le> fl y"
      using fl_nonneg [of "- x"] fl_nonneg [of y] by (auto simp: fl_uminus)
    then show ?thesis by linarith
  next
    case 3
    then have "fl (- y) \<le> fl (- x)" using xy by (intro fl_mono_pos) auto
    then show ?thesis by (simp add: fl_uminus)
  qed
qed

lemma fl_fixed:
  assumes "x = of_int m * 2 powi k" "\<bar>m\<bar> \<le> 2 ^ 53" "- 1074 \<le> k"
  shows "fl x = x"
proof (cases "x = 0")
  case False
  then have ax: "0 < \<bar>x\<bar>" by simp
  have m0: "m \<noteq> 0" using False assms(1) by auto
  have "\<bar>x\<bar> = of_int \<bar>m\<bar> * 2 powi k" using assms(1) by (simp add: abs_mult)
  also have "\<dots> \<le> of_int (2 ^ 53) * 2 powi k"
    using assms(2) by (intro mult_right_mono) (simp_all only: of_int_le_iff, simp)
  also have "\<dots> = 2 powi (k + 53)"
    by (simp add: power_int_add)
  finally have "\<bar>x\<bar> \<le> 2 powi (k + 53)" .
  show ?thesis
  proof (cases "\<bar>x\<bar> = 2 powi (k + 53)")
    case True
    then have "ilog2 \<bar>x\<bar> = k + 53" by (intro ilog2_unique) (auto simp: powi2_less_iff)
    then have g: "2 powi (k + 53) = of_int (2 ^ nat (k + 53 - (max (ilog2 \<bar>x\<bar>) (- 1022) - 52))) * ulp x"
      using assms(3) by (intro powi2_grid) auto
    obtain s :: int where s: "x = of_int s * 2 powi (k + 53)"
      using True by (cases "0 \<le> x") (auto intro: that [of 1] that [of "-1"])
    have "x / ulp x = of_int (s * 2 ^ nat (k + 53 - (max (ilog2 \<bar>x\<bar>) (- 1022) - 52)))"
      using s g by (simp add: field_simps)
    then show ?thesis by (metis fl_def rne_of_int False nonzero_divide_eq_eq order_less_irrefl ulp_pos)
  next
    case ne: False
    with \<open>\<bar>x\<bar> \<le> 2 powi (k + 53)\<close> have "\<bar>x\<bar> < 2 powi (k + 53)" by simp
    then have "(2::rat) powi (ilog2 \<bar>x\<bar>) < 2 powi (k + 53)" using ilog2_spec(1) [OF ax] by linarith
    then have "ilog2 \<bar>x\<bar> < k + 53" by (simp add: powi2_less_iff)
    then have g: "2 powi k = of_int (2 ^ nat (k - (max (ilog2 \<bar>x\<bar>) (- 1022) - 52))) * ulp x"
      using assms(3) by (intro powi2_grid) auto
    have "x / ulp x = of_int (m * 2 ^ nat (k - (max (ilog2 \<bar>x\<bar>) (- 1022) - 52)))"
      using assms(1) g by (simp add: field_simps)
    then show ?thesis by (metis fl_def rne_of_int False nonzero_divide_eq_eq order_less_irrefl ulp_pos)
  qed
qed simp

lemma fl_grid:
  "\<exists>m k. fl x = of_int m * 2 powi k \<and> \<bar>m\<bar> \<le> 2 ^ 53 \<and> - 1074 \<le> k"
proof (cases "x = 0")
  case False
  define k where "k = max (ilog2 \<bar>x\<bar>) (- 1022) - 52"
  have ax: "0 < \<bar>x\<bar>" using False by simp
  have "\<bar>x\<bar> < 2 powi (ilog2 \<bar>x\<bar> + 1)" using ilog2_spec [OF ax] by simp
  also have "\<dots> \<le> (2::rat) powi (53 + k)" unfolding k_def by (intro power_int_increasing) auto
  also have "\<dots> = of_int (2 ^ 53) * ulp x"
    unfolding ulp_def k_def [symmetric] by (simp add: power_int_add)
  finally have b: "\<bar>x\<bar> \<le> of_int (2 ^ 53) * ulp x" by simp
  have "x / ulp x \<le> of_int (2 ^ 53)" "of_int (- (2 ^ 53)) \<le> x / ulp x"
    using b by (auto simp: pos_divide_le_eq pos_le_divide_eq abs_le_iff)
  then have "rne (x / ulp x) \<le> 2 ^ 53" "- (2 ^ 53) \<le> rne (x / ulp x)"
    using rne_mono rne_of_int by metis+
  then show ?thesis using False
    by (intro exI [of _ "rne (x / ulp x)"] exI [of _ k]) (auto simp: fl_def k_def ulp_def)
qed (auto intro!: exI [of _ 0])

lemma fl_idem [simp]: "fl (fl x) = fl x"
  using fl_grid [of x] fl_fixed by blast

lemma fl_of_int: "\<bar>n\<bar> \<le> 2 ^ 53 \<Longrightarrow> fl (of_int n) = of_int n"
  by (rule fl_fixed [of _ n 0]) auto

lemma fl_one [simp]: "fl 1 = 1"
  using fl_of_int [of 1] by simp


text \<open>
  Certificates for concrete values: to show what a positive number rounds to it is enough to give
  the mantissa and the exponent and to check the distance.
\<close>

lemma fl_eqI:
  assumes "- 1074 \<le> k" and "2 ^ 52 * 2 powi k \<le> x" and "x < 2 ^ 53 * 2 powi k"
    and "\<bar>x / 2 powi k - of_int m\<bar> < 1/2 \<or> \<bar>x / 2 powi k - of_int m\<bar> = 1/2 \<and> even m"
  shows "fl x = of_int m * 2 powi k"
proof -
  have x: "0 < x" using assms(2) powi2_pos [of k] by (auto intro: less_le_trans [rotated])
  have "ilog2 x = 52 + k"
    using assms(2,3) by (intro ilog2_unique) (simp_all add: power_int_add add.commute add.left_commute)
  then have u: "ulp x = 2 powi k" using x assms(1) by (simp add: ulp_def)
  have r: "rne y = m" if "\<bar>y - of_int m\<bar> < 1/2 \<or> \<bar>y - of_int m\<bar> = 1/2 \<and> even m" for y :: rat
  proof (cases "of_int m \<le> y")
    case True
    then have "\<lfloor>y\<rfloor> = m" using that by (intro floor_unique) auto
    then show ?thesis using that True by (auto simp: rne_def Let_def)
  next
    case False
    then have "\<lfloor>y\<rfloor> = m - 1" using that by (intro floor_unique) auto
    then show ?thesis using that False by (auto simp: rne_def Let_def)
  qed
  show ?thesis using x r [OF assms(4)] by (simp add: fl_def u)
qed

lemma fl_eq_frac:
  assumes "j \<le> 1074" and "2 ^ 52 \<le> x * 2 ^ j" and "x * 2 ^ j < 2 ^ 53"
    and "\<bar>x * 2 ^ j - of_int m\<bar> < 1/2 \<or> \<bar>x * 2 ^ j - of_int m\<bar> = 1/2 \<and> even m"
  shows "fl x = of_int m / 2 ^ j"
proof -
  have p: "(2::rat) powi (- int j) = 1 / 2 ^ j" by (simp add: power_int_minus_divide)
  show ?thesis
    using fl_eqI [of "- int j" x m] assms by (simp add: p field_simps)
qed

lemma fl_near_one: "1 \<le> y \<Longrightarrow> y \<le> 1 + 1 / 2 ^ 53 \<Longrightarrow> fl y = 1"
proof -
  assume y: "1 \<le> y" "y \<le> 1 + 1 / 2 ^ 53"
  have "fl y = of_int (2 ^ 52) / 2 ^ 52"
  proof (rule fl_eq_frac)
    show "\<bar>y * 2 ^ 52 - of_int (2 ^ 52)\<bar> < 1 / 2 \<or> \<bar>y * 2 ^ 52 - of_int (2 ^ 52)\<bar> = 1 / 2 \<and> even (2 ^ 52 :: int)"
      using y by (simp add: abs_if) linarith
  qed (use y in simp_all)
  then show ?thesis by simp
qed

lemma fl_double: "fl x = x \<Longrightarrow> fl (2 * x) = 2 * x"
proof -
  assume "fl x = x"
  with fl_grid [of x] obtain m k where "x = of_int m * 2 powi k" "\<bar>m\<bar> \<le> 2 ^ 53" "- 1074 \<le> k" by auto
  then show ?thesis
    by (intro fl_fixed [of _ m "k + 1"]) (simp_all add: power_int_add)
qed

text \<open>Rounding \<open>1 - r\<close> can exceed the exact difference by at most \<open>2 ^ -54\<close> when \<open>0 < r\<close>.\<close>

lemma fl_one_minus:
  assumes "0 \<le> r" "r \<le> 1"
  shows "fl (1 - r) + r \<le> 1 + 1 / 2 ^ 53"
proof (cases "r = 0 \<or> r = 1")
  case False
  with assms have r: "0 < 1 - r" "1 - r < 1" by auto
  have "(2::rat) powi (ilog2 (1 - r)) < 2 powi 0" using ilog2_spec(1) [OF r(1)] r(2) by simp
  then have "ilog2 (1 - r) \<le> - 1" unfolding powi2_less_iff by simp
  then have "ulp (1 - r) \<le> 2 powi (- 53)"
    using r unfolding ulp_def by (intro power_int_increasing) auto
  also have "(2::rat) powi (- 53) = 1 / 2 ^ 53" by (simp add: power_int_minus_divide)
  finally have "ulp (1 - r) \<le> 1 / 2 ^ 53" .
  moreover have "fl (1 - r) - (1 - r) \<le> ulp (1 - r) / 2"
    using fl_error [of "1 - r"] by linarith
  moreover have "(0::rat) \<le> 1 / 2 ^ 53" by simp
  ultimately show ?thesis by linarith
qed auto

section \<open>The interface of a rounding function\<close>

text \<open>
  The range arguments of the program need only that rounding is monotone and leaves the numbers
  of the target format alone, 0 and 1 among them.
\<close>

locale rounding =
  fixes rnd :: "rat \<Rightarrow> rat"
  assumes mono: "x \<le> y \<Longrightarrow> rnd x \<le> rnd y"
    and idem: "rnd (rnd x) = rnd x"
    and zero: "rnd 0 = 0"
    and one: "rnd 1 = 1"
begin

lemma le_fixed: "rnd b = b \<Longrightarrow> x \<le> b \<Longrightarrow> rnd x \<le> b"
  using mono [of x b] by simp

lemma ge_fixed: "rnd a = a \<Longrightarrow> a \<le> x \<Longrightarrow> a \<le> rnd x"
  using mono [of a x] by simp

lemma unit: "0 \<le> x \<Longrightarrow> x \<le> 1 \<Longrightarrow> 0 \<le> rnd x \<and> rnd x \<le> 1"
  using le_fixed [OF one] ge_fixed [OF zero] by simp

lemma between: "rnd a \<le> rnd x \<and> rnd x \<le> rnd b" if "a \<le> x" "x \<le> b"
  using that by (simp add: mono)

lemma prod_unit: "0 \<le> rnd (x * y) \<and> rnd (x * y) \<le> rnd y" if "0 \<le> x" "x \<le> 1" "0 \<le> y"
proof
  show "0 \<le> rnd (x * y)" using that by (intro ge_fixed zero) auto
  have "x * y \<le> 1 * y" using that by (intro mult_right_mono) auto
  then show "rnd (x * y) \<le> rnd y" by (intro mono) simp
qed

lemma fixed_max: "rnd a = a \<Longrightarrow> rnd b = b \<Longrightarrow> rnd (max a b) = max a b"
  by (simp add: max_def)

lemma fixed_min: "rnd a = a \<Longrightarrow> rnd b = b \<Longrightarrow> rnd (min a b) = min a b"
  by (simp add: min_def)

end

interpretation flr: rounding fl
  by unfold_locales (auto intro: fl_mono)

section \<open>Range facts\<close>

lemma is_float_fl [simp]: "is_float (fl x)"
  by (simp add: is_float_def)

lemma is_float_01 [simp]: "is_float 0" "is_float 1"
  by (simp_all add: is_float_def)

lemma is_float_ops [simp]:
  "is_float (fadd x y)" "is_float (fsub x y)" "is_float (fmul x y)" "is_float (fdiv x y)"
  "is_float (py_round n x)"
  by (simp_all add: fadd_def fsub_def fmul_def fdiv_def py_round_def)

lemma clamp01_range [simp]: "0 \<le> clamp01 x" "clamp01 x \<le> 1"
  by (simp_all add: clamp01_def)

lemma clamp01_id [simp]: "0 \<le> x \<Longrightarrow> x \<le> 1 \<Longrightarrow> clamp01 x = x"
  by (simp add: clamp01_def)

lemma clamp01_mono: "x \<le> y \<Longrightarrow> clamp01 x \<le> clamp01 y"
  by (auto simp: clamp01_def)

lemma is_float_clamp01 [simp]: "is_float x \<Longrightarrow> is_float (clamp01 x)"
  by (simp add: clamp01_def is_float_def flr.fixed_max flr.fixed_min)

lemma fadd_mono: "x \<le> x' \<Longrightarrow> y \<le> y' \<Longrightarrow> fadd x y \<le> fadd x' y'"
  unfolding fadd_def by (intro fl_mono add_mono)

lemma fsub_mono: "x \<le> x' \<Longrightarrow> y' \<le> y \<Longrightarrow> fsub x y \<le> fsub x' y'"
  unfolding fsub_def by (intro fl_mono diff_mono)

lemma fmul_mono: "0 \<le> x \<Longrightarrow> x \<le> x' \<Longrightarrow> 0 \<le> y \<Longrightarrow> y \<le> y' \<Longrightarrow> fmul x y \<le> fmul x' y'"
  unfolding fmul_def by (intro fl_mono mult_mono) auto

lemma fdiv_mono: "x \<le> x' \<Longrightarrow> 0 < y \<Longrightarrow> fdiv x y \<le> fdiv x' y"
  unfolding fdiv_def by (intro fl_mono divide_right_mono) auto

lemma fadd_nonneg [simp]: "0 \<le> x \<Longrightarrow> 0 \<le> y \<Longrightarrow> 0 \<le> fadd x y"
  unfolding fadd_def by (intro fl_nonneg) auto

lemma fmul_nonneg [simp]: "0 \<le> x \<Longrightarrow> 0 \<le> y \<Longrightarrow> 0 \<le> fmul x y"
  unfolding fmul_def by (intro fl_nonneg) auto

lemma fdiv_nonneg [simp]: "0 \<le> x \<Longrightarrow> 0 \<le> y \<Longrightarrow> 0 \<le> fdiv x y"
  unfolding fdiv_def by (intro fl_nonneg) auto

lemma fdiv_unit: "0 \<le> x \<Longrightarrow> x \<le> y \<Longrightarrow> 0 < y \<Longrightarrow> 0 \<le> fdiv x y \<and> fdiv x y \<le> 1"
  unfolding fdiv_def by (intro flr.unit) (auto simp: divide_le_eq)

lemma fmul_unit: "0 \<le> x \<Longrightarrow> x \<le> 1 \<Longrightarrow> 0 \<le> y \<Longrightarrow> y \<le> 1 \<Longrightarrow> 0 \<le> fmul x y \<and> fmul x y \<le> 1"
  unfolding fmul_def by (intro flr.unit) (auto intro: mult_le_one)

lemma py_round_mono: "x \<le> y \<Longrightarrow> py_round n x \<le> py_round n y"
  unfolding py_round_def
  by (intro fl_mono divide_right_mono) (auto intro!: rne_mono mult_right_mono)

lemma py_round_of_int: "\<bar>k\<bar> \<le> 2 ^ 53 \<Longrightarrow> py_round n (of_int k) = of_int k"
proof -
  have "(of_int k :: rat) * 10 ^ n = of_int (k * 10 ^ n)" by simp
  then show "\<bar>k\<bar> \<le> 2 ^ 53 \<Longrightarrow> ?thesis"
    unfolding py_round_def by (simp only: rne_of_int) (simp add: fl_of_int)
qed

lemma py_round_0 [simp]: "py_round n 0 = 0"
  using py_round_of_int [of 0 n] by simp

lemma py_round_1 [simp]: "py_round n 1 = 1"
  using py_round_of_int [of 1 n] by simp

lemma py_round_unit: "0 \<le> x \<Longrightarrow> x \<le> 1 \<Longrightarrow> 0 \<le> py_round n x \<and> py_round n x \<le> 1"
  using py_round_mono [of 0 x n] py_round_mono [of x 1 n] by simp

lemma py_int_mono: "x \<le> y \<Longrightarrow> py_int x \<le> py_int y"
proof -
  assume "x \<le> y"
  moreover have "\<lceil>x\<rceil> \<le> \<lfloor>y\<rfloor>" if "x < 0" "0 \<le> y"
  proof -
    have "\<lceil>x\<rceil> \<le> 0" "0 \<le> \<lfloor>y\<rfloor>" using that by (simp_all add: ceiling_le_iff)
    then show ?thesis by linarith
  qed
  ultimately show ?thesis by (auto simp: py_int_def floor_mono ceiling_mono)
qed

lemma py_int_of_int [simp]: "py_int (of_int n) = n"
  by (simp add: py_int_def)

lemma sum_plain_nonneg: "0 \<le> r \<Longrightarrow> \<forall>x \<in> set xs. 0 \<le> x \<Longrightarrow> 0 \<le> sum_plain r xs"
  by (induction r xs rule: sum_plain.induct) auto

lemmas float_ranges = fdiv_unit fmul_unit py_round_unit clamp01_range

declare float_ranges [bounds]

end
