(* ===== verification/Persona.thy ===== *)
theory Persona
  imports PyFloat
begin

text \<open>
  The data model of \<open>src/persola/models.py\<close> and the persona and agent rows of
  \<open>src/persola/db/models.py\<close>: the profile with its 23 knobs, its validating constructor, the knob
  groups and their recombination, the built-in presets, the knob catalogue, and the conversions
  between database rows and the API models.

  Pydantic's constructor is \<open>PersonaProfile_init\<close>: keyword arguments that are absent take the field's
  default, and a value outside the field's constraint raises \<open>ValidationError\<close>. Times are integers
  and the time-stamp based identifier is an argument.
\<close>

section \<open>Profiles\<close>

record PersonaProfile =
  p_id :: string
  p_name :: string
  p_description :: string
  p_created_at :: int
  p_updated_at :: int
  creativity :: float64
  humor :: float64
  formality :: float64
  verbosity :: float64
  empathy :: float64
  confidence :: float64
  openness :: float64
  conscientiousness :: float64
  extraversion :: float64
  agreeableness :: float64
  neuroticism :: float64
  reasoning_depth :: float64
  step_by_step :: float64
  creativity_in_reasoning :: float64
  synthetics :: float64
  abstraction :: float64
  patterns :: float64
  accuracy :: float64
  reliability :: float64
  caution :: float64
  consistency :: float64
  self_correction :: float64
  transparency :: float64
  p_system_prompt :: string
  p_model :: string
  p_temperature :: float64
  p_max_tokens :: int

text \<open>The 23 knob names, as \<open>PERSONA_KNOB_FIELDS\<close> of the database module lists them.\<close>

definition PERSONA_KNOB_FIELDS :: "string list" where
  "PERSONA_KNOB_FIELDS =
    [''creativity'', ''humor'', ''formality'', ''verbosity'', ''empathy'',
     ''confidence'', ''openness'', ''conscientiousness'', ''extraversion'', ''agreeableness'',
     ''neuroticism'', ''reasoning_depth'', ''step_by_step'', ''creativity_in_reasoning'', ''synthetics'',
     ''abstraction'', ''patterns'', ''accuracy'', ''reliability'', ''caution'',
     ''consistency'', ''self_correction'', ''transparency'']"

definition get_knobs :: "PersonaProfile \<Rightarrow> (string, float64) dict" where
  "get_knobs p =
    [(''creativity'', creativity p), (''humor'', humor p), (''formality'', formality p),
     (''verbosity'', verbosity p), (''empathy'', empathy p), (''confidence'', confidence p),
     (''openness'', openness p), (''conscientiousness'', conscientiousness p), (''extraversion'', extraversion p),
     (''agreeableness'', agreeableness p), (''neuroticism'', neuroticism p), (''reasoning_depth'', reasoning_depth p),
     (''step_by_step'', step_by_step p), (''creativity_in_reasoning'', creativity_in_reasoning p), (''synthetics'', synthetics p),
     (''abstraction'', abstraction p), (''patterns'', patterns p), (''accuracy'', accuracy p),
     (''reliability'', reliability p), (''caution'', caution p), (''consistency'', consistency p),
     (''self_correction'', self_correction p), (''transparency'', transparency p)]"

text \<open>The declared default of each knob field.\<close>

definition knob_field_default :: "string \<Rightarrow> float64" where
  "knob_field_default k =
     (if k \<in> {''accuracy'', ''reliability'', ''consistency''} then fl (8/10) else fl (1/2))"

record persona_kwargs =
  kw_name :: "string option"
  kw_description :: "string option"
  kw_knobs :: "(string, float64) dict"
  kw_system_prompt :: "string option"
  kw_model :: "string option"
  kw_temperature :: "float64 option"
  kw_max_tokens :: "int option"

definition or_default :: "'a option \<Rightarrow> 'a \<Rightarrow> 'a" where
  "or_default x d = (case x of None \<Rightarrow> d | Some v \<Rightarrow> v)"

definition knob_or_default :: "(string, float64) dict \<Rightarrow> string \<Rightarrow> float64" where
  "knob_or_default d k = dget_or d k (knob_field_default k)"

text \<open>The field constraints of the class.\<close>

definition valid_profile :: "PersonaProfile \<Rightarrow> bool" where
  "valid_profile p =
     (length (p_name p) \<le> 200 \<and> length (p_description p) \<le> 2000 \<and>
      (\<forall>kv \<in> set (get_knobs p). 0 \<le> snd kv \<and> snd kv \<le> 1) \<and>
      0 \<le> p_temperature p \<and> p_temperature p \<le> 2 \<and>
      1 \<le> p_max_tokens p \<and> p_max_tokens p \<le> 32000)"

definition raw_profile :: "int \<Rightarrow> string \<Rightarrow> persona_kwargs \<Rightarrow> PersonaProfile" where
  "raw_profile now pid kw = (let k = knob_or_default (kw_knobs kw) in
    \<lparr> p_id = pid,
      p_name = or_default (kw_name kw) ''Untitled Persona'',
      p_description = or_default (kw_description kw) [],
      p_created_at = now, p_updated_at = now,
      creativity = k ''creativity'',
      humor = k ''humor'',
      formality = k ''formality'',
      verbosity = k ''verbosity'',
      empathy = k ''empathy'',
      confidence = k ''confidence'',
      openness = k ''openness'',
      conscientiousness = k ''conscientiousness'',
      extraversion = k ''extraversion'',
      agreeableness = k ''agreeableness'',
      neuroticism = k ''neuroticism'',
      reasoning_depth = k ''reasoning_depth'',
      step_by_step = k ''step_by_step'',
      creativity_in_reasoning = k ''creativity_in_reasoning'',
      synthetics = k ''synthetics'',
      abstraction = k ''abstraction'',
      patterns = k ''patterns'',
      accuracy = k ''accuracy'',
      reliability = k ''reliability'',
      caution = k ''caution'',
      consistency = k ''consistency'',
      self_correction = k ''self_correction'',
      transparency = k ''transparency'',
      p_system_prompt = or_default (kw_system_prompt kw) [],
      p_model = or_default (kw_model kw) ''llama3:8b'',
      p_temperature = or_default (kw_temperature kw) (fl (7/10)),
      p_max_tokens = or_default (kw_max_tokens kw) 2000 \<rparr>)"

definition PersonaProfile_init :: "int \<Rightarrow> string \<Rightarrow> persona_kwargs \<Rightarrow> PersonaProfile res" where
  "PersonaProfile_init now pid kw =
     (let p = raw_profile now pid kw in if valid_profile p then Inr p else Inl ValidationError)"

section \<open>Knob groups and components\<close>

text \<open>
  The component models (\<open>CommunicationStyle\<close>, \<open>PersonalityTraits\<close>, \<open>CognitiveStyle\<close>,
  \<open>ReliabilityProfile\<close>) are the dictionaries their \<open>model_dump()\<close> gives.
\<close>

definition group_communication :: "string list" where
  "group_communication = [''creativity'', ''humor'', ''formality'', ''verbosity'', ''empathy'', ''confidence'']"

definition group_personality :: "string list" where
  "group_personality = [''openness'', ''conscientiousness'', ''extraversion'', ''agreeableness'', ''neuroticism'']"

definition group_cognitive :: "string list" where
  "group_cognitive = [''reasoning_depth'', ''step_by_step'', ''creativity_in_reasoning'', ''synthetics'',
     ''abstraction'', ''patterns'']"

definition group_reliability :: "string list" where
  "group_reliability = [''accuracy'', ''reliability'', ''caution'', ''consistency'', ''self_correction'',
     ''transparency'']"

definition PERSONA_KNOB_GROUPS :: "(string, string list) dict" where
  "PERSONA_KNOB_GROUPS =
    [(''communication'', group_communication), (''personality'', group_personality),
     (''cognitive'', group_cognitive), (''reliability'', group_reliability)]"

definition knob_value :: "PersonaProfile \<Rightarrow> string \<Rightarrow> float64" where
  "knob_value p k = dget_or (get_knobs p) k (fl (1/2))"

definition component_of :: "PersonaProfile \<Rightarrow> string list \<Rightarrow> (string, float64) dict" where
  "component_of p ks = map (\<lambda>k. (k, knob_value p k)) ks"

definition default_component :: "string list \<Rightarrow> (string, float64) dict" where
  "default_component ks = map (\<lambda>k. (k, knob_field_default k)) ks"

record ModelSettings =
  s_system_prompt :: string
  s_model :: string
  s_temperature :: float64
  s_max_tokens :: int

definition ModelSettings_default :: ModelSettings where
  "ModelSettings_default =
    \<lparr> s_system_prompt = [], s_model = ''llama3:8b'', s_temperature = fl (7/10), s_max_tokens = 2000 \<rparr>"

definition model_settings :: "PersonaProfile \<Rightarrow> ModelSettings" where
  "model_settings p =
    \<lparr> s_system_prompt = p_system_prompt p, s_model = p_model p,
      s_temperature = p_temperature p, s_max_tokens = p_max_tokens p \<rparr>"

definition from_components ::
  "int \<Rightarrow> string \<Rightarrow> string \<Rightarrow> string \<Rightarrow> (string, float64) dict option \<Rightarrow> (string, float64) dict option
   \<Rightarrow> (string, float64) dict option \<Rightarrow> (string, float64) dict option \<Rightarrow> ModelSettings option
   \<Rightarrow> PersonaProfile res" where
  "from_components now pid nm descr comm pers cogn reli setts =
    (let s = or_default setts ModelSettings_default in
     PersonaProfile_init now pid
      \<lparr> kw_name = Some nm, kw_description = Some descr,
        kw_knobs = or_default comm (default_component group_communication) @
                   or_default pers (default_component group_personality) @
                   or_default cogn (default_component group_cognitive) @
                   or_default reli (default_component group_reliability),
        kw_system_prompt = Some (s_system_prompt s), kw_model = Some (s_model s),
        kw_temperature = Some (s_temperature s), kw_max_tokens = Some (s_max_tokens s) \<rparr>)"

section \<open>The knob catalogue\<close>

record KnobDefinition =
  kd_key :: string
  kd_name :: string
  kd_description :: string
  kd_min_value :: float64
  kd_max_value :: float64
  kd_default :: float64
  kd_panel :: string
  kd_step :: float64

definition knob_def :: "string \<Rightarrow> string \<Rightarrow> string \<Rightarrow> string \<Rightarrow> rat \<Rightarrow> KnobDefinition" where
  "knob_def k nm descr panel d =
    \<lparr> kd_key = k, kd_name = nm, kd_description = descr, kd_min_value = 0, kd_max_value = 1,
      kd_default = fl d, kd_panel = panel, kd_step = fl (1/20) \<rparr>"

definition KNOB_DEFINITIONS :: "KnobDefinition list" where
  "KNOB_DEFINITIONS =
    [knob_def ''creativity'' ''Creativity'' ''How creative and imaginative the responses are'' ''Creativity'' (1/2),
     knob_def ''humor'' ''Humor'' ''Use of humor in responses'' ''Creativity'' (1/2),
     knob_def ''formality'' ''Formality'' ''Formality level of communication'' ''Creativity'' (1/2),
     knob_def ''verbosity'' ''Verbosity'' ''Length and detail of responses'' ''Creativity'' (1/2),
     knob_def ''empathy'' ''Empathy'' ''Emotional understanding and acknowledgment'' ''Creativity'' (1/2),
     knob_def ''confidence'' ''Confidence'' ''Certainty and assertiveness in responses'' ''Creativity'' (1/2),
     knob_def ''openness'' ''Openness'' ''Receptivity to new ideas and experiences'' ''Personality'' (1/2),
     knob_def ''conscientiousness'' ''Conscientiousness'' ''Organization and dependability'' ''Personality'' (1/2),
     knob_def ''extraversion'' ''Extraversion'' ''Sociability and energy in interactions'' ''Personality'' (1/2),
     knob_def ''agreeableness'' ''Agreeableness'' ''Cooperation and trustworthiness'' ''Personality'' (1/2),
     knob_def ''neuroticism'' ''Neuroticism'' ''Emotional stability vs reactivity'' ''Personality'' (1/2),
     knob_def ''reasoning_depth'' ''Reasoning Depth'' ''Depth of analytical thinking'' ''Thinking'' (1/2),
     knob_def ''step_by_step'' ''Step-by-Step'' ''Structured logical approach'' ''Thinking'' (1/2),
     knob_def ''creativity_in_reasoning'' ''Creative Reasoning'' ''Novel approaches to problem solving'' ''Thinking'' (1/2),
     knob_def ''synthetics'' ''Synthesis'' ''Combining ideas from multiple sources'' ''Thinking'' (1/2),
     knob_def ''abstraction'' ''Abstraction'' ''Working with abstract concepts'' ''Thinking'' (1/2),
     knob_def ''patterns'' ''Pattern Recognition'' ''Identifying patterns in information'' ''Thinking'' (1/2),
     knob_def ''accuracy'' ''Accuracy'' ''Factual correctness of responses'' ''Reliability'' (8/10),
     knob_def ''reliability'' ''Reliability'' ''Consistency of response quality'' ''Reliability'' (8/10),
     knob_def ''caution'' ''Caution'' ''Carefulness in uncertain situations'' ''Reliability'' (1/2),
     knob_def ''consistency'' ''Consistency'' ''Uniformity in behavior and responses'' ''Reliability'' (8/10),
     knob_def ''self_correction'' ''Self-Correction'' ''Ability to identify and fix errors'' ''Reliability'' (1/2),
     knob_def ''transparency'' ''Transparency'' ''Openness about limitations and uncertainty'' ''Reliability'' (1/2)]"

section \<open>Presets\<close>

datatype PresetName =
  PresetDefault | PresetCreative | PresetAnalytical | PresetFriendly | PresetProfessional
  | PresetCasual | PresetTechnical | PresetEducational

fun preset_value :: "PresetName \<Rightarrow> string" where
  "preset_value PresetDefault = ''default''"
| "preset_value PresetCreative = ''creative''"
| "preset_value PresetAnalytical = ''analytical''"
| "preset_value PresetFriendly = ''friendly''"
| "preset_value PresetProfessional = ''professional''"
| "preset_value PresetCasual = ''casual''"
| "preset_value PresetTechnical = ''technical''"
| "preset_value PresetEducational = ''educational''"

definition all_presets :: "PresetName list" where
  "all_presets = [PresetDefault, PresetCreative, PresetAnalytical, PresetFriendly,
     PresetProfessional, PresetCasual, PresetTechnical, PresetEducational]"

definition preset_args :: "string \<Rightarrow> string \<Rightarrow> (string, float64) dict \<Rightarrow> persona_kwargs" where
  "preset_args nm descr ks =
    \<lparr> kw_name = Some nm, kw_description = Some descr, kw_knobs = ks, kw_system_prompt = None,
      kw_model = None, kw_temperature = None, kw_max_tokens = None \<rparr>"

fun preset_kwargs :: "PresetName \<Rightarrow> persona_kwargs" where
  "preset_kwargs PresetDefault = preset_args ''Default Assistant'' ''Balanced and versatile''
     [(''creativity'', fl (1/2)), (''humor'', fl (1/2)), (''formality'', fl (1/2)), (''verbosity'', fl (1/2)),
      (''empathy'', fl (1/2)), (''confidence'', fl (1/2)), (''openness'', fl (1/2)), (''conscientiousness'', fl (1/2)),
      (''extraversion'', fl (1/2)), (''agreeableness'', fl (1/2)), (''neuroticism'', fl (1/2)), (''reasoning_depth'', fl (1/2)),
      (''step_by_step'', fl (1/2)), (''creativity_in_reasoning'', fl (1/2)), (''synthetics'', fl (1/2)), (''abstraction'', fl (1/2)),
      (''patterns'', fl (1/2)), (''accuracy'', fl (4/5)), (''reliability'', fl (4/5)), (''caution'', fl (1/2)),
      (''consistency'', fl (4/5)), (''self_correction'', fl (1/2)), (''transparency'', fl (1/2))]"
| "preset_kwargs PresetCreative = preset_args ''Creative Writer'' ''Imaginative and expressive''
     [(''creativity'', fl (9/10)), (''humor'', fl (7/10)), (''formality'', fl (3/10)), (''verbosity'', fl (7/10)),
      (''empathy'', fl (3/5)), (''confidence'', fl (3/5)), (''openness'', fl (9/10)), (''conscientiousness'', fl (2/5)),
      (''extraversion'', fl (3/5)), (''agreeableness'', fl (3/5)), (''neuroticism'', fl (2/5)), (''reasoning_depth'', fl (2/5)),
      (''step_by_step'', fl (3/10)), (''creativity_in_reasoning'', fl (9/10)), (''synthetics'', fl (7/10)), (''abstraction'', fl (4/5)),
      (''patterns'', fl (1/2)), (''accuracy'', fl (3/5)), (''reliability'', fl (3/5)), (''caution'', fl (3/10)),
      (''consistency'', fl (1/2)), (''self_correction'', fl (2/5)), (''transparency'', fl (2/5))]"
| "preset_kwargs PresetAnalytical = preset_args ''Analytical Expert'' ''Logical and thorough''
     [(''creativity'', fl (3/10)), (''humor'', fl (1/5)), (''formality'', fl (4/5)), (''verbosity'', fl (3/5)),
      (''empathy'', fl (2/5)), (''confidence'', fl (4/5)), (''openness'', fl (3/5)), (''conscientiousness'', fl (9/10)),
      (''extraversion'', fl (3/10)), (''agreeableness'', fl (1/2)), (''neuroticism'', fl (3/10)), (''reasoning_depth'', fl (9/10)),
      (''step_by_step'', fl (9/10)), (''creativity_in_reasoning'', fl (3/10)), (''synthetics'', fl (4/5)), (''abstraction'', fl (4/5)),
      (''patterns'', fl (9/10)), (''accuracy'', fl (19/20)), (''reliability'', fl (9/10)), (''caution'', fl (4/5)),
      (''consistency'', fl (9/10)), (''self_correction'', fl (4/5)), (''transparency'', fl (4/5))]"
| "preset_kwargs PresetFriendly = preset_args ''Friendly Companion'' ''Warm and approachable''
     [(''creativity'', fl (1/2)), (''humor'', fl (7/10)), (''formality'', fl (1/5)), (''verbosity'', fl (3/5)),
      (''empathy'', fl (9/10)), (''confidence'', fl (1/2)), (''openness'', fl (7/10)), (''conscientiousness'', fl (1/2)),
      (''extraversion'', fl (4/5)), (''agreeableness'', fl (9/10)), (''neuroticism'', fl (3/10)), (''reasoning_depth'', fl (2/5)),
      (''step_by_step'', fl (2/5)), (''creativity_in_reasoning'', fl (1/2)), (''synthetics'', fl (2/5)), (''abstraction'', fl (2/5)),
      (''patterns'', fl (1/2)), (''accuracy'', fl (7/10)), (''reliability'', fl (7/10)), (''caution'', fl (2/5)),
      (''consistency'', fl (7/10)), (''self_correction'', fl (1/2)), (''transparency'', fl (3/5))]"
| "preset_kwargs PresetProfessional = preset_args ''Professional Advisor'' ''Business-appropriate and reliable''
     [(''creativity'', fl (3/10)), (''humor'', fl (1/5)), (''formality'', fl (9/10)), (''verbosity'', fl (1/2)),
      (''empathy'', fl (1/2)), (''confidence'', fl (4/5)), (''openness'', fl (2/5)), (''conscientiousness'', fl (9/10)),
      (''extraversion'', fl (2/5)), (''agreeableness'', fl (3/5)), (''neuroticism'', fl (1/5)), (''reasoning_depth'', fl (4/5)),
      (''step_by_step'', fl (4/5)), (''creativity_in_reasoning'', fl (3/10)), (''synthetics'', fl (7/10)), (''abstraction'', fl (3/5)),
      (''patterns'', fl (7/10)), (''accuracy'', fl (9/10)), (''reliability'', fl (19/20)), (''caution'', fl (4/5)),
      (''consistency'', fl (19/20)), (''self_correction'', fl (7/10)), (''transparency'', fl (4/5))]"
| "preset_kwargs PresetCasual = preset_args ''Casual Chat'' ''Relaxed and informal''
     [(''creativity'', fl (3/5)), (''humor'', fl (4/5)), (''formality'', fl (1/10)), (''verbosity'', fl (7/10)),
      (''empathy'', fl (7/10)), (''confidence'', fl (1/2)), (''openness'', fl (7/10)), (''conscientiousness'', fl (3/10)),
      (''extraversion'', fl (4/5)), (''agreeableness'', fl (7/10)), (''neuroticism'', fl (2/5)), (''reasoning_depth'', fl (3/10)),
      (''step_by_step'', fl (3/10)), (''creativity_in_reasoning'', fl (3/5)), (''synthetics'', fl (3/10)), (''abstraction'', fl (3/10)),
      (''patterns'', fl (2/5)), (''accuracy'', fl (3/5)), (''reliability'', fl (3/5)), (''caution'', fl (1/5)),
      (''consistency'', fl (1/2)), (''self_correction'', fl (2/5)), (''transparency'', fl (1/2))]"
| "preset_kwargs PresetTechnical = preset_args ''Technical Expert'' ''Precise and technical''
     [(''creativity'', fl (2/5)), (''humor'', fl (1/5)), (''formality'', fl (4/5)), (''verbosity'', fl (3/5)),
      (''empathy'', fl (3/10)), (''confidence'', fl (9/10)), (''openness'', fl (7/10)), (''conscientiousness'', fl (9/10)),
      (''extraversion'', fl (3/10)), (''agreeableness'', fl (2/5)), (''neuroticism'', fl (1/5)), (''reasoning_depth'', fl (19/20)),
      (''step_by_step'', fl (19/20)), (''creativity_in_reasoning'', fl (2/5)), (''synthetics'', fl (9/10)), (''abstraction'', fl (9/10)),
      (''patterns'', fl (9/10)), (''accuracy'', fl (19/20)), (''reliability'', fl (19/20)), (''caution'', fl (9/10)),
      (''consistency'', fl (19/20)), (''self_correction'', fl (9/10)), (''transparency'', fl (9/10))]"
| "preset_kwargs PresetEducational = preset_args ''Tutor'' ''Patient and instructional''
     [(''creativity'', fl (1/2)), (''humor'', fl (2/5)), (''formality'', fl (1/2)), (''verbosity'', fl (7/10)),
      (''empathy'', fl (9/10)), (''confidence'', fl (3/5)), (''openness'', fl (7/10)), (''conscientiousness'', fl (4/5)),
      (''extraversion'', fl (3/5)), (''agreeableness'', fl (9/10)), (''neuroticism'', fl (1/5)), (''reasoning_depth'', fl (7/10)),
      (''step_by_step'', fl (9/10)), (''creativity_in_reasoning'', fl (1/2)), (''synthetics'', fl (3/5)), (''abstraction'', fl (3/5)),
      (''patterns'', fl (7/10)), (''accuracy'', fl (9/10)), (''reliability'', fl (9/10)), (''caution'', fl (3/5)),
      (''consistency'', fl (9/10)), (''self_correction'', fl (4/5)), (''transparency'', fl (9/10))]"

text \<open>The module builds all presets when it is imported; an invalid one would fail the import.\<close>

fun build_presets :: "int \<Rightarrow> (PresetName \<Rightarrow> string) \<Rightarrow> PresetName list \<Rightarrow> (PresetName, PersonaProfile) dict res" where
  "build_presets now ids [] = Inr []"
| "build_presets now ids (x # xs) =
     rbind (PersonaProfile_init now (ids x) (preset_kwargs x)) (\<lambda>p.
     rbind (build_presets now ids xs) (\<lambda>ps. Inr ((x, p) # ps)))"

definition DEFAULT_PRESETS :: "int \<Rightarrow> (PresetName \<Rightarrow> string) \<Rightarrow> (PresetName, PersonaProfile) dict res" where
  "DEFAULT_PRESETS now ids = build_presets now ids all_presets"

section \<open>Agents\<close>

record AgentConfig =
  ac_agent_id :: string
  ac_name :: string
  ac_role :: string
  ac_model :: string
  ac_temperature :: float64
  ac_max_tokens :: int
  ac_system_prompt :: string
  ac_persona_id :: "string option"
  ac_tools :: "string list"
  ac_memory_enabled :: bool
  ac_session_id :: "string option"

record AgentTool =
  at_name :: string
  at_enabled :: bool
  at_description :: string

definition tool_configs :: "AgentConfig \<Rightarrow> AgentTool list" where
  "tool_configs c = map (\<lambda>t. \<lparr> at_name = t, at_enabled = True, at_description = [] \<rparr>) (ac_tools c)"

record AgentMemoryPolicy =
  mp_enabled :: bool
  mp_session_scope :: string
  mp_history_window :: int

definition memory_policy :: "AgentConfig \<Rightarrow> AgentMemoryPolicy" where
  "memory_policy c =
    \<lparr> mp_enabled = ac_memory_enabled c, mp_session_scope = ''conversation'', mp_history_window = 50 \<rparr>"

section \<open>Database rows\<close>

record PersonaModel =
  pm_id :: string
  pm_name :: string
  pm_description :: "string option"
  pm_created_at :: int
  pm_updated_at :: int
  pm_knobs :: "(string, float64) dict"
  pm_model :: string
  pm_system_prompt :: "string option"
  pm_temperature :: float64
  pm_max_tokens :: int
  pm_is_preset :: bool

definition knob_values :: "PersonaModel \<Rightarrow> (string, float64) dict" where
  "knob_values m = map (\<lambda>f. (f, dget_or (pm_knobs m) f (knob_field_default f))) PERSONA_KNOB_FIELDS"

definition settings_values :: "PersonaModel \<Rightarrow> ModelSettings" where
  "settings_values m =
    \<lparr> s_system_prompt = or_default (pm_system_prompt m) [], s_model = pm_model m,
      s_temperature = pm_temperature m, s_max_tokens = pm_max_tokens m \<rparr>"

definition apply_profile :: "PersonaModel \<Rightarrow> PersonaProfile \<Rightarrow> PersonaModel" where
  "apply_profile m p = m
    \<lparr> pm_knobs := map (\<lambda>f. (f, knob_value p f)) PERSONA_KNOB_FIELDS,
      pm_name := p_name p, pm_description := Some (p_description p),
      pm_system_prompt := Some (p_system_prompt p), pm_model := p_model p,
      pm_temperature := p_temperature p, pm_max_tokens := p_max_tokens p \<rparr>"

definition to_profile :: "PersonaModel \<Rightarrow> PersonaProfile res" where
  "to_profile m =
    (case PersonaProfile_init (pm_created_at m) (pm_id m)
      \<lparr> kw_name = Some (pm_name m), kw_description = Some (or_default (pm_description m) []),
        kw_knobs = knob_values m, kw_system_prompt = Some (or_default (pm_system_prompt m) []),
        kw_model = Some (pm_model m), kw_temperature = Some (pm_temperature m),
        kw_max_tokens = Some (pm_max_tokens m) \<rparr> of
       Inl e \<Rightarrow> Inl e
     | Inr p \<Rightarrow> Inr (p\<lparr>p_updated_at := pm_updated_at m\<rparr>))"

definition from_profile :: "string \<Rightarrow> int \<Rightarrow> PersonaProfile \<Rightarrow> bool \<Rightarrow> PersonaModel" where
  "from_profile new_id now p is_preset = apply_profile
    \<lparr> pm_id = new_id, pm_name = [], pm_description = None, pm_created_at = now, pm_updated_at = now,
      pm_knobs = [], pm_model = ''llama3:8b'', pm_system_prompt = None, pm_temperature = fl (7/10),
      pm_max_tokens = 2000, pm_is_preset = is_preset \<rparr> p"

record AgentModel =
  am_id :: string
  am_name :: string
  am_role :: string
  am_model :: "string option"
  am_temperature :: "float64 option"
  am_max_tokens :: "int option"
  am_system_prompt :: "string option"
  am_persona_id :: "string option"
  am_tools :: "string list"
  am_memory_enabled :: bool
  am_is_active :: bool

text \<open>\<open>x or d\<close> takes the default for \<open>None\<close> and for every falsy value.\<close>

definition str_or :: "string option \<Rightarrow> string \<Rightarrow> string" where
  "str_or x d = (case x of None \<Rightarrow> d | Some v \<Rightarrow> if v = [] then d else v)"

definition num_or :: "('a :: zero) option \<Rightarrow> 'a \<Rightarrow> 'a" where
  "num_or x d = (case x of None \<Rightarrow> d | Some v \<Rightarrow> if v = 0 then d else v)"

definition nonempty :: "string option \<Rightarrow> string option" where
  "nonempty x = (case x of None \<Rightarrow> None | Some v \<Rightarrow> if v = [] then None else Some v)"

definition to_config :: "AgentModel \<Rightarrow> AgentConfig" where
  "to_config m =
    \<lparr> ac_agent_id = am_id m, ac_name = am_name m, ac_role = am_role m,
      ac_model = str_or (am_model m) ''llama3:8b'',
      ac_temperature = num_or (am_temperature m) (fl (7/10)),
      ac_max_tokens = num_or (am_max_tokens m) 2000,
      ac_system_prompt = str_or (am_system_prompt m) [],
      ac_persona_id = am_persona_id m,
      ac_tools = am_tools m, ac_memory_enabled = am_memory_enabled m, ac_session_id = None \<rparr>"

definition from_config :: "string \<Rightarrow> AgentConfig \<Rightarrow> AgentModel res" where
  "from_config new_id c =
    (case (case nonempty (ac_persona_id c) of None \<Rightarrow> Inr None
           | Some t \<Rightarrow> (case py_uuid t of None \<Rightarrow> Inl (ValueError ''badly formed hexadecimal UUID string'')
                        | Some u \<Rightarrow> Inr (Some u))) of
       Inl e \<Rightarrow> Inl e
     | Inr persona \<Rightarrow> Inr
    \<lparr> am_id = new_id, am_name = ac_name c, am_role = ac_role c, am_model = Some (ac_model c),
      am_temperature = Some (ac_temperature c), am_max_tokens = Some (ac_max_tokens c),
      am_system_prompt = Some (ac_system_prompt c),
      am_persona_id = persona,
      am_tools = ac_tools c, am_memory_enabled = ac_memory_enabled c, am_is_active = True \<rparr>)"

section \<open>Laws of the data model\<close>

lemma dkeys_get_knobs [simp]: "dkeys (get_knobs p) = PERSONA_KNOB_FIELDS"
  by (simp add: dkeys_def get_knobs_def PERSONA_KNOB_FIELDS_def)

lemma get_knobs_raw_profile:
  "get_knobs (raw_profile now pid kw) =
     map (\<lambda>k. (k, knob_or_default (kw_knobs kw) k)) PERSONA_KNOB_FIELDS"
  by (simp add: raw_profile_def get_knobs_def PERSONA_KNOB_FIELDS_def Let_def)

lemma knob_value_map: "map (\<lambda>k. (k, knob_value p k)) PERSONA_KNOB_FIELDS = get_knobs p"
  by (simp add: knob_value_def get_knobs_def PERSONA_KNOB_FIELDS_def dget_or_def dget_def)

lemma dict_ok_get_knobs [simp]: "dict_ok (get_knobs p)"
  by (simp add: dict_ok_def) (simp add: PERSONA_KNOB_FIELDS_def)

lemma knob_value_in: "(k, v) \<in> set (get_knobs p) \<Longrightarrow> knob_value p k = v"
  by (simp add: knob_value_def dget_or_def dget_in)

lemma get_knobs_value: "k \<in> set PERSONA_KNOB_FIELDS \<Longrightarrow> (k, knob_value p k) \<in> set (get_knobs p)"
  by (simp flip: knob_value_map)

lemma valid_knob:
  "valid_profile p \<Longrightarrow> k \<in> set PERSONA_KNOB_FIELDS \<Longrightarrow> 0 \<le> knob_value p k \<and> knob_value p k \<le> 1"
  using get_knobs_value [of k p] by (auto simp: valid_profile_def)

lemma fl_lit_bounds [simp]: "0 \<le> x \<Longrightarrow> 0 \<le> fl x" "x \<le> 1 \<Longrightarrow> fl x \<le> 1" "x \<le> 2 \<Longrightarrow> fl x \<le> 2"
  using flr.le_fixed [of 2 x] fl_of_int [of 2] by (auto intro: fl_nonneg flr.le_fixed [OF flr.one])

lemma PersonaProfile_init_Inr:
  "PersonaProfile_init now pid kw = Inr p \<longleftrightarrow> p = raw_profile now pid kw \<and> valid_profile p"
  by (auto simp: PersonaProfile_init_def Let_def)

lemma knob_field_default_unit: "0 \<le> knob_field_default k \<and> knob_field_default k \<le> 1"
  by (simp add: knob_field_default_def)

lemma valid_raw_profile:
  "valid_profile (raw_profile now pid kw) \<longleftrightarrow>
     length (or_default (kw_name kw) ''Untitled Persona'') \<le> 200 \<and>
     length (or_default (kw_description kw) []) \<le> 2000 \<and>
     (\<forall>k \<in> set PERSONA_KNOB_FIELDS. 0 \<le> knob_or_default (kw_knobs kw) k \<and> knob_or_default (kw_knobs kw) k \<le> 1) \<and>
     0 \<le> or_default (kw_temperature kw) (fl (7/10)) \<and> or_default (kw_temperature kw) (fl (7/10)) \<le> 2 \<and>
     1 \<le> or_default (kw_max_tokens kw) 2000 \<and> or_default (kw_max_tokens kw) 2000 \<le> 32000"
proof -
  have "p_name (raw_profile now pid kw) = or_default (kw_name kw) ''Untitled Persona''"
    "p_description (raw_profile now pid kw) = or_default (kw_description kw) []"
    "p_temperature (raw_profile now pid kw) = or_default (kw_temperature kw) (fl (7/10))"
    "p_max_tokens (raw_profile now pid kw) = or_default (kw_max_tokens kw) 2000"
    by (simp_all add: raw_profile_def Let_def)
  then show ?thesis by (simp add: valid_profile_def get_knobs_raw_profile)
qed

lemma knob_or_default_unit:
  "(\<And>v. (k, v) \<in> set d \<Longrightarrow> 0 \<le> v \<and> v \<le> 1) \<Longrightarrow> 0 \<le> knob_or_default d k \<and> knob_or_default d k \<le> 1"
  using knob_field_default_unit [of k]
  by (auto simp: knob_or_default_def dget_or_def dget_def dest: map_of_SomeD split: option.splits)

lemma knob_or_default_get_knobs:
  "k \<in> set PERSONA_KNOB_FIELDS \<Longrightarrow> knob_or_default (get_knobs p) k = knob_value p k"
  unfolding knob_or_default_def by (simp flip: knob_value_map)

lemma knob_value_simps [simp]:
  "knob_value p ''creativity'' = creativity p"
  "knob_value p ''humor'' = humor p"
  "knob_value p ''formality'' = formality p"
  "knob_value p ''verbosity'' = verbosity p"
  "knob_value p ''empathy'' = empathy p"
  "knob_value p ''confidence'' = confidence p"
  "knob_value p ''openness'' = openness p"
  "knob_value p ''conscientiousness'' = conscientiousness p"
  "knob_value p ''extraversion'' = extraversion p"
  "knob_value p ''agreeableness'' = agreeableness p"
  "knob_value p ''neuroticism'' = neuroticism p"
  "knob_value p ''reasoning_depth'' = reasoning_depth p"
  "knob_value p ''step_by_step'' = step_by_step p"
  "knob_value p ''creativity_in_reasoning'' = creativity_in_reasoning p"
  "knob_value p ''synthetics'' = synthetics p"
  "knob_value p ''abstraction'' = abstraction p"
  "knob_value p ''patterns'' = patterns p"
  "knob_value p ''accuracy'' = accuracy p"
  "knob_value p ''reliability'' = reliability p"
  "knob_value p ''caution'' = caution p"
  "knob_value p ''consistency'' = consistency p"
  "knob_value p ''self_correction'' = self_correction p"
  "knob_value p ''transparency'' = transparency p"
  by (simp_all add: knob_value_def get_knobs_def dget_or_def dget_def)

text \<open>A profile is what the constructor makes of its own knobs and settings.\<close>

lemma raw_profile_get_knobs:
  "raw_profile now pid
     \<lparr> kw_name = Some (p_name p), kw_description = Some (p_description p), kw_knobs = get_knobs p,
       kw_system_prompt = Some (p_system_prompt p), kw_model = Some (p_model p),
       kw_temperature = Some (p_temperature p), kw_max_tokens = Some (p_max_tokens p) \<rparr>
   = p\<lparr>p_id := pid, p_created_at := now, p_updated_at := now\<rparr>"
  by (simp add: raw_profile_def Let_def or_default_def knob_or_default_get_knobs PERSONA_KNOB_FIELDS_def)

section \<open>Properties\<close>


text \<open>
  The places that enumerate the knobs agree: the catalogue, the database columns, the four
  knob groups and the profile's own dictionary list the same 23 knobs in the same order, and the
  catalogue's default of a knob is the default of its field.
\<close>

theorem knob_catalogue_consistent:
  "map kd_key KNOB_DEFINITIONS = PERSONA_KNOB_FIELDS
   \<and> concat (dvalues PERSONA_KNOB_GROUPS) = PERSONA_KNOB_FIELDS
   \<and> dkeys (get_knobs p) = PERSONA_KNOB_FIELDS
   \<and> map kd_default KNOB_DEFINITIONS = map knob_field_default PERSONA_KNOB_FIELDS
   \<and> length KNOB_DEFINITIONS = 23 \<and> distinct PERSONA_KNOB_FIELDS"
  by (simp add: KNOB_DEFINITIONS_def knob_def_def PERSONA_KNOB_FIELDS_def PERSONA_KNOB_GROUPS_def dvalues_def
      group_communication_def group_personality_def group_cognitive_def group_reliability_def knob_field_default_def)

text \<open>
  All eight built-in presets are valid, so importing the module never fails, and the table has
  one entry per preset name carrying the declared knob values.
\<close>

theorem default_presets_valid:
  "\<exists>ps. DEFAULT_PRESETS now ids = Inr ps \<and> dkeys ps = all_presets
     \<and> list_all (\<lambda>(x, p). valid_profile p \<and> p_id p = ids x \<and> get_knobs p = kw_knobs (preset_kwargs x)) ps"
proof -
  have one: "PersonaProfile_init now (ids x) (preset_kwargs x) = Inr (raw_profile now (ids x) (preset_kwargs x))"
    and knobs: "get_knobs (raw_profile now (ids x) (preset_kwargs x)) = kw_knobs (preset_kwargs x)"
    and pid: "p_id (raw_profile now (ids x) (preset_kwargs x)) = ids x" for x
  proof -
    have v: "valid_profile (raw_profile now (ids x) (preset_kwargs x))"
      unfolding valid_raw_profile
      by (cases x) (auto simp: preset_args_def or_default_def intro!: knob_or_default_unit)
    then show "PersonaProfile_init now (ids x) (preset_kwargs x) = Inr (raw_profile now (ids x) (preset_kwargs x))"
      by (simp add: PersonaProfile_init_def Let_def)
    show "get_knobs (raw_profile now (ids x) (preset_kwargs x)) = kw_knobs (preset_kwargs x)"
      unfolding get_knobs_raw_profile
      by (cases x) (simp_all add: preset_args_def PERSONA_KNOB_FIELDS_def knob_or_default_def dget_or_def dget_def)
    show "p_id (raw_profile now (ids x) (preset_kwargs x)) = ids x"
      by (simp add: raw_profile_def Let_def)
  qed
  have "build_presets now ids xs = Inr (map (\<lambda>x. (x, raw_profile now (ids x) (preset_kwargs x))) xs)" for xs
    by (induction xs) (simp_all add: one)
  then show ?thesis
    using one knobs pid by (auto simp: DEFAULT_PRESETS_def dkeys_def comp_def list_all_iff PersonaProfile_init_Inr)
qed

text \<open>
  Taking a valid profile apart into its four knob groups and its model settings and putting
  the pieces back together gives the profile again (with the new identifier and time).
\<close>

theorem components_roundtrip:
  assumes "valid_profile p"
  shows "from_components now pid (p_name p) (p_description p)
      (Some (component_of p group_communication)) (Some (component_of p group_personality))
      (Some (component_of p group_cognitive)) (Some (component_of p group_reliability))
      (Some (model_settings p))
    = Inr (p\<lparr>p_id := pid, p_created_at := now, p_updated_at := now\<rparr>)"
proof -
  have "component_of p group_communication @ component_of p group_personality @
      component_of p group_cognitive @ component_of p group_reliability = get_knobs p"
    by (simp add: component_of_def group_communication_def group_personality_def group_cognitive_def
        group_reliability_def get_knobs_def)
  moreover have "valid_profile (p\<lparr>p_id := pid, p_created_at := now, p_updated_at := now\<rparr>)"
    using assms by (simp add: valid_profile_def get_knobs_def)
  ultimately show ?thesis
    by (simp add: from_components_def PersonaProfile_init_def model_settings_def raw_profile_get_knobs
        or_default_def [of "Some _"] Let_def)
qed

text \<open>
  Storing a valid profile as a database row and reading it back loses nothing but the
  identifier and the time stamps, which are the row's.
\<close>

theorem persona_row_roundtrip:
  assumes "valid_profile p"
  shows "to_profile (from_profile new_id now p preset) =
    Inr (p\<lparr>p_id := new_id, p_created_at := now, p_updated_at := now\<rparr>)"
proof -
  have "knob_values (from_profile new_id now p preset) = get_knobs p"
    by (simp add: knob_values_def from_profile_def apply_profile_def knob_value_map)
      (simp flip: knob_value_map)
  moreover have "valid_profile (p\<lparr>p_id := new_id, p_created_at := now, p_updated_at := now\<rparr>)"
    using assms by (simp add: valid_profile_def get_knobs_def)
  moreover have "pm_name (from_profile new_id now p preset) = p_name p"
    "pm_description (from_profile new_id now p preset) = Some (p_description p)"
    "pm_system_prompt (from_profile new_id now p preset) = Some (p_system_prompt p)"
    "pm_model (from_profile new_id now p preset) = p_model p"
    "pm_temperature (from_profile new_id now p preset) = p_temperature p"
    "pm_max_tokens (from_profile new_id now p preset) = p_max_tokens p"
    "pm_created_at (from_profile new_id now p preset) = now"
    "pm_updated_at (from_profile new_id now p preset) = now"
    "pm_id (from_profile new_id now p preset) = new_id"
    by (simp_all add: from_profile_def apply_profile_def)
  ultimately show ?thesis
    by (simp add: to_profile_def PersonaProfile_init_def raw_profile_get_knobs or_default_def [of "Some _"] Let_def)
qed

definition sample_profile :: PersonaProfile where
  "sample_profile = raw_profile 0 ''p'' (preset_kwargs PresetCreative)"

lemma sample_profile_valid: "valid_profile sample_profile"
  unfolding sample_profile_def valid_raw_profile
  by (auto simp: preset_args_def or_default_def intro!: knob_or_default_unit)

theorem components_roundtrip_witness:
  "valid_profile sample_profile \<and> from_components 7 ''q'' (p_name sample_profile) (p_description sample_profile)
      (Some (component_of sample_profile group_communication)) (Some (component_of sample_profile group_personality))
      (Some (component_of sample_profile group_cognitive)) (Some (component_of sample_profile group_reliability))
      (Some (model_settings sample_profile))
    = Inr (sample_profile\<lparr>p_id := ''q'', p_created_at := 7, p_updated_at := 7\<rparr>)"
  using components_roundtrip [OF sample_profile_valid, of 7 "''q''"] sample_profile_valid by simp

theorem persona_row_roundtrip_witness:
  "valid_profile sample_profile \<and> to_profile (from_profile ''q'' 7 sample_profile False) =
    Inr (sample_profile\<lparr>p_id := ''q'', p_created_at := 7, p_updated_at := 7\<rparr>)"
  using persona_row_roundtrip [OF sample_profile_valid, of "''q''" 7 False] sample_profile_valid by simp

lemma py_uuid_Nil: "py_uuid [] = None"
  by code_simp

text \<open>
  Storing an agent configuration and reading it back keeps every field except in two cases:
  an empty model name becomes the default model, and a temperature or a token limit of zero
  becomes the default 0.7 or 2000. A deterministic agent (temperature 0) therefore comes back
  with temperature 0.7.
\<close>

theorem agent_row_roundtrip:
  assumes "from_config new_id c = Inr m" and "\<And>t. ac_persona_id c = Some t \<Longrightarrow> py_uuid t = Some t"
  shows "to_config m = c\<lparr>ac_agent_id := new_id, ac_session_id := None,
      ac_model := (if ac_model c = [] then ''llama3:8b'' else ac_model c),
      ac_temperature := (if ac_temperature c = 0 then fl (7/10) else ac_temperature c),
      ac_max_tokens := (if ac_max_tokens c = 0 then 2000 else ac_max_tokens c)\<rparr>"
proof -
  have pid: "nonempty (ac_persona_id c) = ac_persona_id c"
    using assms(2) py_uuid_Nil by (cases "ac_persona_id c") (auto simp: nonempty_def)
  have m: "m = \<lparr> am_id = new_id, am_name = ac_name c, am_role = ac_role c, am_model = Some (ac_model c),
      am_temperature = Some (ac_temperature c), am_max_tokens = Some (ac_max_tokens c),
      am_system_prompt = Some (ac_system_prompt c), am_persona_id = ac_persona_id c,
      am_tools = ac_tools c, am_memory_enabled = ac_memory_enabled c, am_is_active = True \<rparr>"
    using assms(1) unfolding from_config_def pid
    by (cases "ac_persona_id c") (simp_all add: assms(2))
  show ?thesis unfolding m by (simp add: to_config_def str_or_def num_or_def)
qed

definition sample_agent :: AgentConfig where
  "sample_agent =
    \<lparr> ac_agent_id = ''agent_1'', ac_name = ''Ada'', ac_role = ''assistant'', ac_model = ''gpt-4o'',
      ac_temperature = 0, ac_max_tokens = 500, ac_system_prompt = ''Be brief.'',
      ac_persona_id = Some ''123e4567-e89b-12d3-a456-426614174000'', ac_tools = [''memory_store''],
      ac_memory_enabled = True, ac_session_id = None \<rparr>"

lemma sample_uuid:
  "py_uuid ''123e4567-e89b-12d3-a456-426614174000'' = Some ''123e4567-e89b-12d3-a456-426614174000''"
  by code_simp

theorem agent_row_roundtrip_witness:
  "\<exists>m. from_config ''a1'' sample_agent = Inr m \<and> ac_temperature sample_agent = 0
     \<and> ac_temperature (to_config m) = fl (7/10)"
proof -
  obtain m where m: "from_config ''a1'' sample_agent = Inr m"
    by (simp add: from_config_def sample_agent_def nonempty_def sample_uuid)
  then have "ac_temperature (to_config m) = fl (7/10)"
    using agent_row_roundtrip [OF m] by (simp add: sample_agent_def sample_uuid)
  with m show ?thesis by (auto simp: sample_agent_def)
qed

end
