(* ===== verification/Engine.thy ===== *)
theory Engine
  imports Persona
begin

text \<open>
  \<open>PersonaEngine\<close> and \<open>SamplingCompiler\<close> of \<open>src/persola/engine.py\<close>: the system prompt built from the
  knobs, the sampling parameters, blending of two and of many personas, presets and knob
  validation. All arithmetic is binary64 (theory \<open>PyFloat\<close>), so the range theorems below hold of
  the numbers the program computes, rounding included.
\<close>

section \<open>The system prompt\<close>

definition NL :: string where
  "NL = [CHR 0x0A]"

definition bullet_section :: "string \<Rightarrow> string list \<Rightarrow> string" where
  "bullet_section title parts = title @ NL @ py_join NL (map (\<lambda>p. ''- '' @ p) parts)"

definition build_creativity_section :: "(string, float64) dict \<Rightarrow> string" where
  "build_creativity_section knobs = bullet_section ''## Creativity & Communication''
    [(let v = dget_or knobs ''creativity'' (fl (1/2)) in
       (if fl (7/10) < v then ''Be highly creative and imaginative in your responses.''
        else if fl (1/2) < v then ''Be moderately creative in your responses.''
        else if fl (3/10) < v then ''Be somewhat straightforward in your responses.''
        else ''Be practical and conventional in your responses.'')),
     (let v = dget_or knobs ''humor'' (fl (1/2)) in
       (if fl (7/10) < v then ''Use humor frequently in your responses.''
        else if fl (2/5) < v then ''Use occasional humor when appropriate.''
        else ''Keep a serious tone.'')),
     (let v = dget_or knobs ''formality'' (fl (1/2)) in
       (if fl (7/10) < v then ''Use formal language and professional tone.''
        else if fl (2/5) < v then ''Use semi-formal language.''
        else ''Use casual, informal language.'')),
     (let v = dget_or knobs ''verbosity'' (fl (1/2)) in
       (if fl (7/10) < v then ''Provide detailed, comprehensive responses.''
        else if fl (2/5) < v then ''Provide moderate-length responses.''
        else ''Keep responses concise and to the point.'')),
     (let v = dget_or knobs ''empathy'' (fl (1/2)) in
       (if fl (7/10) < v then ''Show high empathy and emotional understanding.''
        else if fl (2/5) < v then ''Show moderate empathy and consideration.''
        else ''Focus primarily on factual responses.'')),
     (let v = dget_or knobs ''confidence'' (fl (1/2)) in
       (if fl (7/10) < v then ''Be confident and assertive in your responses.''
        else if fl (2/5) < v then ''Be reasonably confident in your responses.''
        else ''Be humble about your limitations.''))]"

definition build_personality_section :: "(string, float64) dict \<Rightarrow> string" where
  "build_personality_section knobs = bullet_section ''## Personality Traits''
    [(let v = dget_or knobs ''openness'' (fl (1/2)) in
       (if fl (7/10) < v then ''Be very open to new ideas and unconventional perspectives.''
        else if fl (2/5) < v then ''Be open to considering new ideas.''
        else ''Prefer established approaches and conventional wisdom.'')),
     (let v = dget_or knobs ''conscientiousness'' (fl (1/2)) in
       (if fl (7/10) < v then ''Be highly organized and thorough.''
        else if fl (2/5) < v then ''Be reasonably organized and detail-oriented.''
        else ''Be flexible and adaptable.'')),
     (let v = dget_or knobs ''extraversion'' (fl (1/2)) in
       (if fl (7/10) < v then ''Be enthusiastic and engaged in conversation.''
        else if fl (2/5) < v then ''Be friendly and personable.''
        else ''Be more reserved and measured in communication.'')),
     (let v = dget_or knobs ''agreeableness'' (fl (1/2)) in
       (if fl (7/10) < v then ''Be very cooperative and accommodating.''
        else if fl (2/5) < v then ''Be generally agreeable and understanding.''
        else ''Be direct and straightforward, even when challenging.'')),
     (let v = dget_or knobs ''neuroticism'' (fl (1/2)) in
       (if fl (7/10) < v then ''Be expressive about uncertainty and concerns.''
        else if fl (2/5) < v then ''Balance confidence with appropriate caution.''
        else ''Remain calm and even-tempered.''))]"

definition build_thinking_section :: "(string, float64) dict \<Rightarrow> string" where
  "build_thinking_section knobs = bullet_section ''## Thinking Style''
    [(let v = dget_or knobs ''reasoning_depth'' (fl (1/2)) in
       (if fl (7/10) < v then ''Provide deep, thorough analytical reasoning.''
        else if fl (2/5) < v then ''Provide moderate depth in analysis.''
        else ''Keep reasoning concise and practical.'')),
     (let v = dget_or knobs ''step_by_step'' (fl (1/2)) in
       (if fl (7/10) < v then ''Always use step-by-step logical reasoning.''
        else if fl (2/5) < v then ''Use structured reasoning when helpful.''
        else ''Present conclusions directly when appropriate.'')),
     (let v = dget_or knobs ''creativity_in_reasoning'' (fl (1/2)) in
       (if fl (7/10) < v then ''Explore novel and unconventional solutions.''
        else if fl (2/5) < v then ''Consider both standard and alternative approaches.''
        else ''Focus on proven, standard methodologies.'')),
     (let v = dget_or knobs ''synthetics'' (fl (1/2)) in
       (if fl (7/10) < v then ''Actively synthesize ideas from multiple sources.''
        else if fl (2/5) < v then ''Draw connections between ideas when relevant.''
        else ''Address ideas more individually.'')),
     (let v = dget_or knobs ''abstraction'' (fl (1/2)) in
       (if fl (7/10) < v then ''Think and communicate at a high level of abstraction.''
        else if fl (2/5) < v then ''Balance abstract concepts with concrete examples.''
        else ''Focus on concrete, specific details.'')),
     (let v = dget_or knobs ''patterns'' (fl (1/2)) in
       (if fl (7/10) < v then ''Actively identify and highlight patterns.''
        else if fl (2/5) < v then ''Point out patterns when significant.''
        else ''Focus on individual data points.''))]"

definition build_reliability_section :: "(string, float64) dict \<Rightarrow> string" where
  "build_reliability_section knobs = bullet_section ''## Reliability & Accuracy''
    [(let v = dget_or knobs ''accuracy'' (fl (4/5)) in
       (if fl (4/5) < v then ''Prioritize absolute factual accuracy above all.''
        else if fl (3/5) < v then ''Strive for high accuracy in responses.''
        else ''Provide useful responses, prioritizing helpfulness.'')),
     (let v = dget_or knobs ''reliability'' (fl (4/5)) in
       (if fl (4/5) < v then ''Be highly reliable and consistent.''
        else if fl (3/5) < v then ''Be generally reliable in responses.''
        else ''Be flexible based on context.'')),
     (let v = dget_or knobs ''caution'' (fl (1/2)) in
       (if fl (7/10) < v then ''Exercise great caution with uncertainty.''
        else if fl (2/5) < v then ''Express appropriate caution when uncertain.''
        else ''Be confident even with some uncertainty.'')),
     (let v = dget_or knobs ''consistency'' (fl (4/5)) in
       (if fl (4/5) < v then ''Maintain high consistency in responses.''
        else if fl (3/5) < v then ''Be generally consistent.''
        else ''Adapt style to context as needed.'')),
     (let v = dget_or knobs ''self_correction'' (fl (1/2)) in
       (if fl (7/10) < v then ''Actively identify and correct own errors.''
        else if fl (2/5) < v then ''Correct errors when identified.''
        else ''Focus on moving forward constructively.'')),
     (let v = dget_or knobs ''transparency'' (fl (1/2)) in
       (if fl (7/10) < v then ''Be very transparent about limitations.''
        else if fl (2/5) < v then ''Acknowledge limitations when significant.''
        else ''Focus on positive capabilities.''))]"

definition build_system_prompt :: "PersonaProfile \<Rightarrow> string" where
  "build_system_prompt p = (let knobs = get_knobs p in
     ''You are '' @ p_name p @ ''.'' @ NL @ p_description p @ NL @ NL @
     build_creativity_section knobs @ NL @ NL @
     build_personality_section knobs @ NL @ NL @
     build_thinking_section knobs @ NL @ NL @
     build_reliability_section knobs @ NL @ NL @
     ''Always respond according to these parameters while being helpful and accurate.'')"

section \<open>Sampling parameters\<close>

record SamplingParams =
  sp_temperature :: float64
  sp_top_p :: float64
  sp_top_k :: int
  sp_repeat_penalty :: float64
  sp_num_predict :: int

definition get_sampling_params :: "PersonaProfile \<Rightarrow> SamplingParams" where
  "get_sampling_params p =
    (let knobs = get_knobs p;
         creativity_v = dget_or knobs ''creativity'' (fl (1/2));
         temperature = fadd (fl (3/10)) (fmul creativity_v (fl (14/10)));
         reliability_v = dget_or knobs ''reliability'' (fl (8/10));
         top_p = fadd (fl (7/10)) (fmul reliability_v (fl (1/4)));
         caution_v = dget_or knobs ''caution'' (fl (1/2));
         top_k = py_int (fadd 20 (fmul (fsub 1 caution_v) 100));
         repeat_penalty = fadd 1 (fmul (dget_or knobs ''consistency'' (fl (8/10))) (fl (2/10)))
     in \<lparr> sp_temperature = py_round 2 temperature, sp_top_p = py_round 2 top_p, sp_top_k = top_k,
          sp_repeat_penalty = py_round 2 repeat_penalty, sp_num_predict = p_max_tokens p \<rparr>)"

definition SamplingCompiler_compile :: "PersonaProfile \<Rightarrow> SamplingParams" where
  "SamplingCompiler_compile p = get_sampling_params p"

section \<open>Blending\<close>

text \<open>\<open>f"{x:.0f}"\<close>.\<close>

definition fmt0 :: "float64 \<Rightarrow> string" where
  "fmt0 x = (if x < 0 \<and> rne x = 0 then ''-0'' else py_str_int (rne x))"

definition blend_knobs :: "(string, float64) dict \<Rightarrow> (string, float64) dict \<Rightarrow> float64 \<Rightarrow> (string, float64) dict" where
  "blend_knobs knobs1 knobs2 ratio =
     map (\<lambda>(key, v). (key, fadd (fmul v (fsub 1 ratio)) (fmul (dget_or knobs2 key 0) ratio))) knobs1"

definition blend_personas ::
  "int \<Rightarrow> string \<Rightarrow> PersonaProfile \<Rightarrow> PersonaProfile \<Rightarrow> float64 \<Rightarrow> PersonaProfile res" where
  "blend_personas now pid profile1 profile2 ratio =
     PersonaProfile_init now pid
      \<lparr> kw_name = Some (''Blended: '' @ p_name profile1 @ '' + '' @ p_name profile2),
        kw_description = Some (''Blend of '' @ p_name profile1 @ '' ('' @ fmt0 (fmul ratio 100) @ ''%) and '' @
           p_name profile2 @ '' ('' @ fmt0 (fmul (fsub 1 ratio) 100) @ ''%)''),
        kw_knobs = blend_knobs (get_knobs profile1) (get_knobs profile2) ratio,
        kw_system_prompt = None, kw_model = Some (p_model profile1),
        kw_temperature = Some (p_temperature profile1), kw_max_tokens = None \<rparr>"

definition weighted_knobs ::
  "summation \<Rightarrow> PersonaProfile list \<Rightarrow> float64 list \<Rightarrow> string list \<Rightarrow> (string, float64) dict" where
  "weighted_knobs sm profiles ws keys =
     map (\<lambda>key. (key, py_sum sm (map (\<lambda>(p, w). fmul (dget_or (get_knobs p) key 0) w) (zip profiles ws)))) keys"

definition blend_multiple ::
  "summation \<Rightarrow> int \<Rightarrow> string \<Rightarrow> PersonaProfile list \<Rightarrow> float64 list \<Rightarrow> PersonaProfile res" where
  "blend_multiple sm now pid profiles weights =
    (if length profiles \<noteq> length weights then Inl (ValueError ''Number of profiles must equal number of weights'')
     else if length profiles < 2 then Inl (ValueError ''At least 2 personas required for blending'')
     else if \<exists>w \<in> set weights. w \<le> 0 then Inl (ValueError ''All weights must be positive'')
     else let total_weight = py_sum sm weights;
              normalized_weights = map (\<lambda>w. fdiv w total_weight) weights;
              blended_knobs = weighted_knobs sm profiles normalized_weights (dkeys (get_knobs (hd profiles)));
              composition_parts = map (\<lambda>(p, w). p_name p @ '' ('' @ fmt0 (fmul w 100) @ ''%)'')
                (zip profiles normalized_weights)
          in PersonaProfile_init now pid
              \<lparr> kw_name = Some (''Blended: '' @ py_join '', '' (map p_name profiles)),
                kw_description = Some (''Blend of '' @ py_join '', '' composition_parts),
                kw_knobs = blended_knobs, kw_system_prompt = None,
                kw_model = Some (p_model (hd profiles)), kw_temperature = Some (p_temperature (hd profiles)),
                kw_max_tokens = Some (p_max_tokens (hd profiles)) \<rparr>)"

section \<open>Presets and validation\<close>

definition apply_preset :: "(PresetName, PersonaProfile) dict \<Rightarrow> PresetName \<Rightarrow> PersonaProfile res" where
  "apply_preset presets x =
     (case dget presets x of None \<Rightarrow> Inl (KeyError (preset_value x)) | Some p \<Rightarrow> Inr p)"

definition get_preset_list :: "(PresetName, PersonaProfile) dict \<Rightarrow> (string, string) dict" where
  "get_preset_list presets = map (\<lambda>(k, v). (preset_value k, p_name v)) presets"

text \<open>An error of \<open>validate_knobs\<close> carries the key and the bounds its message prints.\<close>

definition knob_errors :: "KnobDefinition list \<Rightarrow> (string, float64) dict \<Rightarrow> (string \<times> float64 \<times> float64) list" where
  "knob_errors defs knobs = concat (map (\<lambda>d.
     (case dget knobs (kd_key d) of
        None \<Rightarrow> []
      | Some v \<Rightarrow> if kd_min_value d \<le> v \<and> v \<le> kd_max_value d then []
                  else [(kd_key d, kd_min_value d, kd_max_value d)])) defs)"

definition validate_knobs :: "(string, float64) dict \<Rightarrow> bool \<times> (string \<times> float64 \<times> float64) list" where
  "validate_knobs knobs = (let errors = knob_errors KNOB_DEFINITIONS knobs in (errors = [], errors))"

section \<open>Laws of the engine\<close>

lemma knob_get_simps [simp]:
  "dget_or (get_knobs p) ''creativity'' d = creativity p"
  "dget_or (get_knobs p) ''humor'' d = humor p"
  "dget_or (get_knobs p) ''formality'' d = formality p"
  "dget_or (get_knobs p) ''verbosity'' d = verbosity p"
  "dget_or (get_knobs p) ''empathy'' d = empathy p"
  "dget_or (get_knobs p) ''confidence'' d = confidence p"
  "dget_or (get_knobs p) ''openness'' d = openness p"
  "dget_or (get_knobs p) ''conscientiousness'' d = conscientiousness p"
  "dget_or (get_knobs p) ''extraversion'' d = extraversion p"
  "dget_or (get_knobs p) ''agreeableness'' d = agreeableness p"
  "dget_or (get_knobs p) ''neuroticism'' d = neuroticism p"
  "dget_or (get_knobs p) ''reasoning_depth'' d = reasoning_depth p"
  "dget_or (get_knobs p) ''step_by_step'' d = step_by_step p"
  "dget_or (get_knobs p) ''creativity_in_reasoning'' d = creativity_in_reasoning p"
  "dget_or (get_knobs p) ''synthetics'' d = synthetics p"
  "dget_or (get_knobs p) ''abstraction'' d = abstraction p"
  "dget_or (get_knobs p) ''patterns'' d = patterns p"
  "dget_or (get_knobs p) ''accuracy'' d = accuracy p"
  "dget_or (get_knobs p) ''reliability'' d = reliability p"
  "dget_or (get_knobs p) ''caution'' d = caution p"
  "dget_or (get_knobs p) ''consistency'' d = consistency p"
  "dget_or (get_knobs p) ''self_correction'' d = self_correction p"
  "dget_or (get_knobs p) ''transparency'' d = transparency p"
  by (simp_all add: get_knobs_def dget_or_def dget_def)

lemma valid_knobs_unit:
  assumes "valid_profile p"
  shows "0 \<le> creativity p \<and> creativity p \<le> 1" "0 \<le> reliability p \<and> reliability p \<le> 1"
    "0 \<le> caution p \<and> caution p \<le> 1" "0 \<le> consistency p \<and> consistency p \<le> 1"
  using assms by (auto simp: valid_profile_def get_knobs_def)

lemma sampling_endpoints:
  "py_round 2 (fadd (fl (3/10)) (fmul 0 (fl (14/10)))) = fl (3/10)"
  "py_round 2 (fadd (fl (3/10)) (fmul 1 (fl (14/10)))) = fl (17/10)"
  "py_round 2 (fadd (fl (7/10)) (fmul 0 (fl (1/4)))) = fl (7/10)"
  "py_round 2 (fadd (fl (7/10)) (fmul 1 (fl (1/4)))) = fl (95/100)"
  "py_round 2 (fadd 1 (fmul 0 (fl (2/10)))) = 1"
  "py_round 2 (fadd 1 (fmul 1 (fl (2/10)))) = fl (12/10)"
  "py_int (fadd 20 (fmul (fsub 1 1) 100)) = 20"
  "py_int (fadd 20 (fmul (fsub 1 0) 100)) = 120"
  by code_simp+

lemma affine_mono: "0 \<le> x \<Longrightarrow> x \<le> y \<Longrightarrow> 0 \<le> b \<Longrightarrow> py_round n (fadd a (fmul x b)) \<le> py_round n (fadd a (fmul y b))"
  by (intro py_round_mono fadd_mono fmul_mono) auto

lemma top_k_mono:
  assumes "0 \<le> x" "x \<le> y" "y \<le> 1"
  shows "py_int (fadd 20 (fmul (fsub 1 y) 100)) \<le> py_int (fadd 20 (fmul (fsub 1 x) 100))"
  using assms by (intro py_int_mono fadd_mono fmul_mono fsub_mono) (auto simp: fsub_def)

text \<open>
  C37. For every valid profile the sampling parameters lie in the documented windows, in binary64:
  temperature in [0.3, 1.7], top-p in [0.7, 0.95], top-k in 20 to 120, repeat penalty in [1.0, 1.2],
  and the prediction length is the profile's token limit.
\<close>

theorem sampling_params_bounded:
  assumes "valid_profile p"
  shows "fl (3/10) \<le> sp_temperature (get_sampling_params p) \<and> sp_temperature (get_sampling_params p) \<le> fl (17/10)
    \<and> fl (7/10) \<le> sp_top_p (get_sampling_params p) \<and> sp_top_p (get_sampling_params p) \<le> fl (95/100)
    \<and> 20 \<le> sp_top_k (get_sampling_params p) \<and> sp_top_k (get_sampling_params p) \<le> 120
    \<and> 1 \<le> sp_repeat_penalty (get_sampling_params p) \<and> sp_repeat_penalty (get_sampling_params p) \<le> fl (12/10)
    \<and> sp_num_predict (get_sampling_params p) = p_max_tokens p"
proof -
  note u = valid_knobs_unit [OF assms]
  have "fl (3/10) \<le> py_round 2 (fadd (fl (3/10)) (fmul (creativity p) (fl (14/10))))"
    "py_round 2 (fadd (fl (3/10)) (fmul (creativity p) (fl (14/10)))) \<le> fl (17/10)"
    "fl (7/10) \<le> py_round 2 (fadd (fl (7/10)) (fmul (reliability p) (fl (1/4))))"
    "py_round 2 (fadd (fl (7/10)) (fmul (reliability p) (fl (1/4)))) \<le> fl (95/100)"
    "1 \<le> py_round 2 (fadd 1 (fmul (consistency p) (fl (2/10))))"
    "py_round 2 (fadd 1 (fmul (consistency p) (fl (2/10)))) \<le> fl (12/10)"
    using u affine_mono [of 0 "creativity p" "fl (14/10)" 2 "fl (3/10)"]
      affine_mono [of "creativity p" 1 "fl (14/10)" 2 "fl (3/10)"]
      affine_mono [of 0 "reliability p" "fl (1/4)" 2 "fl (7/10)"]
      affine_mono [of "reliability p" 1 "fl (1/4)" 2 "fl (7/10)"]
      affine_mono [of 0 "consistency p" "fl (2/10)" 2 1]
      affine_mono [of "consistency p" 1 "fl (2/10)" 2 1]
    unfolding sampling_endpoints by simp_all
  moreover have "20 \<le> py_int (fadd 20 (fmul (fsub 1 (caution p)) 100))"
    "py_int (fadd 20 (fmul (fsub 1 (caution p)) 100)) \<le> 120"
    using u top_k_mono [of 0 "caution p"] top_k_mono [of "caution p" 1]
    unfolding sampling_endpoints by simp_all
  ultimately show ?thesis by (simp add: get_sampling_params_def Let_def)
qed

theorem sampling_params_bounded_witness:
  "valid_profile sample_profile \<and> sp_top_k (get_sampling_params sample_profile) \<le> 120
    \<and> sp_temperature (get_sampling_params sample_profile) \<le> fl (17/10)"
  using sampling_params_bounded [OF sample_profile_valid] sample_profile_valid by simp

text \<open>
  Turning a knob moves its sampling parameter in the intended direction and never the other
  way, in binary64: more creativity never lowers the temperature, more reliability never lowers
  top-p, more consistency never lowers the repeat penalty, and more caution never raises top-k.
\<close>

theorem sampling_params_monotone:
  assumes "valid_profile p" "valid_profile q"
  shows "(creativity p \<le> creativity q \<longrightarrow> sp_temperature (get_sampling_params p) \<le> sp_temperature (get_sampling_params q))
    \<and> (reliability p \<le> reliability q \<longrightarrow> sp_top_p (get_sampling_params p) \<le> sp_top_p (get_sampling_params q))
    \<and> (consistency p \<le> consistency q \<longrightarrow> sp_repeat_penalty (get_sampling_params p) \<le> sp_repeat_penalty (get_sampling_params q))
    \<and> (caution p \<le> caution q \<longrightarrow> sp_top_k (get_sampling_params q) \<le> sp_top_k (get_sampling_params p))"
  using valid_knobs_unit [OF assms(1)] valid_knobs_unit [OF assms(2)]
  by (auto simp: get_sampling_params_def Let_def intro!: affine_mono top_k_mono)

theorem sampling_params_monotone_witness:
  "valid_profile sample_profile \<and>
   (\<exists>q. valid_profile q \<and> creativity sample_profile \<le> creativity q \<and>
      sp_temperature (get_sampling_params sample_profile) \<le> sp_temperature (get_sampling_params q))"
  using sampling_params_monotone [OF sample_profile_valid sample_profile_valid] sample_profile_valid by auto

section \<open>Blending two personas\<close>

lemma blend_value_unit:
  assumes "0 \<le> a" "a \<le> 1" "0 \<le> b" "b \<le> 1" "is_float r" "0 \<le> r" "r \<le> 1"
  shows "0 \<le> fadd (fmul a (fsub 1 r)) (fmul b r) \<and> fadd (fmul a (fsub 1 r)) (fmul b r) \<le> 1"
proof
  have s: "0 \<le> fsub 1 r" unfolding fsub_def using assms by (intro fl_nonneg) simp
  then show "0 \<le> fadd (fmul a (fsub 1 r)) (fmul b r)" using assms by simp
  have "fmul a (fsub 1 r) \<le> fsub 1 r" "fmul b r \<le> r"
    using flr.prod_unit [of a "fsub 1 r"] flr.prod_unit [of b r] assms s
    by (auto simp: fmul_def fsub_def is_float_def)
  then have "fadd (fmul a (fsub 1 r)) (fmul b r) \<le> fl (fsub 1 r + r)"
    unfolding fadd_def by (intro fl_mono add_mono)
  also have "\<dots> \<le> 1"
  proof (cases "1 \<le> fsub 1 r + r")
    case True
    then show ?thesis using fl_one_minus [of r] assms by (simp add: fsub_def fl_near_one)
  qed simp
  finally show "fadd (fmul a (fsub 1 r)) (fmul b r) \<le> 1" .
qed

lemma length_percent: "0 \<le> x \<Longrightarrow> x \<le> 100 \<Longrightarrow> length (fmt0 x) \<le> 3"
proof -
  assume x: "0 \<le> x" "x \<le> 100"
  have "0 \<le> rne x" "rne x \<le> 100"
    using rne_mono [OF x(1)] rne_mono [OF x(2)] rne_of_int [of 0] rne_of_int [of 100] by simp_all
  moreover have "length (int_digits n) \<le> 3" if "0 \<le> n" "n \<le> 100" for n
    using that by (simp add: int_digits.simps [of n] int_digits.simps [of "n div 10"] int_digits.simps [of "n div 10 div 10"])
  ultimately show ?thesis using x by (simp add: fmt0_def py_str_int_def)
qed

lemma knob_or_default_blend:
  "k \<in> set PERSONA_KNOB_FIELDS \<Longrightarrow>
   knob_or_default (blend_knobs (get_knobs p1) (get_knobs p2) r) k =
     fadd (fmul (knob_value p1 k) (fsub 1 r)) (fmul (knob_value p2 k) r)"
proof -
  assume k: "k \<in> set PERSONA_KNOB_FIELDS"
  have "blend_knobs (get_knobs p1) (get_knobs p2) r =
      map (\<lambda>k. (k, fadd (fmul (knob_value p1 k) (fsub 1 r)) (fmul (dget_or (get_knobs p2) k 0) r))) PERSONA_KNOB_FIELDS"
    unfolding blend_knobs_def by (subst knob_value_map [symmetric]) simp
  moreover have "dget_or (get_knobs p2) k 0 = knob_value p2 k"
    using k by (simp flip: knob_value_map)
  ultimately show ?thesis using k by (simp add: knob_or_default_def)
qed

lemma percent_range: "is_float r \<Longrightarrow> 0 \<le> r \<Longrightarrow> r \<le> 1 \<Longrightarrow> 0 \<le> fmul r 100 \<and> fmul r 100 \<le> 100"
  using flr.le_fixed [of 100 "r * 100"] fl_of_int [of 100] by (auto simp: fmul_def)

text \<open>
  Blending two valid personas at any ratio in [0, 1] never produces a knob outside [0, 1],
  rounding included, so it can only fail on the length of the generated name: it succeeds exactly
  when the two names together have at most 188 characters.
\<close>

theorem blend_personas_succeeds_iff:
  assumes "valid_profile p1" "valid_profile p2" "is_float r" "0 \<le> r" "r \<le> 1"
  shows "succeeds (blend_personas now pid p1 p2 r) \<longleftrightarrow> length (p_name p1) + length (p_name p2) \<le> 188"
proof -
  have s: "is_float (fsub 1 r)" "0 \<le> fsub 1 r" "fsub 1 r \<le> 1"
    using flr.unit [of "1 - r"] assms by (simp_all add: fsub_def)
  have d: "length (fmt0 (fmul r 100)) \<le> 3" "length (fmt0 (fmul (fsub 1 r) 100)) \<le> 3"
    using percent_range [OF assms(3-5)] percent_range [OF s] length_percent by auto
  have n: "length (p_name p1) \<le> 200" "length (p_name p2) \<le> 200" using assms by (simp_all add: valid_profile_def)
  have k: "0 \<le> knob_or_default (blend_knobs (get_knobs p1) (get_knobs p2) r) k \<and>
      knob_or_default (blend_knobs (get_knobs p1) (get_knobs p2) r) k \<le> 1" if "k \<in> set PERSONA_KNOB_FIELDS" for k
    using that valid_knob [OF assms(1) that] valid_knob [OF assms(2) that] assms(3-5)
    by (simp add: knob_or_default_blend blend_value_unit)
  have t: "0 \<le> p_temperature p1" "p_temperature p1 \<le> 2" using assms by (simp_all add: valid_profile_def)
  show ?thesis
    unfolding blend_personas_def PersonaProfile_init_def Let_def valid_raw_profile
    using d n k t by (simp add: or_default_def)
qed

text \<open>Two personas whose blend stays within the name limit, for the concrete cases.\<close>

definition full_profile :: PersonaProfile where
  "full_profile = raw_profile 0 ''f'' \<lparr> kw_name = Some ''Full'', kw_description = None,
     kw_knobs = map (\<lambda>k. (k, 1)) PERSONA_KNOB_FIELDS, kw_system_prompt = None, kw_model = None,
     kw_temperature = None, kw_max_tokens = None \<rparr>"

lemma full_profile_knobs: "k \<in> set PERSONA_KNOB_FIELDS \<Longrightarrow> dget_or (get_knobs full_profile) k d = 1"
  by (simp add: full_profile_def get_knobs_raw_profile knob_or_default_def)

lemma full_profile_valid: "valid_profile full_profile"
  unfolding full_profile_def valid_raw_profile by (simp add: or_default_def knob_or_default_def)

lemma full_profile_name [simp]: "p_name full_profile = ''Full''"
  by (simp add: full_profile_def raw_profile_def Let_def or_default_def)

lemma sample_profile_name [simp]: "p_name sample_profile = ''Creative Writer''"
  by (simp add: sample_profile_def raw_profile_def Let_def or_default_def preset_args_def)

lemma is_float_half: "is_float (1/2)"
  unfolding is_float_def by (rule fl_fixed [of _ 1 "- 1"]) (simp_all add: power_int_minus)

theorem blend_personas_succeeds_iff_witness:
  "valid_profile sample_profile \<and> valid_profile full_profile \<and> is_float (1/2)
   \<and> succeeds (blend_personas 5 ''b'' sample_profile full_profile (1/2))"
  using blend_personas_succeeds_iff [OF sample_profile_valid full_profile_valid is_float_half]
  by (simp add: sample_profile_valid full_profile_valid is_float_half)

lemma raw_profile_settings:
  "p_name (raw_profile now pid kw) = or_default (kw_name kw) ''Untitled Persona''"
  "p_description (raw_profile now pid kw) = or_default (kw_description kw) []"
  "p_model (raw_profile now pid kw) = or_default (kw_model kw) ''llama3:8b''"
  "p_temperature (raw_profile now pid kw) = or_default (kw_temperature kw) (fl (7/10))"
  "p_max_tokens (raw_profile now pid kw) = or_default (kw_max_tokens kw) 2000"
  by (simp_all add: raw_profile_def Let_def)

lemma blend_personas_Inr:
  "blend_personas now pid p1 p2 r = Inr q \<Longrightarrow>
     get_knobs q = map (\<lambda>k. (k, fadd (fmul (knob_value p1 k) (fsub 1 r)) (fmul (knob_value p2 k) r))) PERSONA_KNOB_FIELDS
     \<and> p_description q = ''Blend of '' @ p_name p1 @ '' ('' @ fmt0 (fmul r 100) @ ''%) and '' @
           p_name p2 @ '' ('' @ fmt0 (fmul (fsub 1 r) 100) @ ''%)''
     \<and> p_model q = p_model p1 \<and> p_temperature q = p_temperature p1 \<and> p_max_tokens q = 2000"
  unfolding blend_personas_def PersonaProfile_init_Inr
  by (auto simp: get_knobs_raw_profile knob_or_default_blend raw_profile_settings or_default_def)

lemma fmt0_int: "0 \<le> n \<Longrightarrow> fmt0 (of_int n) = py_str_int n"
  unfolding fmt0_def by simp

lemma fmt0_0_100: "fmt0 0 = ''0''" "fmt0 100 = ''100''"
proof -
  have "py_str_int 0 = ''0''" "py_str_int 100 = ''100''" by code_simp+
  then show "fmt0 0 = ''0''" "fmt0 100 = ''100''" using fmt0_int [of 0] fmt0_int [of 100] by simp_all
qed

text \<open>
  At ratio 0 a blend is the first persona knob by knob, and at ratio 1 the second; yet the
  description it is given says the opposite: at ratio 0 it calls the first persona's share 0% and
  the second's 100%.
\<close>

theorem blend_personas_endpoints:
  assumes "\<forall>kv \<in> set (get_knobs p1) \<union> set (get_knobs p2). is_float (snd kv)"
  shows "(blend_personas now pid p1 p2 0 = Inr q \<longrightarrow> get_knobs q = get_knobs p1 \<and>
            p_description q = ''Blend of '' @ p_name p1 @ '' (0%) and '' @ p_name p2 @ '' (100%)'')
       \<and> (blend_personas now pid p1 p2 1 = Inr q \<longrightarrow> get_knobs q = get_knobs p2 \<and>
            p_description q = ''Blend of '' @ p_name p1 @ '' (100%) and '' @ p_name p2 @ '' (0%)'')"
proof -
  have v: "fl (knob_value p1 k) = knob_value p1 k" "fl (knob_value p2 k) = knob_value p2 k"
    if "k \<in> set PERSONA_KNOB_FIELDS" for k
    using assms get_knobs_value [OF that, of p1] get_knobs_value [OF that, of p2] by (force simp: is_float_def)+
  have h: "fl 100 = 100" using fl_of_int [of 100] by simp
  show ?thesis
    by (auto dest!: blend_personas_Inr simp: v fadd_def fmul_def fsub_def h fmt0_0_100 simp flip: knob_value_map)
qed

lemma full_profile_float: "\<forall>kv \<in> set (get_knobs full_profile). is_float (snd kv)"
  by (auto simp: full_profile_def get_knobs_raw_profile knob_or_default_def)

theorem blend_personas_endpoints_witness:
  "\<exists>q. blend_personas 5 ''b'' full_profile full_profile 0 = Inr q \<and> get_knobs q = get_knobs full_profile
     \<and> p_description q = ''Blend of Full (0%) and Full (100%)''"
proof -
  have "succeeds (blend_personas 5 ''b'' full_profile full_profile 0)"
    using blend_personas_succeeds_iff [OF full_profile_valid full_profile_valid, of 0] by simp
  then obtain q where "blend_personas 5 ''b'' full_profile full_profile 0 = Inr q"
    by (cases "blend_personas 5 ''b'' full_profile full_profile 0") auto
  then show ?thesis
    using blend_personas_endpoints [of full_profile full_profile 5 "''b''" q] full_profile_float by auto
qed

section \<open>Blending many personas\<close>

text \<open>
  A blend of many personas rejects its input in the documented order: a length mismatch
  first, then fewer than two personas, then a weight that is not positive; with none of these the
  only error left is a validation error of the resulting profile, and a result takes model,
  temperature and token limit from the first persona and is itself a valid profile.
\<close>

theorem blend_multiple_outcome:
  "(case blend_multiple sm now pid ps ws of
      Inl (ValueError m) \<Rightarrow>
        m = (if length ps \<noteq> length ws then ''Number of profiles must equal number of weights''
             else if length ps < 2 then ''At least 2 personas required for blending''
             else ''All weights must be positive'')
        \<and> \<not> (length ps = length ws \<and> 2 \<le> length ps \<and> list_all (\<lambda>w. 0 < w) ws)
    | Inl e \<Rightarrow> e = ValidationError \<and> length ps = length ws \<and> 2 \<le> length ps \<and> list_all (\<lambda>w. 0 < w) ws
    | Inr q \<Rightarrow> length ps = length ws \<and> 2 \<le> length ps \<and> list_all (\<lambda>w. 0 < w) ws \<and> valid_profile q \<and>
        p_model q = p_model (hd ps) \<and> p_temperature q = p_temperature (hd ps) \<and> p_max_tokens q = p_max_tokens (hd ps))"
  by (auto simp: blend_multiple_def PersonaProfile_init_def Let_def raw_profile_def or_default_def not_le list_all_iff)
    (meson leD)

lemma overshoot_roundings:
  "fl (31/10) = 6980579422424269 / 2251799813685248"
  "fl (9232379236109517 / 2251799813685248) = 2308094809027379 / 562949953421312"
  "fl (562949953421312 / 2308094809027379) = 8787511468039993 / 36028797018963968"
  "fl (6980579422424269 / 9232379236109516) = 6810321387730995 / 9007199254740992"
  "fl (36028797018963973 / 36028797018963968) = 4503599627370497 / 4503599627370496"
  using fl_eq_frac [of 51 "31/10" 6980579422424269]
    fl_eq_frac [of 50 "9232379236109517 / 2251799813685248" 4616189618054758]
    fl_eq_frac [of 55 "562949953421312 / 2308094809027379" 8787511468039993]
    fl_eq_frac [of 53 "6980579422424269 / 9232379236109516" 6810321387730995]
    fl_eq_frac [of 52 "36028797018963973 / 36028797018963968" 4503599627370497]
  by simp_all

lemma overshoot_exact:
  "fl (- (2251799813685247 / 2251799813685248)) = - (2251799813685247 / 2251799813685248)"
  "fl (1 / 2251799813685248) = 1 / 2251799813685248"
  "fl (- (2196877867009999 / 9007199254740992)) = - (2196877867009999 / 9007199254740992)"
  "fl (- (3 / 36028797018963968)) = - (3 / 36028797018963968)"
  "fl (8787511468039993 / 36028797018963968) = 8787511468039993 / 36028797018963968"
  "fl (6810321387730995 / 9007199254740992) = 6810321387730995 / 9007199254740992"
  by (rule fl_fixed [of _ "- 2251799813685247" "- 51"] fl_fixed [of _ 1 "- 51"]
      fl_fixed [of _ "- 2196877867009999" "- 53"] fl_fixed [of _ "- 3" "- 55"]
      fl_fixed [of _ "8787511468039993" "- 55"] fl_fixed [of _ "6810321387730995" "- 53"];
      simp add: power_int_minus_divide; fail)+

lemma overshoot_total: "py_sum sm [1, 6980579422424269 / 2251799813685248] = 2308094809027379 / 562949953421312"
  by (cases sm) (simp_all add: fadd_def fsub_def comp_err_def overshoot_roundings overshoot_exact)

lemma overshoot_knob:
  "py_sum sm [8787511468039993 / 36028797018963968, 6810321387730995 / 9007199254740992]
     = 4503599627370497 / 4503599627370496"
  by (cases sm) (simp_all add: fadd_def fsub_def comp_err_def overshoot_roundings overshoot_exact)

text \<open>
  C38. Blending many personas can fail on valid input by rounding alone: two personas whose knobs
  are all 1.0, weighted 1.0 and 3.1, give every knob the value 1 + 2^-52, and the constructor
  rejects the blend. This holds for the plain summation of CPython up to 3.11 and for the
  compensated one from 3.12 on.
\<close>

theorem blend_multiple_overshoots:
  "valid_profile full_profile \<and> blend_multiple sm now pid [full_profile, full_profile] [1, fl (31/10)] = Inl ValidationError"
proof -
  have "\<not> fl (31/10) \<le> 0" by (simp add: overshoot_roundings)
  moreover have "knob_or_default (weighted_knobs sm [full_profile, full_profile]
      [8787511468039993 / 36028797018963968, 6810321387730995 / 9007199254740992] PERSONA_KNOB_FIELDS) ''creativity''
      = 4503599627370497 / 4503599627370496"
    using overshoot_knob [of sm] full_profile_knobs [of "''creativity''" 0]
    by (simp add: knob_or_default_def weighted_knobs_def PERSONA_KNOB_FIELDS_def dget_or_def dget_def
        fmul_def overshoot_exact)
  ultimately have "\<not> valid_profile (raw_profile now pid kw)"
    if "kw_knobs kw = weighted_knobs sm [full_profile, full_profile]
      [8787511468039993 / 36028797018963968, 6810321387730995 / 9007199254740992] PERSONA_KNOB_FIELDS" for kw
    using that unfolding valid_raw_profile by (auto simp: PERSONA_KNOB_FIELDS_def)
  then show ?thesis
    using full_profile_valid
    by (simp add: overshoot_total blend_multiple_def PersonaProfile_init_def Let_def fdiv_def overshoot_roundings)
qed

lemma blend_value_half:
  assumes "is_float w" "0 < w"
  shows "py_sum Plain [fmul a (fdiv w (py_sum Plain [w, w])), fmul b (fdiv w (py_sum Plain [w, w]))]
    = fadd (fmul a (fsub 1 (1/2))) (fmul b (1/2))"
proof -
  have "fl (2 * w) = 2 * w" using assms fl_double by (simp add: is_float_def)
  then have "py_sum Plain [w, w] = 2 * w" by (simp add: fadd_def flip: mult_2)
  moreover have h: "fl (1/2) = 1/2" using is_float_half unfolding is_float_def .
  ultimately show ?thesis using assms by (simp add: fdiv_def fsub_def h)
qed

text \<open>
  The general blend agrees with the two-persona blend where both apply: two personas with one
  common positive weight get, in plain summation, bit for bit the knobs of the blend at ratio 0.5.
\<close>

theorem blend_multiple_equal_weights:
  assumes "is_float w" "0 < w"
    and "blend_multiple Plain now pid [p1, p2] [w, w] = Inr q" "blend_personas now' pid' p1 p2 (1/2) = Inr q'"
  shows "get_knobs q = get_knobs q' \<and> p_model q = p_model q' \<and> p_temperature q = p_temperature q'"
proof -
  let ?h = "\<lambda>a b. fadd (fmul a (fsub 1 (1/2))) (fmul b (1/2))"
  let ?n = "fdiv w (py_sum Plain [w, w])"
  have "get_knobs q = map (\<lambda>k. (k, knob_or_default (weighted_knobs Plain [p1, p2] [?n, ?n] PERSONA_KNOB_FIELDS) k)) PERSONA_KNOB_FIELDS"
    and "p_model q = p_model p1 \<and> p_temperature q = p_temperature p1"
    using assms(2,3) by (auto simp: blend_multiple_def Let_def PersonaProfile_init_Inr get_knobs_raw_profile
        raw_profile_settings or_default_def simp del: py_sum.simps)
  moreover have "knob_or_default (weighted_knobs Plain [p1, p2] [?n, ?n] PERSONA_KNOB_FIELDS) k = ?h (knob_value p1 k) (knob_value p2 k)"
    if "k \<in> set PERSONA_KNOB_FIELDS" for k
    using that blend_value_half [OF assms(1,2)]
    by (simp add: weighted_knobs_def knob_or_default_def del: py_sum.simps flip: knob_value_map)
  ultimately show ?thesis using blend_personas_Inr [OF assms(4)] by auto
qed

definition null_profile :: PersonaProfile where
  "null_profile = raw_profile 0 ''n'' \<lparr> kw_name = Some ''Null'', kw_description = None,
     kw_knobs = map (\<lambda>k. (k, 0)) PERSONA_KNOB_FIELDS, kw_system_prompt = None, kw_model = None,
     kw_temperature = None, kw_max_tokens = None \<rparr>"

lemma null_profile_facts: "valid_profile null_profile" "p_name null_profile = ''Null''"
  "k \<in> set PERSONA_KNOB_FIELDS \<Longrightarrow> knob_value null_profile k = 0"
  unfolding null_profile_def valid_raw_profile
  by (simp_all add: or_default_def knob_or_default_def raw_profile_settings knob_value_def get_knobs_raw_profile)

lemma null_blend:
  assumes "k \<in> set PERSONA_KNOB_FIELDS"
  shows "knob_or_default (weighted_knobs Plain [null_profile, null_profile] [u, v] PERSONA_KNOB_FIELDS) k = 0"
proof -
  have "dget_or (get_knobs null_profile) k 0 = 0"
    using null_profile_facts(3) [OF assms] assms by (simp flip: knob_value_map)
  with assms show ?thesis by (simp add: weighted_knobs_def knob_or_default_def fmul_def fadd_def)
qed

lemma null_blend_succeeds: "succeeds (blend_multiple Plain 5 ''b'' [null_profile, null_profile] [1, 1])"
proof -
  have "fl 2 = 2" "fl (1/2) = 1/2" using fl_of_int [of 2] is_float_half by (simp_all add: is_float_def)
  then have n: "fdiv 1 (py_sum Plain [1, 1]) = 1/2" by (simp add: fadd_def fdiv_def)
  have "length (fmt0 (fmul (1/2) 100)) \<le> 3"
    using percent_range [OF is_float_half] by (intro length_percent) auto
  moreover have "0 \<le> p_temperature null_profile" "p_temperature null_profile \<le> 2"
      "1 \<le> p_max_tokens null_profile" "p_max_tokens null_profile \<le> 32000"
    using null_profile_facts(1) by (simp_all add: valid_profile_def)
  ultimately show ?thesis
    using null_blend
    by (simp add: n blend_multiple_def Let_def PersonaProfile_init_def valid_raw_profile or_default_def
        null_profile_facts(2) del: py_sum.simps)
qed

theorem blend_multiple_equal_weights_witness:
  "\<exists>q q'. blend_multiple Plain 5 ''b'' [null_profile, null_profile] [1, 1] = Inr q
     \<and> blend_personas 5 ''c'' null_profile null_profile (1/2) = Inr q' \<and> get_knobs q = get_knobs q'"
proof -
  have "succeeds (blend_personas 5 ''c'' null_profile null_profile (1/2))"
    using blend_personas_succeeds_iff [OF null_profile_facts(1) null_profile_facts(1) is_float_half]
    by (simp add: null_profile_facts(2))
  then obtain q' where "blend_personas 5 ''c'' null_profile null_profile (1/2) = Inr q'"
    by (cases "blend_personas 5 ''c'' null_profile null_profile (1/2)") auto
  moreover obtain q where "blend_multiple Plain 5 ''b'' [null_profile, null_profile] [1, 1] = Inr q"
    using null_blend_succeeds by (cases "blend_multiple Plain 5 ''b'' [null_profile, null_profile] [1, 1]") auto
  ultimately show ?thesis
    using blend_multiple_equal_weights [of 1 5 "''b''" null_profile null_profile q 5 "''c''" q'] by auto
qed

section \<open>Validation and presets\<close>

lemma knob_definition_keys: "map kd_key KNOB_DEFINITIONS = PERSONA_KNOB_FIELDS"
  "d \<in> set KNOB_DEFINITIONS \<Longrightarrow> kd_min_value d = 0 \<and> kd_max_value d = 1"
  by (auto simp: KNOB_DEFINITIONS_def PERSONA_KNOB_FIELDS_def knob_def_def)

lemma validate_knobs_iff:
  "fst (validate_knobs knobs) \<longleftrightarrow>
     (\<forall>k \<in> set PERSONA_KNOB_FIELDS. case dget knobs k of None \<Rightarrow> True | Some v \<Rightarrow> 0 \<le> v \<and> v \<le> 1)"
proof -
  have "fst (validate_knobs knobs) \<longleftrightarrow>
     (\<forall>d \<in> set KNOB_DEFINITIONS. case dget knobs (kd_key d) of None \<Rightarrow> True | Some v \<Rightarrow> 0 \<le> v \<and> v \<le> 1)"
    unfolding validate_knobs_def knob_errors_def
    by (auto simp: Let_def knob_definition_keys split: option.splits if_splits)
  also have "\<dots> \<longleftrightarrow> (\<forall>k \<in> set (map kd_key KNOB_DEFINITIONS).
      case dget knobs k of None \<Rightarrow> True | Some v \<Rightarrow> 0 \<le> v \<and> v \<le> 1)" by simp
  finally show ?thesis unfolding knob_definition_keys .
qed

text \<open>
  Knob validation and the profile constructor agree: a knob dictionary passes
  \<open>validate_knobs\<close> exactly when a profile can be built from it (the other fields at their
  defaults), and each reported error names a knob that is present and out of range.
\<close>

theorem validate_knobs_agrees:
  "(fst (validate_knobs knobs) \<longleftrightarrow>
      succeeds (PersonaProfile_init now pid \<lparr> kw_name = None, kw_description = None, kw_knobs = knobs,
        kw_system_prompt = None, kw_model = None, kw_temperature = None, kw_max_tokens = None \<rparr>))
   \<and> set (map fst (snd (validate_knobs knobs))) =
      {k \<in> set PERSONA_KNOB_FIELDS. \<exists>v. dget knobs k = Some v \<and> (v < 0 \<or> 1 < v)}"
proof
  have "(case dget knobs k of None \<Rightarrow> True | Some v \<Rightarrow> 0 \<le> v \<and> v \<le> 1) \<longleftrightarrow>
      0 \<le> knob_or_default knobs k \<and> knob_or_default knobs k \<le> 1" for k
    using knob_field_default_unit [of k] by (simp add: knob_or_default_def dget_or_def split: option.splits)
  then show "fst (validate_knobs knobs) \<longleftrightarrow>
      succeeds (PersonaProfile_init now pid \<lparr> kw_name = None, kw_description = None, kw_knobs = knobs,
        kw_system_prompt = None, kw_model = None, kw_temperature = None, kw_max_tokens = None \<rparr>)"
    by (simp add: validate_knobs_iff PersonaProfile_init_def Let_def valid_raw_profile or_default_def)
  have "set (map fst (knob_errors KNOB_DEFINITIONS knobs)) =
      {k \<in> set (map kd_key KNOB_DEFINITIONS). \<exists>v. dget knobs k = Some v \<and> (v < 0 \<or> 1 < v)}"
    unfolding knob_errors_def
    by (force simp: knob_definition_keys(2) not_le split: option.splits if_splits)
  then show "set (map fst (snd (validate_knobs knobs))) =
      {k \<in> set PERSONA_KNOB_FIELDS. \<exists>v. dget knobs k = Some v \<and> (v < 0 \<or> 1 < v)}"
    unfolding knob_definition_keys(1) by (simp add: validate_knobs_def Let_def)
qed

section \<open>What the prompt depends on\<close>

text \<open>The thresholds at which a knob changes the wording of the prompt.\<close>

definition knob_thresholds :: "string \<Rightarrow> float64 list" where
  "knob_thresholds k =
    (if k = ''creativity'' then [fl (3/10), fl (1/2), fl (7/10)]
     else if k \<in> {''accuracy'', ''reliability'', ''consistency''} then [fl (3/5), fl (4/5)]
     else [fl (2/5), fl (7/10)])"

definition knob_level :: "string \<Rightarrow> float64 \<Rightarrow> nat" where
  "knob_level k v = length (filter (\<lambda>t. t < v) (knob_thresholds k))"

definition prompt_levels :: "PersonaProfile \<Rightarrow> (string \<times> nat) list" where
  "prompt_levels p = map (\<lambda>(k, v). (k, knob_level k v)) (get_knobs p)"

lemma filter_length_eqD:
  assumes "length (filter P xs) = length (filter Q xs)" "\<And>x. P x \<Longrightarrow> Q x" "x \<in> set xs"
  shows "P x = Q x"
proof -
  have "filter P xs = filter P (filter Q xs)" using assms(2) by (auto intro: filter_cong)
  then have "length (filter P (filter Q xs)) = length (filter Q xs)" using assms(1) by simp
  then have "\<forall>y \<in> set (filter Q xs). P y" by (metis length_filter_less less_irrefl)
  then show ?thesis using assms(2,3) by auto
qed

lemma knob_level_eqD:
  "knob_level k v = knob_level k w \<Longrightarrow> t \<in> set (knob_thresholds k) \<Longrightarrow> t < v \<longleftrightarrow> t < w"
  using filter_length_eqD [of "\<lambda>t. t < v" "knob_thresholds k" "\<lambda>t. t < w" t]
    filter_length_eqD [of "\<lambda>t. t < w" "knob_thresholds k" "\<lambda>t. t < v" t]
  unfolding knob_level_def by (cases "v \<le> w") simp_all

lemma same_thresholds:
  assumes "prompt_levels p = prompt_levels q" "k \<in> set PERSONA_KNOB_FIELDS" "t \<in> set (knob_thresholds k)"
  shows "t < knob_value p k \<longleftrightarrow> t < knob_value q k"
proof -
  have "map (\<lambda>k. (k, knob_level k (knob_value p k))) PERSONA_KNOB_FIELDS
      = map (\<lambda>k. (k, knob_level k (knob_value q k))) PERSONA_KNOB_FIELDS"
    using assms(1) unfolding prompt_levels_def by (simp flip: knob_value_map)
  then have "knob_level k (knob_value p k) = knob_level k (knob_value q k)" using assms(2) by simp
  then show ?thesis using assms(3) by (rule knob_level_eqD)
qed

text \<open>
  The system prompt is a function of the name, the description and the level of each knob
  (how many of its thresholds it exceeds): moving a knob between two thresholds leaves the prompt
  unchanged, to the last character.
\<close>

theorem prompt_depends_on_levels:
  assumes "p_name p = p_name q" "p_description p = p_description q" "prompt_levels p = prompt_levels q"
  shows "build_system_prompt p = build_system_prompt q"
proof -
  have "\<forall>k \<in> set PERSONA_KNOB_FIELDS. \<forall>t \<in> set (knob_thresholds k). t < knob_value p k \<longleftrightarrow> t < knob_value q k"
    using same_thresholds [OF assms(3)] by blast
  then have t: "\<forall>k \<in> set PERSONA_KNOB_FIELDS. list_all (\<lambda>t. t < knob_value p k \<longleftrightarrow> t < knob_value q k) (knob_thresholds k)"
    by (simp add: list_all_iff)
  note t = t [unfolded PERSONA_KNOB_FIELDS_def knob_thresholds_def, simplified]
  have "build_creativity_section (get_knobs p) = build_creativity_section (get_knobs q)"
    by (simp only: build_creativity_section_def Let_def knob_get_simps t)
  moreover have "build_personality_section (get_knobs p) = build_personality_section (get_knobs q)"
    by (simp only: build_personality_section_def Let_def knob_get_simps t)
  moreover have "build_thinking_section (get_knobs p) = build_thinking_section (get_knobs q)"
    by (simp only: build_thinking_section_def Let_def knob_get_simps t)
  moreover have "build_reliability_section (get_knobs p) = build_reliability_section (get_knobs q)"
    by (simp only: build_reliability_section_def Let_def knob_get_simps t)
  ultimately show ?thesis using assms(1,2) by (simp add: build_system_prompt_def Let_def)
qed

lemma level_between:
  "knob_level ''humor'' (fl (1/2)) = knob_level ''humor'' (fl (3/5))"
proof -
  have "fl (2/5) < fl (1/2)" "fl (2/5) < fl (3/5)" "fl (1/2) \<le> fl (7/10)" "fl (3/5) \<le> fl (7/10)"
    using fl_eq_frac [of 54 "2/5" 7205759403792794] fl_eq_frac [of 53 "1/2" 4503599627370496]
      fl_eq_frac [of 53 "3/5" 5404319552844595] by (auto intro: fl_mono)
  then show ?thesis by (simp add: knob_level_def knob_thresholds_def)
qed

theorem prompt_depends_on_levels_witness:
  "build_system_prompt (sample_profile\<lparr>humor := fl (1/2)\<rparr>) = build_system_prompt (sample_profile\<lparr>humor := fl (3/5)\<rparr>)
   \<and> prompt_levels (sample_profile\<lparr>humor := fl (1/2)\<rparr>) = prompt_levels (sample_profile\<lparr>humor := fl (3/5)\<rparr>)"
proof -
  have "prompt_levels (sample_profile\<lparr>humor := fl (1/2)\<rparr>) = prompt_levels (sample_profile\<lparr>humor := fl (3/5)\<rparr>)"
    by (simp add: prompt_levels_def get_knobs_def level_between)
  then show ?thesis
    using prompt_depends_on_levels [of "sample_profile\<lparr>humor := fl (1/2)\<rparr>" "sample_profile\<lparr>humor := fl (3/5)\<rparr>"] by simp
qed

end
