(* ===== verification/Personalities.thy ===== *)
theory Personalities
  imports PyFloat
begin

text \<open>
  The built-in personality archetypes and the keyword router:
  \<open>src/persola/orchestration/personalities.py\<close> and \<open>src/persola/orchestration/router.py\<close>.
  A frozen set of keywords is a list without repetition; nothing depends on its order.
\<close>

section \<open>Archetypes\<close>

datatype PersonalityRole = COORDINATOR | ANALYST | CREATIVE | EXECUTOR | EMPATH

fun role_value :: "PersonalityRole \<Rightarrow> string" where
  "role_value COORDINATOR = ''coordinator''"
| "role_value ANALYST = ''analyst''"
| "role_value CREATIVE = ''creative''"
| "role_value EXECUTOR = ''executor''"
| "role_value EMPATH = ''empath''"

record PersonalityArchetype =
  pa_role :: PersonalityRole
  pa_name :: string
  pa_tagline :: string
  pa_strengths :: "string list"
  pa_delegation_keywords :: "string list"
  pa_knob_overrides :: "(string, float64) dict"
  pa_collaboration_style :: string
  pa_system_directive :: string

definition archetype_coordinator :: PersonalityArchetype where
  "archetype_coordinator =
    \<lparr> pa_role = COORDINATOR, pa_name = ''Coordinator'', pa_tagline = ''Keeps the team aligned and synthesizes outcomes.'',
      pa_strengths = [''planning'', ''delegation'', ''synthesis'', ''prioritization''],
      pa_delegation_keywords = [''plan'', ''organize'', ''coordinate'', ''summarize'', ''delegate'', ''workflow'', ''roadmap''],
      pa_knob_overrides = [(''conscientiousness'', fl (9/10)), (''step_by_step'', fl (17/20)), (''verbosity'', fl (11/20)), (''agreeableness'', fl (3/4))],
      pa_collaboration_style = ''Facilitates dialogue, assigns work, merges perspectives into one answer.'',
      pa_system_directive = ''You are the team coordinator. Break work into clear subtasks, delegate to specialists, and produce a cohesive final response that reflects the whole team'' @ [CHR 0x27] @ ''s input.'' \<rparr>"

definition archetype_analyst :: PersonalityArchetype where
  "archetype_analyst =
    \<lparr> pa_role = ANALYST, pa_name = ''Analyst'', pa_tagline = ''Evidence-first reasoning and structured decomposition.'',
      pa_strengths = [''analysis'', ''research'', ''validation'', ''metrics''],
      pa_delegation_keywords = [''analyze'', ''data'', ''compare'', ''evaluate'', ''metrics'', ''research'', ''why'', ''evidence''],
      pa_knob_overrides = [(''reasoning_depth'', fl (19/20)), (''accuracy'', fl (19/20)), (''step_by_step'', fl (9/10)), (''abstraction'', fl (3/5))],
      pa_collaboration_style = ''Challenges assumptions with facts and explicit reasoning chains.'',
      pa_system_directive = ''You are the analyst. Use rigorous reasoning, cite assumptions, and prefer structured breakdowns over speculation.'' \<rparr>"

definition archetype_creative :: PersonalityArchetype where
  "archetype_creative =
    \<lparr> pa_role = CREATIVE, pa_name = ''Creative'', pa_tagline = ''Novel angles, metaphors, and exploratory ideation.'',
      pa_strengths = [''ideation'', ''brainstorming'', ''storytelling'', ''design''],
      pa_delegation_keywords = [''brainstorm'', ''creative'', ''idea'', ''design'', ''story'', ''imagine'', ''innovate'', ''brand''],
      pa_knob_overrides = [(''creativity'', fl (19/20)), (''creativity_in_reasoning'', fl (9/10)), (''openness'', fl (9/10)), (''humor'', fl (11/20))],
      pa_collaboration_style = ''Expands possibility space before the team converges.'',
      pa_system_directive = ''You are the creative specialist. Propose distinctive options and expressive framing while staying relevant to the user'' @ [CHR 0x27] @ ''s goal.'' \<rparr>"

definition archetype_executor :: PersonalityArchetype where
  "archetype_executor =
    \<lparr> pa_role = EXECUTOR, pa_name = ''Executor'', pa_tagline = ''Action-oriented delivery and concrete next steps.'',
      pa_strengths = [''implementation'', ''checklists'', ''shipping'', ''tool use''],
      pa_delegation_keywords = [''implement'', ''build'', ''deploy'', ''execute'', ''steps'', ''how to'', ''run'', ''fix'', ''code''],
      pa_knob_overrides = [(''conscientiousness'', fl (17/20)), (''verbosity'', fl (9/20)), (''reliability'', fl (9/10)), (''confidence'', fl (4/5))],
      pa_collaboration_style = ''Turns decisions into executable plans and tool-backed actions.'',
      pa_system_directive = ''You are the executor. Focus on practical steps, tooling, and deliverables the user can act on immediately.'' \<rparr>"

definition archetype_empath :: PersonalityArchetype where
  "archetype_empath =
    \<lparr> pa_role = EMPATH, pa_name = ''Empath'', pa_tagline = ''Tone, stakeholder impact, and human context.'',
      pa_strengths = [''empathy'', ''communication'', ''conflict'', ''user experience''],
      pa_delegation_keywords = [''feel'', ''user'', ''team'', ''stakeholder'', ''tone'', ''support'', ''explain'', ''audience''],
      pa_knob_overrides = [(''empathy'', fl (19/20)), (''agreeableness'', fl (9/10)), (''transparency'', fl (4/5)), (''formality'', fl (9/20))],
      pa_collaboration_style = ''Ensures outputs respect emotional and social context.'',
      pa_system_directive = ''You are the empath. Shape responses for clarity, warmth, and stakeholder awareness without losing substance.'' \<rparr>"


definition BUILTIN_ARCHETYPES :: "(PersonalityRole, PersonalityArchetype) dict" where
  "BUILTIN_ARCHETYPES = [(COORDINATOR, archetype_coordinator), (ANALYST, archetype_analyst),
     (CREATIVE, archetype_creative), (EXECUTOR, archetype_executor), (EMPATH, archetype_empath)]"

definition list_archetypes :: "PersonalityArchetype list" where
  "list_archetypes = dvalues BUILTIN_ARCHETYPES"

section \<open>Routing\<close>

fun role_floor :: "PersonalityRole \<Rightarrow> float64" where
  "role_floor COORDINATOR = fl (15/100)"
| "role_floor ANALYST = fl (1/10)"
| "role_floor CREATIVE = fl (1/10)"
| "role_floor EXECUTOR = fl (1/10)"
| "role_floor EMPATH = fl (1/10)"

definition keyword_hits :: "string \<Rightarrow> PersonalityArchetype \<Rightarrow> nat" where
  "keyword_hits text a = length (filter (\<lambda>kw. py_contains text kw) (pa_delegation_keywords a))"

definition score_task_for_personality :: "string \<Rightarrow> PersonalityArchetype \<Rightarrow> float64" where
  "score_task_for_personality task a =
    (let text = py_lower task in
     if py_strip text = [] then 0
     else let hits = keyword_hits text a;
              base = fdiv (of_nat hits) (of_nat (max (length (pa_delegation_keywords a)) 1))
          in min 1 (fadd base (role_floor (pa_role a))))"

definition route_task :: "string \<Rightarrow> nat \<Rightarrow> (PersonalityRole \<times> float64) list" where
  "route_task task top_k =
     take top_k (sort_desc snd
       (map (\<lambda>(role, a). (role, score_task_for_personality task a))
         (filter (\<lambda>(role, a). role \<noteq> COORDINATOR) BUILTIN_ARCHETYPES)))"

record DelegationPlan =
  dp_coordinator :: string
  dp_specialists :: "string list"
  dp_scores :: "(string, float64) dict"

definition select_delegation_plan :: "string \<Rightarrow> DelegationPlan" where
  "select_delegation_plan task =
    (let ranked = route_task task 3;
         specialists = map (\<lambda>(role, score). role_value role) (filter (\<lambda>(role, score). fl (12/100) < score) ranked)
     in \<lparr> dp_coordinator = role_value COORDINATOR,
          dp_specialists = (if specialists = [] then [role_value ANALYST, role_value EXECUTOR] else specialists),
          dp_scores = map (\<lambda>(role, score). (role_value role, py_round 3 score)) ranked \<rparr>)"

section \<open>Laws of the router\<close>

lemma role_value_inj: "inj role_value"
proof (rule injI)
  show "a = b" if "role_value a = role_value b" for a b using that by (cases a; cases b) simp_all
qed

lemma score_range: "0 \<le> score_task_for_personality task a \<and> score_task_for_personality task a \<le> 1"
proof -
  have "0 \<le> role_floor (pa_role a)" by (cases "pa_role a") (simp_all add: fl_nonneg)
  then show ?thesis by (simp add: score_task_for_personality_def Let_def)
qed

definition specialist_table :: "string \<Rightarrow> (PersonalityRole \<times> float64) list" where
  "specialist_table task = map (\<lambda>(role, a). (role, score_task_for_personality task a))
     [(ANALYST, archetype_analyst), (CREATIVE, archetype_creative), (EXECUTOR, archetype_executor), (EMPATH, archetype_empath)]"

lemma route_task_table: "route_task task k = take k (sort_desc snd (specialist_table task))"
  by (simp add: route_task_def specialist_table_def BUILTIN_ARCHETYPES_def)

lemma map_fst_route_distinct: "distinct (map fst (route_task task k))"
proof -
  have "distinct (map fst (sort_desc snd (specialist_table task)))"
    by (simp add: sort_desc_def specialist_table_def flip: distinct_map)
  then show ?thesis unfolding route_task_table by (simp flip: take_map)
qed

lemma tenth_eq: "fl (1/10) = 7205759403792794 / 72057594037927936" "fl (3/25) = 1080863910568919 / 9007199254740992"
  using fl_eq_frac [of 56 "1/10" 7205759403792794] fl_eq_frac [of 56 "3/25" 8646911284551352] by simp_all

definition specialist :: "PersonalityArchetype \<Rightarrow> bool" where
  "specialist a \<longleftrightarrow> pa_role a \<noteq> COORDINATOR \<and> length (pa_delegation_keywords a) \<in> {1..9}"

lemma archetype_facts:
  "specialist archetype_analyst" "specialist archetype_creative" "specialist archetype_executor" "specialist archetype_empath"
  "pa_role archetype_analyst = ANALYST" "pa_role archetype_creative = CREATIVE"
  "pa_role archetype_executor = EXECUTOR" "pa_role archetype_empath = EMPATH"
  by (simp_all add: specialist_def archetype_analyst_def archetype_creative_def archetype_executor_def archetype_empath_def)

lemma specialist_table_roles:
  assumes "(role, s) \<in> set (specialist_table task)"
  shows "\<exists>a. dget BUILTIN_ARCHETYPES role = Some a \<and> specialist a \<and> pa_role a = role \<and> s = score_task_for_personality task a"
  using assms archetype_facts by (auto simp: specialist_table_def BUILTIN_ARCHETYPES_def dget_def)

text \<open>The threshold 0.12 separates no keyword hit (the floor 0.1) from one or more.\<close>

lemma score_threshold:
  assumes "specialist a" "py_strip (py_lower task) \<noteq> []"
  shows "fl (12/100) < score_task_for_personality task a \<longleftrightarrow> 0 < keyword_hits (py_lower task) a"
proof -
  define n where "n = length (pa_delegation_keywords a)"
  define h where "h = keyword_hits (py_lower task) a"
  have n: "1 \<le> n" "n \<le> 9" and f: "role_floor (pa_role a) = fl (1/10)"
    using assms(1) by (auto simp: specialist_def n_def) (cases "pa_role a"; simp)
  have s: "score_task_for_personality task a = min 1 (fadd (fdiv (of_nat h) (of_nat n)) (fl (1/10)))"
    using assms(2) n f by (simp add: score_task_for_personality_def Let_def n_def h_def max_def)
  show ?thesis
  proof (cases "h = 0")
    case True
    moreover have "fl (1/10) \<le> fl (12/100)" by (intro fl_mono) simp
    ultimately show ?thesis using s by (simp add: h_def fdiv_def fadd_def min_def)
  next
    case False
    have "(1/10 :: rat) \<le> of_nat h / of_nat n" using False n by (simp add: field_simps)
    then have "fl (1/10) \<le> fdiv (of_nat h) (of_nat n)" unfolding fdiv_def by (rule fl_mono)
    then have "fadd (fl (1/10)) (fl (1/10)) \<le> fadd (fdiv (of_nat h) (of_nat n)) (fl (1/10))"
      by (intro fadd_mono) simp_all
    moreover have "fadd (fl (1/10)) (fl (1/10)) = 2 * fl (1/10)" by (simp add: fadd_def fl_double flip: mult_2)
    ultimately have "fl (12/100) < fadd (fdiv (of_nat h) (of_nat n)) (fl (1/10))" by (simp add: tenth_eq)
    then show ?thesis using s False by (simp add: h_def tenth_eq)
  qed
qed

text \<open>
  Every delegation plan names between one and three distinct specialists, never the
  coordinator, and its three scores are in [0, 1] in descending order.
\<close>

theorem delegation_plan_wellformed:
  "dp_specialists (select_delegation_plan task) \<noteq> [] \<and> length (dp_specialists (select_delegation_plan task)) \<le> 3
   \<and> distinct (dp_specialists (select_delegation_plan task))
   \<and> set (dp_specialists (select_delegation_plan task)) \<subseteq> {''analyst'', ''creative'', ''executor'', ''empath''}
   \<and> length (dp_scores (select_delegation_plan task)) = 3
   \<and> list_all (\<lambda>(r, s). 0 \<le> s \<and> s \<le> 1) (dp_scores (select_delegation_plan task))
   \<and> sorted_wrt (\<lambda>a b. snd b \<le> snd a) (dp_scores (select_delegation_plan task))"
proof -
  define rk where "rk = route_task task 3"
  define sp where "sp = map (\<lambda>(role, score). role_value role) (filter (\<lambda>(role, score). fl (12/100) < score) rk)"
  have len: "length rk = 3" by (simp add: rk_def route_task_table specialist_table_def)
  have in_table: "x \<in> set (specialist_table task)" if "x \<in> set rk" for x
    using that set_take_subset [of 3 "sort_desc snd (specialist_table task)"] by (auto simp: rk_def route_task_table)
  have "sp = map role_value (map fst (filter (\<lambda>(role, score). fl (12/100) < score) rk))"
    by (simp add: sp_def case_prod_beta)
  moreover have "distinct (map fst (filter (\<lambda>(role, score). fl (12/100) < score) rk))"
    using map_fst_route_distinct unfolding rk_def by (rule distinct_map_filter)
  ultimately have "distinct sp" using role_value_inj by (metis distinct_map inj_on_subset top_greatest)
  moreover have "length sp \<le> 3" using len by (simp add: sp_def) (metis length_filter_le)
  moreover have "set sp \<subseteq> {''analyst'', ''creative'', ''executor'', ''empath''}"
    using in_table by (fastforce simp: sp_def specialist_table_def)
  moreover have "0 \<le> snd x \<and> snd x \<le> 1" if "x \<in> set rk" for x
    using in_table [OF that] specialist_table_roles [of "fst x" "snd x" task] score_range [of task] by auto
  moreover have "sorted_wrt (\<lambda>a b. snd b \<le> snd a) rk"
    using sorted_sort_desc [of snd "specialist_table task"] by (simp add: rk_def route_task_table sorted_wrt_take)
  ultimately show ?thesis using len
    unfolding select_delegation_plan_def Let_def rk_def [symmetric] sp_def [symmetric]
    by (auto simp: list_all_iff py_round_unit sorted_wrt_map case_prod_beta
        intro: sorted_wrt_mono_rel [of rk "\<lambda>a b. snd b \<le> snd a"] py_round_mono)
qed

text \<open>
  For a task that is not blank, the specialists are exactly those of the three best ranked
  whose keywords occur in the task; when none of them has a hit the plan falls back to the analyst
  and the executor.
\<close>

theorem delegation_plan_by_keywords:
  assumes "py_strip (py_lower task) \<noteq> []"
  shows "dp_specialists (select_delegation_plan task) =
    (let chosen = filter (\<lambda>role. \<exists>a. dget BUILTIN_ARCHETYPES role = Some a \<and> 0 < keyword_hits (py_lower task) a)
        (map fst (route_task task 3))
     in if chosen = [] then [''analyst'', ''executor''] else map role_value chosen)"
proof -
  define hit where "hit role \<longleftrightarrow> (\<exists>a. dget BUILTIN_ARCHETYPES role = Some a \<and> 0 < keyword_hits (py_lower task) a)" for role
  have "fl (12/100) < s \<longleftrightarrow> hit role" if "(role, s) \<in> set (route_task task 3)" for role s
  proof -
    have "(role, s) \<in> set (specialist_table task)"
      using that set_take_subset [of 3 "sort_desc snd (specialist_table task)"] by (auto simp: route_task_table)
    then obtain a where a: "dget BUILTIN_ARCHETYPES role = Some a" "specialist a" "s = score_task_for_personality task a"
      using specialist_table_roles by blast
    then show ?thesis using score_threshold [OF a(2) assms] by (simp add: hit_def)
  qed
  then have "map fst (filter (\<lambda>(role, score). fl (12/100) < score) (route_task task 3)) = filter hit (map fst (route_task task 3))"
    by (auto simp: filter_map case_prod_beta intro!: arg_cong [where f = "map fst"] filter_cong)
  moreover have "map (\<lambda>(role, score). role_value role) xs = map role_value (map fst xs)" for xs :: "(PersonalityRole \<times> float64) list"
    by (simp add: case_prod_beta)
  ultimately have "map (\<lambda>(role, score). role_value role) (filter (\<lambda>(role, score). fl (12/100) < score) (route_task task 3))
      = map role_value (filter hit (map fst (route_task task 3)))" by metis
  then show ?thesis
    unfolding select_delegation_plan_def Let_def hit_def [symmetric] by simp
qed

theorem delegation_plan_by_keywords_witness:
  "py_strip (py_lower ''Fix the code'') \<noteq> [] \<and>
   dp_specialists (select_delegation_plan ''Fix the code'') =
    (let chosen = filter (\<lambda>role. \<exists>a. dget BUILTIN_ARCHETYPES role = Some a \<and> 0 < keyword_hits (py_lower ''Fix the code'') a)
        (map fst (route_task ''Fix the code'' 3))
     in if chosen = [] then [''analyst'', ''executor''] else map role_value chosen)"
proof -
  have "py_strip (py_lower ''Fix the code'') \<noteq> []" by code_simp
  then show ?thesis using delegation_plan_by_keywords by blast
qed

end
