(* ===== verification/OrgChart.thy ===== *)
theory OrgChart
  imports Personalities "HOL-Library.List_Lexorder" "HOL-Library.Char_ord"
begin

text \<open>
  The org chart: \<open>OrgNodeRepository\<close> of \<open>src/persola/db/repositories/workqueue_repository.py\<close> and
  \<open>OrgChart\<close> of \<open>src/persola/orchestration/org_chart.py\<close>. The table \<open>org_nodes\<close> is a list of rows
  with at most one row per team and role, the table's unique constraint. \<open>ORDER BY role\<close> sorts by
  code points. Methods that read the chart seed it first, so they return the table too.
\<close>

section \<open>Rows and repository\<close>

record OrgNodeModel =
  on_team_id :: string
  on_role :: string
  on_title :: string
  on_reports_to :: "string option"
  on_email :: "string option"
  on_active :: bool

type_synonym org_table = "OrgNodeModel list"

definition org_key :: "OrgNodeModel \<Rightarrow> string \<times> string" where
  "org_key n = (on_team_id n, on_role n)"

definition list_for_team :: "org_table \<Rightarrow> string \<Rightarrow> OrgNodeModel list" where
  "list_for_team tbl team_id = sort_key on_role (filter (\<lambda>n. on_team_id n = team_id) tbl)"

definition get_node :: "org_table \<Rightarrow> string \<times> string \<Rightarrow> OrgNodeModel option" where
  "get_node tbl k = find (\<lambda>n. org_key n = k) tbl"

record OrgNode =
  o_role :: string
  o_title :: string
  o_reports_to :: "string option"
  o_email :: "string option"
  o_active :: bool

definition hydrate_node :: "OrgNodeModel \<Rightarrow> OrgNode" where
  "hydrate_node row = \<lparr> o_role = on_role row, o_title = on_title row, o_reports_to = on_reports_to row,
     o_email = on_email row, o_active = on_active row \<rparr>"

definition node_row :: "string \<Rightarrow> OrgNode \<Rightarrow> OrgNodeModel" where
  "node_row team_id n = \<lparr> on_team_id = team_id, on_role = o_role n, on_title = o_title n,
     on_reports_to = o_reports_to n, on_email = o_email n, on_active = o_active n \<rparr>"

definition assign_node :: "OrgNode \<Rightarrow> OrgNodeModel \<Rightarrow> OrgNodeModel" where
  "assign_node n r =
     r\<lparr>on_title := o_title n, on_reports_to := o_reports_to n, on_email := o_email n, on_active := o_active n\<rparr>"

definition upsert :: "string \<Rightarrow> OrgNode \<Rightarrow> org_table \<Rightarrow> org_table" where
  "upsert team_id n tbl =
    (case get_node tbl (team_id, o_role n) of
       None \<Rightarrow> tbl @ [node_row team_id n]
     | Some _ \<Rightarrow> map (\<lambda>r. if org_key r = (team_id, o_role n) then assign_node n r else r) tbl)"

definition repo_deactivate :: "string \<Rightarrow> string \<Rightarrow> org_table \<Rightarrow> org_table" where
  "repo_deactivate team_id role tbl = map (\<lambda>r. if org_key r = (team_id, role) then r\<lparr>on_active := False\<rparr> else r) tbl"

section \<open>The chart\<close>

definition default_node :: "PersonalityRole \<times> PersonalityArchetype \<Rightarrow> OrgNode" where
  "default_node ra = (case ra of (role, archetype) \<Rightarrow>
    \<lparr> o_role = role_value role, o_title = pa_name archetype,
      o_reports_to = (if role = COORDINATOR then None else Some (role_value COORDINATOR)),
      o_email = Some (role_value role @ ''@team.persola.local''), o_active = True \<rparr>)"

definition ensure_seeded :: "string \<Rightarrow> org_table \<Rightarrow> org_table" where
  "ensure_seeded team_id tbl =
    (let existing = map on_role (list_for_team tbl team_id) in
     foldl (\<lambda>t ra. if role_value (fst ra) \<in> set existing then t else upsert team_id (default_node ra) t)
       tbl BUILTIN_ARCHETYPES)"

definition chart_nodes :: "string \<Rightarrow> org_table \<Rightarrow> org_table \<times> OrgNode list" where
  "chart_nodes team_id tbl =
    (let t = ensure_seeded team_id tbl in (t, map hydrate_node (list_for_team t team_id)))"

definition chart_dict :: "OrgNode list \<Rightarrow> (string, OrgNode) dict" where
  "chart_dict ns = foldl (\<lambda>d n. dset (o_role n) n d) [] ns"

definition upsert_node :: "string \<Rightarrow> OrgNode \<Rightarrow> org_table \<Rightarrow> org_table \<times> OrgNode" where
  "upsert_node team_id n tbl = (upsert team_id n tbl, n)"

definition deactivate :: "string \<Rightarrow> string \<Rightarrow> org_table \<Rightarrow> org_table" where
  "deactivate team_id role tbl =
    (case get_node tbl (team_id, role) of None \<Rightarrow> tbl | Some _ \<Rightarrow> repo_deactivate team_id role tbl)"

definition manager_of :: "string \<Rightarrow> string \<Rightarrow> org_table \<Rightarrow> org_table \<times> OrgNode option" where
  "manager_of team_id role tbl =
    (let (t, ns) = chart_nodes team_id tbl; chart = chart_dict ns in
     (t, case dget chart role of None \<Rightarrow> None
         | Some n \<Rightarrow> (case o_reports_to n of None \<Rightarrow> None | Some m \<Rightarrow> dget chart m)))"

definition reports_of :: "string \<Rightarrow> string \<Rightarrow> org_table \<Rightarrow> org_table \<times> OrgNode list" where
  "reports_of team_id role tbl =
    (let (t, ns) = chart_nodes team_id tbl in (t, filter (\<lambda>n. o_reports_to n = Some role \<and> o_active n) ns))"

definition top_of_chart :: "string \<Rightarrow> org_table \<Rightarrow> org_table \<times> OrgNode option" where
  "top_of_chart team_id tbl =
    (let (t, ns) = chart_nodes team_id tbl in (t, find (\<lambda>n. o_reports_to n = None \<and> o_active n) ns))"

text \<open>The loop of \<open>resolve_chain\<close>: \<open>seen\<close> always holds the roles of \<open>chain\<close>.\<close>

definition managers_in :: "(string, OrgNode) dict \<Rightarrow> OrgNode option \<Rightarrow> string set" where
  "managers_in chart cur = {r. \<exists>n \<in> set (dvalues chart) \<union> set_option cur. o_reports_to n = Some r}"

lemma finite_managers_in: "finite (managers_in chart cur)"
proof -
  have "managers_in chart cur \<subseteq> (\<lambda>n. the (o_reports_to n)) ` (set (dvalues chart) \<union> set_option cur)"
    unfolding managers_in_def by force
  then show ?thesis by (rule finite_subset) simp
qed

function chain_loop :: "(string, OrgNode) dict \<Rightarrow> OrgNode option \<Rightarrow> string list \<Rightarrow> string list" where
  "chain_loop chart cur chain =
    (case cur of None \<Rightarrow> chain
     | Some n \<Rightarrow> (case o_reports_to n of None \<Rightarrow> chain
         | Some m \<Rightarrow> if m = [] \<or> m \<in> set chain then chain
                     else chain_loop chart (dget chart m) (chain @ [m])))"
  by pat_completeness auto
termination
proof (relation "measure (\<lambda>(chart, cur, chain). card (managers_in chart cur - set chain))")
  fix chart :: "(string, OrgNode) dict" and cur :: "OrgNode option" and chain n m
  assume a: "cur = Some n" "o_reports_to n = Some m" "\<not> (m = [] \<or> m \<in> set chain)"
  have "managers_in chart (dget chart m) \<subseteq> managers_in chart cur"
    by (force simp: managers_in_def dvalues_def dget_def dest: map_of_SomeD)
  moreover have "m \<in> managers_in chart cur" using a by (auto simp: managers_in_def)
  ultimately have "managers_in chart (dget chart m) - set (chain @ [m]) \<subset> managers_in chart cur - set chain"
    using a(3) by auto
  then show "((chart, dget chart m, chain @ [m]), chart, cur, chain)
      \<in> measure (\<lambda>(chart, cur, chain). card (managers_in chart cur - set chain))"
    using finite_managers_in by (simp add: psubset_card_mono)
qed simp

declare chain_loop.simps [simp del]

definition resolve_chain :: "string \<Rightarrow> string \<Rightarrow> org_table \<Rightarrow> org_table \<times> string list" where
  "resolve_chain team_id role tbl =
    (let (t, ns) = chart_nodes team_id tbl; chart = chart_dict ns in (t, chain_loop chart (dget chart role) [role]))"

record org_view =
  ov_team_id :: string
  ov_top :: "string option"
  ov_nodes :: "OrgNode list"

definition org_to_dict :: "string \<Rightarrow> org_table \<Rightarrow> org_table \<times> org_view" where
  "org_to_dict team_id tbl =
    (let (t, ns) = chart_nodes team_id tbl; top = find (\<lambda>n. o_reports_to n = None \<and> o_active n) ns in
     (t, \<lparr> ov_team_id = team_id, ov_top = map_option o_role top, ov_nodes = ns \<rparr>))"

section \<open>Laws of the chart\<close>

definition org_ok :: "org_table \<Rightarrow> bool" where
  "org_ok tbl \<longleftrightarrow> distinct (map org_key tbl)"

lemma find_map_key:
  "(\<And>r. org_key (f r) = org_key r) \<Longrightarrow> find (\<lambda>n. org_key n = k) (map f tbl) = map_option f (find (\<lambda>n. org_key n = k) tbl)"
  by (induction tbl) auto

lemma find_append: "find P (xs @ ys) = (case find P xs of None \<Rightarrow> find P ys | Some x \<Rightarrow> Some x)"
  by (induction xs) auto

lemma map_org_key_if: "(\<And>r. org_key (f r) = org_key r) \<Longrightarrow> map org_key (map (\<lambda>r. if P r then f r else r) tbl) = map org_key tbl"
  by simp

lemma org_key_update [simp]:
  "org_key (assign_node n r) = org_key r"
  "org_key (r\<lparr>on_active := a\<rparr>) = org_key r" "org_key (node_row team n) = (team, o_role n)"
  by (simp_all add: org_key_def node_row_def assign_node_def)

lemma get_node_Some: "get_node tbl k = Some r \<Longrightarrow> r \<in> set tbl \<and> org_key r = k"
  by (auto simp: get_node_def find_Some_iff)

lemma get_node_None: "get_node tbl k = None \<longleftrightarrow> k \<notin> org_key ` set tbl"
  by (auto simp: get_node_def find_None_iff)

lemma get_node_map:
  "get_node (map (\<lambda>r. if org_key r = j then f r else r) tbl) k =
     map_option (\<lambda>r. if k = j then f r else r) (get_node tbl k)" if "\<And>r. org_key (f r) = org_key r"
proof -
  have "get_node (map (\<lambda>r. if org_key r = j then f r else r) tbl) k =
      map_option (\<lambda>r. if org_key r = j then f r else r) (get_node tbl k)"
    unfolding get_node_def using that by (intro find_map_key) simp
  then show ?thesis by (cases "get_node tbl k") (auto dest: get_node_Some)
qed

lemma get_node_upsert:
  "get_node (upsert team n tbl) k = (if k = (team, o_role n) then Some (node_row team n) else get_node tbl k)"
proof (cases "get_node tbl (team, o_role n)")
  case None
  then show ?thesis
    by (auto simp: upsert_def get_node_def find_append split: option.splits)
next
  case (Some r)
  have "get_node (upsert team n tbl) k = map_option (\<lambda>r. if k = (team, o_role n) then assign_node n r else r) (get_node tbl k)"
    using Some by (simp add: upsert_def get_node_map)
  then show ?thesis
    using Some by (auto simp: node_row_def org_key_def assign_node_def option.map_ident dest!: get_node_Some)
qed

lemma org_ok_upsert: "org_ok tbl \<Longrightarrow> org_ok (upsert team n tbl)"
  by (simp add: org_ok_def upsert_def get_node_None map_org_key_if del: map_map split: option.split)

text \<open>The chart is a store keyed by team and role.\<close>

definition chart_get :: "org_table \<Rightarrow> string \<times> string \<Rightarrow> (string \<times> string option \<times> string option \<times> bool) option" where
  "chart_get tbl k = map_option (\<lambda>r. (on_title r, on_reports_to r, on_email r, on_active r)) (get_node tbl k)"

definition chart_put :: "string \<times> string \<Rightarrow> string \<times> string option \<times> string option \<times> bool \<Rightarrow> org_table \<Rightarrow> org_table" where
  "chart_put k v tbl = (case v of (t, r, e, a) \<Rightarrow>
     upsert (fst k) \<lparr> o_role = snd k, o_title = t, o_reports_to = r, o_email = e, o_active = a \<rparr> tbl)"

interpretation chart: keyed_store chart_get chart_put
  by unfold_locales (auto simp: chart_get_def chart_put_def get_node_upsert node_row_def split: prod.splits)

definition seed_step :: "string \<Rightarrow> string set \<Rightarrow> org_table \<Rightarrow> PersonalityRole \<times> PersonalityArchetype \<Rightarrow> org_table" where
  "seed_step team existing t ra = (if role_value (fst ra) \<in> existing then t else upsert team (default_node ra) t)"

lemma seed_step_get:
  "get_node (seed_step team E t ra) k =
    (if role_value (fst ra) \<notin> E \<and> k = (team, role_value (fst ra)) then Some (node_row team (default_node ra)) else get_node t k)"
  by (cases ra) (simp add: seed_step_def get_node_upsert default_node_def)

lemma existing_roles: "r \<in> set (map on_role (list_for_team tbl team)) \<longleftrightarrow> get_node tbl (team, r) \<noteq> None"
  by (force simp: list_for_team_def get_node_None org_key_def)

lemma ensure_seeded_fold:
  "ensure_seeded team tbl = foldl (seed_step team {r. get_node tbl (team, r) \<noteq> None}) tbl BUILTIN_ARCHETYPES"
  unfolding ensure_seeded_def Let_def existing_roles seed_step_def by simp

lemma get_node_seeded:
  "get_node (ensure_seeded team tbl) k =
    (case get_node tbl k of Some r \<Rightarrow> Some r
     | None \<Rightarrow> if fst k = team
         then map_option (\<lambda>ra. node_row team (default_node ra)) (find (\<lambda>ra. role_value (fst ra) = snd k) BUILTIN_ARCHETYPES)
         else None)"
  unfolding ensure_seeded_fold
  by (cases k) (simp add: BUILTIN_ARCHETYPES_def seed_step_get split: option.split)

lemma foldl_id: "(\<And>x. x \<in> set xs \<Longrightarrow> f t x = t) \<Longrightarrow> foldl f t xs = t"
  by (induction xs) auto

lemma archetype_roles: "role_value role \<in> role_value ` fst ` set BUILTIN_ARCHETYPES"
  by (cases role) (simp_all add: BUILTIN_ARCHETYPES_def)

lemma seeded_role: "get_node (ensure_seeded team tbl) (team, role_value role) \<noteq> None"
proof -
  have "find (\<lambda>ra. role_value (fst ra) = role_value role) BUILTIN_ARCHETYPES \<noteq> None"
    using archetype_roles [of role] unfolding find_None_iff by (metis imageE)
  then show ?thesis by (auto simp: get_node_seeded split: option.splits)
qed

lemma ensure_seeded_idem: "ensure_seeded team (ensure_seeded team tbl) = ensure_seeded team tbl"
  unfolding ensure_seeded_fold [of team "ensure_seeded team tbl"]
  by (rule foldl_id) (simp add: seed_step_def seeded_role)

lemma org_ok_seeded: "org_ok tbl \<Longrightarrow> org_ok (ensure_seeded team tbl)"
  unfolding ensure_seeded_fold by (simp add: BUILTIN_ARCHETYPES_def seed_step_def org_ok_upsert)

text \<open>
  Seeding the chart keeps every row that exists, of this team and of all others, adds exactly
  the missing built-in roles, and is idempotent.
\<close>

theorem seeding_preserves_customization:
  "(case get_node tbl k of Some r \<Rightarrow> get_node (ensure_seeded team tbl) k = Some r | None \<Rightarrow> True)
   \<and> get_node (ensure_seeded team tbl) (team, role_value role) \<noteq> None
   \<and> ensure_seeded team (ensure_seeded team tbl) = ensure_seeded team tbl
   \<and> set (map org_key (ensure_seeded team tbl)) = set (map org_key tbl) \<union> {(team, role_value r) |r. True}"
proof -
  have "j \<in> org_key ` set (ensure_seeded team tbl) \<longleftrightarrow> j \<in> org_key ` set tbl \<or> (\<exists>r. j = (team, role_value r))" for j
  proof -
    have "(\<exists>ra \<in> set BUILTIN_ARCHETYPES. role_value (fst ra) = snd j) \<longleftrightarrow> (\<exists>r. snd j = role_value r)"
    proof
      assume "\<exists>r. snd j = role_value r"
      then obtain r where "snd j = role_value r" by blast
      then show "\<exists>ra \<in> set BUILTIN_ARCHETYPES. role_value (fst ra) = snd j"
        using archetype_roles [of r] by force
    qed metis
    then have "find (\<lambda>ra. role_value (fst ra) = snd j) BUILTIN_ARCHETYPES \<noteq> None \<longleftrightarrow> (\<exists>r. snd j = role_value r)"
      unfolding find_None_iff by blast
    moreover have "j \<in> org_key ` set t \<longleftrightarrow> get_node t j \<noteq> None" for t by (simp add: get_node_None)
    ultimately have "j \<in> org_key ` set (ensure_seeded team tbl) \<longleftrightarrow>
        j \<in> org_key ` set tbl \<or> fst j = team \<and> (\<exists>r. snd j = role_value r)"
      by (simp add: get_node_seeded split: option.split)
    then show ?thesis by (cases j) auto
  qed
  then have "set (map org_key (ensure_seeded team tbl)) = set (map org_key tbl) \<union> {(team, role_value r) |r. True}"
    by (intro set_eqI) (simp only: set_map Un_iff mem_Collect_eq simp_thms)
  moreover have "case get_node tbl k of Some r \<Rightarrow> get_node (ensure_seeded team tbl) k = Some r | None \<Rightarrow> True"
    by (simp add: get_node_seeded split: option.split)
  ultimately show ?thesis using seeded_role ensure_seeded_idem by blast
qed

lemma org_ok_deactivate: "org_ok tbl \<Longrightarrow> org_ok (deactivate team role tbl)"
  by (simp add: org_ok_def deactivate_def repo_deactivate_def map_org_key_if del: map_map split: option.split)

section \<open>Reporting chains\<close>

definition reports :: "(string, OrgNode) dict \<Rightarrow> string \<Rightarrow> string \<Rightarrow> bool" where
  "reports chart a b \<longleftrightarrow> (case dget chart a of None \<Rightarrow> False | Some n \<Rightarrow> o_reports_to n = Some b)"

lemma chain_loop_spec:
  assumes "chain \<noteq> []" "distinct chain" "cur = dget chart (last chain)" "successively (reports chart) chain"
  defines "res \<equiv> chain_loop chart cur chain"
  shows "prefix chain res \<and> distinct res \<and> successively (reports chart) res
    \<and> (\<forall>m. reports chart (last res) m \<longrightarrow> m = [] \<or> m \<in> set res)"
  using assms(1-4) unfolding res_def
proof (induction chart cur chain rule: chain_loop.induct)
  case (1 chart cur chain)
  show ?case
  proof (cases "\<exists>n m. cur = Some n \<and> o_reports_to n = Some m \<and> m \<noteq> [] \<and> m \<notin> set chain")
    case True
    then obtain n m where nm: "cur = Some n" "o_reports_to n = Some m" "m \<noteq> []" "m \<notin> set chain" by auto
    then have "successively (reports chart) (chain @ [m])"
      using 1(2-5) by (auto simp: successively_append_iff reports_def split: option.splits)
    then have "prefix (chain @ [m]) (chain_loop chart (dget chart m) (chain @ [m])) \<and>
        distinct (chain_loop chart (dget chart m) (chain @ [m])) \<and>
        successively (reports chart) (chain_loop chart (dget chart m) (chain @ [m])) \<and>
        (\<forall>k. reports chart (last (chain_loop chart (dget chart m) (chain @ [m]))) k \<longrightarrow>
           k = [] \<or> k \<in> set (chain_loop chart (dget chart m) (chain @ [m])))"
      using 1(1) [OF nm(1,2)] 1(2-5) nm(3,4) by auto
    moreover have "chain_loop chart cur chain = chain_loop chart (dget chart m) (chain @ [m])"
      using nm by (subst chain_loop.simps) simp
    ultimately show ?thesis by (metis append_prefixD)
  next
    case False
    then have "chain_loop chart cur chain = chain" by (subst chain_loop.simps) (auto split: option.splits)
    then show ?thesis using 1(2-5) False by (auto simp: reports_def split: option.splits)
  qed
qed

text \<open>
  C39. Resolving a reporting chain always ends, even when the reporting lines of the chart form a
  cycle: the chain starts at the role, follows reporting lines of the seeded chart, never repeats a
  role, and stops only at a role without a manager or where the next manager is already listed.
\<close>

theorem resolve_chain_sound:
  "(case resolve_chain team role tbl of (t, chain) \<Rightarrow>
     (let chart = chart_dict (snd (chart_nodes team tbl)) in
      t = ensure_seeded team tbl \<and> chain \<noteq> [] \<and> hd chain = role \<and> distinct chain \<and> successively (reports chart) chain
      \<and> {m. reports chart (last chain) m} \<subseteq> insert [] (set chain)))"
proof -
  define chart where "chart = chart_dict (snd (chart_nodes team tbl))"
  have "prefix [role] (chain_loop chart (dget chart role) [role])"
    and s: "distinct (chain_loop chart (dget chart role) [role])"
      "successively (reports chart) (chain_loop chart (dget chart role) [role])"
      "\<forall>m. reports chart (last (chain_loop chart (dget chart role) [role])) m \<longrightarrow>
         m = [] \<or> m \<in> set (chain_loop chart (dget chart role) [role])"
    using chain_loop_spec [of "[role]" "dget chart role" chart] by auto
  then obtain zs where "chain_loop chart (dget chart role) [role] = role # zs" by (auto simp: prefix_def)
  with s have "chain \<noteq> [] \<and> hd chain = role \<and> distinct chain \<and> successively (reports chart) chain
      \<and> {m. reports chart (last chain) m} \<subseteq> insert [] (set chain)"
    if "chain = chain_loop chart (dget chart role) [role]" for chain using that by auto
  moreover have "resolve_chain team role tbl = (ensure_seeded team tbl, chain_loop chart (dget chart role) [role])"
    by (simp add: resolve_chain_def chart_def chart_nodes_def Let_def)
  ultimately show ?thesis by (simp add: Let_def flip: chart_def)
qed

end
