(* ===== verification/WorkQueue.thy ===== *)
theory WorkQueue
  imports OrgChart
begin

text \<open>
  The durable work queue: \<open>WorkTaskRepository\<close> and \<open>AuditEventRepository\<close> of
  \<open>src/persola/db/repositories/workqueue_repository.py\<close>, \<open>AgentTaskQueue\<close> of
  \<open>src/persola/orchestration/task_queue.py\<close>, \<open>AuditLog\<close> of \<open>src/persola/orchestration/audit_log.py\<close>,
  the worker of \<open>src/persola/orchestration/daemon.py\<close> and the handlers of
  \<open>src/persola/api/workqueue.py\<close>.

  The tables are lists of rows in insertion order; \<open>ORDER BY created_at\<close> is a stable sort. Time is an
  integer count of microseconds, one value per operation. Fresh identifiers (\<open>uuid4\<close>) are arguments.
  Every operation runs in its own transaction, as the handlers and the worker commit once at their
  end, so transactions are the steps of the system; a tick that claims nothing commits nothing, and
  its session rolls back. The team orchestrator that a worker calls is the
  argument \<open>run\<close>: it maps a subtask and a session id to a response or to the text of an exception.
\<close>

section \<open>Rows\<close>

datatype WorkTaskStatus = QUEUED | CLAIMED | IN_PROGRESS | BLOCKED | DONE | FAILED

fun status_value :: "WorkTaskStatus \<Rightarrow> string" where
  "status_value QUEUED = ''queued''"
| "status_value CLAIMED = ''claimed''"
| "status_value IN_PROGRESS = ''in_progress''"
| "status_value BLOCKED = ''blocked''"
| "status_value DONE = ''done''"
| "status_value FAILED = ''failed''"

definition all_statuses :: "WorkTaskStatus list" where
  "all_statuses = [QUEUED, CLAIMED, IN_PROGRESS, BLOCKED, DONE, FAILED]"

record WorkTask =
  wt_task_id :: string
  wt_team_id :: string
  wt_role :: string
  wt_subtask :: string
  wt_origin :: string
  wt_status :: WorkTaskStatus
  wt_result :: "string option"
  wt_error :: "string option"
  wt_parent_task_id :: "string option"
  wt_session_id :: "string option"
  wt_created_at :: int
  wt_claimed_at :: "int option"
  wt_completed_at :: "int option"

datatype AuditEventType = INSTRUCTION | DECISION | REPLY | STATUS_CHANGE | TOOL_CALL

record AuditEvent =
  ae_event_id :: string
  ae_team_id :: string
  ae_session_id :: "string option"
  ae_task_id :: "string option"
  ae_event_type :: AuditEventType
  ae_actor :: string
  ae_recipient :: "string option"
  ae_summary :: string
  ae_at :: int

record CityEvent =
  ce_event_type :: string
  ce_payload :: "(string, string) dict"

record wq_db =
  wq_tasks :: "WorkTask list"
  wq_audit :: "AuditEvent list"
  wq_events :: "CityEvent list"
  wq_nodes :: org_table

section \<open>The task repository\<close>

definition create_task ::
  "int \<Rightarrow> string \<Rightarrow> string \<Rightarrow> string \<Rightarrow> string \<Rightarrow> string \<Rightarrow> string option \<Rightarrow> string option \<Rightarrow> WorkTask" where
  "create_task now task_id team_id role subtask origin parent_task_id session_id =
    \<lparr> wt_task_id = task_id, wt_team_id = team_id, wt_role = role, wt_subtask = subtask, wt_origin = origin,
      wt_status = QUEUED, wt_result = None, wt_error = None, wt_parent_task_id = parent_task_id,
      wt_session_id = session_id, wt_created_at = now, wt_claimed_at = None, wt_completed_at = None \<rparr>"

definition get_by_task_id :: "WorkTask list \<Rightarrow> string \<Rightarrow> WorkTask option" where
  "get_by_task_id tasks task_id = find (\<lambda>t. wt_task_id t = task_id) tasks"

definition tasks_for_team :: "WorkTask list \<Rightarrow> string \<Rightarrow> WorkTask list" where
  "tasks_for_team tasks team_id = sort_key wt_created_at (filter (\<lambda>t. wt_team_id t = team_id) tasks)"

definition children :: "WorkTask list \<Rightarrow> string \<Rightarrow> WorkTask list" where
  "children tasks parent = sort_key wt_created_at (filter (\<lambda>t. wt_parent_task_id t = Some parent) tasks)"

definition stale :: "int \<Rightarrow> string \<Rightarrow> WorkTask \<Rightarrow> bool" where
  "stale now team_id t \<longleftrightarrow> wt_team_id t = team_id \<and> wt_status t \<in> {CLAIMED, IN_PROGRESS} \<and>
     (case wt_claimed_at t of None \<Rightarrow> True | Some c \<Rightarrow> c < now - 600 * 1000000)"

definition requeue :: "WorkTask \<Rightarrow> WorkTask" where
  "requeue t = t\<lparr>wt_status := QUEUED, wt_error := Some ''re-queued: stale claim''\<rparr>"

definition recover_stale :: "int \<Rightarrow> string \<Rightarrow> WorkTask list \<Rightarrow> WorkTask list" where
  "recover_stale now team_id tasks = map (\<lambda>t. if stale now team_id t then requeue t else t) tasks"

definition update_task :: "string \<Rightarrow> (WorkTask \<Rightarrow> WorkTask) \<Rightarrow> WorkTask list \<Rightarrow> WorkTask list" where
  "update_task task_id f tasks = map (\<lambda>t. if wt_task_id t = task_id then f t else t) tasks"

definition claimable :: "string \<Rightarrow> string option \<Rightarrow> WorkTask \<Rightarrow> bool" where
  "claimable team_id role t \<longleftrightarrow> wt_team_id t = team_id \<and> wt_status t = QUEUED \<and>
     (case role of None \<Rightarrow> True | Some r \<Rightarrow> wt_role t = r)"

definition claim :: "int \<Rightarrow> WorkTask \<Rightarrow> WorkTask" where
  "claim now t = t\<lparr>wt_status := CLAIMED, wt_claimed_at := Some now\<rparr>"

definition claim_next :: "int \<Rightarrow> string \<Rightarrow> string option \<Rightarrow> WorkTask list \<Rightarrow> WorkTask list \<times> WorkTask option" where
  "claim_next now team_id role tasks =
    (let ts = recover_stale now team_id tasks in
     case sort_key wt_created_at (filter (claimable team_id role) ts) of
       [] \<Rightarrow> (ts, None)
     | row # _ \<Rightarrow> (update_task (wt_task_id row) (claim now) ts, Some (claim now row)))"

definition set_fields :: "int \<Rightarrow> WorkTaskStatus \<Rightarrow> string option \<Rightarrow> string option \<Rightarrow> bool \<Rightarrow> WorkTask \<Rightarrow> WorkTask" where
  "set_fields now status result error mark_completed t =
     t\<lparr>wt_status := status,
       wt_result := (case result of None \<Rightarrow> wt_result t | Some _ \<Rightarrow> result),
       wt_error := (case error of None \<Rightarrow> wt_error t | Some _ \<Rightarrow> error),
       wt_completed_at := (if mark_completed then Some now else wt_completed_at t)\<rparr>"

definition update_status ::
  "int \<Rightarrow> string \<Rightarrow> WorkTaskStatus \<Rightarrow> string option \<Rightarrow> string option \<Rightarrow> bool \<Rightarrow> WorkTask list \<Rightarrow> WorkTask list \<times> WorkTask option" where
  "update_status now task_id status result error mark_completed tasks =
    (case get_by_task_id tasks task_id of
       None \<Rightarrow> (tasks, None)
     | Some row \<Rightarrow> (update_task task_id (set_fields now status result error mark_completed) tasks,
                   Some (set_fields now status result error mark_completed row)))"

section \<open>The queue\<close>

definition enqueue ::
  "int \<Rightarrow> string \<Rightarrow> string \<Rightarrow> string \<Rightarrow> string \<Rightarrow> string \<Rightarrow> string option \<Rightarrow> string option \<Rightarrow> WorkTask list
    \<Rightarrow> (WorkTask list \<times> WorkTask) res" where
  "enqueue now task_id team_id role subtask origin parent_task_id session_id tasks =
    (let task = create_task now task_id team_id role subtask origin parent_task_id session_id in
     if task_id \<in> wt_task_id ` set tasks then Inl (RuntimeFailure ''IntegrityError'')
     else Inr (tasks @ [task], task))"

definition mark_in_progress :: "int \<Rightarrow> string \<Rightarrow> WorkTask list \<Rightarrow> WorkTask list \<times> WorkTask option" where
  "mark_in_progress now task_id = update_status now task_id IN_PROGRESS None None False"

definition block :: "int \<Rightarrow> string \<Rightarrow> string \<Rightarrow> WorkTask list \<Rightarrow> WorkTask list \<times> WorkTask option" where
  "block now task_id reason = update_status now task_id BLOCKED None (Some reason) False"

definition complete :: "int \<Rightarrow> string \<Rightarrow> string \<Rightarrow> WorkTask list \<Rightarrow> WorkTask list \<times> WorkTask option" where
  "complete now task_id result = update_status now task_id DONE (Some result) None True"

definition fail :: "int \<Rightarrow> string \<Rightarrow> string \<Rightarrow> WorkTask list \<Rightarrow> WorkTask list \<times> WorkTask option" where
  "fail now task_id err = update_status now task_id FAILED None (Some err) True"

definition board :: "string \<Rightarrow> WorkTask list \<Rightarrow> (string, WorkTask list) dict" where
  "board team_id tasks =
    (let ts = sort_desc wt_created_at (tasks_for_team tasks team_id) in
     foldl (\<lambda>columns t. dset (status_value (wt_status t)) (dget_or columns (status_value (wt_status t)) [] @ [t]) columns)
       (map (\<lambda>s. (status_value s, [])) all_statuses) ts)"

section \<open>The audit log\<close>

definition record_event ::
  "int \<Rightarrow> string \<Rightarrow> string \<Rightarrow> AuditEventType \<Rightarrow> string \<Rightarrow> string \<Rightarrow> string option \<Rightarrow> string option \<Rightarrow> string option
    \<Rightarrow> AuditEvent list \<Rightarrow> AuditEvent list" where
  "record_event now event_id team_id event_type actor summary recipient session_id task_id lg =
     lg @ [\<lparr> ae_event_id = event_id, ae_team_id = team_id, ae_session_id = session_id, ae_task_id = task_id,
              ae_event_type = event_type, ae_actor = actor, ae_recipient = recipient, ae_summary = summary, ae_at = now \<rparr>]"

definition timeline :: "string \<Rightarrow> string option \<Rightarrow> string option \<Rightarrow> nat \<Rightarrow> AuditEvent list \<Rightarrow> AuditEvent list" where
  "timeline team_id session_id task_id limit lg =
     rev (take limit (sort_desc ae_at (filter (\<lambda>e. ae_team_id e = team_id \<and>
        (case session_id of None \<Rightarrow> True | Some s \<Rightarrow> ae_session_id e = Some s) \<and>
        (case task_id of None \<Rightarrow> True | Some t \<Rightarrow> ae_task_id e = Some t)) lg)))"

section \<open>The worker\<close>

record TickResult =
  tk_claimed :: bool
  tk_task :: "WorkTask option"
  tk_error :: "string option"

definition city_event :: "WorkTask \<Rightarrow> string \<Rightarrow> string option \<Rightarrow> string option \<Rightarrow> CityEvent" where
  "city_event task outcome result error =
    \<lparr> ce_event_type = ''workqueue.task.'' @ outcome,
      ce_payload = [(''task_id'', wt_task_id task), (''team_id'', wt_team_id task), (''role'', wt_role task),
          (''subtask'', take 500 (wt_subtask task))] @
        (case result of None \<Rightarrow> [] | Some r \<Rightarrow> [(''result'', take 1000 r)]) @
        (case error of None \<Rightarrow> [] | Some e \<Rightarrow> [(''error'', take 1000 e)]) \<rparr>"

definition session_or_task :: "WorkTask \<Rightarrow> string" where
  "session_or_task t = (case wt_session_id t of None \<Rightarrow> wt_task_id t | Some s \<Rightarrow> if s = [] then wt_task_id t else s)"

definition tick ::
  "(string \<Rightarrow> string \<Rightarrow> string + string) \<Rightarrow> int \<Rightarrow> string \<Rightarrow> string \<Rightarrow> string option \<Rightarrow> string \<Rightarrow> wq_db \<Rightarrow> wq_db \<times> TickResult" where
  "tick run now eid1 eid2 worker_role team_id db =
    (case claim_next now team_id worker_role (wq_tasks db) of
       (ts, None) \<Rightarrow> (db, \<lparr> tk_claimed = False, tk_task = None, tk_error = None \<rparr>)
     | (ts, Some task) \<Rightarrow>
        let tid = wt_task_id task;
            lg = record_event now eid1 team_id STATUS_CHANGE (wt_role task) (''claimed task '' @ tid) None
                    (wt_session_id task) (Some tid) (wq_audit db);
            ts = fst (mark_in_progress now tid ts)
        in case run (wt_subtask task) (session_or_task task) of
             Inr response \<Rightarrow>
               (let ts = fst (complete now tid response ts);
                    lg = record_event now eid2 team_id STATUS_CHANGE (wt_role task) (''completed task '' @ tid) None
                      (Some (session_or_task task)) (Some tid) lg
                in (db\<lparr>wq_tasks := ts, wq_audit := lg,
                       wq_events := wq_events db @ [city_event task ''completed'' (Some response) None]\<rparr>,
                    \<lparr> tk_claimed = True, tk_task = get_by_task_id ts tid, tk_error = None \<rparr>))
           | Inl exc \<Rightarrow>
               (let ts = fst (fail now tid exc ts);
                    lg = record_event now eid2 team_id STATUS_CHANGE (wt_role task)
                      (''failed task '' @ tid @ '': '' @ exc) None (wt_session_id task) (Some tid) lg
                in (db\<lparr>wq_tasks := ts, wq_audit := lg,
                       wq_events := wq_events db @ [city_event task ''failed'' None (Some exc)]\<rparr>,
                    \<lparr> tk_claimed = True, tk_task = get_by_task_id ts tid, tk_error = Some exc \<rparr>)))"

text \<open>
  One turn of \<open>run_forever\<close>, with what the environment decides in that turn: whether \<open>stop\<close> was
  called, whether the availability check passes, the time and the event identifiers. The loop runs
  over the turns and ends at the first one that finds the stop flag set.
\<close>

record turn =
  tn_stop :: bool
  tn_available :: bool
  tn_now :: int
  tn_eid1 :: string
  tn_eid2 :: string

fun run_forever ::
  "(string \<Rightarrow> string \<Rightarrow> string + string) \<Rightarrow> string option \<Rightarrow> string \<Rightarrow> turn list \<Rightarrow> wq_db \<Rightarrow> wq_db" where
  "run_forever run worker_role team_id [] db = db"
| "run_forever run worker_role team_id (u # us) db =
    (if tn_stop u then db
     else if \<not> tn_available u then run_forever run worker_role team_id us db
     else run_forever run worker_role team_id us
       (fst (tick run (tn_now u) (tn_eid1 u) (tn_eid2 u) worker_role team_id db)))"

section \<open>The handlers\<close>

datatype http_error = HTTP nat string

definition enqueue_task ::
  "int \<Rightarrow> string \<Rightarrow> string \<Rightarrow> string \<Rightarrow> string option \<Rightarrow> string \<Rightarrow> string option \<Rightarrow> string \<Rightarrow> wq_db \<Rightarrow> (wq_db \<times> WorkTask) res" where
  "enqueue_task now task_id event_id subtask body_role origin session_id team_id db =
    (if subtask = [] then Inl ValidationError
     else let (nodes, role) = (case body_role of
            Some r \<Rightarrow> (wq_nodes db, r)
          | None \<Rightarrow> (case top_of_chart team_id (wq_nodes db) of
                 (t, Some n) \<Rightarrow> (t, o_role n) | (t, None) \<Rightarrow> (t, ''coordinator'')))
     in rbind (enqueue now task_id team_id role subtask origin None session_id (wq_tasks db)) (\<lambda>(ts, task).
       Inr (db\<lparr>wq_tasks := ts, wq_nodes := nodes,
          wq_audit := record_event now event_id team_id INSTRUCTION origin (take 280 subtask) (Some role)
            session_id (Some task_id) (wq_audit db)\<rparr>, task)))"

definition get_task :: "string \<Rightarrow> wq_db \<Rightarrow> http_error + WorkTask" where
  "get_task task_id db = (case get_by_task_id (wq_tasks db) task_id of
     None \<Rightarrow> Inl (HTTP 404 ''Task not found'') | Some t \<Rightarrow> Inr t)"

definition tick_single_task ::
  "(string \<Rightarrow> string \<Rightarrow> string + string) \<Rightarrow> bool \<Rightarrow> int \<Rightarrow> string \<Rightarrow> string \<Rightarrow> string \<Rightarrow> string \<Rightarrow> wq_db
    \<Rightarrow> wq_db \<times> (http_error + WorkTask)" where
  "tick_single_task run llm_available now eid1 eid2 task_id team_id db =
    (case get_by_task_id (wq_tasks db) task_id of
       None \<Rightarrow> (db, Inl (HTTP 404 ''Task not found''))
     | Some task \<Rightarrow>
        if wt_status task \<noteq> QUEUED then (db, Inr task)
        else if \<not> llm_available then (db, Inl (HTTP 503 ''No LLM provider available''))
        else (case tick run now eid1 eid2 (Some (wt_role task)) team_id db of
            (db', r) \<Rightarrow> (case tk_task r of
               None \<Rightarrow> (db', Inl (HTTP 409 ''Task was claimed by another worker before this tick''))
             | Some t \<Rightarrow> (db', Inr t))))"

section \<open>Laws of the repository\<close>

definition ids_ok :: "WorkTask list \<Rightarrow> bool" where
  "ids_ok tasks \<longleftrightarrow> distinct (map wt_task_id tasks)"

lemma task_id_updates [simp]:
  "wt_task_id (claim now t) = wt_task_id t" "wt_task_id (requeue t) = wt_task_id t"
  "wt_task_id (set_fields now s r e c t) = wt_task_id t"
  by (simp_all add: claim_def requeue_def set_fields_def)

lemma map_ids_if: "(\<And>t. wt_task_id (f t) = wt_task_id t) \<Longrightarrow> map wt_task_id (map (\<lambda>t. if P t then f t else t) ts) = map wt_task_id ts"
  by simp

lemma ids_update_task: "(\<And>t. wt_task_id (f t) = wt_task_id t) \<Longrightarrow> map wt_task_id (update_task i f ts) = map wt_task_id ts"
  unfolding update_task_def by (rule map_ids_if)

lemma ids_recover: "map wt_task_id (recover_stale now team ts) = map wt_task_id ts"
  unfolding recover_stale_def by (rule map_ids_if) simp

lemma ids_ok_unique: "ids_ok ts \<Longrightarrow> t \<in> set ts \<Longrightarrow> u \<in> set ts \<Longrightarrow> wt_task_id t = wt_task_id u \<Longrightarrow> t = u"
  by (auto simp: ids_ok_def distinct_map inj_on_def)

lemma get_by_task_id_in: "ids_ok ts \<Longrightarrow> t \<in> set ts \<Longrightarrow> get_by_task_id ts (wt_task_id t) = Some t"
proof -
  assume "ids_ok ts" "t \<in> set ts"
  then obtain u where "get_by_task_id ts (wt_task_id t) = Some u" "u \<in> set ts" "wt_task_id u = wt_task_id t"
    unfolding get_by_task_id_def by (cases "find (\<lambda>u. wt_task_id u = wt_task_id t) ts") (auto simp: find_None_iff find_Some_iff)
  then show ?thesis using ids_ok_unique [OF \<open>ids_ok ts\<close> _ \<open>t \<in> set ts\<close>] by auto
qed

lemma get_by_task_id_None: "get_by_task_id ts i = None \<longleftrightarrow> i \<notin> wt_task_id ` set ts"
  by (auto simp: get_by_task_id_def find_None_iff)

lemma update_task_comp:
  "(\<And>t. wt_task_id (g t) = wt_task_id t) \<Longrightarrow> update_task i f (update_task i g ts) = update_task i (f \<circ> g) ts"
  by (simp add: update_task_def)

lemma update_status_present:
  "i \<in> wt_task_id ` set ts \<Longrightarrow> fst (update_status now i s r e c ts) = update_task i (set_fields now s r e c) ts"
  by (cases "get_by_task_id ts i") (auto simp: update_status_def get_by_task_id_None)

section \<open>Claiming\<close>

definition ready :: "int \<Rightarrow> string \<Rightarrow> string option \<Rightarrow> WorkTask \<Rightarrow> bool" where
  "ready now team role t \<longleftrightarrow> wt_team_id t = team \<and> (wt_status t = QUEUED \<or> stale now team t)
     \<and> (case role of None \<Rightarrow> True | Some r \<Rightarrow> wt_role t = r)"

definition recovered :: "int \<Rightarrow> string \<Rightarrow> WorkTask \<Rightarrow> WorkTask" where
  "recovered now team t = (if stale now team t then requeue t else t)"

lemma recovered_simps [simp]:
  "wt_task_id (recovered now team t) = wt_task_id t" "wt_created_at (recovered now team t) = wt_created_at t"
  by (simp_all add: recovered_def requeue_def)

lemma claimable_recovered: "claimable team role (recovered now team t) \<longleftrightarrow> ready now team role t"
  by (auto simp: claimable_def recovered_def ready_def requeue_def stale_def split: option.splits)

lemma recover_stale_map: "recover_stale now team ts = map (recovered now team) ts"
  by (simp add: recover_stale_def recovered_def)

lemma oldest_first:
  assumes "sort_key f xs = y # ys"
  shows "y \<in> set xs \<and> list_all (\<lambda>x. f y \<le> f x) xs"
proof -
  have "set xs = insert y (set ys)" using assms by (metis list.simps(15) set_sort)
  moreover have "sorted (map f (y # ys))" using assms by (metis sorted_sort_key)
  ultimately show ?thesis by (auto simp: list_all_iff)
qed

text \<open>
  C15. Claiming takes the oldest ready task of the team (queued, or claimed more than 600 seconds
  ago) for the worker's role, marks it claimed at the current time, puts every other stale task of
  the team back into the queue and changes nothing else; it claims nothing only when no task is
  ready.
\<close>

theorem claim_next_oldest:
  assumes "ids_ok tasks"
  shows "(case claim_next now team role tasks of
      (ts, None) \<Rightarrow> filter (ready now team role) tasks = []
    | (ts, Some r) \<Rightarrow> (\<exists>t. t \<in> set tasks \<and> ready now team role t \<and> r = claim now (recovered now team t)
        \<and> list_all (\<lambda>u. wt_created_at t \<le> wt_created_at u) (filter (ready now team role) tasks)
        \<and> ts = map (\<lambda>u. if u = t then r else recovered now team u) tasks))"
proof (cases "sort_key wt_created_at (filter (claimable team role) (recover_stale now team tasks))")
  case Nil
  then have "filter (claimable team role) (recover_stale now team tasks) = []"
    by (metis length_0_conv length_sort)
  then have "filter (ready now team role) tasks = []"
    by (simp add: recover_stale_map filter_map claimable_recovered comp_def)
  then show ?thesis using Nil by (simp add: claim_next_def)
next
  case (Cons row rest)
  have "row \<in> set (filter (claimable team role) (recover_stale now team tasks))"
    and old: "list_all (\<lambda>x. wt_created_at row \<le> wt_created_at x) (filter (claimable team role) (recover_stale now team tasks))"
    using oldest_first [OF Cons] by auto
  then obtain t where t: "t \<in> set tasks" "row = recovered now team t" "ready now team role t"
    by (auto simp: recover_stale_map claimable_recovered)
  have "update_task (wt_task_id row) (claim now) (recover_stale now team tasks)
      = map (\<lambda>u. if u = t then claim now row else recovered now team u) tasks"
    using t ids_ok_unique [OF assms _ t(1)] by (auto simp: update_task_def recover_stale_map)
  moreover have "list_all (\<lambda>u. wt_created_at t \<le> wt_created_at u) (filter (ready now team role) tasks)"
    using old t by (auto simp: list_all_iff recover_stale_map claimable_recovered)
  ultimately show ?thesis using Cons t by (auto simp: claim_next_def)
qed

definition sample_tasks :: "WorkTask list" where
  "sample_tasks =
    [create_task 20 ''b'' ''default'' ''analyst'' ''two'' ''user'' None None,
     (create_task 10 ''a'' ''default'' ''analyst'' ''one'' ''user'' None None)\<lparr>wt_status := IN_PROGRESS, wt_claimed_at := Some 11\<rparr>]"

lemma sample_tasks_ok: "ids_ok sample_tasks"
  by (simp add: ids_ok_def sample_tasks_def create_task_def)

theorem claim_next_oldest_witness:
  "ids_ok sample_tasks \<and>
   (case claim_next 700000000 ''default'' None sample_tasks of
      (ts, None) \<Rightarrow> filter (ready 700000000 ''default'' None) sample_tasks = []
    | (ts, Some r) \<Rightarrow> (\<exists>t. t \<in> set sample_tasks \<and> ready 700000000 ''default'' None t \<and> r = claim 700000000 (recovered 700000000 ''default'' t)
        \<and> list_all (\<lambda>u. wt_created_at t \<le> wt_created_at u) (filter (ready 700000000 ''default'' None) sample_tasks)
        \<and> ts = map (\<lambda>u. if u = t then r else recovered 700000000 ''default'' u) sample_tasks))"
  using claim_next_oldest [OF sample_tasks_ok, of 700000000 "''default''" None] sample_tasks_ok by simp

text \<open>
  A stale task that is claimed again and completes keeps the error text of its recovery: the
  finished row is DONE and still reads \<open>re-queued: stale claim\<close>, because a status update writes the
  error only when it is given one.
\<close>

theorem done_task_keeps_stale_error:
  "(case claim_next 700000000 ''default'' None sample_tasks of (ts, r) \<Rightarrow>
     map_option (\<lambda>t. (wt_task_id t, wt_status t, wt_result t, wt_error t)) (snd (complete 700000001 ''a'' ''ok'' ts)))
   = Some (''a'', DONE, Some ''ok'', Some ''re-queued: stale claim'')"
  by code_simp

section \<open>The board\<close>

lemma status_value_inj: "status_value s = status_value s' \<longleftrightarrow> s = s'"
  by (cases s; cases s') simp_all

lemma board_fold:
  "dget (foldl (\<lambda>columns t. dset (status_value (wt_status t)) (dget_or columns (status_value (wt_status t)) [] @ [t]) columns) d ts)
     (status_value s) =
   (case filter (\<lambda>t. wt_status t = s) ts of [] \<Rightarrow> dget d (status_value s)
    | us \<Rightarrow> Some (dget_or d (status_value s) [] @ us))"
proof (induction ts rule: rev_induct)
  case (snoc t ts)
  then show ?case
    by (auto simp: dget_dset status_value_inj dget_or_def split: list.splits option.splits)
qed simp

text \<open>
  The board shows every task of the team exactly once: the column of a status lists exactly the
  team's tasks with that status, newest first.
\<close>

theorem board_partition:
  "dget (board team tasks) (status_value s) =
     Some (filter (\<lambda>t. wt_status t = s) (sort_desc wt_created_at (tasks_for_team tasks team)))
   \<and> set (sort_desc wt_created_at (tasks_for_team tasks team)) = {t \<in> set tasks. wt_team_id t = team}
   \<and> sorted_wrt (\<lambda>a b. wt_created_at b \<le> wt_created_at a) (sort_desc wt_created_at (tasks_for_team tasks team))"
proof -
  have "dget (map (\<lambda>s. (status_value s, [])) all_statuses) (status_value s) = Some ([] :: WorkTask list)"
    by (cases s) (simp_all add: all_statuses_def dget_def)
  then have "dget (board team tasks) (status_value s) =
     Some (filter (\<lambda>t. wt_status t = s) (sort_desc wt_created_at (tasks_for_team tasks team)))"
    unfolding board_def Let_def board_fold by (simp add: dget_or_def split: list.split)
  then show ?thesis by (auto simp: tasks_for_team_def sorted_sort_desc)
qed

section \<open>Transactions\<close>

text \<open>What a tick makes of the task it claims.\<close>

definition finish :: "int \<Rightarrow> string + string \<Rightarrow> WorkTask \<Rightarrow> WorkTask" where
  "finish now out t = (case out of
     Inr r \<Rightarrow> t\<lparr>wt_status := DONE, wt_result := Some r, wt_claimed_at := Some now, wt_completed_at := Some now\<rparr>
   | Inl e \<Rightarrow> t\<lparr>wt_status := FAILED, wt_error := Some e, wt_claimed_at := Some now, wt_completed_at := Some now\<rparr>)"

definition task_settled :: "WorkTask \<Rightarrow> bool" where
  "task_settled t = (case wt_status t of
     QUEUED \<Rightarrow> wt_result t = None \<and> wt_error t = None \<and> wt_claimed_at t = None \<and> wt_completed_at t = None
   | DONE \<Rightarrow> wt_result t \<noteq> None \<and> wt_error t = None \<and> wt_completed_at t \<noteq> None
   | FAILED \<Rightarrow> wt_result t = None \<and> wt_error t \<noteq> None \<and> wt_completed_at t \<noteq> None
   | _ \<Rightarrow> False)"

definition settled :: "wq_db \<Rightarrow> bool" where
  "settled db \<longleftrightarrow> ids_ok (wq_tasks db) \<and> list_all task_settled (wq_tasks db) \<and> org_ok (wq_nodes db)"

inductive wq_step :: "(string \<Rightarrow> string \<Rightarrow> string + string) \<Rightarrow> wq_db \<Rightarrow> wq_db \<Rightarrow> bool" for run where
  enqueue: "enqueue_task now tid eid subtask body_role origin sid team db = Inr (db', t) \<Longrightarrow> wq_step run db db'"
| tick: "wq_step run db (fst (tick run now eid1 eid2 worker_role team db))"
| tick_single: "wq_step run db (fst (tick_single_task run avail now eid1 eid2 tid team db))"
| upsert: "wq_step run db (db\<lparr>wq_nodes := fst (upsert_node team n (wq_nodes db))\<rparr>)"
| deactivate: "wq_step run db (db\<lparr>wq_nodes := deactivate team role (wq_nodes db)\<rparr>)"

definition wq_empty :: "wq_db \<Rightarrow> bool" where
  "wq_empty db \<longleftrightarrow> wq_tasks db = [] \<and> wq_nodes db = []"

lemma finish_simps [simp]:
  "wt_task_id (finish now out t) = wt_task_id t" "wt_team_id (finish now out t) = wt_team_id t"
  "wt_role (finish now out t) = wt_role t" "wt_status (finish now out t) \<in> {DONE, FAILED}"
  by (simp_all add: finish_def split: sum.split)

lemma finish_settled: "task_settled t \<Longrightarrow> wt_status t = QUEUED \<Longrightarrow> task_settled (finish now out t)"
  by (simp add: task_settled_def finish_def split: sum.split)

lemma settled_not_stale: "task_settled t \<Longrightarrow> \<not> stale now team t"
  by (auto simp: task_settled_def stale_def)

lemma recover_settled: "list_all task_settled ts \<Longrightarrow> recover_stale now team ts = ts"
  by (auto simp: recover_stale_def list_all_iff settled_not_stale intro: map_idI)

lemma ready_settled: "task_settled t \<Longrightarrow> ready now team role t \<longleftrightarrow> claimable team role t"
  by (auto simp: ready_def claimable_def settled_not_stale)

definition oldest_claimable :: "string \<Rightarrow> string option \<Rightarrow> WorkTask list \<Rightarrow> WorkTask \<Rightarrow> bool" where
  "oldest_claimable team role ts t \<longleftrightarrow> t \<in> set ts \<and> claimable team role t \<and>
     list_all (\<lambda>u. wt_created_at t \<le> wt_created_at u) (filter (claimable team role) ts)"

lemma claim_next_settled:
  assumes "ids_ok ts" "list_all task_settled ts"
  shows "claim_next now team role ts = (ts, None) \<and> filter (claimable team role) ts = []
    \<or> (\<exists>t. oldest_claimable team role ts t \<and>
        claim_next now team role ts = (update_task (wt_task_id t) (claim now) ts, Some (claim now t)))"
proof (cases "sort_key wt_created_at (filter (claimable team role) ts)")
  case Nil
  then have "filter (claimable team role) ts = []" by (metis length_0_conv length_sort)
  then show ?thesis using Nil assms by (simp add: claim_next_def recover_settled)
next
  case (Cons t rest)
  then show ?thesis
    using oldest_first [OF Cons] assms by (auto simp: claim_next_def recover_settled oldest_claimable_def)
qed

lemma update_task_cong:
  "ids_ok ts \<Longrightarrow> t \<in> set ts \<Longrightarrow> f t = g t \<Longrightarrow> update_task (wt_task_id t) f ts = update_task (wt_task_id t) g ts"
  by (auto simp: update_task_def dest: ids_ok_unique)

lemma update_task_present: "(\<And>u. wt_task_id (f u) = wt_task_id u) \<Longrightarrow> t \<in> set ts \<Longrightarrow> wt_task_id t \<in> wt_task_id ` set (update_task i f ts)"
  using ids_update_task [of f i ts] by (metis image_set imageI)

lemma claim_work_finish:
  fixes ts :: "WorkTask list" and t :: WorkTask and now :: int
  assumes "ids_ok ts" "t \<in> set ts" "task_settled t" "wt_status t = QUEUED"
  defines "work \<equiv> fst (mark_in_progress now (wt_task_id t) (update_task (wt_task_id t) (claim now) ts))"
  shows "fst (complete now (wt_task_id t) r work) = update_task (wt_task_id t) (finish now (Inr r)) ts"
    and "fst (fail now (wt_task_id t) e work) = update_task (wt_task_id t) (finish now (Inl e)) ts"
proof -
  have w: "work = update_task (wt_task_id t) (set_fields now IN_PROGRESS None None False \<circ> claim now) ts"
    using assms(2) by (simp add: work_def mark_in_progress_def update_status_present update_task_present update_task_comp)
  have p: "wt_task_id t \<in> wt_task_id ` set work"
    unfolding w using assms(2) by (intro update_task_present) auto
  have f: "(set_fields now DONE (Some r) None True \<circ> (set_fields now IN_PROGRESS None None False \<circ> claim now)) t = finish now (Inr r) t"
    "(set_fields now FAILED None (Some e) True \<circ> (set_fields now IN_PROGRESS None None False \<circ> claim now)) t = finish now (Inl e) t"
    using assms(3,4) by (simp_all add: finish_def set_fields_def claim_def)
  have u: "fst (update_status now (wt_task_id t) s x y c work) =
      update_task (wt_task_id t) (set_fields now s x y c \<circ> (set_fields now IN_PROGRESS None None False \<circ> claim now)) ts" for s x y c
    unfolding update_status_present [OF p] unfolding w by (rule update_task_comp) simp
  show "fst (complete now (wt_task_id t) r work) = update_task (wt_task_id t) (finish now (Inr r)) ts"
    unfolding complete_def u using f(1) by (intro update_task_cong [OF assms(1,2)])
  show "fst (fail now (wt_task_id t) e work) = update_task (wt_task_id t) (finish now (Inl e)) ts"
    unfolding fail_def u using f(2) by (intro update_task_cong [OF assms(1,2)])
qed

lemma tick_settled:
  assumes "ids_ok (wq_tasks db)" "list_all task_settled (wq_tasks db)"
  shows "(fst (tick run now e1 e2 role team db) = db \<and> \<not> tk_claimed (snd (tick run now e1 e2 role team db))
      \<and> filter (claimable team role) (wq_tasks db) = [])
    \<or> (\<exists>t. oldest_claimable team role (wq_tasks db) t \<and>
        wq_tasks (fst (tick run now e1 e2 role team db)) =
          update_task (wt_task_id t) (finish now (run (wt_subtask t) (session_or_task t))) (wq_tasks db)
        \<and> wq_nodes (fst (tick run now e1 e2 role team db)) = wq_nodes db
        \<and> tk_claimed (snd (tick run now e1 e2 role team db)))"
  using claim_next_settled [OF assms, of now team role]
proof (elim disjE conjE exE)
  fix t assume o: "oldest_claimable team role (wq_tasks db) t"
    and c: "claim_next now team role (wq_tasks db) = (update_task (wt_task_id t) (claim now) (wq_tasks db), Some (claim now t))"
  have s: "t \<in> set (wq_tasks db)" "task_settled t" "wt_status t = QUEUED"
    using o assms(2) by (auto simp: oldest_claimable_def list_all_iff claimable_def)
  have "wt_subtask (claim now t) = wt_subtask t" "session_or_task (claim now t) = session_or_task t"
    by (simp_all add: claim_def session_or_task_def split: option.split)
  then show ?thesis
    using o c claim_work_finish [OF assms(1) s] by (auto simp: tick_def Let_def split: sum.splits)
qed (simp add: tick_def)

lemma oldest_claimableD: "oldest_claimable team role ts t \<Longrightarrow> t \<in> set ts \<and> wt_status t = QUEUED"
  by (simp add: oldest_claimable_def claimable_def)

lemma settled_update:
  assumes "settled db" "oldest_claimable team role (wq_tasks db) t"
    and "wq_tasks db' = update_task (wt_task_id t) (finish now out) (wq_tasks db)" "wq_nodes db' = wq_nodes db"
  shows "settled db'"
proof -
  have "task_settled (finish now out u)" if "u \<in> set (wq_tasks db)" "wt_task_id u = wt_task_id t" for u
    using that assms(1) oldest_claimableD [OF assms(2)] ids_ok_unique [of "wq_tasks db" u t]
    by (auto simp: settled_def list_all_iff intro: finish_settled)
  then have "list_all task_settled (wq_tasks db')"
    using assms(1) unfolding assms(3) by (auto simp: settled_def update_task_def list_all_iff)
  moreover have "ids_ok (wq_tasks db')"
    using assms(1) unfolding assms(3) ids_ok_def by (simp add: ids_update_task settled_def ids_ok_def)
  ultimately show ?thesis using assms(1,4) by (simp add: settled_def)
qed

lemma settled_tick: "settled db \<Longrightarrow> settled (fst (tick run now e1 e2 role team db))"
  using tick_settled [of db run now e1 e2 role team] settled_update by (metis settled_def)

lemma enqueue_task_Inr:
  assumes "enqueue_task now tid eid subtask body_role origin sid team db = Inr (db', t)"
  shows "tid \<notin> wt_task_id ` set (wq_tasks db) \<and> wq_tasks db' = wq_tasks db @ [t] \<and> wt_task_id t = tid \<and> task_settled t
    \<and> wt_status t = QUEUED \<and> wq_nodes db' \<in> {wq_nodes db, ensure_seeded team (wq_nodes db)}"
  using assms unfolding enqueue_task_def enqueue_def create_task_def
  by (auto simp: Let_def rbind_eq_Inr task_settled_def top_of_chart_def chart_nodes_def
      split: if_splits option.splits prod.splits)

lemma settled_step: "wq_step run db db' \<Longrightarrow> settled db \<Longrightarrow> settled db'"
proof (induction rule: wq_step.induct)
  case (enqueue now tid eid subtask body_role origin sid team db db' t)
  then show ?case using enqueue_task_Inr [OF enqueue(1)] org_ok_seeded [of "wq_nodes db" team]
    by (auto simp: settled_def ids_ok_def)
next
  case (tick_single db avail now eid1 eid2 tid team)
  then show ?case using settled_tick [OF tick_single(1), of run now eid1 eid2 _ team]
    by (auto simp: tick_single_task_def case_prod_beta split: option.splits)
qed (simp_all add: settled_tick, simp_all add: settled_def org_ok_upsert org_ok_deactivate upsert_node_def)

interpretation wq: invariant_system "wq_step run" wq_empty settled
proof
  show "wq_empty db \<Longrightarrow> settled db" for db by (simp add: wq_empty_def settled_def ids_ok_def org_ok_def)
  show "wq_step run db db' \<Longrightarrow> settled db \<Longrightarrow> settled db'" for db db' by (rule settled_step)
qed

text \<open>
  C16. In every state the handlers and the worker can reach from an empty database, task ids are
  unique and no task is left claimed or in progress: each is queued and untouched, done with a
  result and a completion time, or failed with an error and a completion time.
\<close>

theorem reachable_tasks_settled:
  assumes "wq_empty db" "(wq_step run)\<^sup>*\<^sup>* db db'"
  shows "settled db'"
  using assms by (rule wq.reachable_inv)

definition empty_db :: wq_db where
  "empty_db = \<lparr> wq_tasks = [], wq_audit = [], wq_events = [], wq_nodes = [] \<rparr>"

definition sample_run :: "string \<Rightarrow> string \<Rightarrow> string + string" where
  "sample_run subtask session = (if subtask = ''boom'' then Inl ''no model'' else Inr (''re: '' @ subtask))"

definition sample_db :: wq_db where
  "sample_db = empty_db
    \<lparr> wq_tasks := [create_task 10 ''a'' ''default'' ''analyst'' ''hello'' ''user'' None None],
      wq_audit := record_event 10 ''e'' ''default'' INSTRUCTION ''user'' ''hello'' (Some ''analyst'') None (Some ''a'') [] \<rparr>"

definition sample_done :: wq_db where
  "sample_done = fst (tick sample_run 20 ''e1'' ''e2'' None ''default'' sample_db)"

lemma sample_steps:
  "wq_empty empty_db" "(wq_step sample_run)\<^sup>*\<^sup>* empty_db sample_db" "(wq_step sample_run)\<^sup>*\<^sup>* sample_db sample_done"
proof -
  show "wq_empty empty_db" by (simp add: wq_empty_def empty_db_def)
  have "enqueue_task 10 ''a'' ''e'' ''hello'' (Some ''analyst'') ''user'' None ''default'' empty_db
      = Inr (sample_db, create_task 10 ''a'' ''default'' ''analyst'' ''hello'' ''user'' None None)"
    by code_simp
  then show "(wq_step sample_run)\<^sup>*\<^sup>* empty_db sample_db" by (intro r_into_rtranclp) (rule wq_step.enqueue)
  show "(wq_step sample_run)\<^sup>*\<^sup>* sample_db sample_done"
    unfolding sample_done_def by (intro r_into_rtranclp) (rule wq_step.tick)
qed

lemma sample_done_tasks:
  "map (\<lambda>t. (wt_task_id t, wt_status t, wt_result t)) (wq_tasks sample_done) = [(''a'', DONE, Some ''re: hello'')]"
  by code_simp

theorem reachable_tasks_settled_witness:
  "wq_empty empty_db \<and> (wq_step sample_run)\<^sup>*\<^sup>* empty_db sample_done \<and> settled sample_done
   \<and> map wt_status (wq_tasks sample_done) = [DONE]"
  using reachable_tasks_settled [OF sample_steps(1) rtranclp_trans [OF sample_steps(2,3)]]
    sample_steps sample_done_tasks rtranclp_trans [OF sample_steps(2,3)] by auto

section \<open>Finished tasks never change\<close>

definition finished_row :: "wq_db \<Rightarrow> WorkTask \<Rightarrow> bool" where
  "finished_row db t \<longleftrightarrow> t \<in> set (wq_tasks db) \<and> wt_status t \<in> {DONE, FAILED}"

lemma finished_tick:
  assumes "settled db" "finished_row db t"
  shows "finished_row (fst (tick run now e1 e2 role team db)) t"
proof -
  have u: "t \<in> set (update_task (wt_task_id u) f (wq_tasks db))" if "oldest_claimable team role (wq_tasks db) u" for u f
  proof -
    have "wt_task_id t \<noteq> wt_task_id u"
      using assms oldest_claimableD [OF that] ids_ok_unique [of "wq_tasks db" t u]
      by (auto simp: settled_def finished_row_def)
    then show ?thesis using assms(2) by (force simp: update_task_def finished_row_def)
  qed
  show ?thesis
    using tick_settled [of db run now e1 e2 role team] assms u by (auto simp: settled_def finished_row_def)
qed

interpretation wq_finished: stable_fact "wq_step run" wq_empty settled finished_row
proof
  fix db db' t assume "settled db" "wq_step run db db'" "finished_row db t"
  from this(2,1,3) show "finished_row db' t"
  proof (induction rule: wq_step.induct)
    case (enqueue now tid eid subtask body_role origin sid team db db' u)
    then show ?case using enqueue_task_Inr [OF enqueue(1)] by (simp add: finished_row_def)
  next
    case (tick_single db avail now eid1 eid2 tid team)
    then show ?case using finished_tick [OF tick_single, of run now eid1 eid2 _ team]
      by (auto simp: tick_single_task_def case_prod_beta split: option.splits)
  qed (simp_all add: finished_tick, simp_all add: finished_row_def)
qed

text \<open>
  C34. A finished task is never run or changed again: once a task is done or failed, its row stays
  in the table exactly as it is in every later state.
\<close>

theorem finished_tasks_immutable:
  assumes "wq_empty db0" "(wq_step run)\<^sup>*\<^sup>* db0 db" "t \<in> set (wq_tasks db)" "wt_status t \<in> {DONE, FAILED}"
    and "(wq_step run)\<^sup>*\<^sup>* db db'"
  shows "t \<in> set (wq_tasks db')"
  using wq_finished.steps_stable [OF assms(5), of t] wq.reachable_inv [OF assms(1,2)] assms(3,4)
  by (auto simp: finished_row_def)

theorem finished_tasks_immutable_witness:
  "\<exists>t. wt_status t \<in> {DONE, FAILED} \<and> t \<in> set (wq_tasks sample_done)
     \<and> t \<in> set (wq_tasks (fst (tick sample_run 30 ''e3'' ''e4'' None ''default'' sample_done)))"
proof -
  obtain t where t: "t \<in> set (wq_tasks sample_done)" "wt_status t \<in> {DONE, FAILED}"
    using sample_done_tasks by auto
  have "(wq_step sample_run)\<^sup>*\<^sup>* sample_done (fst (tick sample_run 30 ''e3'' ''e4'' None ''default'' sample_done))"
    by (intro r_into_rtranclp wq_step.tick)
  then show ?thesis
    using finished_tasks_immutable [OF sample_steps(1) rtranclp_trans [OF sample_steps(2,3)] t] t by blast
qed

section \<open>Draining the queue\<close>

definition queued_count :: "string \<Rightarrow> string option \<Rightarrow> wq_db \<Rightarrow> nat" where
  "queued_count team role db = length (filter (claimable team role) (wq_tasks db))"

lemma filter_map_less:
  assumes "t \<in> set xs" "P t" "\<not> P (f t)" "\<And>x. x \<in> set xs \<Longrightarrow> P (f x) \<Longrightarrow> P x"
  shows "length (filter P (map f xs)) < length (filter P xs)"
  using assms
proof (induction xs)
  case (Cons x xs)
  have le: "length (filter P (map f ys)) \<le> length (filter P ys)" if "\<And>x. x \<in> set ys \<Longrightarrow> P (f x) \<Longrightarrow> P x" for ys
    using that by (induction ys) (auto simp: le_SucI)
  show ?case
  proof (cases "t = x")
    case True
    then show ?thesis using Cons.prems le [of xs] by (simp add: less_Suc_eq_le)
  next
    case False
    then show ?thesis using Cons by auto
  qed
qed simp

lemma queued_count_tick:
  assumes "settled db" "queued_count team role db \<noteq> 0"
  shows "queued_count team role (fst (tick run now e1 e2 role team db)) < queued_count team role db"
proof -
  have "filter (claimable team role) (wq_tasks db) \<noteq> []" using assms(2) by (simp add: queued_count_def)
  then obtain t out where t: "oldest_claimable team role (wq_tasks db) t"
    "wq_tasks (fst (tick run now e1 e2 role team db)) = update_task (wt_task_id t) (finish now out) (wq_tasks db)"
    using tick_settled [of db run now e1 e2 role team] assms(1) by (auto simp: settled_def)
  have "\<not> claimable team role (finish now out u)" for u using finish_simps(4) [of now out u] by (auto simp: claimable_def)
  then show ?thesis
    using t(1) unfolding queued_count_def t(2) update_task_def
    by (intro filter_map_less [of t]) (auto simp: oldest_claimable_def split: if_splits)
qed


definition sample_turn :: turn where
  "sample_turn = \<lparr> tn_stop = False, tn_available = True, tn_now = 20, tn_eid1 = ''e1'', tn_eid2 = ''e2'' \<rparr>"


section \<open>Forcing one task\<close>

text \<open>
  The handler that force-processes one specific task does not: it runs the oldest queued task
  of the same role, so with two queued analyst tasks a request for the younger one runs and returns
  the older, and the requested task stays queued.
\<close>

theorem tick_single_runs_another_task:
  "(let db = empty_db\<lparr>wq_tasks := [create_task 10 ''a'' ''default'' ''analyst'' ''one'' ''user'' None None,
                                    create_task 20 ''b'' ''default'' ''analyst'' ''two'' ''user'' None None]\<rparr>;
        (db', r) = tick_single_task sample_run True 30 ''e1'' ''e2'' ''b'' ''default'' db
    in map (\<lambda>t. (wt_task_id t, wt_status t)) (wq_tasks db') = [(''a'', DONE), (''b'', QUEUED)]
       \<and> map_sum (\<lambda>e. e) wt_task_id r = Inr ''a'')"
  by code_simp

end
