(* ===== verification/Sandbox.thy ===== *)
theory Sandbox
  imports Prelude
begin

text \<open>
  The path sandbox of the city commons: \<open>src/persola/orchestration/sandbox.py\<close> and
  \<open>src/persola/orchestration/commons_mirror.py\<close>.

  A path of the host file system is the list of its components. \<open>Path.resolve\<close> follows the symbolic
  links of the host, so it is an argument, \<open>resolve\<close>, and the theorems hold for every such function.
  Files are a dictionary from paths to contents; directories are implicit and operating-system
  errors of \<open>mkdir\<close> and \<open>write_text\<close> are left out. The child process of \<open>run_python_sandboxed\<close> is
  an argument too: it maps the files of its temporary directory and the script's path to an outcome;
  the time limit comes as the text that the report prints and in milliseconds.
\<close>

type_synonym path = "string list"
type_synonym files = "(path, string) dict"

section \<open>Sanitizing and resolving paths\<close>

definition path_parts :: "string \<Rightarrow> string list" where
  "path_parts raw = filter (\<lambda>p. p \<notin> {[], ''.''}) (py_split (CHR ''/'') raw)"

definition sanitize_workspace_path :: "string \<Rightarrow> string res" where
  "sanitize_workspace_path user_path =
    (if user_path = [] \<or> py_strip user_path = [] then Inl (SandboxError ''path is required'')
     else let raw = py_strip (py_replace_char (CHR 0x5C) (CHR ''/'') user_path) in
       if py_startswith raw ''/'' \<or> (1 < length raw \<and> raw ! 1 = CHR '':'')
       then Inl (SandboxError ''absolute paths are denied'')
       else let parts = path_parts raw in
         if parts = [] then Inl (SandboxError ''path is empty after normalization'')
         else if \<exists>p \<in> set parts. p = ''..'' then Inl (SandboxError ''path escape (..) is denied'')
         else if \<exists>p \<in> set parts. py_startswith p ''~'' then Inl (SandboxError ''home-relative paths are denied'')
         else Inr (py_join ''/'' parts))"

definition resolve_under_root :: "(path \<Rightarrow> path) \<Rightarrow> path \<Rightarrow> string \<Rightarrow> path res" where
  "resolve_under_root resolve rt user_path =
     rbind (sanitize_workspace_path user_path) (\<lambda>rel.
       let root_resolved = resolve rt;
           full = resolve (root_resolved @ py_split (CHR ''/'') rel)
       in if take (length root_resolved) full = root_resolved then Inr full
          else Inl (SandboxError ''path escapes workspace root''))"

section \<open>Sandboxed execution\<close>

datatype child_outcome =
  TimedOut
| Exited int string string

record run_report =
  rr_status :: string
  rr_stdout :: string
  rr_stderr :: string
  rr_returncode :: "int option"
  rr_duration_ms :: "int option"
  rr_truncated :: bool

definition DEFAULT_OUTPUT_CAP :: nat where
  "DEFAULT_OUTPUT_CAP = 32768"

definition truncation_mark :: string where
  "truncation_mark = CHR 0x0A # ''...[truncated]''"

fun write_all :: "(path \<Rightarrow> path) \<Rightarrow> path \<Rightarrow> (string \<times> string) list \<Rightarrow> files \<Rightarrow> files res" where
  "write_all resolve rt [] fs = Inr fs"
| "write_all resolve rt ((p, content) # rest) fs =
     rbind (resolve_under_root resolve rt p) (\<lambda>target. write_all resolve rt rest (dset target content fs))"

definition cap_output :: "nat \<Rightarrow> string \<Rightarrow> string \<times> bool" where
  "cap_output cap s = (if cap < length s then (take cap s @ truncation_mark, True) else (s, False))"

definition run_python_sandboxed ::
  "(path \<Rightarrow> path) \<Rightarrow> (files \<Rightarrow> path \<Rightarrow> child_outcome) \<Rightarrow> path \<Rightarrow> string \<Rightarrow> int \<Rightarrow> nat \<Rightarrow> string \<Rightarrow> string \<Rightarrow> (string \<times> string) list
    \<Rightarrow> (files \<times> run_report) res" where
  "run_python_sandboxed resolve child tmp timeout_s timeout_ms output_cap source filename extra_files =
     rbind (sanitize_workspace_path filename) (\<lambda>rel_name.
     rbind (resolve_under_root resolve tmp rel_name) (\<lambda>script_path.
     rbind (write_all resolve tmp extra_files [(script_path, source)]) (\<lambda>fs.
       case child fs script_path of
         TimedOut \<Rightarrow> Inr (fs, \<lparr> rr_status = ''timeout'', rr_stdout = [],
             rr_stderr = ''execution exceeded '' @ timeout_s @ ''s'', rr_returncode = None,
             rr_duration_ms = Some timeout_ms, rr_truncated = True \<rparr>)
       | Exited rc out err \<Rightarrow>
          (let (stdout, t1) = cap_output output_cap out; (stderr, t2) = cap_output output_cap err
           in Inr (fs, \<lparr> rr_status = (if rc = 0 then ''succeeded'' else ''failed''),
                rr_stdout = stdout, rr_stderr = stderr, rr_returncode = Some rc, rr_duration_ms = None, rr_truncated = (t1 \<or> t2) \<rparr>)))))"

section \<open>The commons mirror\<close>

definition commons_root :: "(string \<Rightarrow> path) \<Rightarrow> string option \<Rightarrow> path option" where
  "commons_root path_of env =
     (let raw = py_strip (case env of None \<Rightarrow> [] | Some v \<Rightarrow> v) in if raw = [] then None else Some (path_of raw))"

definition job_commons_dir :: "string \<Rightarrow> path option \<Rightarrow> path option" where
  "job_commons_dir job_id base = map_option (\<lambda>b. b @ [''jobs'', job_id]) base"

record mirror_report =
  mr_root :: path
  mr_path :: string
  mr_absolute :: path

definition mirror_artifact ::
  "(path \<Rightarrow> path) \<Rightarrow> path option \<Rightarrow> string \<Rightarrow> string \<Rightarrow> string option \<Rightarrow> files \<Rightarrow> (files \<times> mirror_report option) res" where
  "mirror_artifact resolve rt job_id path content fs =
    (case job_commons_dir job_id rt of
       None \<Rightarrow> Inr (fs, None)
     | Some base \<Rightarrow>
        rbind (sanitize_workspace_path path) (\<lambda>rel.
        rbind (resolve_under_root resolve base rel) (\<lambda>target.
          Inr (dset target (case content of None \<Rightarrow> [] | Some c \<Rightarrow> c) fs,
               Some \<lparr> mr_root = base, mr_path = rel, mr_absolute = target \<rparr>))))"

section \<open>Laws of the sandbox\<close>

definition safe_part :: "string \<Rightarrow> bool" where
  "safe_part p \<longleftrightarrow> p \<noteq> [] \<and> p \<noteq> ''.'' \<and> p \<noteq> ''..'' \<and> \<not> py_startswith p ''~'' \<and> CHR ''/'' \<notin> set p \<and> CHR 0x5C \<notin> set p"

lemma split_chars: "w \<in> set (py_split sep s) \<Longrightarrow> set w \<subseteq> set s"
  by (induction s arbitrary: w) (fastforce split: if_splits list.splits)+

lemma strip_chars: "set (py_strip s) \<subseteq> set s"
proof -
  have "set (dropWhile p xs) \<subseteq> set xs" for p and xs :: string by (metis set_dropWhileD subsetI)
  then show ?thesis unfolding py_strip_def py_strip_by_def by (metis dual_order.trans set_rev)
qed

lemma no_backslash: "CHR 0x5C \<notin> set (py_strip (py_replace_char (CHR 0x5C) (CHR ''/'') s))"
  using strip_chars [of "py_replace_char (CHR 0x5C) (CHR ''/'') s"] by (auto simp: py_replace_char_def)

lemma path_parts_chars:
  "p \<in> set (path_parts raw) \<Longrightarrow> p \<noteq> [] \<and> p \<noteq> ''.'' \<and> CHR ''/'' \<notin> set p \<and> set p \<subseteq> set raw"
  using split_chars [of p "CHR ''/''" raw] py_split_sep_free [of p "CHR ''/''" raw] by (auto simp: path_parts_def)

lemma sanitize_Inr:
  assumes "sanitize_workspace_path u = Inr p"
  defines "raw \<equiv> py_strip (py_replace_char (CHR 0x5C) (CHR ''/'') u)"
  shows "p = py_join ''/'' (path_parts raw) \<and> path_parts raw \<noteq> [] \<and> list_all safe_part (path_parts raw)
    \<and> py_split (CHR ''/'') p = path_parts raw"
proof -
  have "p = py_join ''/'' (path_parts raw)" "path_parts raw \<noteq> []"
    and "\<forall>q \<in> set (path_parts raw). q \<noteq> ''..'' \<and> \<not> py_startswith q ''~''"
    using assms(1) by (auto simp: sanitize_workspace_path_def Let_def raw_def split: if_splits)
  moreover have "q \<noteq> [] \<and> q \<noteq> ''.'' \<and> CHR ''/'' \<notin> set q \<and> CHR 0x5C \<notin> set q" if "q \<in> set (path_parts raw)" for q
    using path_parts_chars [OF that] no_backslash [of u] by (auto simp: raw_def)
  ultimately show ?thesis by (auto simp: safe_part_def list_all_iff intro: py_split_join)
qed

text \<open>
  A path that passes the sandbox is a non-empty sequence of safe components (none of them
  empty, \<open>.\<close> or \<open>..\<close>, none starting with \<open>~\<close>, no backslash), and every refusal is a \<open>SandboxError\<close>.
\<close>

theorem sanitize_workspace_path_safe:
  "(case sanitize_workspace_path u of
      Inr p \<Rightarrow> list_all safe_part (py_split (CHR ''/'') p) \<and> p \<noteq> [] \<and> hd p \<noteq> CHR ''/''
    | Inl e \<Rightarrow> (\<exists>m. e = SandboxError m))"
proof (cases "sanitize_workspace_path u")
  case (Inl e)
  then show ?thesis by (auto simp: sanitize_workspace_path_def Let_def split: if_splits)
next
  case (Inr p)
  define ps where "ps = path_parts (py_strip (py_replace_char (CHR 0x5C) (CHR ''/'') u))"
  have s: "p = py_join ''/'' ps" "ps \<noteq> []" "list_all safe_part ps" "py_split (CHR ''/'') p = ps"
    using sanitize_Inr [OF Inr] by (auto simp: ps_def)
  then have "safe_part (hd ps)" by (cases ps) auto
  then have "hd ps \<noteq> []" "hd (hd ps) \<noteq> CHR ''/''" by (auto simp: safe_part_def dest: hd_in_set)
  moreover have "p \<noteq> []" using s(1-3) py_join_ne [of ps "''/''"] by (auto simp: list_all_iff safe_part_def)
  ultimately show ?thesis using Inr s hd_py_join [of ps "''/''"] by simp
qed

lemma path_parts_join:
  assumes "ps \<noteq> []" "list_all safe_part ps"
  shows "path_parts (py_join ''/'' ps) = ps"
proof -
  have "py_split (CHR ''/'') (py_join ''/'' ps) = ps"
    using assms by (intro py_split_join) (auto simp: list_all_iff safe_part_def)
  moreover have "filter (\<lambda>p. p \<notin> {[], ''.''}) ps = ps"
    using assms(2) by (intro filter_True) (auto simp: list_all_iff safe_part_def)
  ultimately show ?thesis by (simp add: path_parts_def)
qed

lemma resolve_under_root_Inr:
  "resolve_under_root resolve rt u = Inr full \<Longrightarrow> \<exists>rest. full = resolve rt @ rest"
  by (auto simp: resolve_under_root_def rbind_eq_Inr Let_def split: if_splits) (metis append_take_drop_id)

lemma write_all_frame:
  "write_all resolve rt xs fs = Inr fs' \<Longrightarrow> \<nexists>rest. q = resolve rt @ rest \<Longrightarrow> dget fs' q = dget fs q"
proof (induction resolve rt xs fs arbitrary: fs' rule: write_all.induct)
  case (2 resolve rt p content rest fs)
  then obtain target where t: "resolve_under_root resolve rt p = Inr target"
      "write_all resolve rt rest (dset target content fs) = Inr fs'"
    by (auto simp: rbind_eq_Inr)
  with 2 resolve_under_root_Inr [OF t(1)] show ?case by (auto simp: dget_dset)
qed simp

lemma cap_output_length: "length (fst (cap_output cap s)) \<le> cap + 15"
  by (simp add: cap_output_def truncation_mark_def)

lemma run_python_sandboxed_Inr:
  assumes "run_python_sandboxed resolve child tmp ts tms cap source filename extra = Inr (fs, r)"
  shows "\<exists>rel sp. resolve_under_root resolve tmp rel = Inr sp \<and> write_all resolve tmp extra [(sp, source)] = Inr fs"
    and "length (rr_stdout r) \<le> cap + 15"
    and "rr_status r = ''timeout'' \<or> length (rr_stderr r) \<le> cap + 15"
proof -
  from assms obtain rel sp fs0 where s: "resolve_under_root resolve tmp rel = Inr sp"
    "write_all resolve tmp extra [(sp, source)] = Inr fs0"
    and c: "(case child fs0 sp of
         TimedOut \<Rightarrow> Inr (fs0, \<lparr> rr_status = ''timeout'', rr_stdout = [],
             rr_stderr = ''execution exceeded '' @ ts @ ''s'', rr_returncode = None,
             rr_duration_ms = Some tms, rr_truncated = True \<rparr>)
       | Exited rc out err \<Rightarrow>
          (let (stdout, t1) = cap_output cap out; (stderr, t2) = cap_output cap err
           in Inr (fs0, \<lparr> rr_status = (if rc = 0 then ''succeeded'' else ''failed''),
                rr_stdout = stdout, rr_stderr = stderr, rr_returncode = Some rc, rr_duration_ms = None,
                rr_truncated = (t1 \<or> t2) \<rparr>))) = (Inr (fs, r) :: (files \<times> run_report) res)"
    unfolding run_python_sandboxed_def rbind_eq_Inr by blast
  from c have "fs0 = fs \<and> length (rr_stdout r) \<le> cap + 15 \<and> (rr_status r = ''timeout'' \<or> length (rr_stderr r) \<le> cap + 15)"
    using cap_output_length by (cases "child fs0 sp") (auto simp: case_prod_beta)
  with s show "\<exists>rel sp. resolve_under_root resolve tmp rel = Inr sp \<and> write_all resolve tmp extra [(sp, source)] = Inr fs"
    and "length (rr_stdout r) \<le> cap + 15" and "rr_status r = ''timeout'' \<or> length (rr_stderr r) \<le> cap + 15"
    by auto
qed



text \<open>
  The drive-letter guard looks only at the start of the raw text, so it can be walked around:
  \<open>./C:/x\<close> passes and comes out as \<open>C:/x\<close>, which the same function refuses as absolute. Sanitizing
  is therefore not idempotent, although the mirror and the runner apply it twice; a leading
  \<open>./\<close> before a blank makes the mirror report one path and write another.
\<close>

theorem sanitize_not_idempotent:
  "sanitize_workspace_path ''./C:/x'' = Inr ''C:/x''
   \<and> sanitize_workspace_path ''C:/x'' = Inl (SandboxError ''absolute paths are denied'')
   \<and> mirror_artifact (\<lambda>p. p) (Some [''srv'']) ''j'' ''./ a'' (Some ''x'') []
      = Inr ([([''srv'', ''jobs'', ''j'', ''a''], ''x'')],
             Some \<lparr> mr_root = [''srv'', ''jobs'', ''j''], mr_path = '' a'', mr_absolute = [''srv'', ''jobs'', ''j'', ''a''] \<rparr>)"
  by (intro conjI; code_simp)

end
