(* ===== verification/Governor.thy ===== *)
theory Governor
  imports Prelude
begin

text \<open>
  The concurrency governor of \<open>src/persola/orchestration/city_scale.py\<close>: model tiers, district shards
  and the four nested semaphores.

  A coroutine inside \<open>acquire\<close> is a caller whose phase is the semaphore it waits for next; between
  two \<open>await\<close> points its code runs without interruption, so one such stretch is one step.
  \<open>asyncio.CancelledError\<close> is not an \<open>Exception\<close>: a caller that is cancelled while it waits leaves
  through none of the \<open>except\<close> clauses, and keeps what it holds.
\<close>

section \<open>Tiers and shards\<close>

record ModelTier =
  mt_parent :: string
  mt_child :: string

definition for_role :: "ModelTier \<Rightarrow> string \<Rightarrow> string option \<Rightarrow> string" where
  "for_role tier role_in_family role_label =
     (if role_in_family = ''parent'' \<or> (case role_label of None \<Rightarrow> [] | Some r \<Rightarrow> r) = ''coordinator''
      then mt_parent tier else mt_child tier)"

record ScaleConfig =
  max_global_concurrent :: int
  max_per_family :: int
  max_per_district :: int
  max_per_job :: int

definition DISTRICTS :: "string list" where
  "DISTRICTS = [''build'', ''viz'', ''research'', ''ops'']"

definition shard_for_district :: "string \<Rightarrow> string" where
  "shard_for_district district =
    (let d = py_strip (py_lower (if district = [] then ''build'' else district));
         d = (if d \<in> set DISTRICTS then d else ''build'')
     in ''district:'' @ d)"

section \<open>The governor\<close>

record governor =
  g_global :: int
  g_family :: "(string, int) dict"
  g_district :: "(string, int) dict"
  g_job :: "(string, int) dict"
  active_global :: int
  active_by_family :: "(string, int) dict"
  active_by_district :: "(string, int) dict"
  active_by_job :: "(string, int) dict"

definition governor_init :: "ScaleConfig \<Rightarrow> governor" where
  "governor_init cfg = \<lparr> g_global = max_global_concurrent cfg, g_family = [], g_district = [], g_job = [],
     active_global = 0, active_by_family = [], active_by_district = [], active_by_job = [] \<rparr>"

definition ensure_sem :: "string \<Rightarrow> int \<Rightarrow> (string, int) dict \<Rightarrow> (string, int) dict" where
  "ensure_sem key n d = (case dget d key of None \<Rightarrow> dset key n d | Some _ \<Rightarrow> d)"

definition bump :: "string \<Rightarrow> (string, int) dict \<Rightarrow> (string, int) dict" where
  "bump key d = dset key (dget_or d key 0 + 1) d"

definition sem_release :: "string \<Rightarrow> (string, int) dict \<Rightarrow> (string, int) dict" where
  "sem_release key d = (case dget d key of None \<Rightarrow> d | Some n \<Rightarrow> dset key (n + 1) d)"

definition drop_count :: "string \<Rightarrow> (string, int) dict \<Rightarrow> (string, int) dict" where
  "drop_count key d = (case dget d key of None \<Rightarrow> d | Some n \<Rightarrow> dset key (max 0 (n - 1)) d)"

datatype phase = NeedGlobal | NeedFamily | NeedDistrict | NeedJob | Running

record caller =
  c_family :: string
  c_district :: string
  c_job :: "string option"
  c_phase :: phase

text \<open>The part of \<open>acquire\<close> before its first wait: the semaphores are created on demand.\<close>

definition acquire_begin :: "ScaleConfig \<Rightarrow> string \<Rightarrow> string \<Rightarrow> string option \<Rightarrow> governor \<Rightarrow> governor \<times> caller" where
  "acquire_begin cfg family_id district job_id g =
    (let job = (case job_id of None \<Rightarrow> None | Some j \<Rightarrow> if j = [] then None else Some j) in
     (g\<lparr>g_family := ensure_sem family_id (max_per_family cfg) (g_family g),
        g_district := ensure_sem (shard_for_district district) (max_per_district cfg) (g_district g),
        g_job := (case job of None \<Rightarrow> g_job g | Some j \<Rightarrow> ensure_sem j (max_per_job cfg) (g_job g))\<rparr>,
      \<lparr> c_family = family_id, c_district = district, c_job = job, c_phase = NeedGlobal \<rparr>))"

definition count_active :: "caller \<Rightarrow> governor \<Rightarrow> governor" where
  "count_active c g =
     g\<lparr>active_global := active_global g + 1,
       active_by_family := bump (c_family c) (active_by_family g),
       active_by_district := bump (shard_for_district (c_district c)) (active_by_district g),
       active_by_job := (case c_job c of None \<Rightarrow> active_by_job g | Some j \<Rightarrow> bump j (active_by_job g))\<rparr>"

text \<open>From one wait to the next; \<open>None\<close> when the semaphore has no permit left.\<close>

definition sem_take :: "string \<Rightarrow> (string, int) dict \<Rightarrow> (string, int) dict option" where
  "sem_take key d = (case dget d key of None \<Rightarrow> None | Some n \<Rightarrow> if 0 < n then Some (dset key (n - 1) d) else None)"

fun acquire_advance :: "caller \<Rightarrow> governor \<Rightarrow> (governor \<times> caller) option" where
  "acquire_advance c g = (case c_phase c of
     NeedGlobal \<Rightarrow> if 0 < g_global g then Some (g\<lparr>g_global := g_global g - 1\<rparr>, c\<lparr>c_phase := NeedFamily\<rparr>) else None
   | NeedFamily \<Rightarrow> map_option (\<lambda>d. (g\<lparr>g_family := d\<rparr>, c\<lparr>c_phase := NeedDistrict\<rparr>)) (sem_take (c_family c) (g_family g))
   | NeedDistrict \<Rightarrow> map_option (\<lambda>d. let g' = g\<lparr>g_district := d\<rparr> in
        (case c_job c of None \<Rightarrow> (count_active c g', c\<lparr>c_phase := Running\<rparr>) | Some _ \<Rightarrow> (g', c\<lparr>c_phase := NeedJob\<rparr>)))
        (sem_take (shard_for_district (c_district c)) (g_district g))
   | NeedJob \<Rightarrow> (case c_job c of None \<Rightarrow> None
        | Some j \<Rightarrow> map_option (\<lambda>d. (count_active c (g\<lparr>g_job := d\<rparr>), c\<lparr>c_phase := Running\<rparr>)) (sem_take j (g_job g)))
   | Running \<Rightarrow> None)"

definition release :: "string \<Rightarrow> string \<Rightarrow> string option \<Rightarrow> governor \<Rightarrow> governor" where
  "release family_id district job_id g =
    (let dk = shard_for_district district;
         g = (case job_id of None \<Rightarrow> g | Some j \<Rightarrow>
                if j = [] then g else g\<lparr>g_job := sem_release j (g_job g), active_by_job := drop_count j (active_by_job g)\<rparr>)
     in g\<lparr>g_district := sem_release dk (g_district g),
          g_family := sem_release family_id (g_family g),
          g_global := g_global g + 1,
          active_global := max 0 (active_global g - 1),
          active_by_family := drop_count family_id (active_by_family g),
          active_by_district := drop_count dk (active_by_district g)\<rparr>)"

record governor_snapshot =
  gs_config :: ScaleConfig
  gs_active_global :: int
  gs_active_by_family :: "(string, int) dict"
  gs_active_by_district :: "(string, int) dict"
  gs_active_by_job :: "(string, int) dict"
  gs_shards :: "string list"

definition snapshot :: "ScaleConfig \<Rightarrow> governor \<Rightarrow> governor_snapshot" where
  "snapshot cfg g = \<lparr> gs_config = cfg, gs_active_global = active_global g, gs_active_by_family = active_by_family g,
     gs_active_by_district = active_by_district g, gs_active_by_job = active_by_job g,
     gs_shards = map shard_for_district DISTRICTS \<rparr>"

section \<open>The system of callers\<close>

type_synonym gov_sys = "governor \<times> caller list"

inductive gov_step :: "ScaleConfig \<Rightarrow> gov_sys \<Rightarrow> gov_sys \<Rightarrow> bool" for cfg where
  begin_call: "acquire_begin cfg f d j g = (g', c) \<Longrightarrow> gov_step cfg (g, cs) (g', c # cs)"
| advance: "acquire_advance c g = Some (g', c') \<Longrightarrow> gov_step cfg (g, xs @ c # ys) (g', xs @ c' # ys)"
| finish: "c_phase c = Running \<Longrightarrow> gov_step cfg (g, xs @ c # ys) (release (c_family c) (c_district c) (c_job c) g, xs @ ys)"

text \<open>Cancelling a caller that waits: it disappears, its permits do not come back.\<close>

inductive gov_cancel :: "gov_sys \<Rightarrow> gov_sys \<Rightarrow> bool" where
  "c_phase c \<noteq> Running \<Longrightarrow> gov_cancel (g, xs @ c # ys) (g, xs @ ys)"

section \<open>Counting permits\<close>

definition cnt :: "(caller \<Rightarrow> bool) \<Rightarrow> caller list \<Rightarrow> int" where
  "cnt P cs = int (length (filter P cs))"

lemma cnt_simps [simp]:
  "cnt P [] = 0" "cnt P (c # cs) = (if P c then 1 else 0) + cnt P cs" "cnt P (xs @ ys) = cnt P xs + cnt P ys"
  by (simp_all add: cnt_def)

lemma cnt_nonneg [simp]: "0 \<le> cnt P cs"
  by (simp add: cnt_def)

lemma cnt_mono: "(\<And>c. P c \<Longrightarrow> Q c) \<Longrightarrow> cnt P cs \<le> cnt Q cs"
  by (induction cs) auto

lemma cnt_zero: "cnt P cs = 0 \<longleftrightarrow> (\<forall>c \<in> set cs. \<not> P c)"
  by (auto simp: cnt_def filter_empty_conv)

text \<open>
  A dictionary of semaphores with \<open>n\<close> permits each is sound for a list of callers when, for every
  key, the permits left and the callers that hold one add up to \<open>n\<close>, and every key in use exists.
\<close>

definition sem_at :: "(caller \<Rightarrow> string option) \<Rightarrow> (caller \<Rightarrow> bool) \<Rightarrow> int \<Rightarrow> int option \<Rightarrow> caller list \<Rightarrow> string \<Rightarrow> bool" where
  "sem_at key holds n s cs k = (case s of
      None \<Rightarrow> cnt (\<lambda>c. key c = Some k) cs = 0
    | Some v \<Rightarrow> 0 \<le> v \<and> v + cnt (\<lambda>c. key c = Some k \<and> holds c) cs = n)"

definition sem_ok :: "(caller \<Rightarrow> string option) \<Rightarrow> (caller \<Rightarrow> bool) \<Rightarrow> int \<Rightarrow> (string, int) dict \<Rightarrow> caller list \<Rightarrow> bool" where
  "sem_ok key holds n d cs \<longleftrightarrow> (\<forall>k. sem_at key holds n (dget d k) cs k)"

definition count_ok :: "(caller \<Rightarrow> string option) \<Rightarrow> (string, int) dict \<Rightarrow> caller list \<Rightarrow> bool" where
  "count_ok key d cs \<longleftrightarrow> (\<forall>k. dget_or d k 0 = cnt (\<lambda>c. key c = Some k \<and> c_phase c = Running) cs)"

lemma cnt_and_zero: "cnt (\<lambda>c. key c = Some k) cs = 0 \<Longrightarrow> cnt (\<lambda>c. key c = Some k \<and> P c) cs = 0"
  by (simp add: cnt_zero)

lemma sem_okI: "(\<And>k. sem_at key holds n (dget d k) cs k) \<Longrightarrow> sem_ok key holds n d cs"
  by (simp add: sem_ok_def)

lemma sem_okD: "sem_ok key holds n d cs \<Longrightarrow> sem_at key holds n (dget d k) cs k"
  by (simp add: sem_ok_def)

lemma sem_ok_begin:
  assumes "sem_ok key holds n d cs" "\<not> holds c" "key c = Some k" "0 \<le> n"
  shows "sem_ok key holds n (ensure_sem k n d) (c # cs)"
proof (rule sem_okI)
  fix k'
  show "sem_at key holds n (dget (ensure_sem k n d) k') (c # cs) k'"
    using sem_okD [OF assms(1), of k'] assms(2-4) cnt_and_zero [of key k' cs holds]
    by (cases "k' = k") (auto simp: sem_at_def ensure_sem_def dget_dset split: option.splits)
qed

lemma sem_ok_same:
  assumes "sem_ok key holds n d (xs @ c # ys)" "key c' = key c" "holds c' = holds c"
  shows "sem_ok key holds n d (xs @ c' # ys)"
proof (rule sem_okI)
  show "sem_at key holds n (dget d k) (xs @ c' # ys) k" for k
    using sem_okD [OF assms(1), of k] assms(2,3) by (auto simp: sem_at_def split: option.splits if_splits)
qed

lemma sem_ok_None:
  assumes "sem_ok key holds n d (xs @ c # ys)" "key c = None" "key c' = None"
  shows "sem_ok key holds n d (xs @ c' # ys)"
proof (rule sem_okI)
  show "sem_at key holds n (dget d k) (xs @ c' # ys) k" for k
    using sem_okD [OF assms(1), of k] assms(2,3) by (simp add: sem_at_def split: option.splits)
qed

lemma sem_ok_Cons_None:
  assumes "sem_ok key holds n d cs" "key c = None"
  shows "sem_ok key holds n d (c # cs)"
proof (rule sem_okI)
  show "sem_at key holds n (dget d k) (c # cs) k" for k
    using sem_okD [OF assms(1), of k] assms(2) by (simp add: sem_at_def split: option.splits)
qed

lemma sem_ok_drop:
  assumes "sem_ok key holds n d (xs @ c # ys)" "key c = None"
  shows "sem_ok key holds n d (xs @ ys)"
proof (rule sem_okI)
  show "sem_at key holds n (dget d k) (xs @ ys) k" for k
    using sem_okD [OF assms(1), of k] assms(2) by (simp add: sem_at_def split: option.splits)
qed

lemma sem_ok_take:
  assumes "sem_ok key holds n d (xs @ c # ys)" "sem_take k d = Some d'"
    and "key c = Some k" "key c' = Some k" "\<not> holds c" "holds c'"
  shows "sem_ok key holds n d' (xs @ c' # ys)"
proof (rule sem_okI)
  fix k'
  show "sem_at key holds n (dget d' k') (xs @ c' # ys) k'"
    using sem_okD [OF assms(1), of k'] assms(2-6)
    by (cases "k' = k") (auto simp: sem_at_def sem_take_def dget_dset split: option.splits if_splits)
qed

lemma sem_ok_present:
  assumes "sem_ok key holds n d (xs @ c # ys)" "key c = Some k"
  obtains v where "dget d k = Some v"
proof (cases "dget d k")
  case None
  then have "cnt (\<lambda>c. key c = Some k) (xs @ c # ys) = 0" using sem_okD [OF assms(1), of k] by (simp add: sem_at_def)
  then show ?thesis using assms(2) by (simp add: cnt_zero del: cnt_simps)
qed (use that in blast)

lemma sem_ok_release:
  assumes "sem_ok key holds n d (xs @ c # ys)" "key c = Some k" "holds c"
  shows "sem_ok key holds n (sem_release k d) (xs @ ys)"
proof (rule sem_okI)
  fix k'
  obtain v where "dget d k = Some v" using sem_ok_present [OF assms(1,2)] .
  then show "sem_at key holds n (dget (sem_release k d) k') (xs @ ys) k'"
    using sem_okD [OF assms(1), of k'] assms(2,3)
    by (cases "k' = k") (auto simp: sem_at_def sem_release_def dget_dset split: option.splits)
qed

lemma count_ok_same:
  "count_ok key d (xs @ c # ys) \<Longrightarrow> c_phase c \<noteq> Running \<Longrightarrow> c_phase c' \<noteq> Running \<Longrightarrow> count_ok key d (xs @ c' # ys)"
  by (simp add: count_ok_def)

lemma count_ok_bump:
  "count_ok key d (xs @ c # ys) \<Longrightarrow> c_phase c \<noteq> Running \<Longrightarrow> c_phase c' = Running \<Longrightarrow> key c' = Some k
    \<Longrightarrow> count_ok key (bump k d) (xs @ c' # ys)"
  by (auto simp: count_ok_def bump_def dget_or_def dget_dset)

lemma count_ok_run_None:
  "count_ok key d (xs @ c # ys) \<Longrightarrow> c_phase c \<noteq> Running \<Longrightarrow> key c' = None \<Longrightarrow> count_ok key d (xs @ c' # ys)"
  by (simp add: count_ok_def)

lemma count_ok_drop:
  assumes "count_ok key d (xs @ c # ys)" "c_phase c = Running" "key c = Some k"
  shows "count_ok key (drop_count k d) (xs @ ys)"
proof -
  have k: "dget_or d k 0 = 1 + cnt (\<lambda>c. key c = Some k \<and> c_phase c = Running) (xs @ ys)"
    using assms by (simp add: count_ok_def)
  then obtain v where "dget d k = Some v" "v = 1 + cnt (\<lambda>c. key c = Some k \<and> c_phase c = Running) (xs @ ys)"
    using cnt_nonneg [of "\<lambda>c. key c = Some k \<and> c_phase c = Running" "xs @ ys"]
    by (cases "dget d k") (auto simp: dget_or_def simp del: cnt_simps)
  then show ?thesis
    using assms cnt_nonneg [of "\<lambda>c. key c = Some k \<and> c_phase c = Running" "xs @ ys"]
    by (auto simp: count_ok_def drop_count_def dget_or_def dget_dset max_def)
qed

lemma count_ok_Cons: "count_ok key d cs \<Longrightarrow> c_phase c \<noteq> Running \<Longrightarrow> count_ok key d (c # cs)"
  by (simp add: count_ok_def)

lemma count_ok_drop_None: "count_ok key d (xs @ c # ys) \<Longrightarrow> key c = None \<Longrightarrow> count_ok key d (xs @ ys)"
  by (simp add: count_ok_def)

section \<open>The invariant\<close>

definition holds_global :: "caller \<Rightarrow> bool" where
  "holds_global c \<longleftrightarrow> c_phase c \<noteq> NeedGlobal"

definition holds_family :: "caller \<Rightarrow> bool" where
  "holds_family c \<longleftrightarrow> c_phase c \<in> {NeedDistrict, NeedJob, Running}"

definition holds_district :: "caller \<Rightarrow> bool" where
  "holds_district c \<longleftrightarrow> c_phase c \<in> {NeedJob, Running}"

definition is_running :: "caller \<Rightarrow> bool" where
  "is_running c \<longleftrightarrow> c_phase c = Running"

definition family_key :: "caller \<Rightarrow> string option" where
  "family_key c = Some (c_family c)"

definition district_key :: "caller \<Rightarrow> string option" where
  "district_key c = Some (shard_for_district (c_district c))"

definition caller_ok :: "caller \<Rightarrow> bool" where
  "caller_ok c \<longleftrightarrow> c_job c \<noteq> Some [] \<and> (c_phase c = NeedJob \<longrightarrow> c_job c \<noteq> None)"

definition config_ok :: "ScaleConfig \<Rightarrow> bool" where
  "config_ok cfg \<longleftrightarrow> 0 \<le> max_global_concurrent cfg \<and> 0 \<le> max_per_family cfg \<and> 0 \<le> max_per_district cfg \<and> 0 \<le> max_per_job cfg"

definition gov_inv :: "ScaleConfig \<Rightarrow> gov_sys \<Rightarrow> bool" where
  "gov_inv cfg s \<longleftrightarrow> (case s of (g, cs) \<Rightarrow>
     list_all caller_ok cs
     \<and> 0 \<le> g_global g \<and> g_global g + cnt holds_global cs = max_global_concurrent cfg
     \<and> sem_ok family_key holds_family (max_per_family cfg) (g_family g) cs
     \<and> sem_ok district_key holds_district (max_per_district cfg) (g_district g) cs
     \<and> sem_ok c_job is_running (max_per_job cfg) (g_job g) cs
     \<and> active_global g = cnt is_running cs
     \<and> count_ok family_key (active_by_family g) cs
     \<and> count_ok district_key (active_by_district g) cs
     \<and> count_ok c_job (active_by_job g) cs)"

lemmas phase_defs = holds_global_def holds_family_def holds_district_def is_running_def family_key_def district_key_def caller_ok_def

lemma gov_inv_begin:
  assumes "acquire_begin cfg f d j g = (g', c)" "gov_inv cfg (g, cs)" "config_ok cfg"
  shows "gov_inv cfg (g', c # cs)"
proof -
  have c: "c_phase c = NeedGlobal" "family_key c = Some f" "district_key c = Some (shard_for_district d)" "caller_ok c"
    and g: "g_family g' = ensure_sem f (max_per_family cfg) (g_family g)"
      "g_district g' = ensure_sem (shard_for_district d) (max_per_district cfg) (g_district g)"
      "g_job g' = (case c_job c of None \<Rightarrow> g_job g | Some j \<Rightarrow> ensure_sem j (max_per_job cfg) (g_job g))"
      "g_global g' = g_global g" "active_global g' = active_global g" "active_by_family g' = active_by_family g"
      "active_by_district g' = active_by_district g" "active_by_job g' = active_by_job g"
    using assms(1) by (auto simp: acquire_begin_def Let_def phase_defs split: option.splits if_splits)
  have "sem_ok c_job is_running (max_per_job cfg) (g_job g') (c # cs)"
    using assms(2,3) c(1) unfolding g
    by (cases "c_job c") (auto simp: gov_inv_def config_ok_def is_running_def intro: sem_ok_begin sem_ok_Cons_None)
  then show ?thesis
    using assms(2,3) c
    by (auto simp: gov_inv_def g config_ok_def phase_defs intro!: sem_ok_begin count_ok_Cons)
qed

lemma gov_invD:
  assumes "gov_inv cfg (g, cs)"
  shows "list_all caller_ok cs" "0 \<le> g_global g" "g_global g + cnt holds_global cs = max_global_concurrent cfg"
    "sem_ok family_key holds_family (max_per_family cfg) (g_family g) cs"
    "sem_ok district_key holds_district (max_per_district cfg) (g_district g) cs"
    "sem_ok c_job is_running (max_per_job cfg) (g_job g) cs"
    "active_global g = cnt is_running cs"
    "count_ok family_key (active_by_family g) cs" "count_ok district_key (active_by_district g) cs"
    "count_ok c_job (active_by_job g) cs"
  using assms by (simp_all add: gov_inv_def)

lemma gov_inv_advance:
  assumes "acquire_advance c g = Some (g', c')" "gov_inv cfg (g, xs @ c # ys)"
  shows "gov_inv cfg (g', xs @ c' # ys)"
proof -
  note i = gov_invD [OF assms(2)]
  note same = sem_ok_same [OF i(4), of c'] sem_ok_same [OF i(5), of c'] sem_ok_same [OF i(6), of c']
  note counts = count_ok_same [OF i(8), of c'] count_ok_same [OF i(9), of c'] count_ok_same [OF i(10), of c']
  note bumps = count_ok_bump [OF i(8), of c' "c_family c"] count_ok_bump [OF i(9), of c' "shard_for_district (c_district c)"]
    count_ok_bump [OF i(10), of c' "the (c_job c)"] count_ok_run_None [OF i(10), of c']
  show ?thesis
  proof (cases "c_phase c")
    case NeedGlobal
    then show ?thesis using assms(1) i(1-3,7) same counts
      by (auto simp: gov_inv_def phase_defs split: if_splits)
  next
    case NeedFamily
    then show ?thesis using assms(1) i(1-3,7) same(2,3) counts sem_ok_take [OF i(4), of "c_family c" "g_family g'" c']
      by (auto simp: gov_inv_def phase_defs)
  next
    case NeedDistrict
    then show ?thesis
      using assms(1) i(1-3,7) same(1,3) counts bumps
        sem_ok_take [OF i(5), of "shard_for_district (c_district c)" "g_district g'" c'] sem_ok_None [OF i(6), of c']
      by (cases "c_job c") (auto simp: gov_inv_def phase_defs count_active_def Let_def)
  next
    case NeedJob
    then show ?thesis
      using assms(1) i(1-3,7) same(1,2) bumps sem_ok_take [OF i(6), of "the (c_job c)" "g_job g'" c']
      by (cases "c_job c") (auto simp: gov_inv_def phase_defs count_active_def)
  qed (use assms in simp)
qed

lemma gov_inv_finish:
  assumes "c_phase c = Running" "gov_inv cfg (g, xs @ c # ys)"
  shows "gov_inv cfg (release (c_family c) (c_district c) (c_job c) g, xs @ ys)"
proof -
  note i = gov_invD [OF assms(2)]
  have n: "0 < cnt is_running xs + (1 + cnt is_running ys)"
    using cnt_nonneg [of is_running xs] cnt_nonneg [of is_running ys] by linarith
  show ?thesis
    using assms(1) i(1-3,7) sem_ok_release [OF i(4), of "c_family c"] sem_ok_release [OF i(5), of "shard_for_district (c_district c)"]
      sem_ok_release [OF i(6), of "the (c_job c)"] sem_ok_drop [OF i(6)]
      count_ok_drop [OF i(8), of "c_family c"] count_ok_drop [OF i(9), of "shard_for_district (c_district c)"]
      count_ok_drop [OF i(10), of "the (c_job c)"] count_ok_drop_None [OF i(10)]
    by (cases "c_job c") (auto simp: gov_inv_def release_def Let_def phase_defs max_def n)
qed

definition gov_start :: "ScaleConfig \<Rightarrow> gov_sys \<Rightarrow> bool" where
  "gov_start cfg s \<longleftrightarrow> s = (governor_init cfg, []) \<and> config_ok cfg"

interpretation gov: invariant_system "gov_step cfg" "gov_start cfg" "\<lambda>s. gov_inv cfg s \<and> config_ok cfg"
proof
  show "gov_start cfg s \<Longrightarrow> gov_inv cfg s \<and> config_ok cfg" for s
    by (auto simp: gov_start_def gov_inv_def governor_init_def config_ok_def sem_ok_def sem_at_def count_ok_def
        dget_def dget_or_def)
  show "gov_step cfg s s' \<Longrightarrow> gov_inv cfg s \<and> config_ok cfg \<Longrightarrow> gov_inv cfg s' \<and> config_ok cfg" for s s'
    by (induction rule: gov_step.induct) (auto intro: gov_inv_begin gov_inv_advance gov_inv_finish)
qed

lemma count_le_sem:
  assumes "sem_ok key holds n d cs" "count_ok key act cs" "0 \<le> n" "\<And>c. c_phase c = Running \<Longrightarrow> holds c"
  shows "0 \<le> dget_or act k 0 \<and> dget_or act k 0 \<le> n"
proof -
  have a: "dget_or act k 0 = cnt (\<lambda>c. key c = Some k \<and> c_phase c = Running) cs"
    using assms(2) by (simp add: count_ok_def)
  show ?thesis
  proof (cases "dget d k")
    case None
    then have "cnt (\<lambda>c. key c = Some k) cs = 0" using sem_okD [OF assms(1), of k] by (simp add: sem_at_def)
    then show ?thesis using a cnt_and_zero [of key k cs "\<lambda>c. c_phase c = Running"] assms(3) by simp
  next
    case (Some v)
    have "cnt (\<lambda>c. key c = Some k \<and> c_phase c = Running) cs \<le> cnt (\<lambda>c. key c = Some k \<and> holds c) cs"
      using assms(4) by (intro cnt_mono) auto
    then show ?thesis using sem_okD [OF assms(1), of k] Some a by (simp add: sem_at_def)
  qed
qed


lemma sem_free:
  assumes "sem_ok key holds n d cs" "c \<in> set cs" "key c = Some k" "cnt (\<lambda>c. key c = Some k \<and> holds c) cs = 0" "1 \<le> n"
  shows "sem_take k d \<noteq> None"
proof -
  obtain xs ys where "cs = xs @ c # ys" using assms(2) by (auto dest: split_list)
  then obtain v where v: "dget d k = Some v" using sem_ok_present [of key holds n d xs c ys k] assms(1,3) by auto
  then show ?thesis using sem_okD [OF assms(1), of k] assms(4,5) by (simp add: sem_at_def sem_take_def)
qed

lemma advance_enabled:
  "c_phase c = NeedGlobal \<Longrightarrow> 0 < g_global g \<Longrightarrow> acquire_advance c g \<noteq> None"
  "c_phase c = NeedFamily \<Longrightarrow> sem_take (c_family c) (g_family g) \<noteq> None \<Longrightarrow> acquire_advance c g \<noteq> None"
  "c_phase c = NeedDistrict \<Longrightarrow> sem_take (shard_for_district (c_district c)) (g_district g) \<noteq> None \<Longrightarrow> acquire_advance c g \<noteq> None"
  "c_phase c = NeedJob \<Longrightarrow> c_job c = Some j \<Longrightarrow> sem_take j (g_job g) \<noteq> None \<Longrightarrow> acquire_advance c g \<noteq> None"
  by (simp_all add: option.map_disc_iff)

declare acquire_advance.simps [simp del]

text \<open>
  C33. The nesting of the four semaphores cannot deadlock: with at least one permit each, in every
  reachable state with callers some caller is running or some waiting caller can take its next
  permit.
\<close>

theorem governor_no_deadlock:
  assumes "1 \<le> max_global_concurrent cfg" "1 \<le> max_per_family cfg" "1 \<le> max_per_district cfg" "1 \<le> max_per_job cfg"
    and "(gov_step cfg)\<^sup>*\<^sup>* (governor_init cfg, []) (g, cs)" "cs \<noteq> []"
  shows "\<exists>c \<in> set cs. c_phase c = Running \<or> acquire_advance c g \<noteq> None"
proof (rule ccontr)
  assume "\<not> ?thesis"
  then have r: "\<And>c. c \<in> set cs \<Longrightarrow> c_phase c \<noteq> Running" and a: "\<And>c. c \<in> set cs \<Longrightarrow> acquire_advance c g = None" by blast+
  have "gov_inv cfg (g, cs)"
    using gov.reachable_inv [of cfg "(governor_init cfg, [])" "(g, cs)"] assms by (simp add: gov_start_def config_ok_def)
  note i = gov_invD [OF this]
  have j: "c_phase c \<noteq> NeedJob" if c: "c \<in> set cs" for c
  proof
    assume p: "c_phase c = NeedJob"
    then obtain j where "c_job c = Some j" using i(1) c by (auto simp: list_all_iff caller_ok_def)
    moreover have "cnt (\<lambda>c. c_job c = Some j \<and> is_running c) cs = 0" using r by (auto simp: cnt_zero is_running_def)
    ultimately have "acquire_advance c g \<noteq> None"
      using sem_free [OF i(6) c, of j] assms(4) by (intro advance_enabled(4) [OF p]) auto
    then show False using a [OF c] by simp
  qed
  have d: "c_phase c \<noteq> NeedDistrict" if c: "c \<in> set cs" for c
  proof
    assume p: "c_phase c = NeedDistrict"
    have "cnt (\<lambda>x. district_key x = district_key c \<and> holds_district x) cs = 0" using r j by (auto simp: cnt_zero holds_district_def)
    then have "acquire_advance c g \<noteq> None"
      using sem_free [OF i(5) c, of "shard_for_district (c_district c)"] assms(3)
      by (intro advance_enabled(3) [OF p]) (auto simp: district_key_def)
    then show False using a [OF c] by simp
  qed
  have f: "c_phase c \<noteq> NeedFamily" if c: "c \<in> set cs" for c
  proof
    assume p: "c_phase c = NeedFamily"
    have "cnt (\<lambda>x. family_key x = family_key c \<and> holds_family x) cs = 0" using r j d by (auto simp: cnt_zero holds_family_def)
    then have "acquire_advance c g \<noteq> None"
      using sem_free [OF i(4) c, of "c_family c"] assms(2) by (intro advance_enabled(2) [OF p]) (auto simp: family_key_def)
    then show False using a [OF c] by simp
  qed
  have "c_phase c = NeedGlobal" if "c \<in> set cs" for c
    using r [OF that] j [OF that] d [OF that] f [OF that] by (cases "c_phase c") auto
  then have "cnt holds_global cs = 0" by (simp add: cnt_zero holds_global_def)
  moreover obtain c where "c \<in> set cs" using assms(6) by (cases cs) auto
  ultimately show False
    using advance_enabled(1) [of c g] a i(3) assms(1) \<open>\<And>c. c \<in> set cs \<Longrightarrow> c_phase c = NeedGlobal\<close> by auto
qed

section \<open>Executions\<close>

datatype gov_op = Begin string string "string option" | Advance | Finish | Cancel

text \<open>An executable schedule: each operation but the first acts on the caller at an index.\<close>

fun gov_exec :: "ScaleConfig \<Rightarrow> gov_op \<times> nat \<Rightarrow> gov_sys \<Rightarrow> gov_sys option" where
  "gov_exec cfg (Begin f d j, _) (g, cs) = (case acquire_begin cfg f d j g of (g', c) \<Rightarrow> Some (g', c # cs))"
| "gov_exec cfg (Advance, n) (g, cs) = (if n < length cs
     then map_option (\<lambda>(g', c'). (g', take n cs @ c' # drop (Suc n) cs)) (acquire_advance (cs ! n) g) else None)"
| "gov_exec cfg (Finish, n) (g, cs) = (if n < length cs \<and> c_phase (cs ! n) = Running
     then Some (release (c_family (cs ! n)) (c_district (cs ! n)) (c_job (cs ! n)) g, take n cs @ drop (Suc n) cs) else None)"
| "gov_exec cfg (Cancel, n) (g, cs) = (if n < length cs \<and> c_phase (cs ! n) \<noteq> Running
     then Some (g, take n cs @ drop (Suc n) cs) else None)"

fun gov_execs :: "ScaleConfig \<Rightarrow> (gov_op \<times> nat) list \<Rightarrow> gov_sys \<Rightarrow> gov_sys option" where
  "gov_execs cfg [] s = Some s"
| "gov_execs cfg (op # ops) s = (case gov_exec cfg op s of None \<Rightarrow> None | Some s' \<Rightarrow> gov_execs cfg ops s')"

lemma gov_exec_step:
  "gov_exec cfg op s = Some s' \<Longrightarrow> (if fst op = Cancel then gov_cancel s s' else gov_step cfg s s')"
proof (induction cfg op s rule: gov_exec.induct)
  case (1 cfg f d j n g cs)
  then show ?case by (auto split: prod.splits intro: gov_step.begin_call)
next
  case (2 cfg n g cs)
  then obtain g' c' where "n < length cs" "acquire_advance (cs ! n) g = Some (g', c')" "s' = (g', take n cs @ c' # drop (Suc n) cs)"
    by (auto split: if_splits)
  then show ?case using gov_step.advance [of "cs ! n" g g' c' cfg "take n cs" "drop (Suc n) cs"] by (simp add: id_take_nth_drop [symmetric])
next
  case (3 cfg n g cs)
  then show ?case using gov_step.finish [of "cs ! n" cfg g "take n cs" "drop (Suc n) cs"]
    by (auto simp: id_take_nth_drop [symmetric] split: if_splits)
next
  case (4 cfg n g cs)
  then show ?case using gov_cancel.intros [of "cs ! n" g "take n cs" "drop (Suc n) cs"]
    by (auto simp: id_take_nth_drop [symmetric] split: if_splits)
qed

lemma gov_execs_steps: "gov_execs cfg ops s = Some s' \<Longrightarrow> list_all (\<lambda>op. fst op \<noteq> Cancel) ops \<Longrightarrow> (gov_step cfg)\<^sup>*\<^sup>* s s'"
proof (induction ops arbitrary: s)
  case (Cons op ops)
  then obtain s1 where "gov_exec cfg op s = Some s1" "gov_execs cfg ops s1 = Some s'" by (auto split: option.splits)
  moreover from this(1) have "gov_step cfg s s1" using gov_exec_step [of cfg op s s1] Cons.prems(2) by simp
  ultimately show ?case using Cons.IH [of s1] Cons.prems(2) by (simp add: converse_rtranclp_into_rtranclp)
qed simp

lemma gov_execs_steps_cancel: "gov_execs cfg ops s = Some s' \<Longrightarrow> (\<lambda>s s'. gov_step cfg s s' \<or> gov_cancel s s')\<^sup>*\<^sup>* s s'"
proof (induction ops arbitrary: s)
  case (Cons op ops)
  then obtain s1 where s1: "gov_exec cfg op s = Some s1" "gov_execs cfg ops s1 = Some s'" by (auto split: option.splits)
  then have "gov_step cfg s s1 \<or> gov_cancel s s1" using gov_exec_step [of cfg op s s1] by (auto split: if_splits)
  then show ?case by (rule converse_rtranclp_into_rtranclp [where r = "\<lambda>s s'. gov_step cfg s s' \<or> gov_cancel s s'", OF _ Cons.IH [OF s1(2)]])
qed simp

definition tiny_config :: ScaleConfig where
  "tiny_config = \<lparr> max_global_concurrent = 4, max_per_family = 1, max_per_district = 1, max_per_job = 1 \<rparr>"

definition two_callers :: "(gov_op \<times> nat) list" where
  "two_callers = [(Begin ''f1'' ''viz'' None, 0), (Advance, 0), (Advance, 0), (Advance, 0),
     (Begin ''f2'' ''viz'' None, 0), (Advance, 0), (Advance, 0)]"

definition two_callers_state :: gov_sys where
  "two_callers_state = the (gov_execs tiny_config two_callers (governor_init tiny_config, []))"

lemma two_callers_run:
  "gov_execs tiny_config two_callers (governor_init tiny_config, []) = Some two_callers_state"
  "map c_phase (snd two_callers_state) = [NeedDistrict, Running]"
  by code_simp+

lemma two_callers_reachable: "(gov_step tiny_config)\<^sup>*\<^sup>* (governor_init tiny_config, []) two_callers_state"
  using gov_execs_steps [OF two_callers_run(1)] by (simp add: two_callers_def)


theorem governor_no_deadlock_witness:
  "snd two_callers_state \<noteq> [] \<and> (\<exists>c \<in> set (snd two_callers_state). c_phase c = Running \<or> acquire_advance c (fst two_callers_state) \<noteq> None)"
proof -
  have "snd two_callers_state \<noteq> []" using two_callers_run(2) by auto
  then show ?thesis
    using governor_no_deadlock [of tiny_config "fst two_callers_state" "snd two_callers_state"] two_callers_reachable
    by (simp add: tiny_config_def)
qed

definition leak_schedule :: "(gov_op \<times> nat) list" where
  "leak_schedule = two_callers @ [(Cancel, 0), (Finish, 0)]"

definition leak_state :: gov_sys where
  "leak_state = the (gov_execs tiny_config leak_schedule (governor_init tiny_config, []))"

lemma leak_run:
  "gov_execs tiny_config leak_schedule (governor_init tiny_config, []) = Some leak_state" "snd leak_state = []"
  "active_global (fst leak_state) = 0" "dget (g_family (fst leak_state)) ''f2'' = Some 0"
  by code_simp+

text \<open>
  Cancelling a caller while it waits leaks its permits, because \<open>CancelledError\<close> passes the
  \<open>except Exception\<close> clauses: a caller of family \<open>f2\<close> is cancelled while it waits for the district,
  and when everyone has finished nobody is active, yet the family's only permit is gone and no
  later call for \<open>f2\<close> can pass.
\<close>

theorem cancelled_acquire_leaks:
  "\<exists>g. (\<lambda>s s'. gov_step tiny_config s s' \<or> gov_cancel s s')\<^sup>*\<^sup>* (governor_init tiny_config, []) (g, [])
     \<and> active_global g = 0 \<and> dget (g_family g) ''f2'' = Some 0 \<and> sem_take ''f2'' (g_family g) = None"
proof (intro exI conjI)
  have s: "(fst leak_state, []) = leak_state" using leak_run(2) by (simp add: prod_eq_iff)
  show "(\<lambda>s s'. gov_step tiny_config s s' \<or> gov_cancel s s')\<^sup>*\<^sup>* (governor_init tiny_config, []) (fst leak_state, [])"
    unfolding s by (rule gov_execs_steps_cancel [OF leak_run(1)])
qed (simp_all add: leak_run sem_take_def)

end
