(* ===== verification/Json.thy ===== *)
theory Json
  imports PyFloat
begin

text \<open>
  JSON values as the program stores them in JSONB columns and passes them to tools, with the
  conversions \<open>bool(v)\<close>, \<open>int(v)\<close> and \<open>float(v)\<close> of Python. Numbers are exact rationals (see
  \<open>PyFloat\<close>), so the texts \<open>inf\<close> and \<open>nan\<close>, which \<open>float\<close> also reads, are outside the model; the
  parser rejects them.
\<close>

datatype json =
    JNull
  | JBool bool
  | JInt int
  | JFloat float64
  | JStr string
  | JList "json list"
  | JObj "(string \<times> json) list"

fun truthy :: "json \<Rightarrow> bool" where
  "truthy JNull = False"
| "truthy (JBool b) = b"
| "truthy (JInt i) = (i \<noteq> 0)"
| "truthy (JFloat x) = (x \<noteq> 0)"
| "truthy (JStr s) = (s \<noteq> [])"
| "truthy (JList l) = (l \<noteq> [])"
| "truthy (JObj d) = (d \<noteq> [])"

definition jopt :: "string option \<Rightarrow> json" where
  "jopt x = (case x of None \<Rightarrow> JNull | Some s \<Rightarrow> JStr s)"

definition jstrs :: "string list \<Rightarrow> json" where
  "jstrs xs = JList (map JStr xs)"

definition jknobs :: "(string, float64) dict \<Rightarrow> json" where
  "jknobs d = JObj (map (\<lambda>(k, v). (k, JFloat v)) d)"

section \<open>Reading numbers\<close>

definition dec_value :: "char \<Rightarrow> int option" where
  "dec_value c = (let n = of_char c :: int in if 48 \<le> n \<and> n \<le> 57 then Some (n - 48) else None)"

text \<open>Decimal digits with single underscores between them; \<open>prev\<close> says that a digit came just before.\<close>

fun dec_digits :: "int \<Rightarrow> bool \<Rightarrow> string \<Rightarrow> int option" where
  "dec_digits acc prev [] = (if prev then Some acc else None)"
| "dec_digits acc prev (c # s) =
     (case dec_value c of
        Some v \<Rightarrow> dec_digits (10 * acc + v) True s
      | None \<Rightarrow> if c = CHR ''_'' \<and> prev then dec_digits acc False s else None)"

definition signed :: "(string \<Rightarrow> 'a option) \<Rightarrow> string \<Rightarrow> ('a :: uminus) option" where
  "signed f s =
     (if py_startswith s ''-'' then map_option uminus (f (tl s))
      else if py_startswith s ''+'' then f (tl s) else f s)"

definition py_int_text :: "string \<Rightarrow> int option" where
  "py_int_text t = signed (dec_digits 0 False) (py_strip t)"

definition span_of :: "char \<Rightarrow> string \<Rightarrow> string \<times> string option" where
  "span_of c s = (takeWhile (\<lambda>x. x \<noteq> c) s, (case dropWhile (\<lambda>x. x \<noteq> c) s of [] \<Rightarrow> None | _ # r \<Rightarrow> Some r))"

definition mantissa :: "string \<Rightarrow> rat option" where
  "mantissa s = (case span_of (CHR ''.'') s of
     (ip, None) \<Rightarrow> map_option of_int (dec_digits 0 False ip)
   | (ip, Some fp) \<Rightarrow>
      let places = length (filter (\<lambda>c. c \<noteq> CHR ''_'') fp);
          frac = (\<lambda>w. of_int w / 10 ^ places :: rat)
      in if ip = [] then map_option frac (dec_digits 0 False fp)
         else if fp = [] then map_option of_int (dec_digits 0 False ip)
         else (case (dec_digits 0 False ip, dec_digits 0 False fp) of
                 (Some a, Some b) \<Rightarrow> Some (of_int a + frac b) | _ \<Rightarrow> None))"

definition py_float_text :: "string \<Rightarrow> float64 option" where
  "py_float_text t = map_option fl (signed (\<lambda>s. case span_of (CHR ''e'') s of
       (m, None) \<Rightarrow> mantissa m
     | (m, Some e) \<Rightarrow> (case (mantissa m, signed (dec_digits 0 False) e) of
          (Some x, Some k) \<Rightarrow> Some (x * 10 powi k) | _ \<Rightarrow> None)) (py_lower (py_strip t)))"

fun json_int :: "json \<Rightarrow> int res" where
  "json_int (JInt i) = Inr i"
| "json_int (JBool b) = Inr (if b then 1 else 0)"
| "json_int (JFloat x) = Inr (py_int x)"
| "json_int (JStr s) = (case py_int_text s of None \<Rightarrow> Inl (ValueError ''invalid literal for int()'') | Some i \<Rightarrow> Inr i)"
| "json_int _ = Inl TypeError"

fun json_float :: "json \<Rightarrow> float64 res" where
  "json_float (JInt i) = Inr (fl (of_int i))"
| "json_float (JBool b) = Inr (if b then 1 else 0)"
| "json_float (JFloat x) = Inr x"
| "json_float (JStr s) = (case py_float_text s of None \<Rightarrow> Inl (ValueError ''could not convert string to float'') | Some x \<Rightarrow> Inr x)"
| "json_float _ = Inl TypeError"

end
