(* ===== verification/CityLife.thy ===== *)
theory CityLife
  imports Personalities Sandbox Json "HOL-Library.List_Lexorder" "HOL-Library.Char_ord"
begin

text \<open>
  The life of the city's agents: \<open>src/persola/orchestration/city_life.py\<close> (goals, dreams, growth,
  personality drift and cohesion), \<open>src/persola/orchestration/city_personalities.py\<close> (a personality
  per agent) and \<open>src/persola/orchestration/city_pulse.py\<close> (who works on a district and with which
  tool calls).

  A serialized member is a record whose optional fields are the keys that \<open>dict.get\<close> may miss. The
  SHA-256 digest of a rendered knob table is the argument \<open>digest\<close>. The em dash of the generated
  texts appears in its UTF-8 encoding.
\<close>

section \<open>Members\<close>

record member =
  m_id :: "string option"
  m_agent_id :: "string option"
  m_role_in_family :: "string option"
  m_role_label :: "string option"
  m_life_status :: "string option"
  m_is_active :: "bool option"
  m_generation :: int
  m_goals :: "string list option"
  m_dreams :: "string list option"
  m_structured_thinking :: "float64 option"
  m_growth :: "float64 option"
  m_knob_overrides :: "(string, float64) dict"
  m_tool_tags :: "string list"
  m_personality :: "json option"

definition DEFAULT_MAX_AGE_TICKS :: int where
  "DEFAULT_MAX_AGE_TICKS = 6"

definition ROLE_GOALS :: "(string, string list) dict" where
  "ROLE_GOALS =
    [(''coordinator'', [''keep the family cohesive'', ''ship the district goal'']),
     (''analyst'', [''find patterns in the commons'', ''reduce wasted work'']),
     (''creative'', [''make artifacts that inspire'', ''spark sibling ideas'']),
     (''executor'', [''finish the runnable piece'', ''keep the build green'']),
     (''empath'', [''sense friction early'', ''mend cohesion gaps'']),
     (''builder'', [''grow durable tools'', ''leave clear handoffs''])]"

definition ROLE_DREAMS :: "(string, string list) dict" where
  "ROLE_DREAMS =
    [(''coordinator'', [''a city that outlives any one mind'']),
     (''analyst'', [''truth that compounds across generations'']),
     (''creative'', [''beauty that siblings remix forever'']),
     (''executor'', [''zero lost knowledge when someone falls'']),
     (''empath'', [''grief that becomes wisdom, not silence'']),
     (''builder'', [''scaffolding the next generation climbs''])]"

definition label_or :: "string option \<Rightarrow> string \<Rightarrow> string" where
  "label_or x d = (case x of None \<Rightarrow> d | Some s \<Rightarrow> if s = [] then d else s)"

definition default_goals :: "string option \<Rightarrow> string list" where
  "default_goals role_label =
     (let key = py_lower (label_or role_label ''builder'') in dget_or ROLE_GOALS key (dget_or ROLE_GOALS ''builder'' []))"

definition default_dreams :: "string option \<Rightarrow> string list" where
  "default_dreams role_label =
     (let key = py_lower (label_or role_label ''builder'') in dget_or ROLE_DREAMS key (dget_or ROLE_DREAMS ''builder'' []))"

definition default_structured_thinking :: "string option \<Rightarrow> float64" where
  "default_structured_thinking role_label =
    (let key = py_lower (label_or role_label []) in
     if key \<in> {''analyst'', ''coordinator''} then fl (72/100)
     else if key \<in> {''executor'', ''builder''} then fl (58/100)
     else if key = ''creative'' then fl (48/100) else fl (55/100))"

definition is_living :: "member \<Rightarrow> bool" where
  "is_living m \<longleftrightarrow> py_lower (label_or (m_life_status m) ''alive'') \<noteq> ''deceased'' \<and> m_is_active m \<noteq> Some False"

definition living_members :: "member list \<Rightarrow> member list" where
  "living_members members = filter is_living members"

text \<open>\<open>((salt + i) % 5 - 2) * 0.03\<close>: the product of an int and a float.\<close>

definition knob_delta :: "int \<Rightarrow> nat \<Rightarrow> float64" where
  "knob_delta generation i = (let salt = (generation * 17) mod 11 in fmul (of_int ((salt + int i) mod 5 - 2)) (fl (3/100)))"

definition mutate_knobs :: "(string, float64) dict \<Rightarrow> int \<Rightarrow> (string, float64) dict" where
  "mutate_knobs knobs generation =
     map (\<lambda>(i, k, v). (k, max 0 (min 1 (fadd v (knob_delta generation i))))) (enumerate 0 knobs)"

record legacy =
  lg_from_member_id :: "string option"
  lg_from_agent_id :: "string option"
  lg_generation :: int
  lg_role_label :: "string option"
  lg_goals :: "string list"
  lg_dreams :: "string list"
  lg_structured_thinking :: float64
  lg_growth :: float64
  lg_knob_overrides :: "(string, float64) dict"
  lg_tool_tags :: "string list"
  lg_personality :: "json option"

definition list_or :: "'a list option \<Rightarrow> 'a list" where
  "list_or x = (case x of None \<Rightarrow> [] | Some l \<Rightarrow> l)"

definition inherit_legacy :: "member \<Rightarrow> legacy" where
  "inherit_legacy m =
    \<lparr> lg_from_member_id = m_id m, lg_from_agent_id = m_agent_id m, lg_generation = m_generation m,
      lg_role_label = m_role_label m, lg_goals = list_or (m_goals m), lg_dreams = list_or (m_dreams m),
      lg_structured_thinking = (case m_structured_thinking m of None \<Rightarrow> fl (1/2) | Some v \<Rightarrow> v),
      lg_growth = (case m_growth m of None \<Rightarrow> 0 | Some v \<Rightarrow> v),
      lg_knob_overrides = m_knob_overrides m, lg_tool_tags = m_tool_tags m, lg_personality = m_personality m \<rparr>"

text \<open>\<open>float(x or d)\<close>: the default replaces \<open>None\<close> and 0.0.\<close>

definition float_or :: "float64 option \<Rightarrow> float64 \<Rightarrow> float64" where
  "float_or x d = (case x of None \<Rightarrow> d | Some v \<Rightarrow> if v = 0 then d else v)"

definition goal_overlap :: "member list \<Rightarrow> float64" where
  "goal_overlap alive =
    (let goal_sets = map (\<lambda>m. set (list_or (m_goals m))) alive in
     if 2 \<le> length goal_sets
     then fdiv (of_nat (card (\<Inter>(set goal_sets)))) (of_nat (max 1 (card (\<Union>(set goal_sets)))))
     else fl (3/5))"

definition ecosystem_cohesion :: "summation \<Rightarrow> member list \<Rightarrow> float64" where
  "ecosystem_cohesion sm members =
    (let alive = living_members members in
     if alive = [] then 0
     else let overlap = goal_overlap alive;
              thinking = fdiv (py_sum sm (map (\<lambda>m. float_or (m_structured_thinking m) (fl (1/2))) alive)) (of_nat (length alive));
              growth = fdiv (py_sum sm (map (\<lambda>m. float_or (m_growth m) 0) alive)) (of_nat (length alive))
          in py_round 4 (min 1 (fadd (fadd (fadd (fmul (fl (35/100)) overlap) (fmul (fl (2/5)) thinking))
               (fmul (fl (1/4)) growth)) (fl (15/100)))))"

section \<open>Personalities of city agents\<close>

definition ROLE_CYCLE :: "string list" where
  "ROLE_CYCLE = [''analyst'', ''creative'', ''executor'', ''empath'', ''builder'']"

definition BUILDER_KNOBS :: "(string, float64) dict" where
  "BUILDER_KNOBS = [(''creativity'', fl (3/4)), (''conscientiousness'', fl (85/100)), (''reliability'', fl (9/10)),
     (''step_by_step'', fl (4/5)), (''accuracy'', fl (85/100)), (''verbosity'', fl (2/5))]"

definition DIVERSITY_KNOBS :: "string list" where
  "DIVERSITY_KNOBS = [''creativity'', ''humor'', ''formality'', ''verbosity'', ''empathy'', ''confidence'', ''openness'',
     ''extraversion'', ''agreeableness'', ''reasoning_depth'', ''accuracy'', ''caution'']"

definition clamp_round :: "float64 \<Rightarrow> float64" where
  "clamp_round v = max 0 (min 1 (py_round 4 v))"

definition archetype_knobs :: "string \<Rightarrow> (string, float64) dict" where
  "archetype_knobs role_label =
    (if role_label = ''builder'' then BUILDER_KNOBS
     else case find (\<lambda>ra. role_value (fst ra) = role_label) BUILTIN_ARCHETYPES of
        None \<Rightarrow> [] | Some ra \<Rightarrow> pa_knob_overrides (snd ra))"

definition personality_fingerprint :: "((string \<times> float64) list \<Rightarrow> string) \<Rightarrow> (string, float64) dict \<Rightarrow> string" where
  "personality_fingerprint digest knobs = digest (sort_key fst (map (\<lambda>(k, v). (k, py_round 4 v)) knobs))"

record personality =
  py_role_label :: string
  py_knob_overrides :: "(string, float64) dict"
  py_fingerprint :: string
  py_top_traits :: "(string \<times> float64) list"

definition top_traits :: "(string, float64) dict \<Rightarrow> (string \<times> float64) list" where
  "top_traits knobs = take 5 (sort_desc (\<lambda>(k, v). \<bar>fsub v (fl (1/2))\<bar>) knobs)"

definition child_seed :: "int \<Rightarrow> int \<Rightarrow> int" where
  "child_seed child_index family_index = child_index * 17 + family_index * 31"

definition diversify :: "int \<Rightarrow> (string, float64) dict \<Rightarrow> nat \<times> string \<Rightarrow> (string, float64) dict" where
  "diversify seed knobs ik = (case ik of (i, key) \<Rightarrow>
    (let wave = fdiv (of_int ((seed * (int i + 3) + int i * 19) mod 83)) 83;
         base = dget_or knobs key (fl (1/2))
     in dset key (clamp_round (fadd (fmul base (fl (45/100)))
          (fmul (fadd (fl (12/100)) (fmul wave (fl (83/100)))) (fl (55/100))))) knobs))"

definition child_knobs :: "int \<Rightarrow> int \<Rightarrow> (string, float64) dict" where
  "child_knobs child_index family_index =
    (let role = ROLE_CYCLE ! nat (child_index mod 5);
         seed = child_seed child_index family_index;
         knobs = foldl (diversify seed) (archetype_knobs role) (enumerate 0 DIVERSITY_KNOBS);
         knobs = dset ''creativity'' (clamp_round (fadd (fl (15/100)) (fdiv (of_int ((seed * 7) mod 80)) 100))) knobs
     in dset ''empathy'' (clamp_round (fadd (fl (18/100)) (fdiv (of_int ((seed * 11 + 5) mod 78)) 100))) knobs)"

definition distinct_child_personality :: "((string \<times> float64) list \<Rightarrow> string) \<Rightarrow> int \<Rightarrow> int \<Rightarrow> personality" where
  "distinct_child_personality digest child_index family_index =
    (let role = ROLE_CYCLE ! nat (child_index mod 5); knobs = child_knobs child_index family_index in
     \<lparr> py_role_label = role, py_knob_overrides = knobs, py_fingerprint = personality_fingerprint digest knobs,
       py_top_traits = top_traits knobs \<rparr>)"

definition parent_personality :: "((string \<times> float64) list \<Rightarrow> string) \<Rightarrow> int \<Rightarrow> personality" where
  "parent_personality digest family_index =
    (let knobs = archetype_knobs ''coordinator'';
         seed = family_index * 41 + 3;
         knobs = dset ''reasoning_depth'' (clamp_round (fadd (fl (85/100)) (fdiv (of_int (seed mod 10)) 100))) knobs;
         knobs = dset ''agreeableness'' (clamp_round (fadd (fl (65/100)) (fdiv (of_int ((seed * 3) mod 25)) 100))) knobs;
         knobs = dset ''verbosity'' (clamp_round (fadd (fl (2/5)) (fdiv (of_int ((seed * 5) mod 30)) 100))) knobs
     in \<lparr> py_role_label = ''coordinator'', py_knob_overrides = knobs,
          py_fingerprint = personality_fingerprint digest knobs, py_top_traits = top_traits knobs \<rparr>)"

section \<open>The pulse\<close>

record tool_call =
  tc_name :: string
  tc_args :: "(string, json) dict"

definition DISTRICT_ROLE_PREFERENCE :: "(string, string list) dict" where
  "DISTRICT_ROLE_PREFERENCE =
    [(''build'', [''executor'', ''builder'', ''coordinator'']), (''viz'', [''creative'', ''empath'', ''builder'']),
     (''research'', [''analyst'', ''coordinator'', ''creative'']), (''ops'', [''executor'', ''coordinator'', ''builder''])]"

definition SUPPORT_ROLES :: "string list" where
  "SUPPORT_ROLES = [''analyst'', ''creative'', ''empath'', ''builder'']"

definition by_role :: "(member \<Rightarrow> bool) \<Rightarrow> member list \<Rightarrow> (string, member) dict" where
  "by_role p pool = foldl (\<lambda>d m. case m_role_label m of None \<Rightarrow> d
     | Some r \<Rightarrow> if r = [] \<or> \<not> p m then d else dset r m d) [] pool"

fun first_match :: "string list \<Rightarrow> (string, member) dict \<Rightarrow> member option" where
  "first_match [] d = None"
| "first_match (r # rs) d = (case dget d r of None \<Rightarrow> first_match rs d | Some m \<Rightarrow> Some m)"

definition pick_agent_for_district :: "member list \<Rightarrow> string \<Rightarrow> member option" where
  "pick_agent_for_district members district =
    (let pool = living_members members;
         prefs = dget_or DISTRICT_ROLE_PREFERENCE district [''executor'', ''coordinator'']
     in case first_match prefs (by_role (\<lambda>m. True) pool) of
          Some m \<Rightarrow> Some m
        | None \<Rightarrow> (case find (\<lambda>m. m_role_in_family m = Some ''child'') pool of
            Some c \<Rightarrow> Some c
          | None \<Rightarrow> (case pool of [] \<Rightarrow> None | m # _ \<Rightarrow> Some m)))"

definition slug_of :: "string \<Rightarrow> string" where
  "slug_of family_slug =
     (let s = take 32 (py_lower (py_replace_char (CHR '' '') (CHR ''-'') family_slug)) in if s = [] then ''family'' else s)"

definition EMDASH :: string where
  "EMDASH = [CHR 0xE2, CHR 0x80, CHR 0x94]"

definition LF :: string where
  "LF = [CHR 0x0A]"

definition district_tool_calls :: "string \<Rightarrow> string \<Rightarrow> tool_call list" where
  "district_tool_calls district family_slug =
    (let d = py_lower (if district = [] then ''build'' else district); slug = slug_of family_slug; q = [CHR 0x22] in
     if d = ''viz'' then
       [\<lparr> tc_name = ''workspace_write'', tc_args = [(''path'', JStr (''viz/'' @ slug @ ''.json'')),
          (''content'', JStr (''{'' @ q @ ''kind'' @ q @ '':'' @ q @ ''city-viz'' @ q @ '','' @ q @ ''family'' @ q @ '':'' @ q @ slug @ q @
             '','' @ q @ ''palette'' @ q @ '':['' @ q @ ''teal'' @ q @ '','' @ q @ ''violet'' @ q @ '','' @ q @ ''amber'' @ q @
             ''],'' @ q @ ''nodes'' @ q @ '':'' @ q @ ''lineage'' @ q @ ''}'' @ LF))] \<rparr>,
        \<lparr> tc_name = ''emit_viz_event'', tc_args = [(''event_type'', JStr ''viz.pulse''),
          (''payload'', JObj [(''district'', JStr ''viz''), (''family'', JStr slug), (''mood'', JStr ''radiant'')])] \<rparr>]
     else if d = ''research'' then
       [\<lparr> tc_name = ''workspace_write'', tc_args = [(''path'', JStr (''research/'' @ slug @ ''.md'')),
          (''content'', JStr (''# Research '' @ EMDASH @ '' '' @ slug @ LF @ LF @
             ''Findings: cohesion rises when siblings share the commons.'' @ LF @
             ''Next: compare district latency under pulse load.'' @ LF))] \<rparr>,
        \<lparr> tc_name = ''emit_viz_event'', tc_args = [(''event_type'', JStr ''viz.pulse''),
          (''payload'', JObj [(''district'', JStr ''research''), (''family'', JStr slug), (''mood'', JStr ''curious'')])] \<rparr>]
     else if d = ''ops'' then
       [\<lparr> tc_name = ''workspace_write'', tc_args = [(''path'', JStr (''ops/'' @ slug @ ''_health.py'')),
          (''content'', JStr (''print('' @ q @ ''ops-ok'' @ q @ '')'' @ LF @
             ''print('' @ q @ ''family'' @ q @ '', '' @ q @ slug @ q @ '')'' @ LF @
             ''print('' @ q @ ''checks'' @ q @ '', 3)'' @ LF))] \<rparr>,
        \<lparr> tc_name = ''run_python'', tc_args = [(''path'', JStr (''ops/'' @ slug @ ''_health.py''))] \<rparr>]
     else
       [\<lparr> tc_name = ''workspace_write'', tc_args = [(''path'', JStr (''build/'' @ slug @ ''.py'')),
          (''content'', JStr (''print('' @ q @ ''city-pulse-build'' @ q @ '')'' @ LF @
             ''print('' @ q @ ''family'' @ q @ '', '' @ q @ slug @ q @ '')'' @ LF @
             ''print('' @ q @ ''sum'' @ q @ '', 2 + 2)'' @ LF))] \<rparr>,
        \<lparr> tc_name = ''run_python'', tc_args = [(''path'', JStr (''build/'' @ slug @ ''.py''))] \<rparr>])"

text \<open>\<open>str.title\<close> of a one-word lower-case role.\<close>

definition title_word :: "string \<Rightarrow> string" where
  "title_word w = (case w of [] \<Rightarrow> []
     | c # cs \<Rightarrow> (let n = of_char c :: int in if 97 \<le> n \<and> n \<le> 122 then char_of (n - 32) else c) # cs)"

definition support_note_call :: "string \<Rightarrow> string \<Rightarrow> string \<Rightarrow> tool_call" where
  "support_note_call role family_slug district =
    (let slug = slug_of family_slug in
     \<lparr> tc_name = ''workspace_write'', tc_args = [(''path'', JStr (''notes/'' @ slug @ ''_'' @ role @ ''.md'')),
        (''content'', JStr (''# '' @ title_word role @ '' note '' @ EMDASH @ '' '' @ slug @ LF @
           ''District: '' @ district @ LF @
           ''I contributed as '' @ role @ '' so the family commons stays cohesive.'' @ LF))] \<rparr>)"

record batch =
  b_agent_id :: "string option"
  b_role_label :: "string option"
  b_calls :: "tool_call list"

definition has_agent :: "member \<Rightarrow> bool" where
  "has_agent m \<longleftrightarrow> label_or (m_agent_id m) [] \<noteq> []"

definition multi_contributor_plan :: "member list \<Rightarrow> string \<Rightarrow> string \<Rightarrow> batch list" where
  "multi_contributor_plan members district family_slug =
    (let pool = living_members members;
         roles = by_role has_agent pool;
         lead = pick_agent_for_district pool district;
         notes = concat (map (\<lambda>role. case dget roles role of
             None \<Rightarrow> []
           | Some m \<Rightarrow> if (case lead of None \<Rightarrow> False | Some l \<Rightarrow> m_agent_id m = m_agent_id l) then []
               else [\<lparr> b_agent_id = m_agent_id m, b_role_label = Some role,
                       b_calls = [support_note_call role family_slug district] \<rparr>]) SUPPORT_ROLES)
     in notes @ (case lead of
          Some l \<Rightarrow> if has_agent l
             then [\<lparr> b_agent_id = m_agent_id l, b_role_label = m_role_label l, b_calls = district_tool_calls district family_slug \<rparr>]
             else [\<lparr> b_agent_id = m_agent_id (hd pool), b_role_label = m_role_label (hd pool),
                     b_calls = district_tool_calls district family_slug \<rparr>]
        | None \<Rightarrow> []))"

definition parse_agent_uuid :: "string option \<Rightarrow> string option" where
  "parse_agent_uuid agent_id = (case agent_id of None \<Rightarrow> None | Some s \<Rightarrow> if s = [] then None else py_uuid s)"

section \<open>Drift and cohesion\<close>

lemma mutate_knobs_nth:
  "i < length knobs \<Longrightarrow> mutate_knobs knobs g ! i = (fst (knobs ! i), clamp01 (fadd (snd (knobs ! i)) (knob_delta g i)))"
  by (simp add: mutate_knobs_def nth_enumerate_eq clamp01_def case_prod_beta)

lemma length_mutate_knobs [simp]: "length (mutate_knobs knobs g) = length knobs"
  by (simp add: mutate_knobs_def)

lemma dkeys_mutate_knobs: "dkeys (mutate_knobs knobs g) = dkeys knobs"
  by (intro nth_equalityI) (simp_all add: dkeys_def mutate_knobs_nth)

lemma mutate_knobs_unit: "(k, v) \<in> set (mutate_knobs knobs g) \<Longrightarrow> 0 \<le> v \<and> v \<le> 1"
  by (auto simp: in_set_conv_nth mutate_knobs_nth)

lemma sum_plain_list_nonneg: "\<forall>x \<in> set xs. 0 \<le> x \<Longrightarrow> 0 \<le> py_sum Plain xs"
  by (cases xs) (auto intro: sum_plain_nonneg)

lemma float_or_nonneg: "0 \<le> d \<Longrightarrow> (\<And>v. x = Some v \<Longrightarrow> 0 \<le> v) \<Longrightarrow> 0 \<le> float_or x d"
  by (simp add: float_or_def split: option.split)

lemma goal_overlap_unit: "0 \<le> goal_overlap alive \<and> goal_overlap alive \<le> 1"
proof (cases "2 \<le> length alive")
  case True
  define G where "G = (\<lambda>m. set (list_or (m_goals m))) ` set alive"
  have "\<Inter>G \<subseteq> \<Union>G" using True by (cases alive) (auto simp: G_def)
  moreover have "finite (\<Union>G)" by (auto simp: G_def)
  ultimately have "card (\<Inter>G) \<le> card (\<Union>G)" by (simp add: card_mono)
  then have "0 \<le> fdiv (of_nat (card (\<Inter>G))) (of_nat (max 1 (card (\<Union>G)))) \<and> fdiv (of_nat (card (\<Inter>G))) (of_nat (max 1 (card (\<Union>G)))) \<le> 1"
    by (intro fdiv_unit) auto
  then show ?thesis using True by (simp add: goal_overlap_def G_def)
qed (simp add: goal_overlap_def flr.unit)

text \<open>
  The cohesion of an ecosystem is at most 1 however large its inputs are, and 0 exactly when
  nobody is alive: with non-negative thinking and growth a living family scores at least 0.15
  (plain summation). The score ignores the dead: it depends only on the living members.
\<close>

theorem ecosystem_cohesion_bounds:
  assumes "list_all (\<lambda>m. (\<forall>v. m_structured_thinking m = Some v \<longrightarrow> 0 \<le> v) \<and> (\<forall>v. m_growth m = Some v \<longrightarrow> 0 \<le> v)) members"
  shows "ecosystem_cohesion sm members \<le> 1
    \<and> (living_members members = [] \<longrightarrow> ecosystem_cohesion sm members = 0)
    \<and> (living_members members \<noteq> [] \<longrightarrow> fl (15/100) \<le> ecosystem_cohesion Plain members)
    \<and> ecosystem_cohesion sm members = ecosystem_cohesion sm (living_members members)"
proof (intro conjI impI)
  have "py_round 4 (min 1 x) \<le> 1" for x using py_round_mono [of "min 1 x" 1 4] by simp
  then show "ecosystem_cohesion sm members \<le> 1" by (simp add: ecosystem_cohesion_def Let_def)
  show "ecosystem_cohesion sm members = ecosystem_cohesion sm (living_members members)"
    by (simp add: ecosystem_cohesion_def living_members_def)
  show "living_members members = [] \<Longrightarrow> ecosystem_cohesion sm members = 0" by (simp add: ecosystem_cohesion_def)
next
  assume ne: "living_members members \<noteq> []"
  define alive where "alive = living_members members"
  have "\<forall>m \<in> set alive. 0 \<le> float_or (m_structured_thinking m) (fl (1/2)) \<and> 0 \<le> float_or (m_growth m) 0"
    using assms by (auto simp: alive_def living_members_def list_all_iff intro!: float_or_nonneg fl_nonneg)
  then have "0 \<le> fdiv (py_sum Plain (map (\<lambda>m. float_or (m_structured_thinking m) (fl (1/2))) alive)) (of_nat (length alive))"
    "0 \<le> fdiv (py_sum Plain (map (\<lambda>m. float_or (m_growth m) 0) alive)) (of_nat (length alive))"
    by (auto intro!: fdiv_nonneg sum_plain_list_nonneg)
  then have "fadd 0 (fl (15/100)) \<le> fadd (fadd (fadd (fmul (fl (35/100)) (goal_overlap alive))
      (fmul (fl (2/5)) (fdiv (py_sum Plain (map (\<lambda>m. float_or (m_structured_thinking m) (fl (1/2))) alive)) (of_nat (length alive)))))
      (fmul (fl (1/4)) (fdiv (py_sum Plain (map (\<lambda>m. float_or (m_growth m) 0) alive)) (of_nat (length alive))))) (fl (15/100))"
    (is "_ \<le> ?X")
    using goal_overlap_unit [of alive] by (intro fadd_mono fadd_nonneg fmul_nonneg) (auto simp: fl_nonneg)
  moreover have "fadd 0 (fl (15/100)) = fl (15/100)" by (simp add: fadd_def)
  moreover have "fl (15/100) \<le> 1" by (intro flr.le_fixed) simp_all
  ultimately have "py_round 4 (fl (15/100)) \<le> py_round 4 (min 1 ?X)" by (intro py_round_mono) simp
  moreover have "py_round 4 (fl (15/100)) = fl (15/100)" by code_simp
  moreover have "ecosystem_cohesion Plain members = py_round 4 (min 1 ?X)"
    using ne by (simp add: ecosystem_cohesion_def Let_def alive_def)
  ultimately show "fl (15/100) \<le> ecosystem_cohesion Plain members" by simp
qed

definition sample_member :: "string \<Rightarrow> string \<Rightarrow> member" where
  "sample_member i status = \<lparr> m_id = Some i, m_agent_id = Some i, m_role_in_family = Some ''child'', m_role_label = Some ''analyst'',
     m_life_status = Some status, m_is_active = Some True, m_generation = 1, m_goals = Some (default_goals (Some ''analyst'')),
     m_dreams = None, m_structured_thinking = Some 1, m_growth = None, m_knob_overrides = [], m_tool_tags = [], m_personality = None \<rparr>"

theorem ecosystem_cohesion_bounds_witness:
  "living_members [sample_member ''a'' ''alive'', sample_member ''b'' ''deceased''] = [sample_member ''a'' ''alive'']
   \<and> fl (15/100) \<le> ecosystem_cohesion Plain [sample_member ''a'' ''alive'', sample_member ''b'' ''deceased'']
   \<and> ecosystem_cohesion Plain [sample_member ''a'' ''alive'', sample_member ''b'' ''deceased''] \<le> 1"
proof -
  have l: "living_members [sample_member ''a'' ''alive'', sample_member ''b'' ''deceased''] = [sample_member ''a'' ''alive'']"
    by code_simp
  have "list_all (\<lambda>m. (\<forall>v. m_structured_thinking m = Some v \<longrightarrow> 0 \<le> v) \<and> (\<forall>v. m_growth m = Some v \<longrightarrow> 0 \<le> v))
      [sample_member ''a'' ''alive'', sample_member ''b'' ''deceased'']"
    by (simp add: sample_member_def)
  from ecosystem_cohesion_bounds [OF this, of Plain] show ?thesis using l by simp
qed

section \<open>Work routing\<close>

lemma by_role_in:
  "dget (by_role p pool) r = Some m \<Longrightarrow> m \<in> set pool \<and> m_role_label m = Some r \<and> p m"
proof (induction pool arbitrary: m rule: rev_induct)
  case (snoc x pool)
  then show ?case
    by (auto simp: by_role_def dget_dset split: option.splits if_splits)
qed (simp add: by_role_def dget_def)

lemma first_match_in: "first_match rs d = Some m \<Longrightarrow> \<exists>r \<in> set rs. dget d r = Some m"
  by (induction rs) (auto split: option.splits)

lemma pick_agent_Some: "pick_agent_for_district members district = Some m \<Longrightarrow> m \<in> set (living_members members)"
  unfolding pick_agent_for_district_def Let_def
  by (auto simp: find_Some_iff split: option.splits list.splits dest!: first_match_in by_role_in)

lemma pick_agent_None: "pick_agent_for_district members district = None \<longleftrightarrow> living_members members = []"
proof
  show "living_members members = []" if "pick_agent_for_district members district = None"
    using that by (auto simp: pick_agent_for_district_def Let_def split: option.splits list.splits)
  show "pick_agent_for_district members district = None" if "living_members members = []"
    using that pick_agent_Some [of members district] by (cases "pick_agent_for_district members district") auto
qed

lemma living_idem [simp]: "living_members (living_members ms) = living_members ms" "living_members [] = []"
  by (simp_all add: living_members_def)

text \<open>
  A pulse plan assigns work only to living members, gives the district's own tool calls to
  exactly one batch, the last one, whenever anybody is alive, and is empty when nobody is; the
  batches before it are single notes, at most one for each of the four support roles.
\<close>

theorem pulse_plan_living:
  "(if living_members members = [] then multi_contributor_plan members district slug = []
    else (\<exists>notes lead m. multi_contributor_plan members district slug = notes @ [lead]
       \<and> b_calls lead = district_tool_calls district slug
       \<and> m \<in> set (living_members members) \<and> b_agent_id lead = m_agent_id m \<and> b_role_label lead = m_role_label m
       \<and> subseq (map b_role_label notes) (map Some SUPPORT_ROLES)
       \<and> list_all (\<lambda>b. \<exists>role m. b_role_label b = Some role \<and> b_calls b = [support_note_call role slug district]
            \<and> m \<in> set (living_members members) \<and> m_role_label m = Some role \<and> b_agent_id b = m_agent_id m) notes))"
proof (cases "living_members members = []")
  case True
  then have "pick_agent_for_district (living_members members) district = None" by (simp add: pick_agent_None)
  then show ?thesis using True by (simp add: multi_contributor_plan_def Let_def by_role_def dget_def SUPPORT_ROLES_def)
next
  case False
  define pool where "pool = living_members members"
  obtain l where l: "pick_agent_for_district pool district = Some l" "l \<in> set pool"
    using False pick_agent_None [of pool district] pick_agent_Some [of pool district] by (auto simp: pool_def)
  define lead where "lead = (if has_agent l then l else hd pool)"
  define note_of where "note_of = (\<lambda>role. case dget (by_role has_agent pool) role of
      None \<Rightarrow> [] | Some m \<Rightarrow> if m_agent_id m = m_agent_id l then []
        else [\<lparr> b_agent_id = m_agent_id m, b_role_label = Some role, b_calls = [support_note_call role slug district] \<rparr>])"
  have plan: "multi_contributor_plan members district slug = concat (map note_of SUPPORT_ROLES) @
      [\<lparr> b_agent_id = m_agent_id lead, b_role_label = m_role_label lead, b_calls = district_tool_calls district slug \<rparr>]"
    unfolding multi_contributor_plan_def Let_def pool_def [symmetric] l(1) option.case note_of_def lead_def by simp
  have nt: "note_of role = [] \<or> (\<exists>m. note_of role = [\<lparr> b_agent_id = m_agent_id m, b_role_label = Some role,
      b_calls = [support_note_call role slug district] \<rparr>] \<and> m \<in> set pool \<and> m_role_label m = Some role)" for role
    using by_role_in [of has_agent pool role] by (auto simp: note_of_def split: option.splits)
  have "subseq (map b_role_label (concat (map note_of rs))) (map Some rs)" for rs
  proof (induction rs)
    case (Cons r rs)
    then show ?case using nt [of r] by auto
  qed simp
  moreover have "list_all (\<lambda>b. \<exists>role m. b_role_label b = Some role \<and> b_calls b = [support_note_call role slug district]
      \<and> m \<in> set pool \<and> m_role_label m = Some role \<and> b_agent_id b = m_agent_id m) (concat (map note_of rs))" for rs
  proof (induction rs)
    case (Cons r rs)
    then show ?case using nt [of r] by auto
  qed simp
  moreover have "lead \<in> set pool" using l(2) by (cases pool) (auto simp: lead_def)
  ultimately show ?thesis using False plan unfolding pool_def [symmetric] by (auto intro!: exI [of _ lead])
qed

section \<open>Generated paths\<close>

lemma strip_id:
  assumes "s \<noteq> []" "\<not> py_isspace (hd s)" "\<not> py_isspace (last s)"
  shows "py_strip s = s"
proof -
  have "dropWhile py_isspace s = s" using assms(1,2) by (cases s) auto
  moreover have "dropWhile py_isspace (rev s) = rev s" using assms(1,3) by (cases s rule: rev_cases) auto
  ultimately show ?thesis by (simp add: py_strip_def py_strip_by_def)
qed

lemma sanitize_two_parts:
  assumes "safe_part a" "safe_part b" "\<not> py_isspace (hd a)" "\<not> py_isspace (last b)" "2 \<le> length a" "a ! 1 \<noteq> CHR '':''"
  shows "sanitize_workspace_path (a @ ''/'' @ b) = Inr (a @ ''/'' @ b)"
proof -
  define w where "w = py_join ''/'' [a, b]"
  have w: "w = a @ ''/'' @ b" by (simp add: w_def)
  have ne: "a \<noteq> []" "b \<noteq> []" using assms(1,2) by (auto simp: safe_part_def)
  have "CHR 0x5C \<notin> set w" using assms(1,2) by (auto simp: w safe_part_def)
  then have r: "py_replace_char (CHR 0x5C) (CHR ''/'') w = w" by (auto simp: py_replace_char_def intro: map_idI)
  have s: "py_strip w = w" using ne assms(3,4) by (intro strip_id) (auto simp: w)
  have p: "path_parts w = [a, b]" unfolding w_def using assms(1,2) by (intro path_parts_join) auto
  have "\<not> py_startswith w ''/''" using ne assms(1) by (cases a) (auto simp: w py_startswith_def safe_part_def)
  moreover have "w ! 1 \<noteq> CHR '':''" using assms(5,6) by (simp add: w nth_append)
  moreover have "a \<noteq> ''..''" "b \<noteq> ''..''" "\<not> py_startswith a ''~''" "\<not> py_startswith b ''~''" using assms(1,2) by (auto simp: safe_part_def)
  moreover have "w \<noteq> []" using ne by (simp add: w)
  ultimately have "sanitize_workspace_path w = Inr (py_join ''/'' [a, b])"
    unfolding sanitize_workspace_path_def Let_def r s p by simp
  then show ?thesis by (simp add: w_def)
qed

definition slug_ok :: "string \<Rightarrow> bool" where
  "slug_ok s \<longleftrightarrow> CHR ''/'' \<notin> set s \<and> CHR 0x5C \<notin> set s \<and> \<not> py_startswith s ''~''"

definition call_path :: "tool_call \<Rightarrow> string option" where
  "call_path c = (case dget (tc_args c) ''path'' of Some (JStr p) \<Rightarrow> Some p | _ \<Rightarrow> None)"

lemma safe_part_suffix:
  assumes "CHR ''/'' \<notin> set s" "CHR 0x5C \<notin> set s" "\<not> py_startswith s ''~''" "s \<noteq> []"
    and "CHR ''/'' \<notin> set e" "CHR 0x5C \<notin> set e" "2 \<le> length e"
  shows "safe_part (s @ e)"
  using assms by (cases s) (auto simp: safe_part_def py_startswith_def numeral_2_eq_2 Suc_le_length_iff)

text \<open>
  The paths of a pulse pass the path sandbox unchanged: for a family whose slug has no slash or
  backslash and does not start with a tilde, every path in the district's tool calls and in a
  support note is accepted as it stands.
\<close>

theorem pulse_paths_accepted:
  assumes "slug_ok (slug_of family)" "role \<in> set SUPPORT_ROLES"
    and "c = support_note_call role family district \<or> c \<in> set (district_tool_calls district family)" "call_path c = Some p"
  shows "sanitize_workspace_path p = Inr p"
proof -
  define s where "s = slug_of family"
  have s: "CHR ''/'' \<notin> set s" "CHR 0x5C \<notin> set s" "\<not> py_startswith s ''~''" "s \<noteq> []"
    using assms(1) by (auto simp: s_def slug_ok_def slug_of_def Let_def)
  have a: "safe_part ''viz''" "safe_part ''research''" "safe_part ''ops''" "safe_part ''build''" "safe_part ''notes''"
    by (simp_all add: safe_part_def py_startswith_def)
  have ns: "\<not> py_isspace (CHR ''n'')" "\<not> py_isspace (CHR ''d'')" "\<not> py_isspace (CHR ''y'')" "\<not> py_isspace (CHR ''v'')"
    "\<not> py_isspace (CHR ''r'')" "\<not> py_isspace (CHR ''o'')" "\<not> py_isspace (CHR ''b'')"
    by code_simp+
  have e: "safe_part (s @ ''.json'')" "safe_part (s @ ''.md'')" "safe_part (s @ ''_health.py'')" "safe_part (s @ ''.py'')"
    using s by (auto intro!: safe_part_suffix)
  have n: "safe_part (s @ ''_'' @ role @ ''.md'')"
    using s assms(2) by (intro safe_part_suffix) (auto simp: SUPPORT_ROLES_def)
  have "p \<in> {''viz'' @ ''/'' @ s @ ''.json'', ''research'' @ ''/'' @ s @ ''.md'', ''ops'' @ ''/'' @ s @ ''_health.py'',
      ''build'' @ ''/'' @ s @ ''.py'', ''notes'' @ ''/'' @ s @ ''_'' @ role @ ''.md''}"
    using assms(3,4) unfolding district_tool_calls_def support_note_call_def Let_def s_def [symmetric]
    by (auto simp: call_path_def dget_def split: if_splits)
  then show ?thesis
    using sanitize_two_parts [OF a(1) e(1)] sanitize_two_parts [OF a(2) e(2)] sanitize_two_parts [OF a(3) e(3)]
      sanitize_two_parts [OF a(4) e(4)] sanitize_two_parts [OF a(5) n] ns
    by auto
qed

theorem pulse_paths_accepted_witness:
  "slug_ok (slug_of ''The Lovelaces'') \<and> sanitize_workspace_path ''notes/the-lovelaces_analyst.md'' = Inr ''notes/the-lovelaces_analyst.md''"
proof -
  have "slug_ok (slug_of ''The Lovelaces'')" by code_simp
  moreover have "call_path (support_note_call ''analyst'' ''The Lovelaces'' ''build'') = Some ''notes/the-lovelaces_analyst.md''"
    by code_simp
  ultimately show ?thesis
    using pulse_paths_accepted [of "''The Lovelaces''" "''analyst''" "support_note_call ''analyst'' ''The Lovelaces'' ''build''" "''build''"]
    by (simp add: SUPPORT_ROLES_def)
qed

section \<open>Distinct personalities\<close>

lemma rne_near: "\<bar>y - of_int m\<bar> < 1/2 \<Longrightarrow> rne y = m"
proof (cases "of_int m \<le> y")
  case True
  assume a: "\<bar>y - of_int m\<bar> < 1/2"
  with True have "\<lfloor>y\<rfloor> = m" by (intro floor_unique) auto
  then show ?thesis using a True by (auto simp: rne_def Let_def)
next
  case False
  assume a: "\<bar>y - of_int m\<bar> < 1/2"
  with False have "\<lfloor>y\<rfloor> = m - 1" by (intro floor_unique) auto
  then show ?thesis using a False by (auto simp: rne_def Let_def)
qed

lemma py_round4_near: "\<bar>x - of_int m / 10000\<bar> < 1/20000 \<Longrightarrow> py_round 4 x = fl (of_int m / 10000)"
  using rne_near [of "x * 10 ^ 4" m] by (simp add: py_round_def abs_if field_simps split: if_splits)

lemma fl_close: "0 \<le> x \<Longrightarrow> x \<le> 2 \<Longrightarrow> \<bar>fl x - x\<bar> < 1 / 1000000"
proof -
  assume x: "0 \<le> x" "x \<le> 2"
  show ?thesis
  proof (cases "x = 0")
    case False
    then have "0 < x" using x by simp
    then have "(2::rat) powi (ilog2 x) \<le> x" by (rule ilog2_spec)
    then have "(2::rat) powi (ilog2 x) < 2 powi 2" using x by (simp add: power_int_def)
    then have "ilog2 x \<le> 1" unfolding powi2_less_iff by simp
    then have "max (ilog2 \<bar>x\<bar>) (- 1022) - 52 \<le> - 51" using x by simp
    then have "(2::rat) powi (max (ilog2 \<bar>x\<bar>) (- 1022) - 52) \<le> 2 powi (- 51)" by (intro power_int_increasing) simp_all
    then have "ulp x \<le> 2 powi (- 51)" unfolding ulp_def using False by simp
    also have "(2::rat) powi (- 51) = 1 / 2 ^ 51" by (simp add: power_int_minus_divide)
    finally have "ulp x \<le> 1 / 2 ^ 51" .
    then show ?thesis using fl_error [of x] by (simp add: abs_if split: if_splits)
  qed simp
qed

definition salted :: "int \<Rightarrow> int \<Rightarrow> float64" where
  "salted a k = clamp_round (fadd (fl (of_int a / 100)) (fdiv (of_int k) 100))"

lemma salted_eq:
  assumes "0 \<le> a" "0 \<le> k" "a + k \<le> 100"
  shows "salted a k = fl (of_int (100 * (a + k)) / 10000)"
proof -
  have r: "0 \<le> (of_int a / 100 :: rat)" "(of_int a / 100 :: rat) \<le> 2" "0 \<le> (of_int k / 100 :: rat)" "(of_int k / 100 :: rat) \<le> 2"
    "(of_int a / 100 + of_int k / 100 :: rat) \<le> 1"
    using assms by (simp_all add: field_simps flip: of_int_add)
  have c: "\<bar>fl (of_int a / 100) - of_int a / 100\<bar> < 1 / 1000000" "\<bar>fl (of_int k / 100) - of_int k / 100\<bar> < 1 / 1000000"
    using fl_close [OF r(1,2)] fl_close [OF r(3,4)] .
  moreover have "0 \<le> fl (of_int a / 100) + fl (of_int k / 100)" using r by (simp add: fl_nonneg)
  moreover have "fl (of_int a / 100) + fl (of_int k / 100) \<le> 2" using c r(5) by linarith
  ultimately have "\<bar>fl (fl (of_int a / 100) + fl (of_int k / 100)) - (fl (of_int a / 100) + fl (of_int k / 100))\<bar> < 1 / 1000000"
    by (intro fl_close)
  moreover have "of_int (100 * (a + k)) / 10000 = (of_int a / 100 + of_int k / 100 :: rat)" by simp
  ultimately have "\<bar>fadd (fl (of_int a / 100)) (fdiv (of_int k) 100) - of_int (100 * (a + k)) / 10000\<bar> < 1 / 20000"
    unfolding fadd_def fdiv_def using c by linarith
  then have "py_round 4 (fadd (fl (of_int a / 100)) (fdiv (of_int k) 100)) = fl (of_int (100 * (a + k)) / 10000)"
    by (rule py_round4_near)
  moreover have "0 \<le> fl (of_int (100 * (a + k)) / 10000)" "fl (of_int (100 * (a + k)) / 10000) \<le> 1"
    using assms r(5) by (auto intro!: fl_nonneg flr.le_fixed simp: field_simps)
  ultimately show ?thesis by (simp add: salted_def clamp_round_def)
qed

lemma salted_inj:
  assumes "0 \<le> a" "0 \<le> k" "a + k \<le> 100" "0 \<le> l" "a + l \<le> 100" "salted a k = salted a l"
  shows "k = l"
proof -
  have "\<bar>fl (of_int (100 * (a + n)) / 10000) - of_int (100 * (a + n)) / 10000\<bar> < 1 / 1000000" if "0 \<le> n" "a + n \<le> 100" for n
  proof (rule fl_close)
    have "(of_int (a + n) :: rat) \<le> of_int 100" using that(2) by (simp only: of_int_le_iff)
    then show "of_int (100 * (a + n)) / 10000 \<le> (2::rat)" by simp
  qed (use assms(1) that in simp)
  from this [OF assms(2,3)] this [OF assms(4,5)] have "\<bar>(of_int (100 * (a + k)) - of_int (100 * (a + l)) :: rat)\<bar> < 1"
    using assms(6) unfolding salted_eq [OF assms(1-3)] salted_eq [OF assms(1,4,5)] by linarith
  then have "\<bar>100 * (a + k) - 100 * (a + l)\<bar> < 1"
    by (metis of_int_abs of_int_diff of_int_less_1_iff)
  then show ?thesis by simp
qed

lemma child_knobs_salts:
  "dget (child_knobs c f) ''creativity'' = Some (salted 15 ((child_seed c f * 7) mod 80))"
  "dget (child_knobs c f) ''empathy'' = Some (salted 18 ((child_seed c f * 11 + 5) mod 78))"
  by (simp_all add: child_knobs_def Let_def dget_dset salted_def)

lemma seed_mod_inj:
  fixes s t :: int
  assumes "(s * 7) mod 80 = (t * 7) mod 80" "(s * 11 + 5) mod 78 = (t * 11 + 5) mod 78" "0 \<le> s" "s < 3120" "0 \<le> t" "t < 3120"
  shows "s = t"
proof -
  have "80 dvd (s - t) * 7" "78 dvd (s - t) * 11"
    using assms(1,2) by (simp_all add: mod_eq_dvd_iff left_diff_distrib)
  moreover have "coprime (80::int) 7" "coprime (78::int) 11" unfolding coprime_iff_gcd_eq_1 by code_simp+
  ultimately have "80 dvd s - t" "78 dvd s - t"
    using coprime_dvd_mult_left_iff [of 80 7 "s - t"] coprime_dvd_mult_left_iff [of 78 11 "s - t"] by blast+
  moreover have "(39::int) dvd 78" by simp
  ultimately have "80 dvd s - t" "39 dvd s - t" using dvd_trans by blast+
  moreover have "coprime (80::int) 39" unfolding coprime_iff_gcd_eq_1 by code_simp
  ultimately have "80 * 39 dvd s - t" using divides_mult by blast
  moreover have "\<bar>s - t\<bar> < 3120" using assms(3-6) by linarith
  ultimately show ?thesis using zdvd_imp_le [of 3120 "\<bar>s - t\<bar>"] by force
qed

lemma role_cycle_inj: "ROLE_CYCLE ! nat (c mod 5) = ROLE_CYCLE ! nat (c' mod 5) \<Longrightarrow> c mod 5 = c' mod 5"
proof -
  assume a: "ROLE_CYCLE ! nat (c mod 5) = ROLE_CYCLE ! nat (c' mod 5)"
  have "distinct ROLE_CYCLE" "nat (c mod 5) < length ROLE_CYCLE" "nat (c' mod 5) < length ROLE_CYCLE"
    by (simp_all add: ROLE_CYCLE_def nat_less_iff)
  with a have "nat (c mod 5) = nat (c' mod 5)" by (simp add: nth_eq_iff_index_eq)
  then show ?thesis by simp
qed

text \<open>
  Personalities are pairwise distinct in a city of up to 16 families with up to 155 children
  each: two children with the same role and the same knobs have the same index in the same family.
\<close>

theorem child_personalities_distinct:
  assumes "0 \<le> c" "c < 155" "0 \<le> c'" "c' < 155" "0 \<le> f" "f < 16" "0 \<le> f'" "f' < 16"
    and "py_role_label (distinct_child_personality digest c f) = py_role_label (distinct_child_personality digest c' f')"
    and "py_knob_overrides (distinct_child_personality digest c f) = py_knob_overrides (distinct_child_personality digest c' f')"
  shows "c = c' \<and> f = f'"
proof -
  have m: "c mod 5 = c' mod 5" using assms(9) unfolding distinct_child_personality_def Let_def personality.simps by (rule role_cycle_inj)
  have k: "child_knobs c f = child_knobs c' f'" using assms(10) unfolding distinct_child_personality_def Let_def personality.simps .
  have "dget (child_knobs c f) x = dget (child_knobs c' f') x" for x by (simp only: k)
  from this [of "''creativity''"] this [of "''empathy''"]
  have "salted 15 ((child_seed c f * 7) mod 80) = salted 15 ((child_seed c' f' * 7) mod 80)"
    "salted 18 ((child_seed c f * 11 + 5) mod 78) = salted 18 ((child_seed c' f' * 11 + 5) mod 78)"
    unfolding child_knobs_salts option.inject .
  then have "(child_seed c f * 7) mod 80 = (child_seed c' f' * 7) mod 80"
    "(child_seed c f * 11 + 5) mod 78 = (child_seed c' f' * 11 + 5) mod 78"
    using salted_inj [of 15 "(child_seed c f * 7) mod 80" "(child_seed c' f' * 7) mod 80"]
      salted_inj [of 18 "(child_seed c f * 11 + 5) mod 78" "(child_seed c' f' * 11 + 5) mod 78"]
      pos_mod_bound [of 80 "child_seed c f * 7"] pos_mod_bound [of 80 "child_seed c' f' * 7"]
      pos_mod_bound [of 78 "child_seed c f * 11 + 5"] pos_mod_bound [of 78 "child_seed c' f' * 11 + 5"]
    by simp_all
  moreover have "0 \<le> child_seed c f" "child_seed c f < 3120" "0 \<le> child_seed c' f'" "child_seed c' f' < 3120"
    using assms(1-8) by (simp_all add: child_seed_def)
  ultimately have "child_seed c f = child_seed c' f'" by (rule seed_mod_inj)
  then have e: "(c - c') * 17 = 31 * (f' - f)" by (simp add: child_seed_def)
  then have "31 dvd (c - c') * 17" by simp
  moreover have "coprime (31::int) 17" unfolding coprime_iff_gcd_eq_1 by code_simp
  ultimately have "31 dvd c - c'" using coprime_dvd_mult_left_iff [of 31 17 "c - c'"] by blast
  moreover have "5 dvd c - c'" using m by (simp add: mod_eq_dvd_iff)
  moreover have "coprime (31::int) 5" unfolding coprime_iff_gcd_eq_1 by code_simp
  ultimately have "31 * 5 dvd c - c'" using divides_mult by blast
  then have "155 dvd c - c'" by simp
  moreover have "\<bar>c - c'\<bar> < 155" using assms(1-4) by linarith
  ultimately have "c - c' = 0" using zdvd_imp_le [of 155 "\<bar>c - c'\<bar>"] by force
  then show ?thesis using e by simp
qed

theorem child_personalities_distinct_witness:
  "py_role_label (distinct_child_personality (\<lambda>xs. []) 3 2) = ''empath''
   \<and> (py_knob_overrides (distinct_child_personality (\<lambda>xs. []) 3 2) \<noteq> py_knob_overrides (distinct_child_personality (\<lambda>xs. []) 8 2))"
proof -
  have "py_role_label (distinct_child_personality d 3 2) = ''empath''" "py_role_label (distinct_child_personality d 8 2) = ''empath''" for d
    by (simp_all add: distinct_child_personality_def Let_def ROLE_CYCLE_def)
  then show ?thesis using child_personalities_distinct [of 3 8 2 2 "\<lambda>xs. []"] by auto
qed

text \<open>
  Beyond that range the promised uniqueness fails: the child at index c + 155 of a family and
  the child at index c of the family 85 further on always have the same personality.
\<close>

theorem child_personalities_collide:
  "distinct_child_personality digest (c + 155) f = distinct_child_personality digest c (f + 85)"
proof -
  have "(c + 155) mod 5 = c mod 5" "child_seed (c + 155) f = child_seed c (f + 85)" by (presburger, simp add: child_seed_def)
  then show ?thesis by (simp add: distinct_child_personality_def child_knobs_def Let_def)
qed

end
