(* ===== verification/CityStore.thy ===== *)
theory CityStore
  imports Engine Governor CityLife
begin

text \<open>
  The tables of the communal city (\<open>src/persola/db/models.py\<close>, from \<open>FamilyMemberRole\<close> to
  \<open>CityEventModel\<close>), their queries (\<open>src/persola/db/repositories/city_repository.py\<close> and \<open>base.py\<close>) and
  the read side of \<open>CityService\<close> (\<open>src/persola/services/city_service.py\<close>): serialisation, family
  listings and the event feed.

  A table is the list of its rows in insertion order; \<open>ORDER BY\<close> is a stable sort, so rows with equal
  keys, whose order a database leaves open, stay in insertion order. What the code takes from its
  environment is the record \<open>city_env\<close>: the identifiers \<open>uuid4\<close> hands out one after the other, the
  SHA-256 digest of a rendered knob table, the model tiers, the clock (one reading per operation) and
  the summation algorithm of the interpreter. An empty \<open>legacy\<close> object is \<^term>\<open>None\<close>. The database's
  own refusals of over-long strings are not modelled.
\<close>

section \<open>Rows\<close>

record FamilyModel =
  fa_id :: string
  fa_name :: string
  fa_description :: "string option"
  fa_default_district :: string
  fa_policy :: "(string, json) dict"
  fa_is_active :: bool
  fa_created_at :: int
  fa_updated_at :: int

record FamilyMemberModel =
  fm_id :: string
  fm_family_id :: string
  fm_agent_id :: string
  fm_parent_member_id :: "string option"
  fm_role_in_family :: string
  fm_role_label :: "string option"
  fm_knob_overrides :: "(string, float64) dict"
  fm_tool_tags :: "string list"
  fm_is_active :: bool
  fm_generation :: int
  fm_age_ticks :: int
  fm_max_age_ticks :: int
  fm_life_status :: string
  fm_goals :: "string list"
  fm_dreams :: "string list"
  fm_structured_thinking :: float64
  fm_growth :: float64
  fm_deceased_at :: "int option"
  fm_successor_of_id :: "string option"
  fm_legacy :: "legacy option"
  fm_created_at :: int
  fm_updated_at :: int

record CityJobModel =
  cj_id :: string
  cj_family_id :: string
  cj_goal :: string
  cj_district :: string
  cj_status :: string
  cj_result_summary :: "string option"
  cj_result :: "(string, json) dict"
  cj_team_session_id :: "string option"
  cj_created_at :: int
  cj_updated_at :: int
  cj_completed_at :: "int option"

record WorkspaceArtifactModel =
  wa_id :: string
  wa_job_id :: string
  wa_family_id :: string
  wa_path :: string
  wa_content :: "string option"
  wa_content_type :: string
  wa_size_bytes :: int
  wa_version :: int
  wa_created_by_agent_id :: "string option"
  wa_metadata :: "(string, json) dict"
  wa_created_at :: int

record WorkspaceRunModel =
  wr_id :: string
  wr_job_id :: string
  wr_tool :: string
  wr_args :: "(string, json) dict"
  wr_status :: string
  wr_stdout :: "string option"
  wr_stderr :: "string option"
  wr_duration_ms :: "int option"
  wr_started_by_agent_id :: "string option"
  wr_artifact_refs :: "string list"
  wr_created_at :: int
  wr_completed_at :: "int option"

record CityEventModel =
  ev_id :: string
  ev_family_id :: "string option"
  ev_job_id :: "string option"
  ev_event_type :: string
  ev_payload :: "(string, json) dict"
  ev_created_at :: int

definition FamilyMemberLifeStatus :: "string list" where
  "FamilyMemberLifeStatus = [''alive'', ''deceased'']"

definition CityDistrict :: "string list" where
  "CityDistrict = [''build'', ''viz'', ''research'', ''ops'']"

definition CityJobStatus :: "string list" where
  "CityJobStatus = [''pending'', ''planned'', ''running'', ''completed'', ''failed'']"

definition WorkspaceRunStatus :: "string list" where
  "WorkspaceRunStatus = [''pending'', ''running'', ''succeeded'', ''failed'', ''timeout'', ''denied'']"

record city_db =
  families :: "FamilyModel list"
  members :: "FamilyMemberModel list"
  jobs :: "CityJobModel list"
  artifacts :: "WorkspaceArtifactModel list"
  runs :: "WorkspaceRunModel list"
  events :: "CityEventModel list"
  agents :: "AgentModel list"
  personas :: "PersonaModel list"
  next_id :: nat

record city_env =
  env_uuid :: "nat \<Rightarrow> string"
  env_digest :: "(string \<times> float64) list \<Rightarrow> string"
  env_tiers :: ModelTier
  env_now :: int
  env_sum :: summation

definition city_empty :: city_db where
  "city_empty = \<lparr> families = [], members = [], jobs = [], artifacts = [], runs = [], events = [],
     agents = [], personas = [], next_id = 0 \<rparr>"

section \<open>Repositories\<close>

definition row_get :: "('a \<Rightarrow> string) \<Rightarrow> 'a list \<Rightarrow> string \<Rightarrow> 'a option" where
  "row_get key tbl i = find (\<lambda>r. key r = i) tbl"

definition row_set :: "('a \<Rightarrow> string) \<Rightarrow> string \<Rightarrow> ('a \<Rightarrow> 'a) \<Rightarrow> 'a list \<Rightarrow> 'a list" where
  "row_set key i f tbl = map (\<lambda>r. if key r = i then f r else r) tbl"

definition scalar_one_or_none :: "'a list \<Rightarrow> 'a option res" where
  "scalar_one_or_none rows = (case rows of [] \<Rightarrow> Inr None | [r] \<Rightarrow> Inr (Some r) | _ \<Rightarrow> Inl MultipleResultsFound)"

definition family_members :: "city_db \<Rightarrow> string \<Rightarrow> FamilyMemberModel list" where
  "family_members db fid = filter (\<lambda>m. fm_family_id m = fid) (members db)"

definition get_with_members :: "city_db \<Rightarrow> string \<Rightarrow> (FamilyModel \<times> FamilyMemberModel list) option" where
  "get_with_members db fid = map_option (\<lambda>f. (f, family_members db fid)) (row_get fa_id (families db) fid)"

definition families_list_recent :: "nat \<Rightarrow> city_db \<Rightarrow> FamilyModel list" where
  "families_list_recent limit db = take limit (sort_desc fa_updated_at (filter fa_is_active (families db)))"

definition members_list_for_family :: "city_db \<Rightarrow> string \<Rightarrow> FamilyMemberModel list" where
  "members_list_for_family db fid = sort_key fm_created_at (family_members db fid)"

definition get_parent :: "city_db \<Rightarrow> string \<Rightarrow> FamilyMemberModel option res" where
  "get_parent db fid =
    (let parents = filter (\<lambda>m. fm_role_in_family m = ''parent'') (family_members db fid) in
     rbind (scalar_one_or_none (filter (\<lambda>m. fm_life_status m = ''alive'' \<and> fm_is_active m) parents)) (\<lambda>parent.
     case parent of Some p \<Rightarrow> Inr (Some p) | None \<Rightarrow> scalar_one_or_none parents))"

definition jobs_list_for_family :: "nat \<Rightarrow> city_db \<Rightarrow> string \<Rightarrow> CityJobModel list" where
  "jobs_list_for_family limit db fid =
     take limit (sort_desc cj_created_at (filter (\<lambda>j. cj_family_id j = fid) (jobs db)))"

definition artifacts_list_for_job :: "nat \<Rightarrow> city_db \<Rightarrow> string \<Rightarrow> WorkspaceArtifactModel list" where
  "artifacts_list_for_job limit db jid =
     take limit (sort_key wa_path (sort_desc wa_version (filter (\<lambda>a. wa_job_id a = jid) (artifacts db))))"

definition path_versions :: "city_db \<Rightarrow> string \<Rightarrow> string \<Rightarrow> WorkspaceArtifactModel list" where
  "path_versions db jid path =
     sort_desc wa_version (filter (\<lambda>a. wa_job_id a = jid \<and> wa_path a = path) (artifacts db))"

definition get_latest_by_path :: "city_db \<Rightarrow> string \<Rightarrow> string \<Rightarrow> WorkspaceArtifactModel option" where
  "get_latest_by_path db jid path = (case path_versions db jid path of [] \<Rightarrow> None | a # _ \<Rightarrow> Some a)"

definition latest_version :: "city_db \<Rightarrow> string \<Rightarrow> string \<Rightarrow> int" where
  "latest_version db jid path = (case path_versions db jid path of [] \<Rightarrow> 0 | a # _ \<Rightarrow> wa_version a)"

definition runs_list_for_job :: "nat \<Rightarrow> city_db \<Rightarrow> string \<Rightarrow> WorkspaceRunModel list" where
  "runs_list_for_job limit db jid = take limit (sort_desc wr_created_at (filter (\<lambda>r. wr_job_id r = jid) (runs db)))"

definition events_list_for_job :: "nat \<Rightarrow> city_db \<Rightarrow> string \<Rightarrow> CityEventModel list" where
  "events_list_for_job limit db jid =
     take limit (sort_key ev_created_at (filter (\<lambda>e. ev_job_id e = Some jid) (events db)))"

definition events_list_for_family :: "nat \<Rightarrow> city_db \<Rightarrow> string \<Rightarrow> CityEventModel list" where
  "events_list_for_family limit db fid =
     take limit (sort_key ev_created_at (filter (\<lambda>e. ev_family_id e = Some fid) (events db)))"

definition events_list_recent :: "nat \<Rightarrow> city_db \<Rightarrow> CityEventModel list" where
  "events_list_recent limit db = rev (take limit (sort_desc ev_created_at (events db)))"

definition event_filter :: "string option \<Rightarrow> string option \<Rightarrow> string list \<Rightarrow> CityEventModel \<Rightarrow> bool" where
  "event_filter fid jid event_types e \<longleftrightarrow>
     (case fid of None \<Rightarrow> True | Some f \<Rightarrow> ev_family_id e = Some f) \<and>
     (case jid of None \<Rightarrow> True | Some j \<Rightarrow> ev_job_id e = Some j) \<and>
     (event_types = [] \<or> ev_event_type e \<in> set event_types)"

definition event_after :: "CityEventModel \<Rightarrow> CityEventModel \<Rightarrow> bool" where
  "event_after anchor e \<longleftrightarrow> ev_created_at anchor < ev_created_at e \<or>
     ev_created_at e = ev_created_at anchor \<and> ev_id anchor < ev_id e"

definition list_since ::
  "string option \<Rightarrow> string option \<Rightarrow> string option \<Rightarrow> int option \<Rightarrow> string list \<Rightarrow> nat \<Rightarrow> city_db \<Rightarrow> CityEventModel list" where
  "list_since fid jid after_id since event_types limit db =
    (let later = (case after_id of
           Some a \<Rightarrow> (case row_get ev_id (events db) a of None \<Rightarrow> (\<lambda>e. True) | Some anchor \<Rightarrow> event_after anchor)
         | None \<Rightarrow> (case since of Some t \<Rightarrow> (\<lambda>e. t < ev_created_at e) | None \<Rightarrow> (\<lambda>e. True)))
     in take limit (sort_key ev_created_at (sort_key ev_id
          (filter (\<lambda>e. event_filter fid jid event_types e \<and> later e) (events db)))))"

text \<open>\<open>create\<close> adds a row under the next identifier.\<close>

definition new_id :: "city_env \<Rightarrow> city_db \<Rightarrow> string" where
  "new_id env db = env_uuid env (next_id db)"

definition used_id :: "city_db \<Rightarrow> city_db" where
  "used_id db = db\<lparr>next_id := Suc (next_id db)\<rparr>"

section \<open>Shared parts of the service\<close>

definition DEFAULT_CITY_TOOL_TAGS :: "string list" where
  "DEFAULT_CITY_TOOL_TAGS = [''workspace'', ''run'', ''memory'', ''viz'']"

definition TOOL_TAG_TO_NAMES :: "(string, string list) dict" where
  "TOOL_TAG_TO_NAMES =
    [(''workspace'', [''workspace_write'', ''workspace_read'', ''workspace_list'']),
     (''run'', [''run_python'']),
     (''memory'', [''memory_store'', ''memory_recall'', ''memory_search'']),
     (''viz'', [''emit_viz_event''])]"

definition tool_names_for_tags :: "string list \<Rightarrow> string list" where
  "tool_names_for_tags tags = dedup_by id (concat (map (\<lambda>tag. dget_or TOOL_TAG_TO_NAMES tag []) tags))"

definition clamp_knob :: "float64 \<Rightarrow> float64" where
  "clamp_knob value = max 0 (min 1 value)"

definition knob_overrides_of :: "(string, float64) dict \<Rightarrow> (string, float64) dict" where
  "knob_overrides_of d = map (\<lambda>(k, v). (k, clamp_knob v)) (filter (\<lambda>(k, v). k \<in> set PERSONA_KNOB_FIELDS) d)"

definition emit_event ::
  "city_env \<Rightarrow> string \<Rightarrow> string option \<Rightarrow> string option \<Rightarrow> (string, json) dict \<Rightarrow> city_db \<Rightarrow> city_db" where
  "emit_event env event_type fid jid payload db =
     (used_id db)\<lparr>events := events db @
       [\<lparr> ev_id = new_id env db, ev_family_id = fid, ev_job_id = jid, ev_event_type = event_type,
          ev_payload = payload, ev_created_at = env_now env \<rparr>]\<rparr>"

section \<open>Serialisation\<close>

record member_view =
  mv_row :: FamilyMemberModel
  mv_agent :: "AgentModel option"
  mv_member :: member

definition serialize_member :: "city_env \<Rightarrow> city_db \<Rightarrow> FamilyMemberModel \<Rightarrow> member_view" where
  "serialize_member env db m =
    (let agent = row_get am_id (agents db) (fm_agent_id m);
         persona = (case agent of None \<Rightarrow> None | Some a \<Rightarrow>
           (case am_persona_id a of None \<Rightarrow> None | Some p \<Rightarrow> row_get pm_id (personas db) p));
         knobs = (case persona of None \<Rightarrow> fm_knob_overrides m | Some p \<Rightarrow> dmerge (knob_values p) (fm_knob_overrides m));
         fp = (if knobs = [] then None else Some (personality_fingerprint (env_digest env) knobs));
         top = JList (map (\<lambda>(k, v). JObj [(''knob'', JStr k), (''value'', JFloat v)]) (top_traits knobs))
     in \<lparr> mv_row = m, mv_agent = agent, mv_member =
        \<lparr> m_id = Some (fm_id m), m_agent_id = Some (fm_agent_id m),
          m_role_in_family = Some (fm_role_in_family m), m_role_label = fm_role_label m,
          m_life_status = Some (if fm_life_status m = [] then ''alive'' else fm_life_status m),
          m_is_active = Some (fm_is_active m), m_generation = fm_generation m,
          m_goals = Some (fm_goals m), m_dreams = Some (fm_dreams m),
          m_structured_thinking = Some (float_or (Some (fm_structured_thinking m)) (fl (1/2))),
          m_growth = Some (fm_growth m), m_knob_overrides = fm_knob_overrides m,
          m_tool_tags = fm_tool_tags m,
          m_personality = Some (JObj [(''fingerprint'', jopt fp), (''top_traits'', top)]) \<rparr> \<rparr>)"

record family_view =
  fv_row :: FamilyModel
  fv_members :: "member_view list"
  fv_edges :: "(string \<times> string) list"

definition serialize_family :: "city_env \<Rightarrow> city_db \<Rightarrow> FamilyModel \<Rightarrow> FamilyMemberModel list \<Rightarrow> family_view" where
  "serialize_family env db f ms =
    \<lparr> fv_row = f, fv_members = map (serialize_member env db) ms,
      fv_edges = concat (map (\<lambda>m. case fm_parent_member_id m of None \<Rightarrow> [] | Some p \<Rightarrow> [(p, fm_id m)]) ms) \<rparr>"

definition list_families :: "city_db \<Rightarrow> FamilyModel list" where
  "list_families db = families_list_recent 50 db"

definition get_family :: "city_env \<Rightarrow> city_db \<Rightarrow> string \<Rightarrow> family_view option" where
  "get_family env db fid = map_option (\<lambda>(f, ms). serialize_family env db f ms) (get_with_members db fid)"

section \<open>The event feed\<close>

definition list_events :: "string option \<Rightarrow> string option \<Rightarrow> nat \<Rightarrow> city_db \<Rightarrow> CityEventModel list res" where
  "list_events jid fid limit db = (case jid of
     Some j \<Rightarrow> (case row_get cj_id (jobs db) j of None \<Rightarrow> Inl (ValueError ''Job not found'')
       | Some _ \<Rightarrow> Inr (events_list_for_job limit db j))
   | None \<Rightarrow> (case fid of
       Some f \<Rightarrow> (case row_get fa_id (families db) f of None \<Rightarrow> Inl (ValueError ''Family not found'')
         | Some _ \<Rightarrow> Inr (events_list_for_family limit db f))
     | None \<Rightarrow> Inl (ValueError ''job_id or family_id required'')))"

definition list_events_since ::
  "string option \<Rightarrow> string option \<Rightarrow> string option \<Rightarrow> int option \<Rightarrow> string list \<Rightarrow> nat \<Rightarrow> bool \<Rightarrow> city_db
    \<Rightarrow> CityEventModel list res" where
  "list_events_since fid jid after_id since event_types limit city_wide db =
    (if fid = None \<and> jid = None \<and> \<not> city_wide
     then Inl (ValueError ''family_id or job_id required (or city_wide=true)'')
     else if (case fid of None \<Rightarrow> False | Some f \<Rightarrow> row_get fa_id (families db) f = None)
     then Inl (ValueError ''Family not found'')
     else if (case jid of None \<Rightarrow> False | Some j \<Rightarrow> row_get cj_id (jobs db) j = None)
     then Inl (ValueError ''Job not found'')
     else Inr (list_since fid jid after_id since event_types limit db))"

section \<open>Laws of rows\<close>

lemma row_get_SomeD: "row_get key tbl i = Some r \<Longrightarrow> r \<in> set tbl \<and> key r = i"
  unfolding row_get_def by (induction tbl) (auto split: if_splits)

lemma row_get_None_iff: "row_get key tbl i = None \<longleftrightarrow> i \<notin> key ` set tbl"
  by (auto simp: row_get_def find_None_iff)

lemma map_key_row_set:
  "(\<And>r. key r = i \<Longrightarrow> key (f r) = i) \<Longrightarrow> map key (row_set key i f tbl) = map key tbl"
  by (simp add: row_set_def)

lemma row_get_row_set:
  assumes "\<And>x. key (f x) = key x"
  shows "row_get key (row_set key i f tbl) j = (if j = i then map_option f (row_get key tbl j) else row_get key tbl j)"
  using assms unfolding row_get_def row_set_def by (induction tbl) auto

lemma other_rows:
  assumes "\<And>x. key (f x) = key x"
  shows "filter (\<lambda>r. key r \<noteq> i) (row_set key i f tbl) = filter (\<lambda>r. key r \<noteq> i) tbl"
  unfolding row_set_def using assms by (induction tbl) auto

lemma row_get_append_new: "(\<And>j. j \<in> set xs \<Longrightarrow> key j \<noteq> i) \<Longrightarrow> key r = i \<Longrightarrow> row_get key (xs @ [r]) i = Some r"
  by (induction xs) (auto simp: row_get_def)

lemma row_get_append_other: "key r \<noteq> i \<Longrightarrow> row_get key (xs @ [r]) i = row_get key xs i"
  by (induction xs) (auto simp: row_get_def)

lemma row_get_unique:
  "distinct (map key tbl) \<Longrightarrow> r \<in> set tbl \<Longrightarrow> row_get key tbl (key r) = Some r"
  unfolding row_get_def by (induction tbl) (auto simp: image_iff)

section \<open>Reading the feed page by page\<close>

lemma sorted_wrt_by_classes:
  assumes "sorted_wrt (\<lambda>a b. f a \<le> (f b :: 'b :: linorder)) xs" "\<And>k. sorted_wrt Q (filter (\<lambda>x. f x = k) xs)"
  shows "sorted_wrt (\<lambda>a b. f a < f b \<or> f b = f a \<and> Q a b) xs"
  using assms
proof (induction xs)
  case (Cons a xs)
  have tail: "sorted_wrt Q (filter (\<lambda>x. f x = k) xs)" for k
    using Cons.prems(2) [of k] by (auto split: if_splits)
  have "f a < f b \<or> f b = f a \<and> Q a b" if "b \<in> set xs" for b
    using Cons.prems(1) Cons.prems(2) [of "f a"] that by (force simp: less_le)
  with Cons.IH [OF _ tail] Cons.prems(1) show ?case by simp
qed simp

lemma sorted_two_keys:
  "sorted_wrt (\<lambda>a b. f a < f b \<or> f b = f a \<and> g a \<le> g b) (sort_key f (sort_key g xs))"
proof (rule sorted_wrt_by_classes)
  show "sorted_wrt (\<lambda>a b. f a \<le> f b) (sort_key f (sort_key g xs))"
    using sorted_sort_key [of f "sort_key g xs"] by (simp add: sorted_map)
  show "sorted_wrt (\<lambda>a b. g a \<le> g b) (filter (\<lambda>x. f x = k) (sort_key f (sort_key g xs)))" for k
    using sorted_sort_key [of g xs] by (simp add: sort_key_stable sorted_map sorted_wrt_filter)
qed

text \<open>In a strictly ordered list, what follows an element is what comes after it.\<close>

lemma filter_later:
  assumes "sorted_wrt R xs" "\<And>a b. R a b \<Longrightarrow> \<not> R b a" "k < length xs"
  shows "filter (R (xs ! k)) xs = drop (Suc k) xs"
proof -
  have split: "xs = take k xs @ xs ! k # drop (Suc k) xs"
    by (rule id_take_nth_drop [OF assms(3)])
  have "sorted_wrt R (take k xs @ xs ! k # drop (Suc k) xs)" using assms(1) split by simp
  then have "\<forall>x \<in> set (take k xs). R x (xs ! k)" "\<forall>x \<in> set (drop (Suc k) xs). R (xs ! k) x"
    by (auto simp: sorted_wrt_append)
  then have "filter (R (xs ! k)) (take k xs @ xs ! k # drop (Suc k) xs) = drop (Suc k) xs"
    using assms(2) by (auto simp: filter_empty_conv filter_id_conv)
  then show ?thesis using split by simp
qed

definition feed :: "string option \<Rightarrow> string option \<Rightarrow> string list \<Rightarrow> city_db \<Rightarrow> CityEventModel list" where
  "feed fid jid event_types db =
     sort_key ev_created_at (sort_key ev_id (filter (event_filter fid jid event_types) (events db)))"

lemma set_feed: "set (feed fid jid types db) = {e \<in> set (events db). event_filter fid jid types e}"
  by (auto simp: feed_def)

lemma feed_ordered:
  assumes "distinct (map ev_id (events db))"
  shows "sorted_wrt event_after (feed fid jid types db)"
proof -
  let ?F = "feed fid jid types db"
  have ids: "distinct (map ev_id ?F)"
    using assms unfolding feed_def by (simp add: distinct_map inj_on_def)
  have lex: "sorted_wrt (\<lambda>a b. ev_created_at a < ev_created_at b \<or>
      ev_created_at b = ev_created_at a \<and> ev_id a \<le> ev_id b) ?F"
    unfolding feed_def by (rule sorted_two_keys)
  show ?thesis unfolding sorted_wrt_iff_nth_less
  proof (intro allI impI)
    fix i j assume ij: "i < j" "j < length ?F"
    have "ev_id (?F ! i) \<noteq> ev_id (?F ! j)" using ids ij by (simp add: distinct_conv_nth)
    moreover have "ev_created_at (?F ! i) < ev_created_at (?F ! j) \<or>
        ev_created_at (?F ! j) = ev_created_at (?F ! i) \<and> ev_id (?F ! i) \<le> ev_id (?F ! j)"
      by (rule sorted_wrt_nth_less [OF lex ij])
    ultimately show "event_after (?F ! i) (?F ! j)"
      unfolding event_after_def by (auto intro: order.not_eq_order_implies_strict)
  qed
qed

lemma event_after_asym: "event_after a b \<Longrightarrow> \<not> event_after b a"
  by (auto simp: event_after_def)

lemma list_since_start:
  "list_since fid jid None None types limit db = take limit (feed fid jid types db)"
  by (simp add: list_since_def feed_def)

lemma feed_later:
  "filter (event_after anchor) (feed fid jid types db) =
     sort_key ev_created_at (sort_key ev_id (filter (\<lambda>e. event_filter fid jid types e \<and> event_after anchor e) (events db)))"
  unfolding feed_def filter_sort by (simp add: conj_commute)

lemma list_since_anchor:
  assumes "row_get ev_id (events db) a = Some anchor"
  shows "list_since fid jid (Some a) since types limit db = take limit (filter (event_after anchor) (feed fid jid types db))"
  using assms by (simp add: list_since_def feed_later)

text \<open>
  C32. Reading the event feed in pages loses and repeats nothing: with the \<open>k\<close>-th event of the feed as
  the anchor, the next page is exactly the events at positions \<open>k + 1\<close> to \<open>k + limit\<close>, whatever the
  timestamps, the ties among them and the filters are.
\<close>

theorem feed_pages_exact:
  assumes "distinct (map ev_id (events db))" and "k < length (feed fid jid types db)"
  shows "list_since fid jid (Some (ev_id (feed fid jid types db ! k))) since types limit db =
    take limit (drop (Suc k) (feed fid jid types db))"
proof -
  let ?e = "feed fid jid types db ! k"
  have "?e \<in> set (events db)" using nth_mem [OF assms(2)] by (simp add: set_feed)
  from row_get_unique [OF assms(1) this] have "row_get ev_id (events db) (ev_id ?e) = Some ?e" .
  then show ?thesis
    by (simp only: list_since_anchor filter_later [OF feed_ordered [OF assms(1)] event_after_asym assms(2)])
qed

definition sample_event :: "string \<Rightarrow> int \<Rightarrow> CityEventModel" where
  "sample_event i t = \<lparr> ev_id = i, ev_family_id = Some ''f'', ev_job_id = None, ev_event_type = ''life.aged'',
     ev_payload = [], ev_created_at = t \<rparr>"

definition sample_feed_db :: city_db where
  "sample_feed_db = city_empty\<lparr>events := [sample_event ''b'' 2, sample_event ''c'' 1, sample_event ''a'' 2]\<rparr>"

lemma sample_feed:
  "feed (Some ''f'') None [] sample_feed_db = [sample_event ''c'' 1, sample_event ''a'' 2, sample_event ''b'' 2]"
  by (simp add: feed_def sample_feed_db_def sample_event_def city_empty_def event_filter_def insort_key_def)

theorem feed_pages_exact_witness:
  "distinct (map ev_id (events sample_feed_db)) \<and>
   list_since (Some ''f'') None (Some ''a'') None [] 10 sample_feed_db = [sample_event ''b'' 2]"
proof -
  have d: "distinct (map ev_id (events sample_feed_db))"
    by (simp add: sample_feed_db_def sample_event_def city_empty_def)
  have "ev_id (feed (Some ''f'') None [] sample_feed_db ! 1) = ''a''"
    by (simp add: sample_feed) (simp add: sample_event_def)
  with d feed_pages_exact [OF d, of 1 "Some ''f''" None "[]" None 10]
  show ?thesis by (simp add: sample_feed)
qed

end
