(* ===== verification/CityFamilies.thy ===== *)
theory CityFamilies
  imports CityStore
begin

text \<open>
  The population side of \<open>CityService\<close> (\<open>src/persola/services/city_service.py\<close>): founding a family,
  spawning children, policy and member updates, ageing, death and succession.

  An operation maps the database to the next one or to the exception it ends with. A transaction that
  raises is never committed, so an exception leaves the database as it was. Rows are looked up again
  by identifier where the code keeps hold of a row object.
\<close>

section \<open>Founding a family\<close>

record family_request =
  rq_name :: string
  rq_description :: "string option"
  rq_default_district :: string
  rq_policy :: "(string, json) dict"
  rq_parent_agent_id :: "string option"
  rq_parent_name :: "string option"
  rq_persona_id :: "string option"
  rq_tool_tags :: "string list option"
  rq_role_label :: "string option"
  rq_parent_knob_overrides :: "(string, float64) dict"

definition new_persona ::
  "city_env \<Rightarrow> city_db \<Rightarrow> string \<Rightarrow> string \<Rightarrow> (string, float64) dict \<Rightarrow> string \<Rightarrow> float64 \<Rightarrow> int \<Rightarrow> PersonaModel" where
  "new_persona env db name description knobs model temperature max_tokens =
    \<lparr> pm_id = new_id env db, pm_name = name, pm_description = Some description,
      pm_created_at = env_now env, pm_updated_at = env_now env,
      pm_knobs = map (\<lambda>f. (f, dget_or knobs f (fl (1/2)))) PERSONA_KNOB_FIELDS,
      pm_model = model, pm_system_prompt = None, pm_temperature = temperature,
      pm_max_tokens = max_tokens, pm_is_preset = False \<rparr>"

definition add_persona :: "PersonaModel \<Rightarrow> city_db \<Rightarrow> city_db" where
  "add_persona p db = (used_id db)\<lparr>personas := personas db @ [p]\<rparr>"

definition new_agent ::
  "city_env \<Rightarrow> city_db \<Rightarrow> string \<Rightarrow> string \<Rightarrow> string \<Rightarrow> PersonaProfile \<Rightarrow> string list \<Rightarrow> AgentModel" where
  "new_agent env db name persona_id model profile tags =
    \<lparr> am_id = new_id env db, am_name = name, am_role = ''assistant'', am_model = Some model,
      am_temperature = None, am_max_tokens = None, am_system_prompt = Some (build_system_prompt profile),
      am_persona_id = Some persona_id, am_tools = tool_names_for_tags tags, am_memory_enabled = True,
      am_is_active = True \<rparr>"

definition add_agent :: "AgentModel \<Rightarrow> city_db \<Rightarrow> city_db" where
  "add_agent a db = (used_id db)\<lparr>agents := agents db @ [a]\<rparr>"

definition add_member :: "FamilyMemberModel \<Rightarrow> city_db \<Rightarrow> city_db" where
  "add_member m db = (used_id db)\<lparr>members := members db @ [m]\<rparr>"

text \<open>The persona row the parent agent is built on, with the knob overrides assigned.\<close>

definition parent_persona_row ::
  "city_env \<Rightarrow> family_request \<Rightarrow> (string, float64) dict \<Rightarrow> city_db \<Rightarrow> (city_db \<times> PersonaModel) res" where
  "parent_persona_row env rq overrides db = (case rq_persona_id rq of
     None \<Rightarrow>
      (let p = new_persona env db (rq_name rq @ '' Parent Persona'')
             (label_or (rq_description rq) (''Parent persona for family '' @ rq_name rq))
             overrides ''llama3:8b'' (fl (7/10)) 2000
       in Inr (add_persona p db, p))
   | Some pid \<Rightarrow>
      (case row_get pm_id (personas db) pid of
         None \<Rightarrow> Inl (ValueError ''persona_id not found'')
       | Some p \<Rightarrow> Inr (db, p\<lparr>pm_knobs := dmerge (pm_knobs p) overrides\<rparr>)))"

definition save_persona :: "city_env \<Rightarrow> PersonaModel \<Rightarrow> city_db \<Rightarrow> city_db" where
  "save_persona env p db = db\<lparr>personas := row_set pm_id (pm_id p)
     (\<lambda>old. if p = old then old else p\<lparr>pm_updated_at := env_now env\<rparr>) (personas db)\<rparr>"

definition resolve_parent_agent ::
  "city_env \<Rightarrow> family_request \<Rightarrow> string list \<Rightarrow> (string, float64) dict \<Rightarrow> city_db \<Rightarrow> (city_db \<times> AgentModel) res" where
  "resolve_parent_agent env rq tags overrides db = (case rq_parent_agent_id rq of
     Some aid \<Rightarrow>
      (case row_get am_id (agents db) aid of
         None \<Rightarrow> Inl (ValueError ''parent_agent_id not found'') | Some a \<Rightarrow> Inr (db, a))
   | None \<Rightarrow>
      rbind (parent_persona_row env rq overrides db) (\<lambda>(db, persona).
      rbind (to_profile persona) (\<lambda>profile.
      let model = for_role (env_tiers env) ''parent'' (rq_role_label rq);
          db = save_persona env (persona\<lparr>pm_model := model\<rparr>) db;
          a = new_agent env db (label_or (rq_parent_name rq) (rq_name rq @ '' Parent'')) (pm_id persona) model profile tags
      in Inr (add_agent a db, a))))"

definition policy_max_age :: "(string, json) dict \<Rightarrow> int \<Rightarrow> int res" where
  "policy_max_age policy fallback = (case dget policy ''max_age_ticks'' of None \<Rightarrow> Inr fallback | Some v \<Rightarrow> json_int v)"

definition new_member ::
  "city_env \<Rightarrow> city_db \<Rightarrow> string \<Rightarrow> string \<Rightarrow> string option \<Rightarrow> string \<Rightarrow> string option \<Rightarrow> (string, float64) dict \<Rightarrow>
   string list \<Rightarrow> int \<Rightarrow> int \<Rightarrow> FamilyMemberModel" where
  "new_member env db fid aid parent role role_label overrides tags generation max_age =
    \<lparr> fm_id = new_id env db, fm_family_id = fid, fm_agent_id = aid, fm_parent_member_id = parent,
      fm_role_in_family = role, fm_role_label = role_label, fm_knob_overrides = overrides, fm_tool_tags = tags,
      fm_is_active = True, fm_generation = generation, fm_age_ticks = 0, fm_max_age_ticks = max_age,
      fm_life_status = ''alive'', fm_goals = default_goals role_label, fm_dreams = default_dreams role_label,
      fm_structured_thinking = default_structured_thinking role_label, fm_growth = 0, fm_deceased_at = None,
      fm_successor_of_id = None, fm_legacy = None, fm_created_at = env_now env, fm_updated_at = env_now env \<rparr>"

definition create_family :: "city_env \<Rightarrow> family_request \<Rightarrow> city_db \<Rightarrow> (city_db \<times> family_view) res" where
  "create_family env rq db =
    (if rq_default_district rq \<notin> set CityDistrict
     then Inl (ValueError (''Invalid district: '' @ rq_default_district rq))
     else
       let tags = (case rq_tool_tags rq of None \<Rightarrow> DEFAULT_CITY_TOOL_TAGS | Some ts \<Rightarrow> ts);
           overrides = knob_overrides_of (rq_parent_knob_overrides rq)
       in rbind (resolve_parent_agent env rq tags overrides db) (\<lambda>(db, parent_agent).
       let fid = new_id env db;
           family = \<lparr> fa_id = fid, fa_name = rq_name rq, fa_description = rq_description rq,
             fa_default_district = rq_default_district rq, fa_policy = rq_policy rq, fa_is_active = True,
             fa_created_at = env_now env, fa_updated_at = env_now env \<rparr>;
           db = (used_id db)\<lparr>families := families db @ [family]\<rparr>
       in rbind (policy_max_age (rq_policy rq) DEFAULT_MAX_AGE_TICKS) (\<lambda>max_age.
       let m = new_member env db fid (am_id parent_agent) None ''parent'' (rq_role_label rq) overrides tags 0 max_age;
           db = add_member m db;
           db = emit_event env ''family.created'' (Some fid) None
             [(''family_id'', JStr fid), (''name'', JStr (rq_name rq)), (''parent_member_id'', JStr (fm_id m)),
              (''parent_agent_id'', JStr (am_id parent_agent))] db;
           db = emit_event env ''agent.spawned'' (Some fid) None
             [(''family_id'', JStr fid), (''member_id'', JStr (fm_id m)), (''agent_id'', JStr (am_id parent_agent)),
              (''parent_id'', JNull), (''role'', JStr ''parent''), (''role_label'', jopt (rq_role_label rq))] db
       in case get_family env db fid of
            None \<Rightarrow> Inl (RuntimeFailure ''AssertionError'')
          | Some detail \<Rightarrow> Inr (db, detail))))"

section \<open>Spawning a child\<close>

record child_request =
  cq_name :: string
  cq_knob_overrides :: "(string, float64) dict"
  cq_tool_tags :: "string list option"
  cq_role_label :: "string option"
  cq_parent_member_id :: "string option"
  cq_description :: "string option"

definition spawn_parent :: "city_db \<Rightarrow> string \<Rightarrow> string option \<Rightarrow> FamilyMemberModel res" where
  "spawn_parent db fid pid = (case pid of
     Some p \<Rightarrow> (case find (\<lambda>m. fm_id m = p) (family_members db fid) of
        None \<Rightarrow> Inl (ValueError ''parent_member_id not in family'') | Some m \<Rightarrow> Inr m)
   | None \<Rightarrow> rbind (get_parent db fid) (\<lambda>r. case r of
        None \<Rightarrow> Inl (ValueError ''Family has no parent member'') | Some m \<Rightarrow> Inr m))"

definition agent_persona :: "city_db \<Rightarrow> AgentModel \<Rightarrow> PersonaModel option" where
  "agent_persona db a = (case am_persona_id a of None \<Rightarrow> None | Some p \<Rightarrow> row_get pm_id (personas db) p)"

definition inherited_tags :: "child_request \<Rightarrow> FamilyMemberModel \<Rightarrow> string list" where
  "inherited_tags cq parent = (case cq_tool_tags cq of Some ts \<Rightarrow> ts | None \<Rightarrow>
     if fm_tool_tags parent = [] then DEFAULT_CITY_TOOL_TAGS else fm_tool_tags parent)"

definition child_persona_row ::
  "city_env \<Rightarrow> city_db \<Rightarrow> FamilyModel \<Rightarrow> AgentModel \<Rightarrow> child_request \<Rightarrow> (string, float64) dict \<Rightarrow> PersonaModel" where
  "child_persona_row env db family parent_agent cq overrides =
    (let persona = agent_persona db parent_agent;
         base = (case persona of None \<Rightarrow> [] | Some p \<Rightarrow> knob_values p)
     in new_persona env db (cq_name cq @ '' Persona'')
          (label_or (cq_description cq) (''Child of '' @ am_name parent_agent @ '' in family '' @ fa_name family))
          (dmerge base overrides) (for_role (env_tiers env) ''child'' (cq_role_label cq))
          (case persona of None \<Rightarrow> fl (7/10) | Some p \<Rightarrow> pm_temperature p)
          (case persona of None \<Rightarrow> 2000 | Some p \<Rightarrow> pm_max_tokens p))"

definition spawn_child :: "city_env \<Rightarrow> string \<Rightarrow> child_request \<Rightarrow> city_db \<Rightarrow> (city_db \<times> member_view) res" where
  "spawn_child env fid cq db = (case get_with_members db fid of
     None \<Rightarrow> Inl (ValueError ''Family not found'')
   | Some (family, _) \<Rightarrow>
      rbind (spawn_parent db fid (cq_parent_member_id cq)) (\<lambda>parent.
      case row_get am_id (agents db) (fm_agent_id parent) of
        None \<Rightarrow> Inl (ValueError ''Parent agent missing'')
      | Some parent_agent \<Rightarrow>
         let overrides = knob_overrides_of (cq_knob_overrides cq);
             tags = inherited_tags cq parent;
             cp = child_persona_row env db family parent_agent cq overrides;
             db = add_persona cp db
         in rbind (to_profile cp) (\<lambda>profile.
         let ca = new_agent env db (cq_name cq) (pm_id cp) (pm_model cp) profile tags;
             db = add_agent ca db
         in rbind (policy_max_age (fa_policy family) (fm_max_age_ticks parent)) (\<lambda>max_age.
         let m = new_member env db fid (am_id ca) (Some (fm_id parent)) ''child'' (cq_role_label cq) overrides tags
               (fm_generation parent + 1) max_age;
             db = add_member m db;
             db = emit_event env ''agent.spawned'' (Some fid) None
               [(''family_id'', JStr fid), (''member_id'', JStr (fm_id m)), (''agent_id'', JStr (am_id ca)),
                (''parent_id'', JStr (fm_id parent)), (''parent_agent_id'', JStr (am_id parent_agent)),
                (''role'', JStr ''child''), (''role_label'', jopt (cq_role_label cq)),
                (''knob_overrides'', jknobs overrides), (''tool_tags'', jstrs tags)] db
         in case find (\<lambda>r. fm_id r = fm_id m) (members_list_for_family db fid) of
              None \<Rightarrow> Inl (ValueError ''Spawned child member missing after commit'')
            | Some child \<Rightarrow> Inr (db, serialize_member env db child)))))"

section \<open>Policy and member updates\<close>

definition allowed_policy :: "string list" where
  "allowed_policy = [''max_age_ticks'', ''cohesion_min'', ''district_bias'', ''notes'']"

fun merge_policy :: "(string \<times> json) list \<Rightarrow> (string, json) dict \<Rightarrow> (string, json) dict res" where
  "merge_policy [] merged = Inr merged"
| "merge_policy ((k, v) # ps) merged =
     (if k \<notin> set allowed_policy then merge_policy ps merged
      else if k = ''max_age_ticks'' then
        rbind (json_int v) (\<lambda>i. merge_policy ps (dset k (JInt (max 1 (min 200 i))) merged))
      else if k = ''cohesion_min'' then
        rbind (json_float v) (\<lambda>x. merge_policy ps (dset k (JFloat (max 0 (min 1 x))) merged))
      else merge_policy ps (dset k v merged))"

definition touch_member :: "city_env \<Rightarrow> (FamilyMemberModel \<Rightarrow> FamilyMemberModel) \<Rightarrow> FamilyMemberModel \<Rightarrow> FamilyMemberModel" where
  "touch_member env f m = (let m' = f m in if m' = m then m else m'\<lparr>fm_updated_at := env_now env\<rparr>)"

definition alive_in :: "string \<Rightarrow> FamilyMemberModel \<Rightarrow> bool" where
  "alive_in fid m \<longleftrightarrow> fm_family_id m = fid \<and> fm_life_status m = ''alive''"

definition apply_max_age :: "city_env \<Rightarrow> string \<Rightarrow> (string, json) dict \<Rightarrow> city_db \<Rightarrow> city_db res" where
  "apply_max_age env fid merged db = (case dget merged ''max_age_ticks'' of
     None \<Rightarrow> Inr db
   | Some v \<Rightarrow>
       if filter (alive_in fid) (members db) = [] then Inr db
       else rbind (json_int v) (\<lambda>age. Inr (db\<lparr>members := map (\<lambda>m. if alive_in fid m
          then touch_member env (fm_max_age_ticks_update (\<lambda>_. age)) m else m) (members db)\<rparr>)))"

definition update_family_policy ::
  "city_env \<Rightarrow> string \<Rightarrow> (string \<times> json) list \<Rightarrow> city_db \<Rightarrow> (city_db \<times> family_view) res" where
  "update_family_policy env fid patch db = (case row_get fa_id (families db) fid of
     None \<Rightarrow> Inl (ValueError ''Family not found'')
   | Some family \<Rightarrow>
      rbind (merge_policy patch (fa_policy family)) (\<lambda>merged.
      rbind (apply_max_age env fid merged (db\<lparr>families := row_set fa_id fid (\<lambda>f. if merged = fa_policy f then f
          else f\<lparr>fa_policy := merged, fa_updated_at := env_now env\<rparr>) (families db)\<rparr>)) (\<lambda>db.
      case get_family env db fid of
        None \<Rightarrow> Inl (RuntimeFailure ''AssertionError'')
      | Some detail \<Rightarrow> Inr (db, detail))))"

definition life_update :: "string list option \<Rightarrow> string list option \<Rightarrow> float64 option \<Rightarrow> FamilyMemberModel \<Rightarrow> FamilyMemberModel" where
  "life_update goals dreams thinking m =
     m\<lparr>fm_goals := (case goals of None \<Rightarrow> fm_goals m | Some gs \<Rightarrow> take 12 (map (take 200) gs)),
       fm_dreams := (case dreams of None \<Rightarrow> fm_dreams m | Some ds \<Rightarrow> take 8 (map (take 200) ds)),
       fm_structured_thinking := (case thinking of None \<Rightarrow> fm_structured_thinking m | Some x \<Rightarrow> max 0 (min 1 x))\<rparr>"

definition update_member_life ::
  "city_env \<Rightarrow> string \<Rightarrow> string list option \<Rightarrow> string list option \<Rightarrow> float64 option \<Rightarrow> city_db \<Rightarrow> (city_db \<times> member_view) res" where
  "update_member_life env mid goals dreams thinking db = (case row_get fm_id (members db) mid of
     None \<Rightarrow> Inl (ValueError ''Member not found'')
   | Some m \<Rightarrow>
      let db = db\<lparr>members := row_set fm_id mid (touch_member env (life_update goals dreams thinking)) (members db)\<rparr>
      in (case get_with_members db (fm_family_id m) of
            None \<Rightarrow> Inl (ValueError ''Family not found'')
          | Some (_, ms) \<Rightarrow> (case find (\<lambda>r. fm_id r = mid) ms of
               None \<Rightarrow> Inl (ValueError ''Member missing after update'')
             | Some row \<Rightarrow> Inr (db, serialize_member env db row))))"

section \<open>Succession\<close>

text \<open>The text between a name and its generation: a blank, a middle dot (U+00B7), a blank and a \<open>G\<close>.\<close>

definition GEN_MARK :: string where
  "GEN_MARK = [CHR '' '', CHR 0xB7, CHR '' '', CHR ''G'']"

fun before_mark :: "string \<Rightarrow> string \<Rightarrow> string" where
  "before_mark mark [] = []"
| "before_mark mark (c # s) = (if py_startswith (c # s) mark then [] else c # before_mark mark s)"

definition heir_base :: "string \<Rightarrow> string" where
  "heir_base base_name = py_rstrip (before_mark GEN_MARK base_name)"

definition heir_thinking :: "FamilyMemberModel \<Rightarrow> float64" where
  "heir_thinking m = min 1 (fadd (fadd (fmul (float_or (Some (fm_structured_thinking m)) (fl (1/2))) (fl (85/100)))
     (fmul (fm_growth m) (fl (1/5)))) (fl (5/100)))"

definition heir_growth :: "FamilyMemberModel \<Rightarrow> float64" where
  "heir_growth m = min 1 (fadd (fmul (fm_growth m) (fl (1/2))) (fl (1/10)))"

definition heir_knobs :: "FamilyMemberModel \<Rightarrow> PersonaModel option \<Rightarrow> int \<Rightarrow> (string, float64) dict" where
  "heir_knobs m persona gen =
    (let knobs = mutate_knobs (fm_knob_overrides m) gen in
     case persona of None \<Rightarrow> knobs | Some p \<Rightarrow> mutate_knobs (dmerge (knob_values p) knobs) gen)"

definition heir_role :: "FamilyMemberModel \<Rightarrow> string" where
  "heir_role m = (if fm_role_in_family m = ''parent'' then ''parent'' else ''child'')"

definition heir_label :: "FamilyMemberModel \<Rightarrow> string" where
  "heir_label m = label_or (fm_role_label m) ''builder''"

definition base_name_of :: "city_db \<Rightarrow> FamilyMemberModel \<Rightarrow> string" where
  "base_name_of db m = (case row_get am_id (agents db) (fm_agent_id m) of None \<Rightarrow> ''Heir'' | Some a \<Rightarrow> am_name a)"

definition heir_name :: "city_db \<Rightarrow> FamilyMemberModel \<Rightarrow> string" where
  "heir_name db m = heir_base (base_name_of db m) @ GEN_MARK @ py_str_int (fm_generation m + 1)"

definition member_persona :: "city_db \<Rightarrow> FamilyMemberModel \<Rightarrow> PersonaModel option" where
  "member_persona db m = (case row_get am_id (agents db) (fm_agent_id m) of None \<Rightarrow> None | Some a \<Rightarrow> agent_persona db a)"

definition heir_tags :: "FamilyMemberModel \<Rightarrow> string list" where
  "heir_tags m = (if fm_tool_tags m = [] then DEFAULT_CITY_TOOL_TAGS else fm_tool_tags m)"

definition heir_goals :: "FamilyMemberModel \<Rightarrow> string list" where
  "heir_goals m = (if fm_goals m = [] then default_goals (Some (heir_label m)) else fm_goals m)"

definition heir_dreams :: "city_db \<Rightarrow> FamilyMemberModel \<Rightarrow> string list" where
  "heir_dreams db m =
    (let dreams = (if fm_dreams m = [] then default_dreams (Some (heir_label m)) else fm_dreams m)
     in take 6 (dedup_by id (dreams @ [''honor legacy of '' @ heir_base (base_name_of db m)])))"

definition heir_persona_row :: "city_env \<Rightarrow> city_db \<Rightarrow> FamilyMemberModel \<Rightarrow> PersonaModel" where
  "heir_persona_row env db m = new_persona env db (heir_name db m @ '' Persona'')
     (''Successor of '' @ base_name_of db m @ ''; generation '' @ py_str_int (fm_generation m + 1))
     (heir_knobs m (member_persona db m) (fm_generation m + 1))
     (for_role (env_tiers env) (heir_role m) (Some (heir_label m))) (fl (7/10)) 2000"

definition lineage_parent :: "FamilyMemberModel \<Rightarrow> FamilyMemberModel option \<Rightarrow> FamilyMemberModel" where
  "lineage_parent m living_parent = (case living_parent of None \<Rightarrow> m | Some p \<Rightarrow> if fm_life_status p = ''alive'' then p else m)"

definition heir_member ::
  "city_env \<Rightarrow> city_db \<Rightarrow> city_db \<Rightarrow> FamilyModel \<Rightarrow> FamilyMemberModel \<Rightarrow> FamilyMemberModel \<Rightarrow> string \<Rightarrow> int \<Rightarrow> FamilyMemberModel" where
  "heir_member env db0 db family m lineage aid max_age =
    (new_member env db (fa_id family) aid (if fm_role_in_family m = ''parent'' then None else Some (fm_id lineage))
       (heir_role m) (Some (heir_label m))
       (filter (\<lambda>(k, v). k \<in> set PERSONA_KNOB_FIELDS) (heir_knobs m (member_persona db0 m) (fm_generation m + 1)))
       (heir_tags m) (fm_generation m + 1) max_age)
     \<lparr>fm_goals := heir_goals m, fm_dreams := heir_dreams db0 m, fm_structured_thinking := heir_thinking m,
      fm_growth := heir_growth m, fm_successor_of_id := Some (fm_id m),
      fm_legacy := Some (inherit_legacy (mv_member (serialize_member env db0 m)))\<rparr>"

definition succeed_member ::
  "city_env \<Rightarrow> FamilyModel \<Rightarrow> FamilyMemberModel \<Rightarrow> city_db \<Rightarrow> (city_db \<times> FamilyMemberModel) res" where
  "succeed_member env family m db0 =
     rbind (get_parent db0 (fa_id family)) (\<lambda>living_parent.
     let hp = heir_persona_row env db0 m;
         db = add_persona hp db0
     in rbind (to_profile hp) (\<lambda>profile.
     let ha = new_agent env db (heir_name db0 m) (pm_id hp) (pm_model hp) profile (heir_tags m);
         db = add_agent ha db
     in rbind (policy_max_age (fa_policy family)
         (if fm_max_age_ticks m = 0 then DEFAULT_MAX_AGE_TICKS else fm_max_age_ticks m)) (\<lambda>max_age.
     let heir = heir_member env db0 db family m (lineage_parent m living_parent) (am_id ha) max_age;
         db = add_member heir db;
         db = emit_event env ''legacy.passed'' (Some (fa_id family)) None
           [(''from_member_id'', JStr (fm_id m)), (''to_member_id'', JStr (fm_id heir)),
            (''generation'', JInt (fm_generation heir)), (''role_label'', JStr (heir_label m)),
            (''goals'', jstrs (heir_goals m)), (''tool_tags'', jstrs (heir_tags m))] db;
         db = emit_event env ''agent.spawned'' (Some (fa_id family)) None
           [(''family_id'', JStr (fa_id family)), (''member_id'', JStr (fm_id heir)), (''agent_id'', JStr (am_id ha)),
            (''parent_id'', jopt (fm_parent_member_id heir)), (''role'', JStr (heir_role m)),
            (''role_label'', JStr (heir_label m)), (''generation'', JInt (fm_generation heir)),
            (''successor_of_id'', JStr (fm_id m))] db
     in Inr (db, heir))))"

section \<open>The life tick\<close>

definition family_efficiency :: "city_db \<Rightarrow> string \<Rightarrow> nat \<Rightarrow> float64" where
  "family_efficiency db fid living_count =
    (let completed = length (filter (\<lambda>j. cj_status j = ''completed'') (jobs_list_for_family 200 db fid))
     in py_round 4 (fdiv (of_nat completed) (of_nat (max 1 living_count))))"

definition ages :: "FamilyMemberModel \<Rightarrow> bool" where
  "ages m \<longleftrightarrow> fm_life_status m \<noteq> ''deceased'' \<and> fm_is_active m"

definition aged_member :: "city_env \<Rightarrow> int \<Rightarrow> FamilyMemberModel \<Rightarrow> FamilyMemberModel" where
  "aged_member env force_age m =
     m\<lparr>fm_age_ticks := fm_age_ticks m + max 1 force_age,
       fm_growth := min 1 (fadd (fm_growth m) (fl (4/100))),
       fm_structured_thinking := min 1 (fadd (float_or (Some (fm_structured_thinking m)) (fl (1/2))) (fl (15/1000))),
       fm_updated_at := env_now env\<rparr>"

definition policy_limit :: "(string, json) dict \<Rightarrow> int option res" where
  "policy_limit policy = (case dget policy ''max_age_ticks'' of
     None \<Rightarrow> Inr None | Some v \<Rightarrow> if v = JNull then Inr None else rbind (json_int v) (\<lambda>i. Inr (Some i)))"

definition policy_override :: "(string, json) dict \<Rightarrow> FamilyMemberModel \<Rightarrow> (FamilyMemberModel \<times> int) res" where
  "policy_override policy m = rbind (policy_limit policy) (\<lambda>l. Inr (case l of
     None \<Rightarrow> (m, if fm_max_age_ticks m = 0 then DEFAULT_MAX_AGE_TICKS else fm_max_age_ticks m)
   | Some i \<Rightarrow> (m\<lparr>fm_max_age_ticks := i\<rparr>, i)))"

text \<open>One family's ageing loop: the new database and the identifiers of the members that are due.\<close>

fun age_all :: "city_env \<Rightarrow> int \<Rightarrow> FamilyModel \<Rightarrow> FamilyMemberModel list \<Rightarrow> city_db \<Rightarrow> (city_db \<times> string list \<times> nat) res" where
  "age_all env force_age family [] db = Inr (db, [], 0)"
| "age_all env force_age family (m # ms) db =
     (if \<not> ages m then age_all env force_age family ms db
      else
        let a = aged_member env force_age m;
            db = emit_event env ''life.aged'' (Some (fa_id family)) None
              [(''member_id'', JStr (fm_id a)), (''agent_id'', JStr (fm_agent_id a)), (''age_ticks'', JInt (fm_age_ticks a)),
               (''max_age_ticks'', JInt (fm_max_age_ticks a)), (''generation'', JInt (fm_generation a)),
               (''growth'', JFloat (fm_growth a)), (''structured_thinking'', JFloat (fm_structured_thinking a))] db
        in rbind (policy_override (fa_policy family) a) (\<lambda>(b, max_age).
           let db = db\<lparr>members := row_set fm_id (fm_id m) (\<lambda>_. b) (members db)\<rparr>
           in rbind (age_all env force_age family ms db) (\<lambda>(db, due, n).
              Inr (db, (if max_age \<le> fm_age_ticks b then fm_id m # due else due), Suc n))))"

record succession =
  su_family_id :: string
  su_deceased_member_id :: string
  su_heir_member_id :: string
  su_generation :: int

definition bury :: "city_env \<Rightarrow> FamilyModel \<Rightarrow> string \<Rightarrow> city_db \<Rightarrow> (city_db \<times> succession) res" where
  "bury env family mid db = (case row_get fm_id (members db) mid of
     None \<Rightarrow> Inl (RuntimeFailure ''row is gone'')
   | Some m \<Rightarrow>
      let d = m\<lparr>fm_life_status := ''deceased'', fm_is_active := False, fm_deceased_at := Some (env_now env)\<rparr>;
          db = db\<lparr>members := row_set fm_id mid (\<lambda>_. d) (members db),
                  agents := row_set am_id (fm_agent_id m) (am_is_active_update (\<lambda>_. False)) (agents db)\<rparr>;
          db = emit_event env ''member.died'' (Some (fa_id family)) None
            [(''member_id'', JStr (fm_id d)), (''agent_id'', JStr (fm_agent_id d)), (''generation'', JInt (fm_generation d)),
             (''role_label'', jopt (fm_role_label d)), (''age_ticks'', JInt (fm_age_ticks d)),
             (''goals'', jstrs (fm_goals d)), (''dreams'', jstrs (fm_dreams d))] db
      in rbind (succeed_member env family d db) (\<lambda>(db, heir).
         Inr (db, \<lparr> su_family_id = fa_id family, su_deceased_member_id = mid, su_heir_member_id = fm_id heir,
                    su_generation = fm_generation heir \<rparr>)))"

fun bury_all :: "city_env \<Rightarrow> FamilyModel \<Rightarrow> string list \<Rightarrow> city_db \<Rightarrow> (city_db \<times> succession list) res" where
  "bury_all env family [] db = Inr (db, [])"
| "bury_all env family (mid # mids) db =
     rbind (bury env family mid db) (\<lambda>(db, s). rbind (bury_all env family mids db) (\<lambda>(db, ss). Inr (db, s # ss)))"

record family_tick =
  ft_aged :: nat
  ft_successions :: "succession list"
  ft_before :: float64
  ft_after :: float64

definition alive_count :: "city_db \<Rightarrow> string \<Rightarrow> nat" where
  "alive_count db fid = length (filter (\<lambda>m. fm_is_active m \<and> fm_life_status m = ''alive'') (family_members db fid))"

definition family_life_tick :: "city_env \<Rightarrow> int \<Rightarrow> FamilyModel \<Rightarrow> city_db \<Rightarrow> (city_db \<times> family_tick) res" where
  "family_life_tick env force_age family db =
    (let eb = family_efficiency db (fa_id family)
           (length (filter (\<lambda>m. fm_is_active m \<and> (fm_life_status m = [] \<or> fm_life_status m = ''alive''))
              (family_members db (fa_id family))))
     in rbind (age_all env force_age family (family_members db (fa_id family)) db) (\<lambda>(db, due, n).
        rbind (bury_all env family due db) (\<lambda>(db, ss).
        Inr (db, \<lparr> ft_aged = n, ft_successions = ss, ft_before = eb,
                   ft_after = family_efficiency db (fa_id family) (alive_count db (fa_id family)) \<rparr>))))"

fun tick_families :: "city_env \<Rightarrow> int \<Rightarrow> string list \<Rightarrow> city_db \<Rightarrow> (city_db \<times> family_tick list) res" where
  "tick_families env force_age [] db = Inr (db, [])"
| "tick_families env force_age (fid # fids) db = (case get_with_members db fid of
     None \<Rightarrow> tick_families env force_age fids db
   | Some (family, _) \<Rightarrow> rbind (family_life_tick env force_age family db) (\<lambda>(db, t).
       rbind (tick_families env force_age fids db) (\<lambda>(db, ts). Inr (db, t # ts))))"

record life_proof =
  lp_aged :: nat
  lp_died :: nat
  lp_born :: nat
  lp_successions :: "succession list"
  lp_efficiency_before :: float64
  lp_efficiency_after :: float64
  lp_efficiency_preserved :: bool
  lp_at :: int

definition average4 :: "summation \<Rightarrow> float64 list \<Rightarrow> float64" where
  "average4 sm xs = (if xs = [] then 0 else py_round 4 (fdiv (py_sum sm xs) (of_nat (max 1 (length xs)))))"

text \<open>The report of \<open>life_tick\<close> also embeds the ecosystem view, which only reads.\<close>

definition life_tick :: "city_env \<Rightarrow> int option \<Rightarrow> int \<Rightarrow> city_db \<Rightarrow> (city_db \<times> life_proof) res" where
  "life_tick env max_families force_age db =
    (let fids = map fa_id (list_families db);
         fids = (case max_families of None \<Rightarrow> fids | Some n \<Rightarrow> take (nat (max 1 n)) fids)
     in rbind (tick_families env force_age fids db) (\<lambda>(db, ts).
        let ss = concat (map ft_successions ts);
            avg_b = average4 (env_sum env) (map ft_before ts);
            avg_a = average4 (env_sum env) (map ft_after ts)
        in Inr (db, \<lparr> lp_aged = sum_list (map ft_aged ts), lp_died = length ss, lp_born = length ss,
             lp_successions = ss, lp_efficiency_before = avg_b, lp_efficiency_after = avg_a,
             lp_efficiency_preserved = (if 0 < avg_b then fmul avg_b (fl (95/100)) \<le> avg_a else True),
             lp_at = env_now env \<rparr>)))"

end
