(* ===== verification/CityJobs.thy ===== *)
theory CityJobs
  imports CityStore
begin

text \<open>
  The work side of the city: jobs, artifacts, runs and the cohesion gate of \<open>CityService\<close>
  (\<open>src/persola/services/city_service.py\<close>) and the commons tools of
  \<open>src/persola/orchestration/city_tools.py\<close>.

  A service operation maps the database to the next one or to an exception. A tool commits as it goes,
  so a tool that raises keeps what it has committed: it returns the database beside its outcome. What
  the code takes from outside is the record \<open>tool_env\<close>: Python's \<open>str\<close> of a JSON value, path
  resolution, the child process, the elapsed milliseconds, the parser of textual tool calls
  (\<open>tool_calls.py\<close>) and the tools of the team registry (\<open>tool_loader.py\<close>), which do not touch the
  tables modelled here. Waiting for the governor (\<open>Governor\<close>), metrics and the disk mirror
  (\<open>Sandbox\<close>), which leave the tables alone, are left out.
\<close>

section \<open>Jobs\<close>

definition start_job ::
  "city_env \<Rightarrow> string \<Rightarrow> string \<Rightarrow> string option \<Rightarrow> string option \<Rightarrow> string \<Rightarrow> city_db \<Rightarrow> (city_db \<times> CityJobModel) res" where
  "start_job env fid goal district team_session_id status db = (case row_get fa_id (families db) fid of
     None \<Rightarrow> Inl (ValueError ''Family not found'')
   | Some family \<Rightarrow>
      let resolved = label_or district (fa_default_district family) in
      if resolved \<notin> set CityDistrict then Inl (ValueError (''Invalid district: '' @ resolved))
      else if status \<notin> set CityJobStatus then Inl (ValueError (''Invalid status: '' @ status))
      else
        let job = \<lparr> cj_id = new_id env db, cj_family_id = fid, cj_goal = goal, cj_district = resolved, cj_status = status,
              cj_result_summary = None, cj_result = [], cj_team_session_id = team_session_id,
              cj_created_at = env_now env, cj_updated_at = env_now env, cj_completed_at = None \<rparr>;
            db = (used_id db)\<lparr>jobs := jobs db @ [job]\<rparr>;
            db = emit_event env ''job.started'' (Some fid) (Some (cj_id job))
              [(''job_id'', JStr (cj_id job)), (''family_id'', JStr fid), (''goal'', JStr goal),
               (''district'', JStr resolved), (''status'', JStr status)] db
        in Inr (db, job))"

record job_view =
  jv_job :: CityJobModel
  jv_artifact_count :: nat
  jv_run_count :: nat
  jv_event_count :: nat

definition get_job :: "city_db \<Rightarrow> string \<Rightarrow> job_view option" where
  "get_job db jid = map_option (\<lambda>job. \<lparr> jv_job = job,
     jv_artifact_count = length (artifacts_list_for_job 1000 db jid),
     jv_run_count = length (runs_list_for_job 1000 db jid),
     jv_event_count = length (events_list_for_job 1000 db jid) \<rparr>) (row_get cj_id (jobs db) jid)"

definition with_job :: "city_db \<Rightarrow> string \<Rightarrow> (CityJobModel \<Rightarrow> 'a res) \<Rightarrow> 'a res" where
  "with_job db jid f = (case row_get cj_id (jobs db) jid of None \<Rightarrow> Inl (ValueError ''Job not found'') | Some job \<Rightarrow> f job)"

definition list_artifacts :: "nat \<Rightarrow> city_db \<Rightarrow> string \<Rightarrow> WorkspaceArtifactModel list res" where
  "list_artifacts limit db jid = with_job db jid (\<lambda>_. Inr (artifacts_list_for_job limit db jid))"

definition get_artifact_by_path :: "city_db \<Rightarrow> string \<Rightarrow> string \<Rightarrow> WorkspaceArtifactModel option res" where
  "get_artifact_by_path db jid path = with_job db jid (\<lambda>_. Inr (get_latest_by_path db jid path))"

definition list_runs :: "nat \<Rightarrow> city_db \<Rightarrow> string \<Rightarrow> WorkspaceRunModel list res" where
  "list_runs limit db jid = with_job db jid (\<lambda>_. Inr (runs_list_for_job limit db jid))"

text \<open>\<open>len(body.encode("utf-8"))\<close> over the code points up to U+00FF.\<close>

definition utf8_length :: "string \<Rightarrow> int" where
  "utf8_length s = sum_list (map (\<lambda>c. if of_char c < (128 :: int) then 1 else 2) s)"

definition record_artifact ::
  "city_env \<Rightarrow> string \<Rightarrow> string \<Rightarrow> string option \<Rightarrow> string option \<Rightarrow> string \<Rightarrow> (string, json) dict \<Rightarrow> city_db
    \<Rightarrow> (city_db \<times> WorkspaceArtifactModel) res" where
  "record_artifact env jid path content agent content_type metadata db = with_job db jid (\<lambda>job.
     let version = latest_version db jid path + 1;
         body = (case content of None \<Rightarrow> [] | Some c \<Rightarrow> c);
         row = \<lparr> wa_id = new_id env db, wa_job_id = jid, wa_family_id = cj_family_id job, wa_path = path,
           wa_content = content, wa_content_type = content_type, wa_size_bytes = utf8_length body, wa_version = version,
           wa_created_by_agent_id = agent, wa_metadata = metadata, wa_created_at = env_now env \<rparr>;
         db = (used_id db)\<lparr>artifacts := artifacts db @ [row]\<rparr>;
         db = emit_event env ''artifact.written'' (Some (cj_family_id job)) (Some jid)
           [(''artifact_id'', JStr (wa_id row)), (''path'', JStr path), (''version'', JInt version),
            (''size_bytes'', JInt (wa_size_bytes row)), (''agent_id'', jopt agent), (''job_id'', JStr jid)] db
     in Inr (db, row))"

definition record_run ::
  "city_env \<Rightarrow> string \<Rightarrow> string \<Rightarrow> (string, json) dict \<Rightarrow> string \<Rightarrow> string option \<Rightarrow> string option \<Rightarrow> int option \<Rightarrow>
   string option \<Rightarrow> string list \<Rightarrow> city_db \<Rightarrow> (city_db \<times> WorkspaceRunModel) res" where
  "record_run env jid tool args status stdout stderr duration_ms agent refs db = with_job db jid (\<lambda>job.
     if status \<notin> set WorkspaceRunStatus then Inl (ValueError (''Invalid run status: '' @ status))
     else
       let row = \<lparr> wr_id = new_id env db, wr_job_id = jid, wr_tool = tool, wr_args = args, wr_status = status,
             wr_stdout = stdout, wr_stderr = stderr, wr_duration_ms = duration_ms, wr_started_by_agent_id = agent,
             wr_artifact_refs = refs, wr_created_at = env_now env, wr_completed_at = None \<rparr>;
           db = (used_id db)\<lparr>runs := runs db @ [row]\<rparr>;
           db = emit_event env (if status \<noteq> ''pending'' then ''run.finished'' else ''run.started'')
             (Some (cj_family_id job)) (Some jid)
             [(''run_id'', JStr (wr_id row)), (''tool'', JStr tool), (''status'', JStr status),
              (''duration_ms'', (case duration_ms of None \<Rightarrow> JNull | Some d \<Rightarrow> JInt d)), (''agent_id'', jopt agent),
              (''job_id'', JStr jid)] db
       in Inr (db, row))"

definition status_fields ::
  "city_env \<Rightarrow> string \<Rightarrow> string option \<Rightarrow> (string, json) dict option \<Rightarrow> CityJobModel \<Rightarrow> CityJobModel" where
  "status_fields env status summary result job =
    (let job' = job\<lparr>cj_status := status,
           cj_result_summary := (case summary of None \<Rightarrow> cj_result_summary job | Some s \<Rightarrow> Some s),
           cj_result := (case result of None \<Rightarrow> cj_result job | Some r \<Rightarrow> r),
           cj_completed_at := (if status \<in> {''completed'', ''failed''} then Some (env_now env) else cj_completed_at job)\<rparr>
     in if job' = job then job else job'\<lparr>cj_updated_at := env_now env\<rparr>)"

definition set_job_status ::
  "city_env \<Rightarrow> string \<Rightarrow> string \<Rightarrow> string option \<Rightarrow> (string, json) dict option \<Rightarrow> city_db \<Rightarrow> (city_db \<times> CityJobModel) res" where
  "set_job_status env jid status summary result db = with_job db jid (\<lambda>job.
     if status \<notin> set CityJobStatus then Inl (ValueError (''Invalid status: '' @ status))
     else
       let db = db\<lparr>jobs := row_set cj_id jid (status_fields env status summary result) (jobs db)\<rparr>;
           db = (if status \<in> {''completed'', ''failed''}
             then emit_event env ''job.completed'' (Some (cj_family_id job)) (Some jid)
               [(''job_id'', JStr jid), (''family_id'', JStr (cj_family_id job)), (''status'', JStr status),
                (''result_summary'', jopt summary)] db
             else db)
       in Inr (db, status_fields env status summary result job))"

section \<open>Commons tools\<close>

record tool_env =
  te_str :: "json \<Rightarrow> string"
  te_resolve :: "path \<Rightarrow> path"
  te_tmp :: path
  te_child :: "files \<Rightarrow> path \<Rightarrow> child_outcome"
  te_elapsed :: int
  te_parse :: "string \<Rightarrow> (string \<times> (string, json) dict) list"
  te_team_tool :: "string \<Rightarrow> (string, json) dict \<Rightarrow> (json option) res"

datatype tool_result =
    Denied string
  | Written WorkspaceArtifactModel
  | ReadBack string "WorkspaceArtifactModel option"
  | Listed "(string \<times> int \<times> int) list"
  | RunRefused string
  | Ran run_report WorkspaceRunModel
  | Emitted CityEventModel
  | NotEmitted string
  | UnknownTool string
  | TeamResult json

text \<open>\<open>bool(result.get("ok")) if "ok" in result else not bool(result.get("error"))\<close>\<close>

fun json_ok :: "json \<Rightarrow> bool" where
  "json_ok (JObj d) = (case dget d ''ok'' of Some v \<Rightarrow> truthy v
     | None \<Rightarrow> (case dget d ''error'' of None \<Rightarrow> True | Some e \<Rightarrow> \<not> truthy e))"
| "json_ok _ = False"

fun result_ok :: "tool_result \<Rightarrow> bool" where
  "result_ok (Denied _) = False"
| "result_ok (Written _) = True"
| "result_ok (ReadBack _ a) = (a \<noteq> None)"
| "result_ok (Listed _) = True"
| "result_ok (RunRefused _) = False"
| "result_ok (Ran _ run) = (wr_status run = ''succeeded'')"
| "result_ok (Emitted _) = True"
| "result_ok (NotEmitted _) = False"
| "result_ok (UnknownTool _) = False"
| "result_ok (TeamResult j) = json_ok j"

type_synonym tool_outcome = "city_db \<times> (pyexc + tool_result)"

definition ALLOWED_VIZ_EVENT_TYPES :: "string list" where
  "ALLOWED_VIZ_EVENT_TYPES =
    [''agent.spawned'', ''artifact.written'', ''run.started'', ''run.finished'', ''job.started'', ''job.completed'',
     ''cohesion.merge'', ''cohesion.veto'', ''city.pulse.started'', ''city.pulse.finished'',
     ''city.conduct.started'', ''city.conduct.finished'', ''viz.pulse'', ''viz.custom'']"

definition kwarg :: "(string, json) dict \<Rightarrow> string \<Rightarrow> json" where
  "kwarg args k = dget_or args k JNull"

definition or_else :: "json \<Rightarrow> json \<Rightarrow> json" where
  "or_else a b = (if truthy a then a else b)"

definition workspace_write :: "city_env \<Rightarrow> tool_env \<Rightarrow> string \<Rightarrow> string option \<Rightarrow> (string, json) dict \<Rightarrow> city_db \<Rightarrow> tool_outcome" where
  "workspace_write env te jid agent args db = (case get_job db jid of
     None \<Rightarrow> (db, Inl (SandboxError ''Job not found''))
   | Some _ \<Rightarrow> (case sanitize_workspace_path (te_str te (dget_or args ''path'' (JStr []))) of
       Inl e \<Rightarrow> (db, Inl e)
     | Inr path \<Rightarrow>
         if kwarg args ''content'' = JNull then (db, Inr (Denied ''content is required''))
         else (case record_artifact env jid path (Some (te_str te (kwarg args ''content''))) agent
                 (te_str te (or_else (kwarg args ''content_type'') (JStr ''text/plain'')))
                 [(''source'', JStr ''workspace_write'')] db of
             Inl e \<Rightarrow> (db, Inl e)
           | Inr (db, row) \<Rightarrow> (db, Inr (Written row)))))"

definition workspace_read :: "tool_env \<Rightarrow> string \<Rightarrow> (string, json) dict \<Rightarrow> city_db \<Rightarrow> tool_outcome" where
  "workspace_read te jid args db = (case get_job db jid of
     None \<Rightarrow> (db, Inl (SandboxError ''Job not found''))
   | Some _ \<Rightarrow> (db, rbind (sanitize_workspace_path (te_str te (dget_or args ''path'' (JStr [])))) (\<lambda>path.
       rbind (get_artifact_by_path db jid path) (\<lambda>art. Inr (ReadBack path art)))))"

text \<open>The newest row of each path, in path order.\<close>

definition newest :: "WorkspaceArtifactModel list \<Rightarrow> (string, WorkspaceArtifactModel) dict" where
  "newest arts = fold (\<lambda>a latest. case dget latest (wa_path a) of
       None \<Rightarrow> dset (wa_path a) a latest
     | Some prev \<Rightarrow> if wa_version prev < wa_version a then dset (wa_path a) a latest else latest) arts []"

definition list_prefix :: "tool_env \<Rightarrow> json \<Rightarrow> string" where
  "list_prefix te pre = (case sanitize_workspace_path (te_str te pre) of
     Inr p \<Rightarrow> p | Inl _ \<Rightarrow> py_strip_by (\<lambda>c. c = CHR ''/'') (py_strip (te_str te pre)))"

definition workspace_list :: "tool_env \<Rightarrow> string \<Rightarrow> (string, json) dict \<Rightarrow> city_db \<Rightarrow> tool_outcome" where
  "workspace_list te jid args db = (case get_job db jid of
     None \<Rightarrow> (db, Inl (SandboxError ''Job not found''))
   | Some _ \<Rightarrow> (db, rbind (json_int (or_else (kwarg args ''limit'') (JInt 200))) (\<lambda>limit.
       if limit < 0 then Inl (RuntimeFailure ''LIMIT must not be negative'')
       else rbind (list_artifacts (nat limit) db jid) (\<lambda>arts.
         let arts = (if truthy (kwarg args ''prefix'')
               then filter (\<lambda>a. py_startswith (wa_path a) (list_prefix te (kwarg args ''prefix''))) arts else arts)
         in Inr (Listed (map (\<lambda>a. (wa_path a, wa_version a, wa_size_bytes a)) (sort_key wa_path (dvalues (newest arts)))))))))"

text \<open>The files a run sees beside its own: the artifacts of the job, as the loop over the listing leaves them.\<close>

definition sibling_files :: "string \<Rightarrow> WorkspaceArtifactModel list \<Rightarrow> (string, string) dict" where
  "sibling_files filename arts = fold (\<lambda>a extra.
     if wa_path a = filename then extra
     else (case wa_content a of None \<Rightarrow> extra
       | Some c \<Rightarrow> if wa_size_bytes a < 100000 then dset (wa_path a) c extra else extra)) arts []"

definition run_status :: "string \<Rightarrow> string" where
  "run_status s = (if s \<in> {''succeeded'', ''failed'', ''timeout''} then s else ''failed'')"

text \<open>From the row that says the run is under way to the row that says how it ended.\<close>

definition run_source ::
  "city_env \<Rightarrow> tool_env \<Rightarrow> string \<Rightarrow> string option \<Rightarrow> (string, json) dict \<Rightarrow> string \<Rightarrow> string \<Rightarrow> bool \<Rightarrow> city_db \<Rightarrow> tool_outcome" where
  "run_source env te jid agent args source filename by_path db =
    (let start_args = [(''path'', if by_path then JStr filename else JNull), (''inline'', JBool (kwarg args ''code'' \<noteq> JNull \<and> \<not> by_path))]
     in case record_run env jid ''run_python'' start_args ''running'' None None None agent [] db of
       Inl e \<Rightarrow> (db, Inl e)
     | Inr (db, _) \<Rightarrow>
       (case rbind (list_artifacts 50 db jid) (\<lambda>arts.
               rbind (json_float (or_else (kwarg args ''timeout_s'') (JFloat 15))) (\<lambda>timeout.
               Inr (sibling_files filename arts, timeout))) of
          Inl e \<Rightarrow> (db, Inl e)
        | Inr (extra, timeout) \<Rightarrow>
          (case run_python_sandboxed (te_resolve te) (te_child te) (te_tmp te) (te_str te (JFloat timeout))
                  (py_int (fmul timeout 1000)) DEFAULT_OUTPUT_CAP source filename extra of
             Inl (SandboxError msg) \<Rightarrow>
               (case record_run env jid ''run_python'' [(''path'', JStr filename)] ''denied'' None (Some msg)
                       (Some (te_elapsed te)) agent [] db of
                  Inl e \<Rightarrow> (db, Inl e) | Inr (db, _) \<Rightarrow> (db, Inr (RunRefused msg)))
           | Inl e \<Rightarrow> (db, Inl e)
           | Inr (_, report) \<Rightarrow>
               (case record_run env jid ''run_python'' [(''path'', JStr filename)] (run_status (rr_status report))
                       (Some (rr_stdout report)) (Some (rr_stderr report)) (Some (te_elapsed te)) agent [filename] db of
                  Inl e \<Rightarrow> (db, Inl e) | Inr (db, run) \<Rightarrow> (db, Inr (Ran report run))))))"

definition run_python :: "city_env \<Rightarrow> tool_env \<Rightarrow> string \<Rightarrow> string option \<Rightarrow> (string, json) dict \<Rightarrow> city_db \<Rightarrow> tool_outcome" where
  "run_python env te jid agent args db = (case get_job db jid of
     None \<Rightarrow> (db, Inl (SandboxError ''Job not found''))
   | Some _ \<Rightarrow>
       if truthy (kwarg args ''path'') then
         (case rbind (sanitize_workspace_path (te_str te (kwarg args ''path''))) (\<lambda>rel.
                 rbind (get_artifact_by_path db jid rel) (\<lambda>art. Inr (rel, art))) of
            Inl e \<Rightarrow> (db, Inl e)
          | Inr (rel, art) \<Rightarrow>
             (case (case art of None \<Rightarrow> None | Some a \<Rightarrow> wa_content a) of
                None \<Rightarrow>
                 (case record_run env jid ''run_python'' [(''path'', JStr rel)] ''denied'' None
                         (Some ''artifact not found or empty'') (Some (te_elapsed te)) agent [] db of
                    Inl e \<Rightarrow> (db, Inl e) | Inr (db, _) \<Rightarrow> (db, Inr (RunRefused ''artifact not found or empty'')))
              | Some source \<Rightarrow> run_source env te jid agent args source rel True db))
       else if kwarg args ''code'' \<noteq> JNull then
         (case sanitize_workspace_path (te_str te (or_else (kwarg args ''filename'') (JStr ''main.py''))) of
            Inl e \<Rightarrow> (db, Inl e)
          | Inr filename \<Rightarrow> run_source env te jid agent args (te_str te (kwarg args ''code'')) filename False db)
       else (db, Inr (RunRefused ''path or code is required'')))"

definition emit_viz_event :: "city_env \<Rightarrow> tool_env \<Rightarrow> string \<Rightarrow> string option \<Rightarrow> (string, json) dict \<Rightarrow> city_db \<Rightarrow> tool_outcome" where
  "emit_viz_event env te jid agent args db = (case get_job db jid of
     None \<Rightarrow> (db, Inl (SandboxError ''Job not found''))
   | Some job \<Rightarrow>
       let event_type = te_str te (or_else (or_else (kwarg args ''event_type'') (kwarg args ''type'')) (JStr ''viz.pulse'')) in
       if event_type \<notin> set ALLOWED_VIZ_EVENT_TYPES then (db, Inr (NotEmitted (''event_type not allowed: '' @ event_type)))
       else
         let payload = (case kwarg args ''payload'' of JObj d \<Rightarrow> d | _ \<Rightarrow> []);
             db = emit_event env event_type (Some (cj_family_id (jv_job job))) (Some jid)
               (dset ''job_id'' (JStr jid) (dset ''agent_id'' (jopt agent) payload)) db
         in (db, Inr (Emitted (last (events db)))))"

definition city_tool :: "city_env \<Rightarrow> tool_env \<Rightarrow> string \<Rightarrow> string option \<Rightarrow> string \<Rightarrow> (string, json) dict \<Rightarrow> city_db \<Rightarrow> tool_outcome" where
  "city_tool env te jid agent name args db =
    (if dget args ''name'' \<noteq> None \<or> dget args ''self'' \<noteq> None then (db, Inl TypeError)
     else if name = ''workspace_write'' then workspace_write env te jid agent args db
     else if name = ''workspace_read'' then workspace_read te jid args db
     else if name = ''workspace_list'' then workspace_list te jid args db
     else if name = ''run_python'' then run_python env te jid agent args db
     else if name = ''emit_viz_event'' then emit_viz_event env te jid agent args db
     else (db, rbind (te_team_tool te name args) (\<lambda>r. Inr (case r of None \<Rightarrow> UnknownTool name | Some j \<Rightarrow> TeamResult j))))"

fun normalize_call :: "tool_env \<Rightarrow> json \<Rightarrow> (string \<times> (string, json) dict) list" where
  "normalize_call te (JStr s) = te_parse te s"
| "normalize_call te (JObj call) =
    (if \<not> truthy (kwarg call ''name'') then []
     else [(te_str te (kwarg call ''name''),
            case or_else (or_else (kwarg call ''args'') (kwarg call ''arguments'')) (JObj []) of JObj d \<Rightarrow> d | _ \<Rightarrow> [])])"
| "normalize_call te _ = []"

record tool_report =
  tr_name :: string
  tr_args :: "(string, json) dict"
  tr_outcome :: "pyexc + tool_result"
  tr_ok :: bool

fun run_calls ::
  "city_env \<Rightarrow> tool_env \<Rightarrow> string \<Rightarrow> string option \<Rightarrow> (string \<times> (string, json) dict) list \<Rightarrow> city_db \<Rightarrow> city_db \<times> tool_report list" where
  "run_calls env te jid agent [] db = (db, [])"
| "run_calls env te jid agent ((name, args) # calls) db =
    (let (db, out) = city_tool env te jid agent name args db;
         report = \<lparr> tr_name = name, tr_args = args, tr_outcome = out, tr_ok = (case out of Inl _ \<Rightarrow> False | Inr r \<Rightarrow> result_ok r) \<rparr>;
         (db, reports) = run_calls env te jid agent calls db
     in (db, report # reports))"

definition mark_running :: "city_env \<Rightarrow> CityJobModel \<Rightarrow> CityJobModel" where
  "mark_running env job = (if cj_status job = ''pending'' then job\<lparr>cj_status := ''running'', cj_updated_at := env_now env\<rparr> else job)"

record exec_view =
  ex_status :: string
  ex_results :: "tool_report list"

definition execute_tool_calls ::
  "city_env \<Rightarrow> tool_env \<Rightarrow> string \<Rightarrow> json list \<Rightarrow> string option \<Rightarrow> city_db \<Rightarrow> (city_db \<times> exec_view) res" where
  "execute_tool_calls env te jid calls agent db = with_job db jid (\<lambda>job.
     let db = db\<lparr>jobs := row_set cj_id jid (mark_running env) (jobs db)\<rparr>;
         (db, reports) = run_calls env te jid agent (concat (map (normalize_call te) calls)) db
     in Inr (db, \<lparr> ex_status = (case row_get cj_id (jobs db) jid of None \<Rightarrow> cj_status (mark_running env job) | Some j \<Rightarrow> cj_status j),
                   ex_results = reports \<rparr>))"

section \<open>Cohesion\<close>

record cohesion =
  co_score :: float64
  co_participation :: float64
  co_tool_success_rate :: float64
  co_participants :: nat
  co_family_size :: nat
  co_artifact_count :: nat
  co_run_count :: nat

definition participants :: "string set \<Rightarrow> string option list \<Rightarrow> string set" where
  "participants member_agents ids = {a \<in> member_agents. Some a \<in> set ids}"

definition ratio :: "nat \<Rightarrow> nat \<Rightarrow> float64" where
  "ratio a b = (if b = 0 then 0 else fdiv (of_nat a) (of_nat b))"

definition cohesion_of :: "string set \<Rightarrow> WorkspaceArtifactModel list \<Rightarrow> WorkspaceRunModel list \<Rightarrow> cohesion" where
  "cohesion_of member_agents arts rns =
    (let ps = participants member_agents (map wa_created_by_agent_id arts) \<union> participants member_agents (map wr_started_by_agent_id rns);
         participation = ratio (card ps) (card member_agents);
         succeeded = length (filter (\<lambda>r. wr_status r = ''succeeded'') rns);
         success_rate = ratio succeeded (length rns)
     in \<lparr> co_score = py_round 4 (fadd (fmul (fl (6/10)) participation) (fmul (fl (4/10)) success_rate)),
          co_participation = py_round 4 participation, co_tool_success_rate = py_round 4 success_rate,
          co_participants = card ps, co_family_size = card member_agents,
          co_artifact_count = length arts, co_run_count = length rns \<rparr>)"

definition cohesion_score :: "city_db \<Rightarrow> string \<Rightarrow> cohesion res" where
  "cohesion_score db jid = with_job db jid (\<lambda>job.
     Inr (cohesion_of (set (map fm_agent_id (members_list_for_family db (cj_family_id job))))
       (artifacts_list_for_job 1000 db jid) (runs_list_for_job 1000 db jid)))"

definition cohesion_threshold :: "(string, json) dict \<Rightarrow> float64" where
  "cohesion_threshold policy = (case json_float (dget_or policy ''cohesion_min'' (JFloat (fl (35/100)))) of
     Inr x \<Rightarrow> max 0 (min 1 x) | Inl _ \<Rightarrow> fl (35/100))"

definition cohesion_json :: "string \<Rightarrow> cohesion \<Rightarrow> json" where
  "cohesion_json jid c = JObj [(''job_id'', JStr jid), (''score'', JFloat (co_score c)), (''participation'', JFloat (co_participation c)),
     (''tool_success_rate'', JFloat (co_tool_success_rate c)), (''participants'', JInt (int (co_participants c))),
     (''family_size'', JInt (int (co_family_size c))), (''artifact_count'', JInt (int (co_artifact_count c))),
     (''run_count'', JInt (int (co_run_count c)))]"

record decision_view =
  dv_decision :: string
  dv_cohesion :: cohesion
  dv_threshold :: float64
  dv_job :: "job_view option"

definition first_parent :: "family_view \<Rightarrow> FamilyMemberModel option" where
  "first_parent fv = find (\<lambda>m. fm_role_in_family m = ''parent'') (map mv_row (fv_members fv))"

definition child_agents :: "family_view \<Rightarrow> string list" where
  "child_agents fv = map fm_agent_id (filter (\<lambda>m. fm_role_in_family m = ''child'' \<and> fm_agent_id m \<noteq> []) (map mv_row (fv_members fv)))"

definition decision_payload :: "string \<Rightarrow> cohesion \<Rightarrow> float64 \<Rightarrow> family_view \<Rightarrow> (string, json) dict" where
  "decision_payload summary c threshold fv =
    (let parent = first_parent fv in
     [(''summary'', JStr summary), (''score'', JFloat (co_score c)), (''threshold'', JFloat threshold),
      (''parent_id'', jopt (map_option fm_id parent)), (''parent_agent_id'', jopt (map_option fm_agent_id parent)),
      (''child_ids'', jstrs (child_agents fv))])"

definition decision_result :: "string \<Rightarrow> cohesion \<Rightarrow> string \<Rightarrow> float64 \<Rightarrow> (string, json) dict" where
  "decision_result jid c decision threshold =
     [(''cohesion'', cohesion_json jid c), (''decision'', JStr decision), (''threshold'', JFloat threshold)]"

definition cohesion_merge ::
  "city_env \<Rightarrow> tool_env \<Rightarrow> string \<Rightarrow> string option \<Rightarrow> cohesion \<Rightarrow> float64 \<Rightarrow> family_view \<Rightarrow> city_db \<Rightarrow> city_db res" where
  "cohesion_merge env te jid reason c threshold fv db =
     rbind (execute_tool_calls env te jid
       [JObj [(''name'', JStr ''emit_viz_event''), (''args'', JObj [(''event_type'', JStr ''cohesion.merge''),
          (''payload'', JObj (decision_payload (label_or reason ''Parent approved communal merge'') c threshold fv))])]]
       (map_option fm_agent_id (first_parent fv)) db) (\<lambda>(db, _).
     rbind (set_job_status env jid ''completed'' (Some (label_or reason ''cohesion merge approved''))
       (Some (decision_result jid c ''merge'' threshold)) db) (\<lambda>(db, _). Inr db))"

definition cohesion_veto ::
  "city_env \<Rightarrow> string \<Rightarrow> string \<Rightarrow> string option \<Rightarrow> cohesion \<Rightarrow> float64 \<Rightarrow> family_view \<Rightarrow> city_db \<Rightarrow> city_db res" where
  "cohesion_veto env fid jid reason c threshold fv db =
     rbind (set_job_status env jid ''failed'' (Some (label_or reason ''cohesion veto''))
       (Some (decision_result jid c ''veto'' threshold))
       (emit_event env ''cohesion.veto'' (Some fid) (Some jid)
         (decision_payload (label_or reason ''Parent vetoed cohesion merge'') c threshold fv) db)) (\<lambda>(db, _). Inr db)"

definition cohesion_decide ::
  "city_env \<Rightarrow> tool_env \<Rightarrow> string \<Rightarrow> string \<Rightarrow> string option \<Rightarrow> bool \<Rightarrow> city_db \<Rightarrow> (city_db \<times> decision_view) res" where
  "cohesion_decide env te jid action reason force db =
    (let action_l = py_strip (py_lower action) in
     if action_l \<notin> {''merge'', ''veto''} then Inl (ValueError ''action must be merge or veto'')
     else with_job db jid (\<lambda>job.
       case get_family env db (cj_family_id job) of
         None \<Rightarrow> Inl (ValueError ''Family not found'')
       | Some fv \<Rightarrow>
          rbind (cohesion_score db jid) (\<lambda>c.
          let threshold = cohesion_threshold (fa_policy (fv_row fv)) in
          rbind (if action_l = ''merge'' then
                   if \<not> force \<and> co_score c < threshold
                   then Inl (ValueError (''Cohesion '' @ te_str te (JFloat (co_score c)) @ '' below threshold '' @
                          te_str te (JFloat threshold) @ ''; veto or force=true''))
                   else cohesion_merge env te jid reason c threshold fv db
                 else cohesion_veto env (cj_family_id job) jid reason c threshold fv db) (\<lambda>db.
          Inr (db, \<lparr> dv_decision = action_l, dv_cohesion = c, dv_threshold = threshold, dv_job = get_job db jid \<rparr>)))))"

end
