(* ===== verification/CityReports.thy ===== *)
theory CityReports
  imports CityFamilies CityJobs
begin

text \<open>
  The reports of the city, which read the tables and change nothing: \<open>city_snapshot\<close>, \<open>city_ecosystem\<close>,
  \<open>city_memorial\<close>, \<open>city_chronicle\<close>, \<open>generation_report\<close>, \<open>city_health\<close>, \<open>city_heartbeat\<close> and
  \<open>export_austin_pack\<close> of \<open>CityService\<close> (\<open>src/persola/services/city_service.py\<close>).

  A report is a record with the entries of the returned dictionary; constant texts (hints, versions) and
  entries that only repeat another report are left out. What the process remembers between calls
  (\<open>LAST_CITY_HEARTBEAT\<close>, \<open>LAST_LIFE_PROOF\<close>), the depth of the worker's queue and Python's \<open>str\<close> of a
  JSON value are arguments. Metrics are left out.
\<close>

section \<open>Snapshot\<close>

definition TARGET_AGENTS :: nat where
  "TARGET_AGENTS = 100"

definition family_details :: "city_env \<Rightarrow> city_db \<Rightarrow> family_view list" where
  "family_details env db = List.map_filter (\<lambda>s. get_family env db (fa_id s)) (list_families db)"

definition fingerprint_of :: "member \<Rightarrow> string option" where
  "fingerprint_of m = (case m_personality m of
     Some (JObj d) \<Rightarrow> (case dget d ''fingerprint'' of Some (JStr fp) \<Rightarrow> if fp = [] then None else Some fp | _ \<Rightarrow> None)
   | _ \<Rightarrow> None)"

definition count_in :: "string \<Rightarrow> (string, nat) dict \<Rightarrow> (string, nat) dict" where
  "count_in k d = dset k (dget_or d k 0 + 1) d"

definition members_of :: "family_view \<Rightarrow> member list" where
  "members_of fv = map mv_member (fv_members fv)"

record snapshot_view =
  sn_families :: "family_view list"
  sn_family_count :: nat
  sn_agent_count :: nat
  sn_distinct_personalities :: nat
  sn_districts :: "(string, nat) dict"
  sn_events :: "CityEventModel list"
  sn_progress :: float64

definition city_snapshot :: "city_env \<Rightarrow> nat \<Rightarrow> city_db \<Rightarrow> snapshot_view" where
  "city_snapshot env event_limit db =
    (let fams = family_details env db;
         ags = sum_list (map (\<lambda>fv. length (fv_members fv)) fams);
         fps = concat (map (\<lambda>fv. List.map_filter fingerprint_of (members_of fv)) fams)
     in \<lparr> sn_families = fams, sn_family_count = length fams, sn_agent_count = ags,
          sn_distinct_personalities = length (remdups fps),
          sn_districts = fold (\<lambda>fv. count_in (label_or (Some (fa_default_district (fv_row fv))) ''build'')) fams
            (map (\<lambda>d. (d, 0)) [''build'', ''viz'', ''research'', ''ops'']),
          sn_events = events_list_recent event_limit db,
          sn_progress = min 1 (fdiv (of_nat ags) (of_nat (max 1 TARGET_AGENTS))) \<rparr>)"

section \<open>Ecosystems\<close>

definition is_deceased :: "member \<Rightarrow> bool" where
  "is_deceased m \<longleftrightarrow> label_or (m_life_status m) [] = ''deceased''"

definition max_generation :: "member list \<Rightarrow> int" where
  "max_generation ms = (case ms of [] \<Rightarrow> 0 | m # r \<Rightarrow> fold (\<lambda>x. max (m_generation x)) r (m_generation m))"

record ecosystem =
  eco_family_id :: string
  eco_name :: string
  eco_district :: string
  eco_cohesion :: float64
  eco_efficiency :: float64
  eco_living :: nat
  eco_deceased :: nat
  eco_generation_max :: int
  eco_goals :: "string list"
  eco_dreams :: "string list"
  eco_members :: "member list"

definition family_ecosystem :: "city_env \<Rightarrow> city_db \<Rightarrow> family_view \<Rightarrow> ecosystem" where
  "family_ecosystem env db fv =
    (let ms = members_of fv; alive = living_members ms in
     \<lparr> eco_family_id = fa_id (fv_row fv), eco_name = fa_name (fv_row fv), eco_district = fa_default_district (fv_row fv),
       eco_cohesion = ecosystem_cohesion (env_sum env) ms,
       eco_efficiency = family_efficiency db (fa_id (fv_row fv)) (length alive),
       eco_living = length alive, eco_deceased = length (filter is_deceased ms), eco_generation_max = max_generation ms,
       eco_goals = take 12 (dedup_by id (concat (map (\<lambda>m. list_or (m_goals m)) alive))),
       eco_dreams = take 8 (dedup_by id (concat (map (\<lambda>m. list_or (m_dreams m)) alive))),
       eco_members = ms \<rparr>)"

record vitals =
  vi_living :: nat
  vi_deceased :: nat
  vi_family_count :: nat
  vi_generation_max :: int
  vi_avg_efficiency :: float64
  vi_distinct_personalities :: nat

record ecosystem_report =
  er_ecosystems :: "ecosystem list"
  er_city :: vitals
  er_events :: "CityEventModel list"

definition city_ecosystem :: "city_env \<Rightarrow> nat \<Rightarrow> city_db \<Rightarrow> ecosystem_report" where
  "city_ecosystem env event_limit db =
    (let ecos = map (family_ecosystem env db) (family_details env db);
         snap = city_snapshot env event_limit db
     in \<lparr> er_ecosystems = ecos,
          er_city = \<lparr> vi_living = sum_list (map eco_living ecos), vi_deceased = sum_list (map eco_deceased ecos),
            vi_family_count = length ecos, vi_generation_max = fold (\<lambda>e. max (eco_generation_max e)) ecos 0,
            vi_avg_efficiency = average4 (env_sum env) (map eco_efficiency ecos),
            vi_distinct_personalities = sn_distinct_personalities snap \<rparr>,
          er_events = sn_events snap \<rparr>)"

section \<open>Memorial\<close>

record heir =
  he_member_id :: string
  he_agent_id :: string
  he_name :: "string option"
  he_generation :: int
  he_life_status :: "string option"

record memorial_entry =
  me_family_id :: string
  me_family_name :: string
  me_district :: string
  me_member_id :: string
  me_agent_id :: string
  me_name :: "string option"
  me_generation :: int
  me_role_label :: "string option"
  me_goals :: "string list"
  me_dreams :: "string list"
  me_deceased_at :: "int option"
  me_heirs :: "heir list"
  me_legacy :: "legacy option"

definition heir_of :: "member_view \<Rightarrow> heir" where
  "heir_of h = \<lparr> he_member_id = fm_id (mv_row h), he_agent_id = fm_agent_id (mv_row h),
     he_name = map_option am_name (mv_agent h), he_generation = fm_generation (mv_row h),
     he_life_status = m_life_status (mv_member h) \<rparr>"

definition memorial_entry_of :: "family_view \<Rightarrow> member_view \<Rightarrow> memorial_entry" where
  "memorial_entry_of fv m =
    \<lparr> me_family_id = fa_id (fv_row fv), me_family_name = fa_name (fv_row fv), me_district = fa_default_district (fv_row fv),
      me_member_id = fm_id (mv_row m), me_agent_id = fm_agent_id (mv_row m), me_name = map_option am_name (mv_agent m),
      me_generation = fm_generation (mv_row m), me_role_label = fm_role_label (mv_row m),
      me_goals = fm_goals (mv_row m), me_dreams = fm_dreams (mv_row m), me_deceased_at = fm_deceased_at (mv_row m),
      me_heirs = map heir_of (filter (\<lambda>h. fm_successor_of_id (mv_row h) = Some (fm_id (mv_row m))) (fv_members fv)),
      me_legacy = fm_legacy (mv_row m) \<rparr>"

fun memorial_family :: "int \<Rightarrow> family_view \<Rightarrow> member_view list \<Rightarrow> memorial_entry list \<Rightarrow> memorial_entry list" where
  "memorial_family limit fv [] entries = entries"
| "memorial_family limit fv (m # ms) entries =
    (if \<not> is_deceased (mv_member m) then memorial_family limit fv ms entries
     else let entries = entries @ [memorial_entry_of fv m]
          in if limit \<le> int (length entries) then entries else memorial_family limit fv ms entries)"

fun memorial_loop :: "int \<Rightarrow> family_view list \<Rightarrow> memorial_entry list \<Rightarrow> memorial_entry list" where
  "memorial_loop limit [] entries = entries"
| "memorial_loop limit (fv # fvs) entries =
    (let entries = memorial_family limit fv (fv_members fv) entries
     in if limit \<le> int (length entries) then entries else memorial_loop limit fvs entries)"

record memorial =
  mo_entries :: "memorial_entry list"
  mo_city :: vitals

definition city_memorial :: "city_env \<Rightarrow> int \<Rightarrow> city_db \<Rightarrow> memorial" where
  "city_memorial env limit db = \<lparr> mo_entries = memorial_loop limit (family_details env db) [],
     mo_city = er_city (city_ecosystem env 10 db) \<rparr>"

section \<open>Chronicle\<close>

definition LIFE_EVENTS :: "string list" where
  "LIFE_EVENTS = [''life.aged'', ''member.died'', ''legacy.passed'', ''agent.spawned'', ''family.created'']"

record chronicle =
  chr_events :: "CityEventModel list"
  chr_eras :: "(string, nat) dict"
  chr_city :: vitals
  chr_memorial_count :: nat

definition last_n :: "nat \<Rightarrow> 'a list \<Rightarrow> 'a list" where
  "last_n n xs = (if n < length xs then drop (length xs - n) xs else xs)"

definition chronicle_rows :: "nat \<Rightarrow> bool \<Rightarrow> string option \<Rightarrow> city_db \<Rightarrow> CityEventModel list res" where
  "chronicle_rows limit life_only fid db =
    (let fetch_n = (if life_only then limit * 4 else limit) in
     rbind (case fid of
         Some f \<Rightarrow> if row_get fa_id (families db) f = None then Inl (ValueError ''Family not found'')
                   else Inr (events_list_for_family fetch_n db f)
       | None \<Rightarrow> Inr (events_list_recent fetch_n db)) (\<lambda>raw.
     let raw = (if life_only then filter (\<lambda>r. ev_event_type r \<in> set LIFE_EVENTS) raw else raw)
     in Inr (last_n limit raw)))"

definition count_era :: "(json \<Rightarrow> string) \<Rightarrow> CityEventModel \<Rightarrow> (string, nat) dict \<Rightarrow> (string, nat) dict" where
  "count_era str e eras = (case dget_or (ev_payload e) ''generation'' JNull of
     JNull \<Rightarrow> eras | gen \<Rightarrow> count_in (''G'' @ str gen) eras)"

definition city_chronicle :: "city_env \<Rightarrow> (json \<Rightarrow> string) \<Rightarrow> nat \<Rightarrow> bool \<Rightarrow> string option \<Rightarrow> city_db \<Rightarrow> chronicle res" where
  "city_chronicle env str limit life_only fid db =
     rbind (chronicle_rows limit life_only fid db) (\<lambda>rows.
     Inr \<lparr> chr_events = rows, chr_eras = fold (count_era str) rows [],
           chr_city = er_city (city_ecosystem env 10 db),
           chr_memorial_count = length (mo_entries (city_memorial env 40 db)) \<rparr>)"

section \<open>Generations\<close>

record cohort =
  cb_living :: nat
  cb_deceased :: nat
  cb_growth_sum :: float64
  cb_thinking_sum :: float64
  cb_members :: nat

definition cohort_empty :: cohort where
  "cohort_empty = \<lparr> cb_living = 0, cb_deceased = 0, cb_growth_sum = 0, cb_thinking_sum = 0, cb_members = 0 \<rparr>"

definition cohort_add :: "member \<Rightarrow> cohort \<Rightarrow> cohort" where
  "cohort_add m b =
    (let b = b\<lparr>cb_members := cb_members b + 1\<rparr> in
     if label_or (m_life_status m) ''alive'' = ''deceased'' then b\<lparr>cb_deceased := cb_deceased b + 1\<rparr>
     else b\<lparr>cb_living := cb_living b + 1,
            cb_growth_sum := fadd (cb_growth_sum b) (float_or (m_growth m) 0),
            cb_thinking_sum := fadd (cb_thinking_sum b) (float_or (m_structured_thinking m) (fl (1/2)))\<rparr>)"

definition cohorts_of :: "member list \<Rightarrow> (int, cohort) dict" where
  "cohorts_of ms = fold (\<lambda>m d. dset (m_generation m) (cohort_add m (dget_or d (m_generation m) cohort_empty)) d) ms []"

record generation =
  gn_generation :: int
  gn_living :: nat
  gn_deceased :: nat
  gn_members :: nat
  gn_avg_growth :: float64
  gn_avg_thinking :: float64
  gn_productivity :: float64

definition generation_of :: "int \<times> cohort \<Rightarrow> generation" where
  "generation_of gb = (case gb of (gen, b) \<Rightarrow>
    let n = of_nat (cb_living b); growth = fdiv (cb_growth_sum b) n; thinking = fdiv (cb_thinking_sum b) n in
    \<lparr> gn_generation = gen, gn_living = cb_living b, gn_deceased = cb_deceased b, gn_members = cb_members b,
      gn_avg_growth = (if cb_living b = 0 then 0 else py_round 4 growth),
      gn_avg_thinking = (if cb_living b = 0 then 0 else py_round 4 thinking),
      gn_productivity = py_round 4 (if cb_living b = 0 then 0 else fmul thinking (fadd 1 growth)) \<rparr>)"

definition continuity :: "generation list \<Rightarrow> bool" where
  "continuity gens =
    (let prod = map gn_productivity (filter (\<lambda>g. 0 < gn_living g) gens) in
     if 2 \<le> length prod \<and> 0 < hd prod then fmul (hd prod) (fl (85/100)) \<le> last prod else True)"

record generations_report =
  gr_generations :: "generation list"
  gr_legacy_edges :: nat
  gr_goal_bank :: "string list"
  gr_dream_bank :: "string list"
  gr_families :: "ecosystem list"
  gr_city :: vitals
  gr_last_life_proof :: "life_proof option"
  gr_continuity_ok :: bool

definition generation_report :: "city_env \<Rightarrow> life_proof option \<Rightarrow> city_db \<Rightarrow> generations_report" where
  "generation_report env last_proof db =
    (let fams = family_details env db;
         ms = concat (map members_of fams);
         living = filter (\<lambda>m. label_or (m_life_status m) ''alive'' \<noteq> ''deceased'') ms;
         gens = map generation_of (sort_key fst (cohorts_of ms));
         eco = city_ecosystem env 10 db
     in \<lparr> gr_generations = gens,
          gr_legacy_edges = length (filter (\<lambda>m. fm_successor_of_id (mv_row m) \<noteq> None) (concat (map fv_members fams))),
          gr_goal_bank = take 24 (dedup_by id (concat (map (\<lambda>m. list_or (m_goals m)) living))),
          gr_dream_bank = take 16 (dedup_by id (concat (map (\<lambda>m. list_or (m_dreams m)) living))),
          gr_families = er_ecosystems eco, gr_city = er_city eco,
          gr_last_life_proof = last_proof, gr_continuity_ok = continuity gens \<rparr>)"

section \<open>Health and heartbeat\<close>

record health =
  hl_living :: nat
  hl_deceased :: nat
  hl_families :: nat
  hl_generation_max :: int
  hl_avg_efficiency :: float64
  hl_queue_depth :: int
  hl_status :: string

definition city_health :: "city_env \<Rightarrow> int \<Rightarrow> city_db \<Rightarrow> health" where
  "city_health env queue_depth db =
    (let city = er_city (city_ecosystem env 5 db) in
     \<lparr> hl_living = vi_living city, hl_deceased = vi_deceased city, hl_families = vi_family_count city,
       hl_generation_max = vi_generation_max city, hl_avg_efficiency = vi_avg_efficiency city,
       hl_queue_depth = queue_depth, hl_status = (if 0 < vi_living city then ''alive'' else ''dormant'') \<rparr>)"

record 'p heartbeat =
  hb_alive :: bool
  hb_agent_count :: nat
  hb_city :: vitals
  hb_family_count :: nat
  hb_progress :: float64
  hb_last_pulse :: 'p
  hb_suggested_max_families :: nat

definition city_heartbeat :: "city_env \<Rightarrow> 'p \<Rightarrow> city_db \<Rightarrow> 'p heartbeat" where
  "city_heartbeat env last_pulse db =
    (let snap = city_snapshot env 40 db; city = er_city (city_ecosystem env 10 db) in
     \<lparr> hb_alive = (0 < (if vi_living city = 0 then sn_agent_count snap else vi_living city)),
       hb_agent_count = sn_agent_count snap, hb_city = city, hb_family_count = sn_family_count snap,
       hb_progress = sn_progress snap, hb_last_pulse = last_pulse,
       hb_suggested_max_families = min 8 (max 1 (if sn_family_count snap = 0 then 1 else sn_family_count snap)) \<rparr>)"

section \<open>The pack for external viewers\<close>

record graph_node =
  nd_id :: string
  nd_family_id :: string
  nd_family_name :: string
  nd_district :: string
  nd_role :: string
  nd_member :: member_view

record graph_edge =
  ed_from :: string
  ed_to :: string
  ed_family_id :: string
  ed_kind :: string

definition graph_node_of :: "family_view \<Rightarrow> member_view \<Rightarrow> graph_node" where
  "graph_node_of fv m = \<lparr> nd_id = fm_agent_id (mv_row m), nd_family_id = fa_id (fv_row fv), nd_family_name = fa_name (fv_row fv),
     nd_district = fa_default_district (fv_row fv),
     nd_role = label_or (fm_role_label (mv_row m)) (fm_role_in_family (mv_row m)), nd_member = m \<rparr>"

definition edge_from :: "family_view \<Rightarrow> member_view \<Rightarrow> string option \<Rightarrow> string \<Rightarrow> graph_edge list" where
  "edge_from fv m from_id kind = (case from_id of
     None \<Rightarrow> []
   | Some i \<Rightarrow> (case find (\<lambda>x. fm_id (mv_row x) = i) (fv_members fv) of
       None \<Rightarrow> []
     | Some x \<Rightarrow> [\<lparr> ed_from = fm_agent_id (mv_row x), ed_to = fm_agent_id (mv_row m), ed_family_id = fa_id (fv_row fv),
                    ed_kind = kind \<rparr>]))"

definition member_edges :: "family_view \<Rightarrow> member_view \<Rightarrow> graph_edge list" where
  "member_edges fv m = edge_from fv m (fm_parent_member_id (mv_row m)) ''lineage'' @
     edge_from fv m (fm_successor_of_id (mv_row m)) ''legacy''"

definition graph_nodes :: "family_view list \<Rightarrow> graph_node list" where
  "graph_nodes fams = concat (map (\<lambda>fv. map (graph_node_of fv) (fv_members fv)) fams)"

definition graph_edges :: "family_view list \<Rightarrow> graph_edge list" where
  "graph_edges fams = concat (map (\<lambda>fv. concat (map (member_edges fv) (fv_members fv))) fams)"

text \<open>\<open>content.encode("utf-8")[:n].decode("utf-8", errors="ignore")\<close> over the code points up to U+00FF.\<close>

fun utf8_prefix :: "int \<Rightarrow> string \<Rightarrow> string" where
  "utf8_prefix n [] = []"
| "utf8_prefix n (c # s) =
    (let k = utf8_length [c] in if k \<le> n then c # utf8_prefix (n - k) s else [])"

record artifact_sample =
  as_job_id :: string
  as_family_id :: string
  as_path :: string
  as_version :: int
  as_content :: string
  as_truncated :: bool
  as_created_by_agent_id :: "string option"

definition artifact_sample_of :: "nat \<Rightarrow> string \<Rightarrow> string \<Rightarrow> WorkspaceArtifactModel \<Rightarrow> artifact_sample" where
  "artifact_sample_of max_bytes fid jid a =
    (let content = label_or (wa_content a) []; long = int max_bytes < utf8_length content in
     \<lparr> as_job_id = jid, as_family_id = fid, as_path = wa_path a, as_version = wa_version a,
       as_content = (if long then utf8_prefix (int max_bytes) content else content), as_truncated = long,
       as_created_by_agent_id = wa_created_by_agent_id a \<rparr>)"

definition artifact_samples :: "nat \<Rightarrow> city_db \<Rightarrow> family_view list \<Rightarrow> artifact_sample list" where
  "artifact_samples max_bytes db fams = concat (map (\<lambda>fv. concat (map (\<lambda>job.
     map (artifact_sample_of max_bytes (fa_id (fv_row fv)) (cj_id job)) (artifacts_list_for_job 20 db (cj_id job)))
     (jobs_list_for_family 3 db (fa_id (fv_row fv))))) fams)"

record 'p austin_pack =
  ap_snapshot :: snapshot_view
  ap_city :: vitals
  ap_continuity_ok :: bool
  ap_nodes :: "graph_node list"
  ap_edges :: "graph_edge list"
  ap_ecosystems :: "ecosystem list"
  ap_chronicle :: chronicle
  ap_generations :: generations_report
  ap_artifacts :: "artifact_sample list"
  ap_heartbeat :: "'p heartbeat"

definition export_austin_pack ::
  "city_env \<Rightarrow> (json \<Rightarrow> string) \<Rightarrow> 'p \<Rightarrow> life_proof option \<Rightarrow> nat \<Rightarrow> bool \<Rightarrow> nat \<Rightarrow> city_db \<Rightarrow> 'p austin_pack res" where
  "export_austin_pack env str last_pulse last_proof event_limit include_artifacts max_bytes db =
    (let snap = city_snapshot env event_limit db;
         eco = city_ecosystem env (min 40 event_limit) db;
         gens = generation_report env last_proof db
     in rbind (city_chronicle env str (min 60 event_limit) True None db) (\<lambda>chr.
        Inr \<lparr> ap_snapshot = snap, ap_city = er_city eco, ap_continuity_ok = gr_continuity_ok gens,
          ap_nodes = graph_nodes (sn_families snap), ap_edges = graph_edges (sn_families snap),
          ap_ecosystems = er_ecosystems eco, ap_chronicle = chr, ap_generations = gens,
          ap_artifacts = (if include_artifacts then artifact_samples max_bytes db (sn_families snap) else []),
          ap_heartbeat = city_heartbeat env last_pulse db \<rparr>))"

end
