(* ===== verification/CityPopulation.thy ===== *)
theory CityPopulation
  imports CityFamilies
begin

text \<open>
  The population invariant of the city: what founding, spawning, updating, ageing and succession keep
  of the member table. The invariant speaks about the components of the database it depends on
  (the identifier supply, the family and agent identifiers, the identifier counter and the member
  rows), so that every operation only has to show what it does to those.
\<close>

named_theorems city_fields \<open>what the row operations do to the columns of the database\<close>

lemma emit_event_fields [city_fields, simp]:
  "families (emit_event env t f j p db) = families db" "members (emit_event env t f j p db) = members db"
  "agents (emit_event env t f j p db) = agents db" "personas (emit_event env t f j p db) = personas db"
  "jobs (emit_event env t f j p db) = jobs db" "artifacts (emit_event env t f j p db) = artifacts db"
  "runs (emit_event env t f j p db) = runs db" "next_id (emit_event env t f j p db) = Suc (next_id db)"
  by (simp_all add: emit_event_def used_id_def)

lemma add_row_fields [city_fields, simp]:
  "families (add_persona p db) = families db" "members (add_persona p db) = members db"
  "agents (add_persona p db) = agents db" "jobs (add_persona p db) = jobs db" "next_id (add_persona p db) = Suc (next_id db)"
  "families (add_agent a db) = families db" "members (add_agent a db) = members db"
  "agents (add_agent a db) = agents db @ [a]" "jobs (add_agent a db) = jobs db" "next_id (add_agent a db) = Suc (next_id db)"
  "families (add_member m db) = families db" "members (add_member m db) = members db @ [m]"
  "agents (add_member m db) = agents db" "jobs (add_member m db) = jobs db" "next_id (add_member m db) = Suc (next_id db)"
  by (simp_all add: add_persona_def add_agent_def add_member_def used_id_def)

lemma save_persona_fields [city_fields, simp]:
  "families (save_persona env p db) = families db" "members (save_persona env p db) = members db"
  "agents (save_persona env p db) = agents db" "next_id (save_persona env p db) = next_id db"
  by (simp_all add: save_persona_def)

lemma find_SomeD: "find P xs = Some x \<Longrightarrow> x \<in> set xs \<and> P x"
  by (induction xs) (auto split: if_splits)

section \<open>The invariant\<close>

definition unit_knobs :: "(string, float64) dict \<Rightarrow> bool" where
  "unit_knobs d \<longleftrightarrow> (\<forall>(k, v) \<in> set d. k \<in> set PERSONA_KNOB_FIELDS \<and> 0 \<le> v \<and> v \<le> 1)"

definition dead :: "FamilyMemberModel \<Rightarrow> bool" where
  "dead m \<longleftrightarrow> fm_life_status m = ''deceased''"

definition member_ok :: "FamilyMemberModel \<Rightarrow> bool" where
  "member_ok m \<longleftrightarrow>
     fm_life_status m \<in> set FamilyMemberLifeStatus \<and> (fm_is_active m \<longleftrightarrow> \<not> dead m) \<and>
     (fm_deceased_at m = None \<longleftrightarrow> \<not> dead m) \<and> 0 \<le> fm_generation m \<and> 0 \<le> fm_age_ticks m \<and>
     0 \<le> fm_structured_thinking m \<and> fm_structured_thinking m \<le> 1 \<and> 0 \<le> fm_growth m \<and> fm_growth m \<le> 1 \<and>
     unit_knobs (fm_knob_overrides m) \<and>
     (fm_role_in_family m = ''parent'' \<and> fm_parent_member_id m = None \<and>
        (0 < fm_generation m \<longrightarrow> fm_successor_of_id m \<noteq> None)
      \<or> fm_role_in_family m = ''child'' \<and> fm_parent_member_id m \<noteq> None)"

definition succeeds_to :: "FamilyMemberModel \<Rightarrow> FamilyMemberModel \<Rightarrow> bool" where
  "succeeds_to h d \<longleftrightarrow> fm_successor_of_id h = Some (fm_id d) \<and> dead d \<and> fm_family_id h = fm_family_id d \<and>
     fm_generation h = fm_generation d + 1 \<and> fm_role_in_family h = fm_role_in_family d"

definition living_parent :: "string \<Rightarrow> FamilyMemberModel \<Rightarrow> bool" where
  "living_parent fid m \<longleftrightarrow> fm_family_id m = fid \<and> fm_role_in_family m = ''parent'' \<and> \<not> dead m"

definition successors :: "FamilyMemberModel list \<Rightarrow> string list" where
  "successors ms = List.map_filter fm_successor_of_id ms"

definition lineage_ok :: "FamilyMemberModel list \<Rightarrow> bool" where
  "lineage_ok ms \<longleftrightarrow>
     (\<forall>m \<in> set ms. \<forall>p. fm_parent_member_id m = Some p \<longrightarrow> (\<exists>q \<in> set ms. fm_id q = p \<and> fm_family_id q = fm_family_id m)) \<and>
     (\<forall>h \<in> set ms. fm_successor_of_id h \<noteq> None \<longrightarrow> (\<exists>d \<in> set ms. succeeds_to h d)) \<and>
     distinct (successors ms) \<and> set (successors ms) = fm_id ` {m \<in> set ms. dead m}"

lemma lineage_okI:
  assumes "\<And>m p. m \<in> set ms \<Longrightarrow> fm_parent_member_id m = Some p \<Longrightarrow>
      \<exists>q \<in> set ms. fm_id q = p \<and> fm_family_id q = fm_family_id m"
    and "\<And>h. h \<in> set ms \<Longrightarrow> fm_successor_of_id h \<noteq> None \<Longrightarrow> \<exists>d \<in> set ms. succeeds_to h d"
    and "distinct (successors ms)" "set (successors ms) = fm_id ` {m \<in> set ms. dead m}"
  shows "lineage_ok ms"
  unfolding lineage_ok_def using assms by blast

definition pop_ok :: "(nat \<Rightarrow> string) \<Rightarrow> string set \<Rightarrow> string set \<Rightarrow> nat \<Rightarrow> FamilyMemberModel list \<Rightarrow> bool" where
  "pop_ok u F A n ms \<longleftrightarrow>
     distinct (map fm_id ms) \<and> fm_id ` set ms \<subseteq> u ` {..<n} \<and>
     (\<forall>m \<in> set ms. member_ok m \<and> fm_family_id m \<in> F \<and> fm_agent_id m \<in> A) \<and>
     lineage_ok ms \<and> (\<forall>f \<in> F. length (filter (living_parent f) ms) = 1)"

lemma pop_okI:
  assumes "distinct (map fm_id ms)" "fm_id ` set ms \<subseteq> u ` {..<n}"
    and "\<And>m. m \<in> set ms \<Longrightarrow> member_ok m \<and> fm_family_id m \<in> F \<and> fm_agent_id m \<in> A"
    and "lineage_ok ms" "\<And>f. f \<in> F \<Longrightarrow> length (filter (living_parent f) ms) = 1"
  shows "pop_ok u F A n ms"
  unfolding pop_ok_def using assms by blast

lemma pop_okD:
  assumes "pop_ok u F A n ms"
  shows "distinct (map fm_id ms)" "fm_id ` set ms \<subseteq> u ` {..<n}" "lineage_ok ms"
    "m \<in> set ms \<Longrightarrow> member_ok m" "m \<in> set ms \<Longrightarrow> fm_family_id m \<in> F" "m \<in> set ms \<Longrightarrow> fm_agent_id m \<in> A"
    "f \<in> F \<Longrightarrow> length (filter (living_parent f) ms) = 1"
  using assms by (auto simp: pop_ok_def)

definition city_ok :: "(nat \<Rightarrow> string) \<Rightarrow> city_db \<Rightarrow> bool" where
  "city_ok u db \<longleftrightarrow> distinct (map fa_id (families db)) \<and> fa_id ` set (families db) \<subseteq> u ` {..<next_id db} \<and>
     pop_ok u (fa_id ` set (families db)) (am_id ` set (agents db)) (next_id db) (members db)"

lemma pop_ok_mono:
  assumes "pop_ok u F A n ms" "A \<subseteq> A'" "n \<le> n'"
  shows "pop_ok u F A' n' ms"
proof -
  have "u ` {..<n} \<subseteq> u ` {..<n'}" using assms(3) by (intro image_mono) auto
  with assms(1,2) show ?thesis unfolding pop_ok_def by blast
qed

lemma fresh_id: "inj u \<Longrightarrow> (n :: nat) \<le> k \<Longrightarrow> u k \<notin> u ` {..<n}"
  by (auto simp: inj_eq)

section \<open>What keeps the invariant\<close>

lemma successors_append [simp]: "successors (xs @ ys) = successors xs @ successors ys"
  by (simp add: successors_def List.map_filter_def)

lemma successors_Cons [simp]:
  "successors (m # ms) = (case fm_successor_of_id m of None \<Rightarrow> [] | Some p \<Rightarrow> [p]) @ successors ms"
  by (simp add: successors_def List.map_filter_simps split: option.split)

lemma successors_Nil [simp]: "successors [] = []"
  by (simp add: successors_def List.map_filter_simps)

text \<open>Two rows that agree on everything the lineage depends on.\<close>

definition same_line :: "FamilyMemberModel \<Rightarrow> FamilyMemberModel \<Rightarrow> bool" where
  "same_line a b \<longleftrightarrow> fm_id b = fm_id a \<and> fm_family_id b = fm_family_id a \<and> fm_agent_id b = fm_agent_id a \<and>
     fm_parent_member_id b = fm_parent_member_id a \<and> fm_role_in_family b = fm_role_in_family a \<and>
     fm_generation b = fm_generation a \<and> fm_successor_of_id b = fm_successor_of_id a \<and> (dead b \<longleftrightarrow> dead a)"

lemma same_lineD:
  assumes "same_line a b"
  shows "fm_id b = fm_id a" "fm_family_id b = fm_family_id a" "fm_agent_id b = fm_agent_id a"
    "fm_parent_member_id b = fm_parent_member_id a" "fm_role_in_family b = fm_role_in_family a"
    "fm_generation b = fm_generation a" "fm_successor_of_id b = fm_successor_of_id a" "dead b \<longleftrightarrow> dead a"
  using assms by (simp_all add: same_line_def)

lemma same_line_refl [simp]: "same_line m m"
  by (simp add: same_line_def)

lemma same_line_succeeds: "same_line h h' \<Longrightarrow> same_line d d' \<Longrightarrow> succeeds_to h' d' \<longleftrightarrow> succeeds_to h d"
  by (auto simp: same_line_def succeeds_to_def)

lemma successors_map: "\<forall>m \<in> set ms. same_line m (g m) \<Longrightarrow> successors (map g ms) = successors ms"
  by (induction ms) (auto simp: same_line_def)

lemma dead_ids_map:
  assumes "\<forall>m \<in> set ms. same_line m (g m)"
  shows "fm_id ` {m \<in> g ` set ms. dead m} = fm_id ` {m \<in> set ms. dead m}"
proof -
  have "{m \<in> g ` set ms. dead m} = g ` {m \<in> set ms. dead m}"
    using assms by (auto dest: same_lineD(8))
  moreover have "fm_id ` g ` {m \<in> set ms. dead m} = fm_id ` {m \<in> set ms. dead m}"
    unfolding image_image using assms by (intro image_cong) (auto dest: same_lineD(1))
  ultimately show ?thesis by simp
qed

lemma lineage_ok_map:
  assumes "lineage_ok ms" "\<forall>m \<in> set ms. same_line m (g m)"
  shows "lineage_ok (map g ms)"
proof -
  note sl = same_lineD [OF bspec [OF assms(2)]]
  have "\<exists>q \<in> set (map g ms). fm_id q = p \<and> fm_family_id q = fm_family_id (g m)"
    if "m \<in> set ms" "fm_parent_member_id (g m) = Some p" for m p
  proof -
    from that have "fm_parent_member_id m = Some p" by (simp add: sl)
    with that(1) assms(1) obtain q where "q \<in> set ms" "fm_id q = p" "fm_family_id q = fm_family_id m"
      unfolding lineage_ok_def by blast
    with that(1) show ?thesis by (intro bexI [of _ "g q"]) (simp_all add: sl)
  qed
  moreover have "\<exists>d \<in> set (map g ms). succeeds_to (g h) d"
    if "h \<in> set ms" "fm_successor_of_id (g h) \<noteq> None" for h
  proof -
    from that have "fm_successor_of_id h \<noteq> None" by (simp add: sl)
    with that(1) assms(1) obtain d where "d \<in> set ms" "succeeds_to h d" unfolding lineage_ok_def by blast
    then show ?thesis using same_line_succeeds [of h "g h" d "g d"] that(1) assms(2)
      by (intro bexI [of _ "g d"]) simp_all
  qed
  ultimately show ?thesis
    using assms by (simp add: lineage_ok_def successors_map dead_ids_map)
qed

lemma pop_ok_map:
  assumes ok: "pop_ok u F A n ms" and line: "\<forall>m \<in> set ms. same_line m (g m)"
    and mem: "\<forall>m \<in> set ms. member_ok (g m)"
  shows "pop_ok u F A n (map g ms)"
proof -
  note sl = same_lineD [OF bspec [OF line]]
  have ids: "map (fm_id \<circ> g) ms = map fm_id ms" by (simp add: sl)
  have parents: "length (filter (living_parent f) (map g ms)) = length (filter (living_parent f) ms)" for f
    unfolding filter_map length_map o_def
    by (rule arg_cong [of _ _ length], rule filter_cong) (simp_all add: living_parent_def sl)
  have "lineage_ok (map g ms)" using ok line by (simp add: pop_ok_def lineage_ok_map)
  moreover have "fm_id ` g ` set ms = fm_id ` set ms" unfolding image_image by (rule image_cong) (simp_all add: sl)
  ultimately show ?thesis using ok mem unfolding pop_ok_def parents by (simp add: ids sl)
qed

text \<open>A new row that succeeds nobody and is a child, or the founder of a new family.\<close>

lemma lineage_ok_add:
  assumes "lineage_ok ms" "fm_successor_of_id m = None" "\<not> dead m"
    "fm_parent_member_id m = None \<or>
      (\<exists>q \<in> set ms. fm_parent_member_id m = Some (fm_id q) \<and> fm_family_id q = fm_family_id m)"
  shows "lineage_ok (ms @ [m])"
proof -
  have "{x. (x = m \<or> x \<in> set ms) \<and> dead x} = {x \<in> set ms. dead x}" using assms(3) by auto
  then show ?thesis using assms(1,2,4) unfolding lineage_ok_def by (auto 0 4)
qed

lemma pop_ok_add:
  assumes ok: "pop_ok u F A n ms" and n: "n \<le> k" "k < n'" and A: "A \<subseteq> A'" and u: "inj u"
    and m: "fm_id m = u k" "member_ok m" "\<not> dead m" "fm_successor_of_id m = None" "fm_agent_id m \<in> A'"
    and line: "fm_family_id m \<in> F \<and> (\<exists>q \<in> set ms. fm_parent_member_id m = Some (fm_id q) \<and> fm_family_id q = fm_family_id m) \<and> F' = F
      \<or> fm_family_id m \<notin> F \<and> fm_role_in_family m = ''parent'' \<and> F' = insert (fm_family_id m) F"
  shows "pop_ok u F' A' n' (ms @ [m])"
proof -
  from ok have fam: "\<forall>x \<in> set ms. fm_family_id x \<in> F" by (simp add: pop_ok_def)
  from m(2) line have "fm_parent_member_id m = None \<or>
      (\<exists>q \<in> set ms. fm_parent_member_id m = Some (fm_id q) \<and> fm_family_id q = fm_family_id m)"
    by (auto simp: member_ok_def)
  with ok m have "lineage_ok (ms @ [m])" by (intro lineage_ok_add) (simp_all add: pop_ok_def)
  moreover have "fm_id m \<notin> fm_id ` set ms"
    using fresh_id [OF u n(1)] ok m(1) by (auto simp: pop_ok_def)
  moreover have "length (filter (living_parent f) (ms @ [m])) = 1" if "f \<in> F'" for f
    using line
  proof
    assume child: "fm_family_id m \<in> F \<and> (\<exists>q \<in> set ms. fm_parent_member_id m = Some (fm_id q) \<and>
      fm_family_id q = fm_family_id m) \<and> F' = F"
    then have "\<not> living_parent f m" using m(2) by (auto simp: member_ok_def living_parent_def)
    with child ok that show ?thesis by (simp add: pop_ok_def)
  next
    assume founder: "fm_family_id m \<notin> F \<and> fm_role_in_family m = ''parent'' \<and> F' = insert (fm_family_id m) F"
    show ?thesis
    proof (cases "f = fm_family_id m")
      case True
      with founder fam have "filter (living_parent f) ms = []"
        by (auto simp: filter_empty_conv living_parent_def)
      with True founder m(3) show ?thesis by (simp add: living_parent_def)
    next
      case False
      with founder ok that show ?thesis by (auto simp: pop_ok_def living_parent_def)
    qed
  qed
  moreover have "u ` {..<n} \<subseteq> u ` {..<n'}" "u k \<in> u ` {..<n'}" using n by auto
  moreover have "F \<subseteq> F'" "fm_family_id m \<in> F'" using line by auto
  ultimately show ?thesis using ok m A unfolding pop_ok_def by (auto 0 3)
qed

text \<open>A death and its succession: the row of the dead is overwritten in place, the heir comes last.\<close>

lemma row_set_split:
  assumes "distinct (map key ms)" "m \<in> set ms"
  obtains xs ys where "ms = xs @ m # ys" "row_set key (key m) (\<lambda>_. d) ms = xs @ d # ys"
    "key m \<notin> key ` set xs" "key m \<notin> key ` set ys"
proof -
  from assms(2) obtain xs ys where ms: "ms = xs @ m # ys" by (meson split_list)
  with assms(1) have out: "key m \<notin> key ` set xs" "key m \<notin> key ` set ys" by auto
  then have "map (\<lambda>r. if key r = key m then d else r) xs = xs" "map (\<lambda>r. if key r = key m then d else r) ys = ys"
    by (auto intro!: map_idI simp: image_iff)
  with ms that out show thesis by (simp add: row_set_def)
qed

lemma lineage_ok_succession:
  assumes ok: "lineage_ok (xs @ m # ys)" and ids: "distinct (map fm_id (xs @ m # ys))"
    and m: "\<not> dead m" and d: "dead d" "same_line m (d\<lparr>fm_life_status := fm_life_status m\<rparr>)"
    and h: "\<not> dead h" "succeeds_to h d"
    and hp: "\<forall>p. fm_parent_member_id h = Some p \<longrightarrow>
      (\<exists>q \<in> set (xs @ m # ys). fm_id q = p \<and> fm_family_id q = fm_family_id h)"
  shows "lineage_ok (xs @ d # ys @ [h])"
proof -
  let ?ms = "xs @ m # ys" and ?ms' = "xs @ d # ys @ [h]"
  have same: "fm_id d = fm_id m" "fm_family_id d = fm_family_id m" "fm_parent_member_id d = fm_parent_member_id m"
      "fm_successor_of_id d = fm_successor_of_id m" "fm_generation d = fm_generation m"
      "fm_role_in_family d = fm_role_in_family m"
    using d(2) by (simp_all add: same_line_def)
  from h(2) have hs: "fm_successor_of_id h = Some (fm_id m)" by (simp add: succeeds_to_def same)
  have keep: "\<exists>q' \<in> set ?ms'. fm_id q' = fm_id q \<and> fm_family_id q' = fm_family_id q" if "q \<in> set ?ms" for q
    using that by (auto simp: same)
  have "\<exists>q \<in> set ?ms'. fm_id q = p \<and> fm_family_id q = fm_family_id x"
    if "x \<in> set ?ms'" "fm_parent_member_id x = Some p" for x p
  proof (cases "x = h")
    case True
    with hp that(2) keep show ?thesis by metis
  next
    case False
    with that have "\<exists>y \<in> set ?ms. fm_parent_member_id y = Some p \<and> fm_family_id y = fm_family_id x"
      by (auto simp: same)
    then obtain y where y: "y \<in> set ?ms" "fm_parent_member_id y = Some p" "fm_family_id y = fm_family_id x" by blast
    with ok obtain q where "q \<in> set ?ms" "fm_id q = p" "fm_family_id q = fm_family_id y"
      unfolding lineage_ok_def by blast
    with keep y(3) show ?thesis by metis
  qed
  moreover have "\<exists>t \<in> set ?ms'. succeeds_to x t" if "x \<in> set ?ms'" "fm_successor_of_id x \<noteq> None" for x
  proof (cases "x = h")
    case False
    with that have "\<exists>y \<in> set ?ms. fm_successor_of_id y = fm_successor_of_id x \<and> fm_family_id y = fm_family_id x \<and>
        fm_generation y = fm_generation x \<and> fm_role_in_family y = fm_role_in_family x"
      by (auto simp: same)
    then obtain y where y: "y \<in> set ?ms" "fm_successor_of_id y = fm_successor_of_id x"
        "fm_family_id y = fm_family_id x" "fm_generation y = fm_generation x" "fm_role_in_family y = fm_role_in_family x"
      by blast
    with that ok obtain t where t: "t \<in> set ?ms" "succeeds_to y t" unfolding lineage_ok_def by metis
    with m have "t \<in> set ?ms'" by (auto simp: succeeds_to_def)
    moreover from t y have "succeeds_to x t" by (simp add: succeeds_to_def)
    ultimately show ?thesis by blast
  qed (use h(2) in auto)
  moreover have deads: "fm_id ` {x \<in> set ?ms'. dead x} = insert (fm_id m) (fm_id ` {x \<in> set ?ms. dead x})"
  proof -
    have "{x \<in> set ?ms'. dead x} = insert d {x \<in> set ?ms. dead x}" using m d(1) h(1) by auto
    then show ?thesis by (simp add: same)
  qed
  moreover have "fm_id m \<notin> fm_id ` {x \<in> set ?ms. dead x}" using ids m by auto
  moreover have succ: "successors ?ms' = successors ?ms @ [fm_id m]" by (simp add: same hs)
  moreover from ok have "distinct (successors ?ms)" "set (successors ?ms) = fm_id ` {x \<in> set ?ms. dead x}"
    by (simp_all only: lineage_ok_def)
  ultimately show ?thesis
    by (intro lineage_okI) (simp_all only: succ deads distinct_append set_append, auto)
qed

lemma pop_ok_succession:
  assumes ok: "pop_ok u F A n ms" and m: "m \<in> set ms" "\<not> dead m" and n: "n \<le> k" "k < n'" and A: "A \<subseteq> A'"
    and u: "inj u" and d: "dead d" "member_ok d" "same_line m (d\<lparr>fm_life_status := fm_life_status m\<rparr>)"
    and h: "fm_id h = u k" "\<not> dead h" "member_ok h" "succeeds_to h d" "fm_agent_id h \<in> A'"
    and hp: "\<forall>p. fm_parent_member_id h = Some p \<longrightarrow> (\<exists>q \<in> set ms. fm_id q = p \<and> fm_family_id q = fm_family_id h)"
  shows "pop_ok u F A' n' (row_set fm_id (fm_id m) (\<lambda>_. d) ms @ [h])"
proof -
  have same: "fm_id d = fm_id m" "fm_family_id d = fm_family_id m" "fm_agent_id d = fm_agent_id m"
      "fm_role_in_family d = fm_role_in_family m"
    using d(3) by (simp_all add: same_line_def)
  from ok m(1) have ids: "distinct (map fm_id ms)" and mem: "\<forall>x \<in> set ms. member_ok x \<and> fm_family_id x \<in> F \<and> fm_agent_id x \<in> A"
    by (simp_all add: pop_ok_def)
  from row_set_split [OF ids m(1), of d] obtain xs ys where ms: "ms = xs @ m # ys"
    and set: "row_set fm_id (fm_id m) (\<lambda>_. d) ms = xs @ d # ys" by metis
  have hm: "fm_family_id h = fm_family_id m" "fm_role_in_family h = fm_role_in_family m"
    using h(4) by (simp_all add: succeeds_to_def same)
  have "lineage_ok (xs @ d # ys @ [h])"
    using ok m(2) d h hp unfolding pop_ok_def ms by (intro lineage_ok_succession [of xs m ys d h]) auto
  moreover have "u k \<notin> fm_id ` set ms" using fresh_id [OF u n(1)] ok by (auto simp: pop_ok_def)
  moreover have "length (filter (living_parent f) (xs @ d # ys @ [h])) = length (filter (living_parent f) ms)" for f
    using m(2) d(1) h(2) by (simp add: ms living_parent_def hm)
  moreover have "u ` {..<n} \<subseteq> u ` {..<n'}" "u k \<in> u ` {..<n'}" using n by auto
  moreover have "\<forall>x \<in> set (xs @ d # ys @ [h]). member_ok x \<and> fm_family_id x \<in> F \<and> fm_agent_id x \<in> A'"
    using mem d(2) h(3,5) A by (auto simp: ms same hm)
  moreover have im: "fm_id ` set (xs @ d # ys @ [h]) = insert (u k) (fm_id ` set ms)" by (auto simp: ms same h(1))
  moreover have mp: "map fm_id (xs @ d # ys @ [h]) = map fm_id ms @ [u k]" by (simp add: ms same h(1))
  moreover note pop_okD(1,2,7) [OF ok]
  ultimately have "pop_ok u F A' n' (xs @ d # ys @ [h])"
    by (intro pop_okI) (simp_all only: im mp distinct_append, auto)
  then show ?thesis by (simp add: set)
qed

section \<open>Operations keep the invariant\<close>

lemma unit_knobs_overrides [simp]: "unit_knobs (knob_overrides_of d)"
  by (auto simp: unit_knobs_def knob_overrides_of_def clamp_knob_def)

lemma default_thinking_unit [simp]:
  "0 \<le> default_structured_thinking r" "default_structured_thinking r \<le> 1"
proof -
  have "0 \<le> fl q \<and> fl q \<le> 1" if "0 \<le> q" "q \<le> 1" for q
    using fl_mono [OF that(1)] fl_mono [OF that(2)] by simp
  then show "0 \<le> default_structured_thinking r" "default_structured_thinking r \<le> 1"
    by (simp_all add: default_structured_thinking_def Let_def)
qed

lemma new_member_fields [simp]:
  "fm_id (new_member env db f a p r l k t g x) = new_id env db"
  "fm_family_id (new_member env db f a p r l k t g x) = f" "fm_agent_id (new_member env db f a p r l k t g x) = a"
  "fm_successor_of_id (new_member env db f a p r l k t g x) = None"
  "fm_parent_member_id (new_member env db f a p r l k t g x) = p"
  "fm_role_in_family (new_member env db f a p r l k t g x) = r"
  "fm_generation (new_member env db f a p r l k t g x) = g"
  "fm_knob_overrides (new_member env db f a p r l k t g x) = k"
  "\<not> dead (new_member env db f a p r l k t g x)"
  by (simp_all add: new_member_def dead_def)

lemma new_member_ok:
  "unit_knobs k \<Longrightarrow> 0 \<le> g \<Longrightarrow> r = ''parent'' \<and> p = None \<and> g = 0 \<or> r = ''child'' \<and> p \<noteq> None \<Longrightarrow>
   member_ok (new_member env db f a p r l k t g x)"
  by (auto simp: member_ok_def new_member_def dead_def FamilyMemberLifeStatus_def)

lemma new_agent_id [simp]: "am_id (new_agent env db n p m pr t) = new_id env db"
  by (simp add: new_agent_def)

lemma resolve_parent_agent_effect:
  assumes "resolve_parent_agent env rq tags ov db = Inr (db', a)"
  shows "families db' = families db" "members db' = members db" "next_id db \<le> next_id db'"
    "am_id ` set (agents db) \<subseteq> am_id ` set (agents db')" "am_id a \<in> am_id ` set (agents db')"
  using assms
  by (auto simp: resolve_parent_agent_def parent_persona_row_def rbind_eq_Inr Let_def
      split: option.splits dest!: row_get_SomeD)

lemma create_family_effect:
  assumes "create_family env rq db = Inr (db', v)"
  obtains db1 a family m where "resolve_parent_agent env rq (case rq_tool_tags rq of None \<Rightarrow> DEFAULT_CITY_TOOL_TAGS | Some ts \<Rightarrow> ts)
      (knob_overrides_of (rq_parent_knob_overrides rq)) db = Inr (db1, a)"
    "families db' = families db1 @ [family]" "fa_id family = env_uuid env (next_id db1)"
    "members db' = members db1 @ [m]" "agents db' = agents db1" "next_id db' = next_id db1 + 4"
    "fm_id m = env_uuid env (Suc (next_id db1))" "fm_family_id m = fa_id family" "fm_agent_id m = am_id a"
    "fm_role_in_family m = ''parent''" "fm_successor_of_id m = None" "\<not> dead m" "member_ok m"
  using assms
  by (auto simp: create_family_def rbind_eq_Inr Let_def used_id_def new_id_def new_member_ok
      split: if_splits option.splits prod.splits)

lemma city_ok_create_family:
  assumes "create_family env rq db = Inr (db', v)" "city_ok u db" "env_uuid env = u" "inj u"
  shows "city_ok u db'"
  using assms(1)
proof (rule create_family_effect)
  fix db1 a family m
  assume r: "resolve_parent_agent env rq (case rq_tool_tags rq of None \<Rightarrow> DEFAULT_CITY_TOOL_TAGS | Some ts \<Rightarrow> ts)
      (knob_overrides_of (rq_parent_knob_overrides rq)) db = Inr (db1, a)"
    and f: "families db' = families db1 @ [family]" "fa_id family = env_uuid env (next_id db1)"
    and m: "members db' = members db1 @ [m]" "agents db' = agents db1" "next_id db' = next_id db1 + 4"
      "fm_id m = env_uuid env (Suc (next_id db1))" "fm_family_id m = fa_id family" "fm_agent_id m = am_id a"
      "fm_role_in_family m = ''parent''" "fm_successor_of_id m = None" "\<not> dead m" "member_ok m"
  note r = resolve_parent_agent_effect [OF r]
  let ?F = "fa_id ` set (families db)"
  from assms(2) have ok: "pop_ok u ?F (am_id ` set (agents db)) (next_id db) (members db)"
    and fam: "distinct (map fa_id (families db))" "?F \<subseteq> u ` {..<next_id db}" by (simp_all add: city_ok_def)
  have new: "fa_id family \<notin> ?F" using fresh_id [OF assms(4) r(3)] fam(2) f(2) assms(3) by auto
  have "pop_ok u (insert (fa_id family) ?F) (am_id ` set (agents db1)) (next_id db1 + 4) (members db @ [m])"
    using r m new assms(3) by (intro pop_ok_add [OF ok _ _ r(4) assms(4), of "Suc (next_id db1)"]) simp_all
  moreover have "u ` {..<next_id db} \<subseteq> u ` {..<next_id db1 + 4}" using r(3) by (intro image_mono) auto
  moreover have "u (next_id db1) \<in> u ` {..<next_id db1 + 4}" by simp
  ultimately show ?thesis using fam new f m(1-3) r(1,2) assms(3) unfolding city_ok_def by auto
qed

lemma get_with_members_SomeD:
  "get_with_members db fid = Some (f, ms) \<Longrightarrow> f \<in> set (families db) \<and> fa_id f = fid \<and> ms = family_members db fid"
  by (auto simp: get_with_members_def dest: row_get_SomeD)

lemma scalar_one_or_none_Some: "scalar_one_or_none xs = Inr (Some x) \<longleftrightarrow> xs = [x]"
  by (auto simp: scalar_one_or_none_def split: list.splits)

lemma scalar_fallback:
  "rbind (scalar_one_or_none xs) (\<lambda>r. case r of Some p \<Rightarrow> Inr (Some p) | None \<Rightarrow> scalar_one_or_none ys) = Inr (Some p)
   \<Longrightarrow> p \<in> set xs \<or> p \<in> set ys"
  by (auto simp: rbind_eq_Inr scalar_one_or_none_def split: list.splits option.splits)

lemma get_parent_SomeD:
  assumes "get_parent db fid = Inr (Some p)"
  shows "p \<in> set (members db)" "fm_family_id p = fid" "fm_role_in_family p = ''parent''"
  using scalar_fallback [OF assms [unfolded get_parent_def Let_def]] by (auto simp: family_members_def)

lemma spawn_parent_in:
  "spawn_parent db fid pid = Inr p \<Longrightarrow> p \<in> set (members db) \<and> fm_family_id p = fid"
  by (auto simp: spawn_parent_def family_members_def rbind_eq_Inr dest: get_parent_SomeD find_SomeD split: option.splits)

lemma spawn_child_effect:
  assumes "spawn_child env fid cq db = Inr (db', v)"
  obtains parent a m where "spawn_parent db fid (cq_parent_member_id cq) = Inr parent" "fid \<in> fa_id ` set (families db)"
    "families db' = families db" "members db' = members db @ [m]" "agents db' = agents db @ [a]"
    "next_id db' = next_id db + 4" "fm_id m = env_uuid env (next_id db + 2)" "fm_family_id m = fid"
    "fm_agent_id m = am_id a" "fm_parent_member_id m = Some (fm_id parent)" "fm_successor_of_id m = None" "\<not> dead m"
    "fm_generation m = fm_generation parent + 1" "fm_role_in_family m = ''child''"
    "fm_knob_overrides m = knob_overrides_of (cq_knob_overrides cq)" "0 \<le> fm_generation parent \<longrightarrow> member_ok m"
  using assms
  by (auto simp: spawn_child_def rbind_eq_Inr Let_def new_id_def new_member_ok
      split: option.splits prod.splits dest!: get_with_members_SomeD)

lemma city_ok_spawn_child:
  assumes "spawn_child env fid cq db = Inr (db', v)" "city_ok u db" "env_uuid env = u" "inj u"
  shows "city_ok u db'"
  using assms(1)
proof (rule spawn_child_effect)
  fix parent a m
  assume p: "spawn_parent db fid (cq_parent_member_id cq) = Inr parent" "fid \<in> fa_id ` set (families db)"
    and d: "families db' = families db" "members db' = members db @ [m]" "agents db' = agents db @ [a]" "next_id db' = next_id db + 4"
    and m: "fm_id m = env_uuid env (next_id db + 2)" "fm_family_id m = fid" "fm_agent_id m = am_id a"
      "fm_parent_member_id m = Some (fm_id parent)" "fm_successor_of_id m = None" "\<not> dead m"
    and g: "0 \<le> fm_generation parent \<longrightarrow> member_ok m"
  let ?F = "fa_id ` set (families db)"
  from assms(2) have ok: "pop_ok u ?F (am_id ` set (agents db)) (next_id db) (members db)" by (simp add: city_ok_def)
  from spawn_parent_in [OF p(1)] have q: "parent \<in> set (members db)" "fm_family_id parent = fid" by auto
  with pop_okD(4) [OF ok] g have "member_ok m" by (simp add: member_ok_def)
  then have "pop_ok u ?F (am_id ` set (agents db @ [a])) (next_id db + 4) (members db @ [m])"
    using m p q assms(3) by (intro pop_ok_add [OF ok _ _ _ assms(4), of "next_id db + 2"]) auto
  moreover have "u ` {..<next_id db} \<subseteq> u ` {..<next_id db + 4}" by (intro image_mono) auto
  ultimately show ?thesis using assms(2) d unfolding city_ok_def by auto
qed

lemma touch_member_line:
  "same_line m (f m) \<Longrightarrow> same_line m (touch_member env f m)"
  by (auto simp: touch_member_def Let_def same_line_def dead_def)

lemma touch_member_ok:
  "member_ok (f m) \<Longrightarrow> member_ok (touch_member env f m)"
  by (auto simp: touch_member_def Let_def member_ok_def dead_def)

lemma max_age_line: "same_line m (fm_max_age_ticks_update (\<lambda>_. a) m)" "member_ok m \<Longrightarrow> member_ok (fm_max_age_ticks_update (\<lambda>_. a) m)"
  by (auto simp: same_line_def member_ok_def dead_def)

lemma life_update_line: "same_line m (life_update g d t m)" "member_ok m \<Longrightarrow> member_ok (life_update g d t m)"
  by (auto simp: same_line_def member_ok_def dead_def life_update_def split: option.splits)

lemma city_ok_members_map:
  assumes "city_ok u db" "map fa_id (families db') = map fa_id (families db)" "agents db' = agents db" "next_id db' = next_id db"
    "members db' = map g (members db)"
    "\<And>m. m \<in> set (members db) \<Longrightarrow> member_ok m \<Longrightarrow> same_line m (g m) \<and> member_ok (g m)"
  shows "city_ok u db'"
proof -
  from assms(2) have ids: "fa_id ` set (families db') = fa_id ` set (families db)" by (metis set_map)
  from assms(1) have "pop_ok u (fa_id ` set (families db)) (am_id ` set (agents db)) (next_id db) (members db)"
    by (simp add: city_ok_def)
  moreover from pop_okD(4) [OF this] assms(6)
  have "\<forall>m \<in> set (members db). same_line m (g m)" "\<forall>m \<in> set (members db). member_ok (g m)" by blast+
  ultimately have "pop_ok u (fa_id ` set (families db)) (am_id ` set (agents db)) (next_id db) (map g (members db))"
    by (rule pop_ok_map)
  with assms(1-5) ids show ?thesis by (simp add: city_ok_def)
qed

lemma apply_max_age_effect:
  assumes "apply_max_age env fid merged db = Inr db'"
  shows "families db' = families db \<and> agents db' = agents db \<and> next_id db' = next_id db \<and>
    (\<exists>g. members db' = map g (members db) \<and> (\<forall>m. member_ok m \<longrightarrow> same_line m (g m) \<and> member_ok (g m)))"
proof -
  let ?g = "\<lambda>a m. if alive_in fid m then touch_member env (fm_max_age_ticks_update (\<lambda>_. a)) m else m"
  have g: "\<forall>m. member_ok m \<longrightarrow> same_line m (?g a m) \<and> member_ok (?g a m)" for a
    by (auto simp: touch_member_line touch_member_ok max_age_line)
  consider "db' = db" | a where "db' = db\<lparr>members := map (?g a) (members db)\<rparr>"
    using assms unfolding apply_max_age_def rbind_eq_Inr by (auto simp: rbind_eq_Inr split: option.splits if_splits)
  then show ?thesis
  proof cases
    case 1
    then show ?thesis by (intro conjI exI [of _ "\<lambda>m. m"]) simp_all
  next
    case 2
    then show ?thesis by (intro conjI exI [of _ "?g a"] g) simp_all
  qed
qed

lemma update_policy_split:
  assumes "update_family_policy env fid patch db = Inr (db', v)"
  obtains merged db1 where "apply_max_age env fid merged db1 = Inr db'" "agents db1 = agents db" "members db1 = members db"
    "next_id db1 = next_id db" "map fa_id (families db1) = map fa_id (families db)"
proof -
  from assms obtain merged where "apply_max_age env fid merged (db\<lparr>families := row_set fa_id fid
      (\<lambda>f. if merged = fa_policy f then f else f\<lparr>fa_policy := merged, fa_updated_at := env_now env\<rparr>) (families db)\<rparr>) = Inr db'"
    by (auto simp: update_family_policy_def rbind_eq_Inr split: option.splits)
  then show thesis by (rule that) (auto intro!: map_key_row_set)
qed

lemma city_ok_update_policy:
  assumes "update_family_policy env fid patch db = Inr (db', v)" "city_ok u db"
  shows "city_ok u db'"
  using assms(1)
proof (rule update_policy_split)
  fix merged db1
  assume a: "apply_max_age env fid merged db1 = Inr db'" and b: "agents db1 = agents db" "members db1 = members db"
    "next_id db1 = next_id db" "map fa_id (families db1) = map fa_id (families db)"
  from apply_max_age_effect [OF a] obtain g where "members db' = map g (members db1)"
    and g: "\<And>m. member_ok m \<Longrightarrow> same_line m (g m) \<and> member_ok (g m)"
    and "families db' = families db1" "agents db' = agents db1" "next_id db' = next_id db1" by auto
  with b show ?thesis by (intro city_ok_members_map [OF assms(2), of db' g]) (simp_all add: g)
qed

lemma city_ok_update_member:
  assumes "update_member_life env mid goals dreams thinking db = Inr (db', v)" "city_ok u db"
  shows "city_ok u db'"
proof -
  have "families db' = families db \<and> agents db' = agents db \<and> next_id db' = next_id db \<and>
    members db' = row_set fm_id mid (touch_member env (life_update goals dreams thinking)) (members db)"
    using assms(1) by (auto simp: update_member_life_def Let_def split: option.splits prod.splits)
  then show ?thesis unfolding row_set_def
    by (intro city_ok_members_map [OF assms(2), where g = "\<lambda>r. if fm_id r = mid
          then touch_member env (life_update goals dreams thinking) r else r"])
       (auto simp: touch_member_line touch_member_ok life_update_line)
qed

end
