(* ===== verification/CitySuccession.thy ===== *)
theory CitySuccession
  imports CityPopulation
begin

text \<open>
  Ageing, death and succession: what \<open>life_tick\<close> does to a city that satisfies the invariant of
  \<open>CityPopulation\<close>, and the system of all operations that change the population.
\<close>

section \<open>Ageing\<close>

text \<open>Two member tables with the same lineage.\<close>

definition same_lines :: "FamilyMemberModel list \<Rightarrow> FamilyMemberModel list \<Rightarrow> bool" where
  "same_lines ms ms' \<longleftrightarrow> list_all2 same_line ms ms'"

lemma same_line_trans: "same_line a b \<Longrightarrow> same_line b c \<Longrightarrow> same_line a c"
  by (simp add: same_line_def)

lemma same_lines_trans: "same_lines a b \<Longrightarrow> same_lines b c \<Longrightarrow> same_lines a c"
  unfolding same_lines_def by (rule list_all2_trans [of same_line same_line same_line]) (rule same_line_trans)

lemma same_lines_refl [simp]: "same_lines ms ms"
  by (simp add: same_lines_def list.rel_refl)

lemma same_lines_in:
  "same_lines ms ms' \<Longrightarrow> m \<in> set ms \<Longrightarrow> \<exists>m' \<in> set ms'. same_line m m'"
  unfolding same_lines_def by (metis in_set_conv_nth list_all2_conv_all_nth)

lemma row_update_ok:
  assumes ok: "pop_ok u F A n ms" and m: "m \<in> set ms" "same_line m b" "member_ok b"
  shows "pop_ok u F A n (row_set fm_id (fm_id m) (\<lambda>_. b) ms)" "same_lines ms (row_set fm_id (fm_id m) (\<lambda>_. b) ms)"
proof -
  have only: "r = m" if "r \<in> set ms" "fm_id r = fm_id m" for r
    using pop_okD(1) [OF ok] m(1) that by (meson distinct_map inj_onD)
  let ?g = "\<lambda>r. if fm_id r = fm_id m then b else r"
  have line: "\<forall>r \<in> set ms. same_line r (?g r)" using only m(2) by auto
  moreover have "\<forall>r \<in> set ms. member_ok (?g r)" using pop_okD(4) [OF ok] m(3) by simp
  ultimately show "pop_ok u F A n (row_set fm_id (fm_id m) (\<lambda>_. b) ms)"
    unfolding row_set_def by (rule pop_ok_map [OF ok])
  from line show "same_lines ms (row_set fm_id (fm_id m) (\<lambda>_. b) ms)"
    by (simp add: same_lines_def row_set_def list_all2_conv_all_nth)
qed

lemma float_or_unit: "0 \<le> x \<Longrightarrow> x \<le> 1 \<Longrightarrow> 0 \<le> float_or (Some x) (fl (1/2)) \<and> float_or (Some x) (fl (1/2)) \<le> 1"
  using fl_mono [of "1/2" 1] by (simp add: float_or_def fl_nonneg)

lemma aged_member_line: "same_line m (aged_member env a m)"
  by (simp add: same_line_def aged_member_def dead_def)

lemma aged_member_ok: "member_ok m \<Longrightarrow> member_ok (aged_member env a m)"
  using float_or_unit [of "fm_structured_thinking m"]
  by (auto simp: member_ok_def aged_member_def dead_def fl_nonneg)

lemma policy_override_effect:
  assumes "policy_override policy m = Inr (b, max_age)"
  shows "same_line m b" "member_ok m \<Longrightarrow> member_ok b" "fm_age_ticks b = fm_age_ticks m"
proof -
  from assms obtain i where "b = m \<or> b = fm_max_age_ticks_update (\<lambda>_. i) m"
    by (auto simp: policy_override_def rbind_eq_Inr split: option.splits)
  then show "same_line m b" "member_ok m \<Longrightarrow> member_ok b" "fm_age_ticks b = fm_age_ticks m"
    using max_age_line by auto
qed

definition aged_event :: "city_env \<Rightarrow> FamilyModel \<Rightarrow> FamilyMemberModel \<Rightarrow> city_db \<Rightarrow> city_db" where
  "aged_event env family a db = emit_event env ''life.aged'' (Some (fa_id family)) None
      [(''member_id'', JStr (fm_id a)), (''agent_id'', JStr (fm_agent_id a)), (''age_ticks'', JInt (fm_age_ticks a)),
       (''max_age_ticks'', JInt (fm_max_age_ticks a)), (''generation'', JInt (fm_generation a)),
       (''growth'', JFloat (fm_growth a)), (''structured_thinking'', JFloat (fm_structured_thinking a))] db"

lemma age_all_Cons:
  assumes "age_all env k family (m # ms) db = Inr (db', due, n)" "ages m"
  obtains b x due1 n1 where "policy_override (fa_policy family) (aged_member env k m) = Inr (b, x)"
    "age_all env k family ms ((aged_event env family (aged_member env k m) db)
       \<lparr>members := row_set fm_id (fm_id m) (\<lambda>_. b) (members db)\<rparr>) = Inr (db', due1, n1)"
    "due = (if x \<le> fm_age_ticks b then fm_id m # due1 else due1)" "n = Suc n1"
  using assms by (auto simp: rbind_eq_Inr Let_def aged_event_def)

lemma age_all_effect:
  assumes "age_all env k family ms db = Inr (db', due, n)"
    and "pop_ok u F A (next_id db) (members db)" "set ms \<subseteq> set (members db)" "distinct (map fm_id ms)"
  shows "families db' = families db \<and> agents db' = agents db \<and> jobs db' = jobs db \<and> next_id db \<le> next_id db' \<and>
    pop_ok u F A (next_id db') (members db') \<and> same_lines (members db) (members db') \<and>
    distinct due \<and> set due \<subseteq> fm_id ` {m \<in> set ms. ages m}"
  using assms
proof (induction ms arbitrary: db db' due n)
  case (Cons m ms)
  show ?case
  proof (cases "ages m")
    case False
    with Cons.prems(1) have "age_all env k family ms db = Inr (db', due, n)" by simp
    from Cons.IH [OF this Cons.prems(2)] Cons.prems(3,4) show ?thesis by auto
  next
    case True
    from age_all_Cons [OF Cons.prems(1) True] obtain b x due1 n1 where
        b: "policy_override (fa_policy family) (aged_member env k m) = Inr (b, x)"
      and rest: "age_all env k family ms ((aged_event env family (aged_member env k m) db)
         \<lparr>members := row_set fm_id (fm_id m) (\<lambda>_. b) (members db)\<rparr>) = Inr (db', due1, n1)"
      and due: "due = (if x \<le> fm_age_ticks b then fm_id m # due1 else due1)" by metis
    let ?ms = "row_set fm_id (fm_id m) (\<lambda>_. b) (members db)"
    have m: "m \<in> set (members db)" using Cons.prems(3) by simp
    have line: "same_line m b" using aged_member_line policy_override_effect(1) [OF b] same_line_trans by blast
    have "member_ok b" using policy_override_effect(2) [OF b] aged_member_ok pop_okD(4) [OF Cons.prems(2) m] by blast
    note upd = row_update_ok [OF Cons.prems(2) m line this]
    have ok: "pop_ok u F A (Suc (next_id db)) ?ms" using pop_ok_mono [OF upd(1), of A "Suc (next_id db)"] by simp
    have sub: "set ms \<subseteq> set ?ms"
    proof
      fix r assume "r \<in> set ms"
      with Cons.prems(3,4) have "r \<in> set (members db)" "fm_id r \<noteq> fm_id m" by (auto simp: image_iff)
      then show "r \<in> set ?ms" by (auto simp: row_set_def image_iff intro!: bexI [of _ r])
    qed
    from Cons.IH [OF rest] ok sub Cons.prems(4)
    have IH: "families db' = families db \<and> agents db' = agents db \<and> jobs db' = jobs db \<and> Suc (next_id db) \<le> next_id db' \<and>
      pop_ok u F A (next_id db') (members db') \<and> same_lines ?ms (members db') \<and>
      distinct due1 \<and> set due1 \<subseteq> fm_id ` {m \<in> set ms. ages m}"
      by (simp add: aged_event_def)
    then have "fm_id m \<notin> set due1" using Cons.prems(4) by auto
    with IH due True same_lines_trans [OF upd(2)] show ?thesis by (auto 0 3)
  qed
qed simp

section \<open>Succession\<close>

lemma heir_knobs_unit: "unit_knobs (filter (\<lambda>(k, v). k \<in> set PERSONA_KNOB_FIELDS) (heir_knobs m p g))"
proof -
  have "0 \<le> v \<and> v \<le> 1" if "(k, v) \<in> set (heir_knobs m p g)" for k v
    using that mutate_knobs_unit by (auto simp: heir_knobs_def Let_def split: option.splits)
  then show ?thesis by (auto simp: unit_knobs_def)
qed

lemma heir_traits_unit:
  assumes "0 \<le> fm_structured_thinking m" "fm_structured_thinking m \<le> 1" "0 \<le> fm_growth m"
  shows "0 \<le> heir_thinking m \<and> heir_thinking m \<le> 1 \<and> 0 \<le> heir_growth m \<and> heir_growth m \<le> 1"
  using float_or_unit [OF assms(1,2)] assms(3) by (simp add: heir_thinking_def heir_growth_def fl_nonneg)

lemma heir_member_ok:
  assumes "member_ok m"
  shows "member_ok (heir_member env db0 db family m l aid max_age)"
  using assms heir_knobs_unit heir_traits_unit
  by (auto simp: member_ok_def heir_member_def new_member_def dead_def heir_role_def FamilyMemberLifeStatus_def)

lemma heir_member_fields [simp]:
  "fm_id (heir_member env db0 db family m l aid x) = new_id env db"
  "fm_family_id (heir_member env db0 db family m l aid x) = fa_id family"
  "fm_agent_id (heir_member env db0 db family m l aid x) = aid"
  "fm_parent_member_id (heir_member env db0 db family m l aid x) =
     (if fm_role_in_family m = ''parent'' then None else Some (fm_id l))"
  "fm_role_in_family (heir_member env db0 db family m l aid x) = heir_role m"
  "fm_generation (heir_member env db0 db family m l aid x) = fm_generation m + 1"
  "fm_successor_of_id (heir_member env db0 db family m l aid x) = Some (fm_id m)"
  "\<not> dead (heir_member env db0 db family m l aid x)"
  by (simp_all add: heir_member_def dead_def new_member_def)

lemma succeed_member_effect:
  assumes "succeed_member env family m db = Inr (db', h)"
  obtains lp a db1 x where "get_parent db (fa_id family) = Inr lp" "families db' = families db" "jobs db' = jobs db"
    "members db' = members db @ [h]" "agents db' = agents db @ [a]" "next_id db' = next_id db + 5"
    "h = heir_member env db db1 family m (lineage_parent m lp) (am_id a) x" "next_id db1 = next_id db + 2"
  using assms by (auto simp: succeed_member_def rbind_eq_Inr Let_def)

definition buried :: "city_env \<Rightarrow> FamilyMemberModel \<Rightarrow> FamilyMemberModel" where
  "buried env m = m\<lparr>fm_life_status := ''deceased'', fm_is_active := False, fm_deceased_at := Some (env_now env)\<rparr>"

lemma buried_facts [simp]:
  "dead (buried env m)" "fm_id (buried env m) = fm_id m" "fm_family_id (buried env m) = fm_family_id m"
  "fm_generation (buried env m) = fm_generation m" "fm_role_in_family (buried env m) = fm_role_in_family m"
  by (simp_all add: buried_def dead_def)

lemma buried_line: "same_line m ((buried env m)\<lparr>fm_life_status := fm_life_status m\<rparr>)"
  by (simp add: buried_def same_line_def dead_def)

lemma buried_ok: "member_ok m \<Longrightarrow> member_ok (buried env m)"
  by (auto simp: buried_def member_ok_def dead_def FamilyMemberLifeStatus_def)

lemma bury_effect:
  assumes "bury env family mid db = Inr (db', s)" "row_get fm_id (members db) mid = Some m"
  obtains db1 h where "succeed_member env family (buried env m) db1 = Inr (db', h)"
    "families db1 = families db" "jobs db1 = jobs db" "next_id db1 = Suc (next_id db)"
    "map am_id (agents db1) = map am_id (agents db)"
    "members db1 = row_set fm_id mid (\<lambda>_. buried env m) (members db)"
    "s = \<lparr> su_family_id = fa_id family, su_deceased_member_id = mid, su_heir_member_id = fm_id h, su_generation = fm_generation h \<rparr>"
proof -
  from assms obtain h where s: "s = \<lparr> su_family_id = fa_id family, su_deceased_member_id = mid,
      su_heir_member_id = fm_id h, su_generation = fm_generation h \<rparr>"
    and "\<exists>p. succeed_member env family (buried env m) (emit_event env ''member.died'' (Some (fa_id family)) None p
      (db\<lparr>members := row_set fm_id mid (\<lambda>_. buried env m) (members db),
          agents := row_set am_id (fm_agent_id m) (am_is_active_update (\<lambda>_. False)) (agents db)\<rparr>)) = Inr (db', h)"
    unfolding bury_def by (auto simp: rbind_eq_Inr Let_def buried_def)
  then obtain p where "succeed_member env family (buried env m) (emit_event env ''member.died'' (Some (fa_id family)) None p
      (db\<lparr>members := row_set fm_id mid (\<lambda>_. buried env m) (members db),
          agents := row_set am_id (fm_agent_id m) (am_is_active_update (\<lambda>_. False)) (agents db)\<rparr>)) = Inr (db', h)" by blast
  then show thesis by (rule that) (simp_all add: s map_key_row_set)
qed

definition living :: "string \<Rightarrow> FamilyMemberModel list \<Rightarrow> nat" where
  "living f ms = length (filter (\<lambda>m. fm_family_id m = f \<and> \<not> dead m) ms)"

lemma member_ok_status: "member_ok m \<Longrightarrow> fm_is_active m \<and> fm_life_status m = ''alive'' \<longleftrightarrow> \<not> dead m"
  "member_ok m \<Longrightarrow> fm_is_active m \<and> (fm_life_status m = [] \<or> fm_life_status m = ''alive'') \<longleftrightarrow> \<not> dead m"
  "member_ok m \<Longrightarrow> ages m \<longleftrightarrow> \<not> dead m"
  by (auto simp: member_ok_def dead_def FamilyMemberLifeStatus_def ages_def)

lemma alive_count_living:
  assumes "pop_ok u F A n (members db)"
  shows "alive_count db f = living f (members db)"
    "length (filter (\<lambda>m. fm_is_active m \<and> (fm_life_status m = [] \<or> fm_life_status m = ''alive'')) (family_members db f))
     = living f (members db)"
  unfolding alive_count_def living_def family_members_def filter_filter
  using pop_okD(4) [OF assms] member_ok_status
  by (auto intro!: arg_cong [of _ _ length] filter_cong)

lemma living_same_lines:
  assumes "same_lines ms ms'"
  shows "living f ms' = living f ms"
  using assms unfolding same_lines_def living_def
  by (induction rule: list_all2_induct) (auto simp: same_line_def)

text \<open>What one death does, on databases that satisfy the invariant.\<close>

lemma bury_ok:
  assumes b: "bury env family (fm_id m) db = Inr (db', s)" and m: "m \<in> set (members db)" "\<not> dead m" "fm_family_id m = fa_id family"
    and ok: "pop_ok u F (am_id ` set (agents db)) (next_id db) (members db)" and u: "env_uuid env = u" "inj u"
  shows "\<exists>h. families db' = families db \<and> jobs db' = jobs db \<and> next_id db \<le> next_id db' \<and>
    pop_ok u F (am_id ` set (agents db')) (next_id db') (members db') \<and>
    members db' = row_set fm_id (fm_id m) (\<lambda>_. buried env m) (members db) @ [h] \<and>
    succeeds_to h (buried env m) \<and> \<not> dead h \<and> su_deceased_member_id s = fm_id m \<and> su_heir_member_id s = fm_id h"
proof -
  from row_get_unique [OF pop_okD(1) [OF ok] m(1)] bury_effect [OF b] obtain db1 h where
      h: "succeed_member env family (buried env m) db1 = Inr (db', h)"
    and d1: "families db1 = families db" "jobs db1 = jobs db" "next_id db1 = Suc (next_id db)"
      "map am_id (agents db1) = map am_id (agents db)"
      "members db1 = row_set fm_id (fm_id m) (\<lambda>_. buried env m) (members db)"
    and s: "s = \<lparr> su_family_id = fa_id family, su_deceased_member_id = fm_id m, su_heir_member_id = fm_id h,
      su_generation = fm_generation h \<rparr>" by metis
  from succeed_member_effect [OF h] obtain lp a db2 x where
      lp: "get_parent db1 (fa_id family) = Inr lp"
    and d: "families db' = families db1" "jobs db' = jobs db1" "members db' = members db1 @ [h]"
      "agents db' = agents db1 @ [a]" "next_id db' = next_id db1 + 5"
    and heir: "h = heir_member env db1 db2 family (buried env m) (lineage_parent (buried env m) lp) (am_id a) x"
      "next_id db2 = next_id db1 + 2" by metis
  have mok: "member_ok m" using pop_okD(4) [OF ok m(1)] .
  have to: "succeeds_to h (buried env m)"
    using mok m(3) by (auto simp: heir succeeds_to_def heir_role_def member_ok_def)
  have near: "\<exists>q \<in> set (members db). fm_id q = fm_id r \<and> fm_family_id q = fm_family_id r" if "r \<in> set (members db1)" for r
    using that m(1) by (auto simp: d1 row_set_def)
  have "\<exists>q \<in> set (members db). fm_id q = fm_id (lineage_parent (buried env m) lp) \<and> fm_family_id q = fa_id family"
  proof (cases "\<exists>p. lp = Some p \<and> lineage_parent (buried env m) lp = p")
    case True
    then obtain p where "get_parent db1 (fa_id family) = Inr (Some p)" "lineage_parent (buried env m) lp = p" using lp by auto
    with get_parent_SomeD near show ?thesis by metis
  next
    case False
    then have "lineage_parent (buried env m) lp = buried env m" by (auto simp: lineage_parent_def split: option.splits if_splits)
    with m(1,3) show ?thesis by auto
  qed
  then have hp: "\<forall>p. fm_parent_member_id h = Some p \<longrightarrow> (\<exists>q \<in> set (members db). fm_id q = p \<and> fm_family_id q = fm_family_id h)"
    by (simp add: heir)
  have ids: "am_id ` set (agents db) = am_id ` set (agents db1)" using d1(4) by (metis set_map)
  have "pop_ok u F (am_id ` set (agents db')) (next_id db') (row_set fm_id (fm_id m) (\<lambda>_. buried env m) (members db) @ [h])"
    using m d1 d heir to hp u ids
    by (intro pop_ok_succession [OF ok m(1,2), where k = "next_id db2"])
       (auto simp: new_id_def buried_line buried_ok mok heir_member_ok)
  with d d1 to s heir show ?thesis by auto
qed

definition passed :: "FamilyMemberModel list \<Rightarrow> succession \<Rightarrow> bool" where
  "passed ms s \<longleftrightarrow> (\<exists>d \<in> set ms. \<exists>h \<in> set ms. fm_id d = su_deceased_member_id s \<and> fm_id h = su_heir_member_id s \<and> succeeds_to h d)"

lemma passed_same_lines:
  assumes "same_lines ms ms'" "passed ms s"
  shows "passed ms' s"
proof -
  from assms(2) obtain d h where dh: "d \<in> set ms" "h \<in> set ms" "fm_id d = su_deceased_member_id s"
    "fm_id h = su_heir_member_id s" "succeeds_to h d" unfolding passed_def by blast
  from same_lines_in [OF assms(1) dh(1)] same_lines_in [OF assms(1) dh(2)] obtain d' h' where
    "d' \<in> set ms'" "h' \<in> set ms'" and line: "same_line d d'" "same_line h h'" by blast
  moreover have "succeeds_to h' d'" using same_line_succeeds [OF line(2,1)] dh(5) by simp
  ultimately show ?thesis unfolding passed_def
    using dh(3,4) same_lineD(1) [OF line(1)] same_lineD(1) [OF line(2)] by (intro bexI [of _ d'] bexI [of _ h']) simp_all
qed

lemma kept_row: "r \<in> set ms \<Longrightarrow> fm_id r \<noteq> i \<Longrightarrow> r \<in> set (row_set fm_id i (\<lambda>_. d) ms)"
  by (auto simp: row_set_def image_iff intro!: bexI [of _ r])

lemma new_row: "m \<in> set ms \<Longrightarrow> d \<in> set (row_set fm_id (fm_id m) (\<lambda>_. d) ms)"
  by (auto simp: row_set_def image_iff intro!: bexI [of _ m])

lemma passed_bury:
  assumes "passed ms s" "distinct (map fm_id ms)" "m \<in> set ms" "\<not> dead m"
  shows "passed (row_set fm_id (fm_id m) (\<lambda>_. buried env m) ms @ [h]) s"
proof -
  let ?ms = "row_set fm_id (fm_id m) (\<lambda>_. buried env m) ms @ [h]"
  from assms(1) obtain d g where dg: "d \<in> set ms" "g \<in> set ms" "fm_id d = su_deceased_member_id s"
    "fm_id g = su_heir_member_id s" "succeeds_to g d" unfolding passed_def by blast
  have only: "r = m" if "r \<in> set ms" "fm_id r = fm_id m" for r
    using assms(2,3) that by (meson distinct_map inj_onD)
  have "fm_id d \<noteq> fm_id m" using only [OF dg(1)] assms(4) dg(5) by (auto simp: succeeds_to_def)
  then have d: "d \<in> set ?ms" using kept_row [OF dg(1)] by simp
  show ?thesis
  proof (cases "fm_id g = fm_id m")
    case True
    then have "g = m" by (rule only [OF dg(2)])
    with dg(5) have "succeeds_to (buried env m) d" by (simp add: succeeds_to_def buried_def)
    with d dg True new_row [OF assms(3)] show ?thesis unfolding passed_def by (intro bexI [of _ d] bexI [of _ "buried env m"]) auto
  next
    case False
    then have "g \<in> set ?ms" using kept_row [OF dg(2)] by simp
    with d dg show ?thesis unfolding passed_def by blast
  qed
qed

lemma living_bury:
  assumes "distinct (map fm_id ms)" "m \<in> set ms" "\<not> dead m" "succeeds_to h (buried env m)" "\<not> dead h"
  shows "living f (row_set fm_id (fm_id m) (\<lambda>_. buried env m) ms @ [h]) = living f ms"
proof -
  from row_set_split [OF assms(1,2), of "buried env m"] obtain xs ys where
    "ms = xs @ m # ys" "row_set fm_id (fm_id m) (\<lambda>_. buried env m) ms = xs @ buried env m # ys" by metis
  with assms(3-5) show ?thesis by (simp add: living_def succeeds_to_def)
qed

text \<open>What a part of a life tick does to a database that satisfies the invariant.\<close>

definition ticked :: "(nat \<Rightarrow> string) \<Rightarrow> string set \<Rightarrow> city_db \<Rightarrow> city_db \<Rightarrow> succession list \<Rightarrow> bool" where
  "ticked u F db db' ss \<longleftrightarrow> families db' = families db \<and> jobs db' = jobs db \<and> next_id db \<le> next_id db' \<and>
     pop_ok u F (am_id ` set (agents db')) (next_id db') (members db') \<and>
     (\<forall>f. living f (members db') = living f (members db)) \<and>
     (\<forall>s. passed (members db) s \<longrightarrow> passed (members db') s) \<and> (\<forall>s \<in> set ss. passed (members db') s)"

lemma ticked_trans: "ticked u F a b ss \<Longrightarrow> ticked u F b c ts \<Longrightarrow> ticked u F a c (ss @ ts)"
  by (auto simp: ticked_def)

definition due_rows :: "string \<Rightarrow> string list \<Rightarrow> FamilyMemberModel list \<Rightarrow> bool" where
  "due_rows f due ms \<longleftrightarrow> distinct due \<and> (\<forall>i \<in> set due. \<exists>m \<in> set ms. fm_id m = i \<and> \<not> dead m \<and> fm_family_id m = f)"

lemma bury_all_ok:
  assumes "bury_all env family due db = Inr (db', ss)"
    and "pop_ok u F (am_id ` set (agents db)) (next_id db) (members db)" "due_rows (fa_id family) due (members db)"
    and "env_uuid env = u" "inj u"
  shows "ticked u F db db' ss \<and> map su_deceased_member_id ss = due"
  using assms(1-3)
proof (induction due arbitrary: db ss)
  case (Cons i due)
  from Cons.prems(3) obtain m where m: "m \<in> set (members db)" "fm_id m = i" "\<not> dead m" "fm_family_id m = fa_id family"
    by (auto simp: due_rows_def)
  from Cons.prems(1) obtain db1 s ss1 where b: "bury env family (fm_id m) db = Inr (db1, s)"
    and rest: "bury_all env family due db1 = Inr (db', ss1)" and ss: "ss = s # ss1"
    by (auto simp: rbind_eq_Inr m)
  note ids = pop_okD(1) [OF Cons.prems(2)]
  from bury_ok [OF b m(1,3,4) Cons.prems(2) assms(4,5)] obtain h where
      h: "families db1 = families db" "jobs db1 = jobs db" "next_id db \<le> next_id db1"
      "members db1 = row_set fm_id (fm_id m) (\<lambda>_. buried env m) (members db) @ [h]"
      "succeeds_to h (buried env m)" "\<not> dead h" "su_deceased_member_id s = fm_id m" "su_heir_member_id s = fm_id h"
    and ok: "pop_ok u F (am_id ` set (agents db1)) (next_id db1) (members db1)" by blast
  have "passed (members db1) s"
    unfolding passed_def using h new_row [OF m(1)] by (intro bexI [of _ "buried env m"] bexI [of _ h]) auto
  with h ok living_bury [OF ids m(1,3) h(5,6)] passed_bury [OF _ ids m(1,3)]
  have one: "ticked u F db db1 [s]" by (simp add: ticked_def)
  have "due_rows (fa_id family) due (members db1)"
    unfolding due_rows_def
  proof (intro conjI ballI)
    show "distinct due" using Cons.prems(3) by (simp add: due_rows_def)
  next
    fix j assume j: "j \<in> set due"
    with Cons.prems(3) obtain r where "r \<in> set (members db)" "fm_id r = j" "\<not> dead r" "fm_family_id r = fa_id family"
      by (auto simp: due_rows_def)
    moreover have "j \<noteq> i" using Cons.prems(3) j by (auto simp: due_rows_def)
    ultimately show "\<exists>m \<in> set (members db1). fm_id m = j \<and> \<not> dead m \<and> fm_family_id m = fa_id family"
      using kept_row [of r "members db" "fm_id m"] m(2) h(4) by auto
  qed
  from Cons.IH [OF rest ok this] ticked_trans [OF one] show ?case by (simp add: ss h m)
qed (auto simp: ticked_def)

lemma age_all_ticked:
  assumes "age_all env k family (family_members db (fa_id family)) db = Inr (db', due, n)"
    and "pop_ok u F (am_id ` set (agents db)) (next_id db) (members db)"
  shows "ticked u F db db' [] \<and> due_rows (fa_id family) due (members db')"
proof -
  let ?ms = "family_members db (fa_id family)"
  have "set ?ms \<subseteq> set (members db)" "distinct (map fm_id ?ms)"
    using pop_okD(1) [OF assms(2)] by (auto simp: family_members_def distinct_map_filter)
  from age_all_effect [OF assms this] have e: "families db' = families db" "agents db' = agents db" "jobs db' = jobs db"
    "next_id db \<le> next_id db'" "pop_ok u F (am_id ` set (agents db)) (next_id db') (members db')"
    "same_lines (members db) (members db')" "distinct due" "set due \<subseteq> fm_id ` {m \<in> set ?ms. ages m}" by auto
  have "\<exists>m' \<in> set (members db'). fm_id m' = i \<and> \<not> dead m' \<and> fm_family_id m' = fa_id family" if "i \<in> set due" for i
  proof -
    from that e(8) obtain m where "m \<in> set (members db)" "fm_id m = i" "ages m" "fm_family_id m = fa_id family"
      by (auto simp: family_members_def)
    moreover from this pop_okD(4) [OF assms(2)] have "\<not> dead m" using member_ok_status(3) by blast
    ultimately show ?thesis using same_lines_in [OF e(6)] same_lineD by metis
  qed
  with e show ?thesis using passed_same_lines living_same_lines by (auto simp: ticked_def due_rows_def)
qed

section \<open>The whole tick\<close>

lemma family_life_tick_ok:
  assumes t: "family_life_tick env k family db = Inr (db', t)"
    and ok: "pop_ok u F (am_id ` set (agents db)) (next_id db) (members db)" and u: "env_uuid env = u" "inj u"
  shows "ticked u F db db' (ft_successions t) \<and> ft_after t = ft_before t"
proof -
  from t obtain db1 due n ss where a: "age_all env k family (family_members db (fa_id family)) db = Inr (db1, due, n)"
    and b: "bury_all env family due db1 = Inr (db', ss)"
    and r: "ft_successions t = ss"
      "ft_before t = family_efficiency db (fa_id family) (length (filter (\<lambda>m. fm_is_active m \<and> (fm_life_status m = [] \<or>
         fm_life_status m = ''alive'')) (family_members db (fa_id family))))"
      "ft_after t = family_efficiency db' (fa_id family) (alive_count db' (fa_id family))"
    by (auto simp: family_life_tick_def rbind_eq_Inr Let_def)
  from age_all_ticked [OF a ok] have one: "ticked u F db db1 []" "due_rows (fa_id family) due (members db1)" by auto
  then have "pop_ok u F (am_id ` set (agents db1)) (next_id db1) (members db1)" by (simp add: ticked_def)
  from bury_all_ok [OF b this one(2) u] ticked_trans [OF one(1), of db' ss] have all: "ticked u F db db' ss" by simp
  then have "pop_ok u F (am_id ` set (agents db')) (next_id db') (members db')" by (simp add: ticked_def)
  with all r alive_count_living [OF ok] alive_count_living(1) [OF this] show ?thesis
    by (simp add: ticked_def family_efficiency_def jobs_list_for_family_def)
qed

lemma tick_families_ok:
  assumes "tick_families env k fids db = Inr (db', ts)"
    and "pop_ok u F (am_id ` set (agents db)) (next_id db) (members db)" and u: "env_uuid env = u" "inj u"
  shows "ticked u F db db' (concat (map ft_successions ts)) \<and> map ft_after ts = map ft_before ts"
  using assms(1,2)
proof (induction fids arbitrary: db ts)
  case (Cons fid fids)
  show ?case
  proof (cases "get_with_members db fid")
    case None
    with Cons.prems Cons.IH show ?thesis by simp
  next
    case (Some fms)
    then obtain family ms where fam: "get_with_members db fid = Some (family, ms)" by (cases fms) auto
    with Cons.prems(1) obtain db1 t ts1 where t: "family_life_tick env k family db = Inr (db1, t)"
      and rest: "tick_families env k fids db1 = Inr (db', ts1)" and ts: "ts = t # ts1"
      by (auto simp: rbind_eq_Inr)
    from family_life_tick_ok [OF t Cons.prems(2) u] have one: "ticked u F db db1 (ft_successions t)" "ft_after t = ft_before t" by auto
    then have "pop_ok u F (am_id ` set (agents db1)) (next_id db1) (members db1)" by (simp add: ticked_def)
    from Cons.IH [OF rest this] ticked_trans [OF one(1)] one(2) show ?thesis by (simp add: ts)
  qed
qed (auto simp: ticked_def)

lemma ticked_city_ok:
  assumes "ticked u (fa_id ` set (families db)) db db' ss" "city_ok u db"
  shows "city_ok u db'"
proof -
  from assms(1) have "u ` {..<next_id db} \<subseteq> u ` {..<next_id db'}" by (intro image_mono) (auto simp: ticked_def)
  with assms show ?thesis by (auto simp: city_ok_def ticked_def)
qed

lemma life_tick_effect:
  assumes "life_tick env mf k db = Inr (db', p)" "city_ok u db" "env_uuid env = u" "inj u"
  shows "ticked u (fa_id ` set (families db)) db db' (lp_successions p)"
    "lp_efficiency_after p = lp_efficiency_before p" "lp_died p = lp_born p" "lp_died p = length (lp_successions p)"
    "lp_efficiency_preserved p = (if 0 < lp_efficiency_before p
       then fmul (lp_efficiency_before p) (fl (95/100)) \<le> lp_efficiency_after p else True)"
    "is_float (lp_efficiency_before p)"
proof -
  from assms(1) obtain fids ts where t: "tick_families env k fids db = Inr (db', ts)"
    and p: "lp_successions p = concat (map ft_successions ts)"
      "lp_efficiency_before p = average4 (env_sum env) (map ft_before ts)"
      "lp_efficiency_after p = average4 (env_sum env) (map ft_after ts)"
      "lp_died p = length (concat (map ft_successions ts))" "lp_born p = length (concat (map ft_successions ts))"
      "lp_efficiency_preserved p = (if 0 < lp_efficiency_before p
       then fmul (lp_efficiency_before p) (fl (95/100)) \<le> lp_efficiency_after p else True)"
    unfolding life_tick_def by (auto simp: rbind_eq_Inr Let_def)
  from assms(2) have "pop_ok u (fa_id ` set (families db)) (am_id ` set (agents db)) (next_id db) (members db)"
    by (simp add: city_ok_def)
  from tick_families_ok [OF t this assms(3,4)] have ok: "ticked u (fa_id ` set (families db)) db db' (concat (map ft_successions ts))"
    and eq: "map ft_after ts = map ft_before ts" by blast+
  show "ticked u (fa_id ` set (families db)) db db' (lp_successions p)" using ok p(1) by simp
  show "lp_efficiency_after p = lp_efficiency_before p" by (simp only: p(2,3) eq)
  show "lp_died p = lp_born p" "lp_died p = length (lp_successions p)" by (simp_all only: p(1,4,5))
  show "lp_efficiency_preserved p = (if 0 < lp_efficiency_before p
       then fmul (lp_efficiency_before p) (fl (95/100)) \<le> lp_efficiency_after p else True)" by (rule p(6))
  show "is_float (lp_efficiency_before p)" by (simp add: p(2) average4_def py_round_def)
qed

section \<open>The population as a system\<close>

inductive city_step :: "(nat \<Rightarrow> string) \<Rightarrow> city_db \<Rightarrow> city_db \<Rightarrow> bool" for u where
  found: "env_uuid env = u \<Longrightarrow> create_family env rq db = Inr (db', v) \<Longrightarrow> city_step u db db'"
| spawn: "env_uuid env = u \<Longrightarrow> spawn_child env fid cq db = Inr (db', w) \<Longrightarrow> city_step u db db'"
| policy: "update_family_policy env fid patch db = Inr (db', v) \<Longrightarrow> city_step u db db'"
| member: "update_member_life env mid goals dreams thinking db = Inr (db', w) \<Longrightarrow> city_step u db db'"
| tick: "env_uuid env = u \<Longrightarrow> life_tick env mf k db = Inr (db', p) \<Longrightarrow> city_step u db db'"

definition city_start :: "city_db \<Rightarrow> bool" where
  "city_start db \<longleftrightarrow> families db = [] \<and> members db = []"

lemma city_start_ok: "city_start db \<Longrightarrow> city_ok u db"
  by (simp add: city_start_def city_ok_def pop_ok_def lineage_ok_def)

interpretation city: invariant_system "city_step u" "\<lambda>db. inj u \<and> city_start db" "\<lambda>db. inj u \<and> city_ok u db" for u
proof
  show "inj u \<and> city_start db \<Longrightarrow> inj u \<and> city_ok u db" for db by (simp add: city_start_ok)
  show "city_step u db db' \<Longrightarrow> inj u \<and> city_ok u db \<Longrightarrow> inj u \<and> city_ok u db'" for db db'
    by (erule city_step.cases)
       (auto intro: city_ok_create_family city_ok_spawn_child city_ok_update_policy city_ok_update_member
          ticked_city_ok life_tick_effect(1))
qed

text \<open>
  C1. Whatever sequence of foundings, births, policy and member updates and life ticks a city goes
  through, its population is consistent: identifiers are unique; every member belongs to an existing
  family and has an existing agent; parents are members of the same family; every family has exactly
  one living parent; the dead are exactly those that have been succeeded, each by exactly one heir of
  the same family and role, one generation on; overrides name knobs and, like growth and structured
  thinking, stay in [0, 1].
\<close>

theorem reachable_city_ok:
  assumes "inj u" "city_start db" "(city_step u)\<^sup>*\<^sup>* db db'"
  shows "city_ok u db'"
  using city.reachable_inv [of u db db'] assms by simp

text \<open>Founding a family succeeds as soon as the request is within bounds.\<close>

lemma dget_or_overrides_unit:
  "0 \<le> dget_or (knob_overrides_of d) f (fl (1/2)) \<and> dget_or (knob_overrides_of d) f (fl (1/2)) \<le> 1"
proof -
  have "0 \<le> v \<and> v \<le> 1" if "dget (knob_overrides_of d) f = Some v" for v
    using that unit_knobs_overrides [of d] unfolding dget_def unit_knobs_def by (auto dest!: map_of_SomeD)
  then show ?thesis using fl_mono [of "1/2" 1] by (auto simp: dget_or_def fl_nonneg split: option.split)
qed

lemma to_profile_new_persona:
  assumes "\<And>f. 0 \<le> dget_or knobs f (fl (1/2)) \<and> dget_or knobs f (fl (1/2)) \<le> 1"
  shows "succeeds (to_profile (new_persona env db name desc knobs model (fl (7/10)) 2000)) \<longleftrightarrow>
    length name \<le> 200 \<and> length desc \<le> 2000"
proof -
  let ?p = "new_persona env db name desc knobs model (fl (7/10)) 2000"
  have "\<forall>k \<in> set PERSONA_KNOB_FIELDS. 0 \<le> knob_or_default (knob_values ?p) k \<and> knob_or_default (knob_values ?p) k \<le> 1"
    using assms by (simp add: knob_or_default_def knob_values_def new_persona_def)
  moreover have "0 \<le> fl (7/10)" "fl (7/10) \<le> 2" using fl_mono [of "7/10" 1] by (simp_all add: fl_nonneg)
  moreover have "pm_name ?p = name" "pm_description ?p = Some desc" "pm_temperature ?p = fl (7/10)" "pm_max_tokens ?p = 2000"
    by (simp_all add: new_persona_def)
  ultimately show ?thesis
    by (simp add: to_profile_def PersonaProfile_init_def Let_def valid_raw_profile or_default_def)
qed

lemma create_family_outcome:
  assumes "rq_parent_agent_id rq = None" "rq_persona_id rq = None"
  shows "succeeds (create_family env rq db) \<longleftrightarrow>
    rq_default_district rq \<in> set CityDistrict \<and> length (rq_name rq) \<le> 185 \<and>
    length (label_or (rq_description rq) (''Parent persona for family '' @ rq_name rq)) \<le> 2000 \<and>
    succeeds (policy_max_age (rq_policy rq) DEFAULT_MAX_AGE_TICKS)"
proof (cases "rq_default_district rq \<in> set CityDistrict")
  case True
  let ?ov = "knob_overrides_of (rq_parent_knob_overrides rq)"
  let ?p = "new_persona env db (rq_name rq @ '' Parent Persona'')
    (label_or (rq_description rq) (''Parent persona for family '' @ rq_name rq)) ?ov ''llama3:8b'' (fl (7/10)) 2000"
  have prof: "succeeds (to_profile ?p) \<longleftrightarrow> length (rq_name rq) \<le> 185 \<and>
      length (label_or (rq_description rq) (''Parent persona for family '' @ rq_name rq)) \<le> 2000"
    using to_profile_new_persona [OF dget_or_overrides_unit] by simp
  note steps = create_family_def resolve_parent_agent_def parent_persona_row_def Let_def used_id_def
  have "succeeds (create_family env rq db) \<longleftrightarrow>
      succeeds (to_profile ?p) \<and> succeeds (policy_max_age (rq_policy rq) DEFAULT_MAX_AGE_TICKS)"
  proof (cases "to_profile ?p")
    case (Inl e)
    with True assms show ?thesis by (simp add: steps)
  next
    case p: (Inr profile)
    show ?thesis
    proof (cases "policy_max_age (rq_policy rq) DEFAULT_MAX_AGE_TICKS")
      case (Inl e)
      with True p assms show ?thesis by (simp add: steps)
    next
      case (Inr x)
      with True p assms show ?thesis
        by (simp add: steps) (auto simp: get_family_def get_with_members_def row_get_None_iff split: option.split)
    qed
  qed
  with prof True show ?thesis by blast
qed (simp add: create_family_def)

text \<open>
  Founding a family with a new persona and agent succeeds exactly when the district is one of the
  four, the generated persona fits the name and description limits of a profile, and the policy's
  \<open>max_age_ticks\<close>, if there is one, can be read as an integer. Knob overrides never make it fail.
\<close>

theorem create_family_succeeds_iff:
  assumes "rq_parent_agent_id rq = None" "rq_persona_id rq = None"
  shows "succeeds (create_family env rq db) \<longleftrightarrow>
    rq_default_district rq \<in> set CityDistrict \<and> length (rq_name rq) \<le> 185 \<and>
    length (label_or (rq_description rq) (''Parent persona for family '' @ rq_name rq)) \<le> 2000 \<and>
    succeeds (policy_max_age (rq_policy rq) DEFAULT_MAX_AGE_TICKS)"
  using assms by (rule create_family_outcome)

section \<open>What a life tick conserves\<close>

text \<open>
  C13. A life tick that returns keeps the population invariant; as many members are born as die; no
  family gains or loses a living member; and each reported succession is one: a member that is now
  dead and an heir of its family and role, one generation on.
\<close>

theorem life_tick_conserves:
  assumes "life_tick env mf k db = Inr (db', p)" "city_ok u db" "env_uuid env = u" "inj u"
  shows "city_ok u db' \<and> lp_died p = lp_born p \<and> lp_died p = length (lp_successions p) \<and>
    (\<forall>f. alive_count db' f = alive_count db f) \<and> list_all (passed (members db')) (lp_successions p)"
proof -
  note e = life_tick_effect [OF assms]
  have ok: "city_ok u db'" by (rule ticked_city_ok [OF e(1) assms(2)])
  with assms(2) have "pop_ok u (fa_id ` set (families db)) (am_id ` set (agents db)) (next_id db) (members db)"
    "pop_ok u (fa_id ` set (families db')) (am_id ` set (agents db')) (next_id db') (members db')" by (simp_all add: city_ok_def)
  note count = alive_count_living(1) [OF this(1)] alive_count_living(1) [OF this(2)]
  from ok e show ?thesis by (auto simp: count ticked_def list_all_iff)
qed

text \<open>
  The efficiency check of a life tick cannot fail: the average after the tick is the average
  before it, so \<open>efficiency_preserved\<close> is true in every report, whatever died.
\<close>

theorem efficiency_check_always_passes:
  assumes "life_tick env mf k db = Inr (db', p)" "city_ok u db" "env_uuid env = u" "inj u"
  shows "lp_efficiency_after p = lp_efficiency_before p \<and> lp_efficiency_preserved p"
proof -
  note e = life_tick_effect [OF assms]
  let ?x = "lp_efficiency_before p"
  have c: "0 \<le> fl (95/100)" "fl (95/100) \<le> 1" using fl_mono [of "95/100" 1] by (simp_all add: fl_nonneg)
  have "fmul ?x (fl (95/100)) \<le> ?x" if "0 < ?x"
  proof -
    have "?x * fl (95/100) \<le> ?x" using mult_left_mono [OF c(2), of ?x] that by simp
    from fl_mono [OF this] e(6) show ?thesis by (simp add: fmul_def is_float_def)
  qed
  then show ?thesis using e(2,5) by auto
qed

section \<open>The end of a dynasty\<close>

lemma scalar_two: "a \<in> set xs \<Longrightarrow> b \<in> set xs \<Longrightarrow> a \<noteq> b \<Longrightarrow> scalar_one_or_none xs = Inl MultipleResultsFound"
  by (auto simp: scalar_one_or_none_def split: list.splits)

text \<open>A living parent that is itself an heir.\<close>

definition later_parent :: "string \<Rightarrow> FamilyMemberModel \<Rightarrow> bool" where
  "later_parent f m \<longleftrightarrow> living_parent f m \<and> 0 < fm_generation m"

lemma bury_later_parent:
  assumes ok: "pop_ok u F A n (members db)" and m: "m \<in> set (members db)" "later_parent (fa_id family) m"
  shows "bury env family (fm_id m) db = Inl MultipleResultsFound"
proof -
  from m(2) have lp: "living_parent (fa_id family) m" and g: "0 < fm_generation m" by (auto simp: later_parent_def)
  note ids = pop_okD(1) [OF ok]
  have "fm_successor_of_id m \<noteq> None" using pop_okD(4) [OF ok m(1)] g lp by (auto simp: member_ok_def living_parent_def)
  with pop_okD(3) [OF ok] m(1) obtain d where d: "d \<in> set (members db)" "succeeds_to m d" by (auto simp: lineage_ok_def)
  have dm: "fm_id d \<noteq> fm_id m"
    using ids m(1) d lp by (metis distinct_map inj_onD living_parent_def succeeds_to_def)
  let ?ms = "row_set fm_id (fm_id m) (\<lambda>_. buried env m) (members db)"
  have in': "d \<in> set ?ms" "buried env m \<in> set ?ms" using kept_row [OF d(1) dm] new_row [OF m(1)] by auto
  have fam: "fa_id family \<in> F" using pop_okD(5) [OF ok m(1)] lp by (simp add: living_parent_def)
  obtain x where x: "filter (living_parent (fa_id family)) (members db) = [x]"
    using pop_okD(7) [OF ok fam] by (auto simp: length_Suc_conv)
  have one: "r = m" if "r \<in> set (members db)" "living_parent (fa_id family) r" for r
  proof -
    have "r \<in> set [x]" "m \<in> set [x]" unfolding x [symmetric] using that m(1) lp by auto
    then show ?thesis by simp
  qed
  have none: "filter (\<lambda>r. fm_life_status r = ''alive'' \<and> fm_is_active r) (filter (\<lambda>r. fm_role_in_family r = ''parent'')
      (filter (\<lambda>r. fm_family_id r = fa_id family) ?ms)) = []"
    using one by (auto simp: filter_empty_conv row_set_def living_parent_def dead_def buried_def)
  have "get_parent db1 (fa_id family) = Inl MultipleResultsFound" if "members db1 = ?ms" for db1
  proof -
    let ?ps = "filter (\<lambda>r. fm_role_in_family r = ''parent'') (family_members db1 (fa_id family))"
    have "d \<in> set ?ps" "buried env m \<in> set ?ps"
      using in' d(2) lp that by (auto simp: family_members_def succeeds_to_def living_parent_def)
    moreover have "d \<noteq> buried env m" using dm by auto
    ultimately have "scalar_one_or_none ?ps = Inl MultipleResultsFound" by (rule scalar_two)
    with none that show ?thesis
      by (simp add: get_parent_def Let_def family_members_def scalar_one_or_none_def)
  qed
  then show ?thesis
    using row_get_unique [OF ids m(1)] by (simp add: bury_def succeed_member_def Let_def buried_def)
qed

lemma bury_all_stuck:
  assumes "pop_ok u F (am_id ` set (agents db)) (next_id db) (members db)" "due_rows (fa_id family) due (members db)"
    and "m \<in> set (members db)" "later_parent (fa_id family) m" "fm_id m \<in> set due" and u: "env_uuid env = u" "inj u"
  shows "\<not> succeeds (bury_all env family due db)"
  using assms(1-5)
proof (induction due arbitrary: db)
  case (Cons i due)
  show ?case
  proof (cases "i = fm_id m")
    case True
    with bury_later_parent [OF Cons.prems(1,3,4)] show ?thesis by simp
  next
    case False
    show ?thesis
    proof (cases "bury env family i db")
      case (Inr r)
      then obtain db1 s where b: "bury env family i db = Inr (db1, s)" by (cases r) auto
      from Cons.prems(2) obtain x where x: "x \<in> set (members db)" "fm_id x = i" "\<not> dead x" "fm_family_id x = fa_id family"
        by (auto simp: due_rows_def)
      from bury_ok [OF _ x(1,3,4) Cons.prems(1) u] b x(2) obtain h where
          mem: "members db1 = row_set fm_id i (\<lambda>_. buried env x) (members db) @ [h]"
        and ok: "pop_ok u F (am_id ` set (agents db1)) (next_id db1) (members db1)" by metis
      have "due_rows (fa_id family) due (members db1)"
        using Cons.prems(2) kept_row [of _ "members db" i] unfolding due_rows_def mem by (fastforce simp: Bex_def)
      moreover have "m \<in> set (members db1)" using kept_row [OF Cons.prems(3), of i] False by (auto simp: mem)
      ultimately have "\<not> succeeds (bury_all env family due db1)"
        using Cons.IH [OF ok] Cons.prems(4,5) False by simp
      then show ?thesis by (cases "bury_all env family due db1") (auto simp: b)
    qed simp
  qed
qed simp

text \<open>Whether a member reaches its limit in a tick: the limit of the policy, or else its own.\<close>

definition due_now :: "int \<Rightarrow> FamilyModel \<Rightarrow> FamilyMemberModel \<Rightarrow> bool" where
  "due_now k family m = (case policy_limit (fa_policy family) of
     Inl _ \<Rightarrow> True
   | Inr None \<Rightarrow> (if fm_max_age_ticks m = 0 then DEFAULT_MAX_AGE_TICKS else fm_max_age_ticks m) \<le> fm_age_ticks m + max 1 k
   | Inr (Some i) \<Rightarrow> i \<le> fm_age_ticks m + max 1 k)"

lemma policy_override_due:
  assumes "policy_override (fa_policy family) (aged_member env k m) = Inr (b, x)"
  shows "x \<le> fm_age_ticks b \<longleftrightarrow> due_now k family m"
proof (cases "policy_limit (fa_policy family)")
  case (Inr l)
  have a: "fm_age_ticks (aged_member env k m) = fm_age_ticks m + max 1 k"
    "fm_max_age_ticks (aged_member env k m) = fm_max_age_ticks m" by (simp_all add: aged_member_def)
  show ?thesis
  proof (cases l)
    case None
    with assms Inr have "b = aged_member env k m" "x = (if fm_max_age_ticks m = 0 then DEFAULT_MAX_AGE_TICKS else fm_max_age_ticks m)"
      by (auto simp: policy_override_def a)
    with None Inr show ?thesis by (simp add: due_now_def a)
  next
    case (Some i)
    with assms Inr have "b = (aged_member env k m)\<lparr>fm_max_age_ticks := i\<rparr>" "x = i" by (auto simp: policy_override_def)
    with Some Inr show ?thesis by (simp add: due_now_def a)
  qed
qed (use assms in \<open>simp add: policy_override_def\<close>)

lemma age_all_due:
  assumes "age_all env k family ms db = Inr (db', due, n)" "m \<in> set ms" "ages m" "due_now k family m"
  shows "fm_id m \<in> set due"
  using assms(1,2)
proof (induction ms arbitrary: db due n)
  case (Cons a ms)
  show ?case
  proof (cases "ages a")
    case False
    with Cons assms(3) show ?thesis by auto
  next
    case True
    from age_all_Cons [OF Cons.prems(1) True] obtain b x due1 n1 db1 where
        b: "policy_override (fa_policy family) (aged_member env k a) = Inr (b, x)"
      and rest: "age_all env k family ms db1 = Inr (db', due1, n1)"
      and due: "due = (if x \<le> fm_age_ticks b then fm_id a # due1 else due1)" by metis
    with Cons.IH [OF rest] Cons.prems(2) policy_override_due [OF b] assms(4) show ?thesis by auto
  qed
qed simp


section \<open>A small city\<close>

text \<open>A family with its founder, in the last tick of its life, and one whose founder has been succeeded.\<close>

definition sample_uuid :: "nat \<Rightarrow> string" where
  "sample_uuid n = replicate n (CHR ''i'')"

lemma inj_sample_uuid: "inj sample_uuid"
  by (rule injI) (metis sample_uuid_def length_replicate)

definition sample_env :: city_env where
  "sample_env = \<lparr> env_uuid = sample_uuid, env_digest = (\<lambda>_. ''fp''), env_tiers = \<lparr> mt_parent = ''big'', mt_child = ''small'' \<rparr>,
     env_now = 1, env_sum = Plain \<rparr>"

definition sample_family :: FamilyModel where
  "sample_family = \<lparr> fa_id = ''i'', fa_name = ''Ash'', fa_description = None, fa_default_district = ''build'',
     fa_policy = [], fa_is_active = True, fa_created_at = 0, fa_updated_at = 0 \<rparr>"

definition founder :: FamilyMemberModel where
  "founder = (new_member sample_env (city_empty\<lparr>next_id := 2\<rparr>) ''i'' ''a'' None ''parent'' None [] [''run''] 0 1)"

definition founder_heir :: FamilyMemberModel where
  "founder_heir = (new_member sample_env (city_empty\<lparr>next_id := 3\<rparr>) ''i'' ''a'' None ''parent'' None [] [''run''] 1 1)
     \<lparr>fm_successor_of_id := Some (fm_id founder)\<rparr>"

definition sample_agent :: AgentModel where
  "sample_agent = \<lparr> am_id = ''a'', am_name = ''Orion'', am_role = ''assistant'', am_model = None, am_temperature = None,
     am_max_tokens = None, am_system_prompt = None, am_persona_id = None, am_tools = [], am_memory_enabled = True,
     am_is_active = True \<rparr>"

definition young_city :: city_db where
  "young_city = city_empty\<lparr>families := [sample_family], members := [founder], agents := [sample_agent], next_id := 4\<rparr>"

definition old_city :: city_db where
  "old_city = young_city\<lparr>members := [buried sample_env founder, founder_heir]\<rparr>"

lemma founder_facts:
  "fm_id founder = sample_uuid 2" "fm_family_id founder = ''i''" "fm_agent_id founder = ''a''" "\<not> dead founder"
  "fm_role_in_family founder = ''parent''" "fm_successor_of_id founder = None" "fm_parent_member_id founder = None" "member_ok founder"
  by (simp_all add: founder_def new_id_def sample_env_def new_member_ok unit_knobs_def)

lemma heir_facts:
  "fm_id founder_heir = sample_uuid 3" "fm_family_id founder_heir = ''i''" "fm_agent_id founder_heir = ''a''"
  "\<not> dead founder_heir" "fm_role_in_family founder_heir = ''parent''" "fm_successor_of_id founder_heir = Some (fm_id founder)"
  "fm_parent_member_id founder_heir = None" "fm_generation founder_heir = 1" "member_ok founder_heir"
  by (simp_all add: founder_heir_def new_id_def sample_env_def new_member_def dead_def member_ok_def
      FamilyMemberLifeStatus_def unit_knobs_def)

lemma sample_ids: "sample_uuid 2 \<noteq> sample_uuid 3" "''i'' = sample_uuid 1"
  by (simp_all add: sample_uuid_def numeral_2_eq_2 numeral_3_eq_3)

lemma sample_range: "n < k \<Longrightarrow> sample_uuid n \<in> sample_uuid ` {..<k}"
  by simp

lemma young_city_ok: "city_ok sample_uuid young_city"
  unfolding city_ok_def pop_ok_def lineage_ok_def young_city_def
  by (simp add: founder_facts living_parent_def sample_family_def sample_agent_def city_empty_def sample_ids(2) sample_range)

lemma old_city_ok: "city_ok sample_uuid old_city"
proof -
  have "succeeds_to founder_heir (buried sample_env founder)"
    by (simp add: succeeds_to_def heir_facts founder_facts founder_def)
  moreover have "{m. (m = buried sample_env founder \<or> m = founder_heir) \<and> dead m} = {buried sample_env founder}"
    using heir_facts(4) by auto
  moreover have "fm_successor_of_id (buried sample_env founder) = None" "fm_parent_member_id (buried sample_env founder) = None"
    "fm_agent_id (buried sample_env founder) = ''a''"
    using founder_facts by (simp_all add: buried_def)
  ultimately show ?thesis
    unfolding city_ok_def pop_ok_def lineage_ok_def old_city_def young_city_def
    by (simp add: founder_facts heir_facts buried_ok living_parent_def sample_family_def sample_agent_def
        city_empty_def sample_ids sample_range)
qed

lemma sample_env_uuid: "env_uuid sample_env = sample_uuid"
  by (simp add: sample_env_def)


definition sample_request :: family_request where
  "sample_request = \<lparr> rq_name = ''Ash'', rq_description = None, rq_default_district = ''viz'', rq_policy = [],
     rq_parent_agent_id = None, rq_parent_name = None, rq_persona_id = None, rq_tool_tags = None,
     rq_role_label = Some ''coordinator'', rq_parent_knob_overrides = [(''humor'', 7)] \<rparr>"

lemma sample_request_facts:
  "rq_parent_agent_id sample_request = None" "rq_persona_id sample_request = None"
  "rq_default_district sample_request \<in> set CityDistrict" "length (rq_name sample_request) \<le> 185"
  "length (label_or (rq_description sample_request) (''Parent persona for family '' @ rq_name sample_request)) \<le> 2000"
  "succeeds (policy_max_age (rq_policy sample_request) DEFAULT_MAX_AGE_TICKS)"
  by (simp_all add: sample_request_def CityDistrict_def label_or_def policy_max_age_def dget_def)

theorem create_family_succeeds_iff_witness: "succeeds (create_family sample_env sample_request city_empty)"
  using create_family_succeeds_iff [OF sample_request_facts(1,2), of sample_env city_empty] sample_request_facts(3-6) by blast

theorem reachable_city_ok_witness:
  "inj sample_uuid \<and> city_start city_empty \<and>
   (\<exists>db. (city_step sample_uuid)\<^sup>*\<^sup>* city_empty db \<and> families db \<noteq> [] \<and> city_ok sample_uuid db)"
proof -
  have start: "city_start city_empty" by (simp add: city_start_def city_empty_def)
  have "succeeds (create_family sample_env sample_request city_empty)"
    using create_family_outcome [OF sample_request_facts(1,2), of sample_env city_empty] sample_request_facts(3-6) by blast
  then obtain db v where c: "create_family sample_env sample_request city_empty = Inr (db, v)"
    by (cases "create_family sample_env sample_request city_empty") auto
  then have "families db \<noteq> []" by (rule create_family_effect) simp
  moreover have "(city_step sample_uuid)\<^sup>*\<^sup>* city_empty db" using city_step.found [OF sample_env_uuid c] by blast
  ultimately show ?thesis using reachable_city_ok [OF inj_sample_uuid start] inj_sample_uuid start by blast
qed

lemma heir_persona_valid:
  "succeeds (to_profile (heir_persona_row env db m)) \<longleftrightarrow> length (heir_name db m) \<le> 192 \<and>
     length (''Successor of '' @ base_name_of db m @ ''; generation '' @ py_str_int (fm_generation m + 1)) \<le> 2000"
proof -
  have "0 \<le> v \<and> v \<le> 1" if "dget (heir_knobs m p g) f = Some v" for p g f v
    using that mutate_knobs_unit unfolding dget_def heir_knobs_def Let_def
    by (auto dest!: map_of_SomeD split: option.splits)
  then have "0 \<le> dget_or (heir_knobs m p g) f (fl (1/2)) \<and> dget_or (heir_knobs m p g) f (fl (1/2)) \<le> 1" for p g f
    using fl_mono [of "1/2" 1] by (auto simp: dget_or_def fl_nonneg split: option.split)
  from to_profile_new_persona [OF this] show ?thesis by (simp add: heir_persona_row_def)
qed

lemma succeed_member_outcome:
  "succeeds (succeed_member env family m db) \<longleftrightarrow> succeeds (get_parent db (fa_id family)) \<and>
     length (heir_name db m) \<le> 192 \<and>
     length (''Successor of '' @ base_name_of db m @ ''; generation '' @ py_str_int (fm_generation m + 1)) \<le> 2000 \<and>
     succeeds (policy_max_age (fa_policy family) (if fm_max_age_ticks m = 0 then DEFAULT_MAX_AGE_TICKS else fm_max_age_ticks m))"
proof -
  let ?x = "if fm_max_age_ticks m = 0 then DEFAULT_MAX_AGE_TICKS else fm_max_age_ticks m"
  have "succeeds (succeed_member env family m db) \<longleftrightarrow> succeeds (get_parent db (fa_id family)) \<and>
      succeeds (to_profile (heir_persona_row env db m)) \<and> succeeds (policy_max_age (fa_policy family) ?x)"
    unfolding succeed_member_def
    by (cases "get_parent db (fa_id family)"; cases "to_profile (heir_persona_row env db m)";
        cases "policy_max_age (fa_policy family) ?x") (simp_all add: Let_def)
  then show ?thesis using heir_persona_valid [of env db m] by blast
qed

lemma sample_policy: "policy_override (fa_policy sample_family) m =
    Inr (m, if fm_max_age_ticks m = 0 then DEFAULT_MAX_AGE_TICKS else fm_max_age_ticks m)"
  "policy_max_age (fa_policy sample_family) x = Inr x"
  by (simp_all add: policy_override_def policy_limit_def policy_max_age_def sample_family_def dget_def)

lemma succeeds_rbind: "(\<And>y. succeeds (f y)) \<Longrightarrow> succeeds (rbind x f) \<longleftrightarrow> succeeds x"
  by (cases x) simp_all

lemma founder_buried:
  assumes "members db = [m]" "agents db = [sample_agent]" "fm_id m = i" "fm_family_id m = ''i''" "fm_agent_id m = ''a''"
    "fm_role_in_family m = ''parent''" "fm_generation m = 0"
  shows "succeeds (bury sample_env sample_family i db)"
proof -
  have "succeeds (succeed_member sample_env sample_family
      (m\<lparr>fm_life_status := ''deceased'', fm_is_active := False, fm_deceased_at := t\<rparr>) d)"
    if "members d = [m\<lparr>fm_life_status := ''deceased'', fm_is_active := False, fm_deceased_at := t\<rparr>]"
      "agents d = [sample_agent\<lparr>am_is_active := False\<rparr>]" for d t
    unfolding succeed_member_outcome using that assms
    by (simp add: get_parent_def family_members_def sample_family_def scalar_one_or_none_def Let_def
        heir_name_def base_name_of_def row_get_def sample_agent_def heir_base_def GEN_MARK_def py_str_int_def
        int_digits.simps py_rstrip_def py_startswith_def py_isspace_def policy_max_age_def dget_def)
  then show ?thesis
    using assms by (simp add: bury_def row_get_def row_set_def Let_def succeeds_rbind split_beta) (simp add: sample_agent_def)
qed

lemma young_city_ticks:
  obtains db p where "life_tick sample_env None 1 young_city = Inr (db, p)" "lp_died p = 1"
proof -
  let ?a = "aged_member sample_env 1 founder"
  have a: "fm_id ?a = sample_uuid 2" "fm_family_id ?a = ''i''" "fm_agent_id ?a = ''a''" "fm_role_in_family ?a = ''parent''"
    "fm_generation ?a = 0" "fm_max_age_ticks ?a = 1" "fm_age_ticks ?a = 1"
    by (simp_all add: aged_member_def founder_facts) (simp_all add: founder_def new_member_def)
  have ages: "ages founder" by (simp add: ages_def founder_def new_member_def)
  have fam: "family_members young_city ''i'' = [founder]" by (simp add: family_members_def young_city_def founder_facts)
  obtain db1 where age: "age_all sample_env 1 sample_family [founder] young_city = Inr (db1, [sample_uuid 2], 1)"
    and db1: "members db1 = [?a]" "agents db1 = [sample_agent]"
    by (simp add: ages sample_policy a Let_def) (simp add: young_city_def row_set_def founder_facts)
  have "succeeds (bury sample_env sample_family (sample_uuid 2) db1)" by (rule founder_buried [OF db1]) (simp_all add: a)
  then obtain db2 s where b: "bury sample_env sample_family (sample_uuid 2) db1 = Inr (db2, s)"
    by (cases "bury sample_env sample_family (sample_uuid 2) db1") auto
  then obtain t where t: "family_life_tick sample_env 1 sample_family young_city = Inr (db2, t)" "ft_successions t = [s]"
    using age fam by (simp add: family_life_tick_def Let_def sample_family_def)
  have "list_families young_city = [sample_family]"
    by (simp add: list_families_def families_list_recent_def young_city_def sort_desc_def) (simp add: sample_family_def)
  moreover have "get_with_members young_city ''i'' = Some (sample_family, [founder])"
    using fam by (simp add: get_with_members_def row_get_def young_city_def sample_family_def)
  moreover have "fa_id sample_family = ''i''" by (simp add: sample_family_def)
  ultimately show thesis using t that by (simp add: life_tick_def Let_def)
qed

theorem life_tick_conserves_witness:
  "\<exists>db p. life_tick sample_env None 1 young_city = Inr (db, p) \<and> lp_died p = 1 \<and> lp_born p = 1 \<and>
     city_ok sample_uuid db \<and> alive_count db ''i'' = alive_count young_city ''i''"
proof -
  from young_city_ticks obtain db p where t: "life_tick sample_env None 1 young_city = Inr (db, p)" "lp_died p = 1" .
  from life_tick_conserves [OF t(1) young_city_ok sample_env_uuid inj_sample_uuid] t show ?thesis by auto
qed

theorem efficiency_check_always_passes_witness:
  "\<exists>db p. life_tick sample_env None 1 young_city = Inr (db, p) \<and> lp_died p = 1 \<and> lp_efficiency_preserved p"
proof -
  from young_city_ticks obtain db p where t: "life_tick sample_env None 1 young_city = Inr (db, p)" "lp_died p = 1" .
  from efficiency_check_always_passes [OF t(1) young_city_ok sample_env_uuid inj_sample_uuid] t show ?thesis by auto
qed

end
