(* ===== verification/CityAnnals.thy ===== *)
theory CityAnnals
  imports CityReports CitySuccession "HOL-Library.Multiset"
begin

text \<open>
  What the reports of the city promise in a consistent city (\<open>city_ok\<close>, which every reachable city
  satisfies): that they agree with each other, that the memorial is complete and names the heir of
  every member, that the exported graph is closed, and which part of its past a chronicle shows.
\<close>

section \<open>Families as the reports see them\<close>

definition listed :: "city_env \<Rightarrow> city_db \<Rightarrow> FamilyModel \<Rightarrow> family_view" where
  "listed env db f = serialize_family env db f (family_members db (fa_id f))"

lemma set_list_families: "set (list_families db) \<subseteq> set (families db)"
  using set_take_subset [of 50] by (fastforce simp: list_families_def families_list_recent_def)

lemma distinct_list_families: "distinct (map fa_id (families db)) \<Longrightarrow> distinct (map fa_id (list_families db))"
proof -
  assume d: "distinct (map fa_id (families db))"
  then have "distinct (list_families db)"
    by (auto simp: list_families_def families_list_recent_def distinct_map intro!: distinct_take distinct_filter)
  moreover have "inj_on fa_id (set (list_families db))"
    using d set_list_families [of db] by (auto simp: distinct_map intro: inj_on_subset)
  ultimately show ?thesis by (simp add: distinct_map)
qed

lemma family_details_listed:
  assumes "distinct (map fa_id (families db))"
  shows "family_details env db = map (listed env db) (list_families db)"
proof -
  have "get_family env db (fa_id s) = Some (listed env db s)" if "s \<in> set (list_families db)" for s
  proof -
    have "row_get fa_id (families db) (fa_id s) = Some s"
      using row_get_unique [OF assms] that set_list_families by blast
    then show ?thesis by (simp add: get_family_def get_with_members_def listed_def)
  qed
  then show ?thesis unfolding family_details_def by (induction "list_families db") (auto simp: map_filter_def)
qed

lemma listed_simps [simp]:
  "fv_row (listed env db f) = f"
  "fv_members (listed env db f) = map (serialize_member env db) (family_members db (fa_id f))"
  by (simp_all add: listed_def serialize_family_def)

lemma serialize_member_simps [simp]:
  "mv_row (serialize_member env db m) = m"
  "m_generation (mv_member (serialize_member env db m)) = fm_generation m"
  "m_growth (mv_member (serialize_member env db m)) = Some (fm_growth m)"
  "m_structured_thinking (mv_member (serialize_member env db m)) = Some (float_or (Some (fm_structured_thinking m)) (fl (1/2)))"
  "m_life_status (mv_member (serialize_member env db m)) = Some (if fm_life_status m = [] then ''alive'' else fm_life_status m)"
  "m_is_active (mv_member (serialize_member env db m)) = Some (fm_is_active m)"
  by (simp_all add: serialize_member_def Let_def)

lemma deceased_dead [simp]: "is_deceased (mv_member (serialize_member env db m)) \<longleftrightarrow> dead m"
  by (auto simp: is_deceased_def label_or_def dead_def)

lemma deceased_dead' [simp]:
  "label_or (m_life_status (mv_member (serialize_member env db m))) ''alive'' = ''deceased'' \<longleftrightarrow> dead m"
  by (auto simp: label_or_def dead_def)

lemma living_not_dead:
  assumes "member_ok m"
  shows "is_living (mv_member (serialize_member env db m)) \<longleftrightarrow> \<not> dead m"
proof -
  have "py_lower ''alive'' \<noteq> ''deceased''" "py_lower ''deceased'' = ''deceased''" by code_simp+
  with assms show ?thesis by (auto simp: is_living_def member_ok_def dead_def label_or_def FamilyMemberLifeStatus_def)
qed

lemma city_ok_rows:
  assumes "city_ok u db"
  shows "distinct (map fa_id (families db))" "distinct (map fm_id (members db))" "lineage_ok (members db)"
    "m \<in> set (members db) \<Longrightarrow> member_ok m \<and> fm_family_id m \<in> fa_id ` set (families db)"
    "f \<in> set (families db) \<Longrightarrow> length (filter (living_parent (fa_id f)) (members db)) = 1"
  using assms by (auto simp: city_ok_def pop_ok_def)

lemma family_members_rows: "m \<in> set (family_members db f) \<longleftrightarrow> m \<in> set (members db) \<and> fm_family_id m = f"
  by (auto simp: family_members_def)

lemma living_members_listed:
  assumes "city_ok u db"
  shows "living_members (members_of (listed env db f)) =
    map (\<lambda>m. mv_member (serialize_member env db m)) (filter (\<lambda>m. \<not> dead m) (family_members db (fa_id f)))"
proof -
  have "filter (\<lambda>m. is_living (mv_member (serialize_member env db m))) (family_members db (fa_id f)) =
      filter (\<lambda>m. \<not> dead m) (family_members db (fa_id f))"
    using living_not_dead city_ok_rows(4) [OF assms] by (intro filter_cong) (auto simp: family_members_rows)
  then show ?thesis by (simp add: living_members_def members_of_def filter_map comp_def)
qed

section \<open>The memorial\<close>

lemma memorial_family_take:
  assumes "int (length entries) < limit"
  shows "memorial_family limit fv ms entries =
    take (nat limit) (entries @ map (memorial_entry_of fv) (filter (\<lambda>m. is_deceased (mv_member m)) ms))"
  using assms
proof (induction ms arbitrary: entries)
  case (Cons m ms)
  show ?case
  proof (cases "is_deceased (mv_member m)")
    case True
    show ?thesis
    proof (cases "limit \<le> int (length (entries @ [memorial_entry_of fv m]))")
      case full: True
      then have "nat limit = length (entries @ [memorial_entry_of fv m])" using Cons.prems by simp
      then show ?thesis using True full by simp
    next
      case False
      with True Cons.IH [of "entries @ [memorial_entry_of fv m]"] show ?thesis by (simp add: Let_def)
    qed
  next
    case False
    with Cons show ?thesis by simp
  qed
qed simp

lemma memorial_loop_take:
  assumes "int (length entries) < limit"
  shows "memorial_loop limit fvs entries = take (nat limit) (entries @ concat (map (\<lambda>fv.
    map (memorial_entry_of fv) (filter (\<lambda>m. is_deceased (mv_member m)) (fv_members fv))) fvs))"
  using assms
proof (induction fvs arbitrary: entries)
  case (Cons fv fvs)
  let ?new = "entries @ map (memorial_entry_of fv) (filter (\<lambda>m. is_deceased (mv_member m)) (fv_members fv))"
  have f: "memorial_family limit fv (fv_members fv) entries = take (nat limit) ?new"
    by (rule memorial_family_take [OF Cons.prems])
  show ?case
  proof (cases "limit \<le> int (length (take (nat limit) ?new))")
    case True
    then have "nat limit \<le> length ?new" by simp
    with True show ?thesis by (simp add: f Let_def)
  next
    case False
    then have "int (length ?new) < limit" by simp
    then have "take (nat limit) ?new = ?new" by simp
    with False Cons.IH [of ?new] \<open>int (length ?new) < limit\<close> show ?thesis by (simp add: f Let_def)
  qed
qed simp

lemma one_heir:
  assumes "city_ok u db" "d \<in> set (members db)" "dead d"
  shows "\<exists>h. filter (\<lambda>h. fm_successor_of_id h = Some (fm_id d)) (family_members db (fm_family_id d)) = [h] \<and>
    fm_generation h = fm_generation d + 1"
proof -
  let ?ms = "members db"
  note l = city_ok_rows(3) [OF assms(1)]
  have "fm_id d \<in> set (successors ?ms)" using l assms(2,3) by (auto simp: lineage_ok_def)
  then obtain h where h: "h \<in> set ?ms" "fm_successor_of_id h = Some (fm_id d)"
    by (auto simp: successors_def map_filter_def split: option.splits if_splits)
  then obtain d' where d': "d' \<in> set ?ms" "succeeds_to h d'" using l by (auto simp: lineage_ok_def)
  then have "fm_id d' = fm_id d" using h by (simp add: succeeds_to_def)
  then have "d' = d" using d'(1) assms(2) city_ok_rows(2) [OF assms(1)] by (auto simp: distinct_map dest: inj_onD)
  then have st: "fm_family_id h = fm_family_id d" "fm_generation h = fm_generation d + 1"
    using d'(2) by (auto simp: succeeds_to_def)
  have one: "filter (\<lambda>h. fm_successor_of_id h = Some i) ms = [h]"
    if "distinct (successors ms)" "h \<in> set ms" "fm_successor_of_id h = Some i" for ms h i
    using that
  proof (induction ms)
    case (Cons a ms)
    have none: "filter (\<lambda>h. fm_successor_of_id h = Some i) ms = []" if "i \<notin> set (successors ms)" for ms
      using that by (auto simp: filter_empty_conv successors_def map_filter_def split: option.splits if_splits) force
    show ?case using Cons none [of ms] by (auto simp: successors_def map_filter_def split: option.splits if_splits)
  qed simp
  have "filter (\<lambda>h. fm_successor_of_id h = Some (fm_id d)) (family_members db (fm_family_id d)) =
      filter (\<lambda>h. fm_family_id h = fm_family_id d) (filter (\<lambda>h. fm_successor_of_id h = Some (fm_id d)) ?ms)"
    by (simp add: family_members_def conj_commute)
  also have "\<dots> = [h]" using one [of ?ms h] h l st by (simp add: lineage_ok_def)
  finally show ?thesis using st by blast
qed

lemma entry_has_heir:
  assumes "city_ok u db" "m \<in> set (family_members db (fa_id f))" "dead m"
  shows "\<exists>h. me_heirs (memorial_entry_of (listed env db f) (serialize_member env db m)) = [h] \<and>
    he_generation h = me_generation (memorial_entry_of (listed env db f) (serialize_member env db m)) + 1"
proof -
  have m: "m \<in> set (members db)" "fm_family_id m = fa_id f" using assms(2) by (auto simp: family_members_rows)
  obtain h where h: "filter (\<lambda>h. fm_successor_of_id h = Some (fm_id m)) (family_members db (fa_id f)) = [h]"
    "fm_generation h = fm_generation m + 1" using one_heir [OF assms(1) m(1) assms(3)] m(2) by auto
  then show ?thesis by (simp add: memorial_entry_of_def filter_map comp_def heir_of_def)
qed

text \<open>The dead of a family, as the memorial lists them.\<close>

definition mourned :: "city_env \<Rightarrow> city_db \<Rightarrow> memorial_entry list" where
  "mourned env db = concat (map (\<lambda>f. map (\<lambda>m. memorial_entry_of (listed env db f) (serialize_member env db m))
     (filter dead (family_members db (fa_id f)))) (list_families db))"

text \<open>
  The memorial of a consistent city lists the dead of its families in order, as many as asked for,
  and names for each of them exactly one heir, one generation on.
\<close>

theorem memorial_names_heirs:
  assumes "city_ok u db" "0 < limit"
  shows "mo_entries (city_memorial env limit db) = take (nat limit) (mourned env db) \<and>
    list_all (\<lambda>e. \<exists>h. me_heirs e = [h] \<and> he_generation h = me_generation e + 1) (mo_entries (city_memorial env limit db))"
proof -
  have "mo_entries (city_memorial env limit db) = take (nat limit) (mourned env db)"
    using assms(2)
    by (simp add: city_memorial_def family_details_listed [OF city_ok_rows(1) [OF assms(1)]] memorial_loop_take
        mourned_def filter_map comp_def)
  moreover have "\<exists>h. me_heirs e = [h] \<and> he_generation h = me_generation e + 1" if "e \<in> set (mourned env db)" for e
    using that entry_has_heir [OF assms(1)] by (auto simp: mourned_def)
  ultimately show ?thesis by (auto simp: list_all_iff dest: in_set_takeD)
qed

section \<open>The reports agree\<close>

lemma length_concat_map: "length (concat (map f xs)) = sum_list (map (\<lambda>x. length (f x)) xs)"
  by (simp add: length_concat comp_def)

lemma eco_counts:
  assumes "city_ok u db"
  shows "eco_living (family_ecosystem env db (listed env db f)) = length (filter (\<lambda>m. \<not> dead m) (family_members db (fa_id f)))"
    "eco_deceased (family_ecosystem env db (listed env db f)) = length (filter dead (family_members db (fa_id f)))"
proof -
  show "eco_living (family_ecosystem env db (listed env db f)) = length (filter (\<lambda>m. \<not> dead m) (family_members db (fa_id f)))"
    using living_members_listed [OF assms, of env f] by (simp add: family_ecosystem_def Let_def)
  show "eco_deceased (family_ecosystem env db (listed env db f)) = length (filter dead (family_members db (fa_id f)))"
    by (simp add: family_ecosystem_def Let_def members_of_def filter_map comp_def)
qed

lemma successor_count:
  assumes "city_ok u db"
  shows "length (filter (\<lambda>m. fm_successor_of_id m \<noteq> None) (family_members db f)) = length (filter dead (family_members db f))"
proof -
  let ?heirs = "filter (\<lambda>m. fm_successor_of_id m \<noteq> None) (family_members db f)" and ?dead = "filter dead (family_members db f)"
  note rows = city_ok_rows [OF assms]
  have inj: "inj_on (\<lambda>m. the (fm_successor_of_id m)) (set ?heirs)"
  proof (rule inj_onI)
    fix a b assume ab: "a \<in> set ?heirs" "b \<in> set ?heirs" "the (fm_successor_of_id a) = the (fm_successor_of_id b)"
    then obtain d where d: "d \<in> set (members db)" "succeeds_to a d" "fm_successor_of_id b = Some (fm_id d)"
      using rows(3) by (fastforce simp: lineage_ok_def family_members_rows succeeds_to_def)
    then have "dead d" "fm_family_id d = f" using ab(1) by (auto simp: succeeds_to_def family_members_rows)
    then obtain h where "filter (\<lambda>h. fm_successor_of_id h = Some (fm_id d)) (family_members db f) = [h]"
      using one_heir [OF assms d(1)] by auto
    then have "{x \<in> set (family_members db f). fm_successor_of_id x = Some (fm_id d)} = {h}"
      by (metis set_filter empty_set list.simps(15))
    moreover have "a \<in> {x \<in> set (family_members db f). fm_successor_of_id x = Some (fm_id d)}"
      "b \<in> {x \<in> set (family_members db f). fm_successor_of_id x = Some (fm_id d)}"
      using ab d by (auto simp: succeeds_to_def)
    ultimately show "a = b" by (simp only: singleton_iff)
  qed
  have img: "(\<lambda>m. the (fm_successor_of_id m)) ` set ?heirs = fm_id ` set ?dead"
  proof (intro equalityI subsetI)
    fix i assume "i \<in> (\<lambda>m. the (fm_successor_of_id m)) ` set ?heirs"
    then obtain a d where "a \<in> set ?heirs" "i = the (fm_successor_of_id a)" "d \<in> set (members db)" "succeeds_to a d"
      using rows(3) by (fastforce simp: lineage_ok_def family_members_rows)
    then show "i \<in> fm_id ` set ?dead" by (auto simp: succeeds_to_def family_members_rows)
  next
    fix i assume "i \<in> fm_id ` set ?dead"
    then obtain d where d: "i = fm_id d" "d \<in> set (members db)" "dead d" "fm_family_id d = f" by (auto simp: family_members_rows)
    then obtain h where "filter (\<lambda>h. fm_successor_of_id h = Some i) (family_members db f) = [h]"
      using one_heir [OF assms d(2,3)] by auto
    then have "h \<in> set (filter (\<lambda>h. fm_successor_of_id h = Some i) (family_members db f))" by simp
    then show "i \<in> (\<lambda>m. the (fm_successor_of_id m)) ` set ?heirs" by (force simp: image_iff)
  qed
  have dist: "distinct (family_members db f)" "inj_on fm_id (set (family_members db f))"
    using rows(2) by (auto simp: family_members_def distinct_map intro: inj_on_subset)
  have "length ?heirs = card (set ?heirs)" "length ?dead = card (set ?dead)"
    using dist(1) by (metis distinct_card distinct_filter)+
  moreover have "card (set ?heirs) = card (set ?dead)"
    using card_image [OF inj] img card_image [of fm_id "set ?dead"] dist(2) by (simp add: inj_on_subset)
  ultimately show ?thesis by simp
qed

lemma living_family:
  assumes "city_ok u db" "f \<in> set (list_families db)"
  shows "0 < length (filter (\<lambda>m. \<not> dead m) (family_members db (fa_id f)))"
proof -
  have "length (filter (living_parent (fa_id f)) (members db)) = 1"
    using city_ok_rows(5) [OF assms(1)] assms(2) set_list_families by blast
  then obtain p where "p \<in> set (filter (living_parent (fa_id f)) (members db))"
    by (metis length_0_conv list.set_intros(1) neq_Nil_conv zero_neq_one)
  then show ?thesis by (auto simp: living_parent_def filter_empty_conv family_members_rows)
qed

lemma cohorts_members: "sum_list (map (\<lambda>(g, b). cb_members b) (cohorts_of ms)) = length ms"
proof -
  have step: "sum_list (map (\<lambda>(g, b). cb_members b) (dset k (cohort_add m (dget_or d k cohort_empty)) d)) =
      Suc (sum_list (map (\<lambda>(g, b). cb_members b) d))" for k m and d :: "(int, cohort) dict"
    by (induction d) (auto simp: dget_or_def dget_def cohort_add_def cohort_empty_def Let_def)
  have "sum_list (map (\<lambda>(g, b). cb_members b)
      (fold (\<lambda>m d. dset (m_generation m) (cohort_add m (dget_or d (m_generation m) cohort_empty)) d) ms d)) =
      sum_list (map (\<lambda>(g, b). cb_members b) d) + length ms" for d
    by (induction ms arbitrary: d) (auto simp: step)
  then show ?thesis by (simp add: cohorts_of_def)
qed

lemma sum_list_sort: "sum_list (map f (sort_key k xs)) = (sum_list (map f xs) :: nat)"
  by (metis mset_map mset_sort sum_mset_sum_list)

lemma members_of_generation: "gn_members (generation_of gb) = cb_members (snd gb)"
  by (simp add: generation_of_def Let_def split: prod.split)

text \<open>
  In a consistent city the reports agree: the living and the dead of the vitals are the agents of the
  snapshot, the cohorts of the generation report add up to them, there are as many legacy edges as
  dead, and the city is "alive" for the health probe and the heartbeat exactly when it has a family.
\<close>

theorem reports_agree:
  assumes "city_ok u db"
  shows "let city = er_city (city_ecosystem env n db); snap = city_snapshot env k db; gens = generation_report env proof db in
    vi_living city + vi_deceased city = sn_agent_count snap \<and>
    sum_list (map gn_members (gr_generations gens)) = sn_agent_count snap \<and>
    gr_legacy_edges gens = vi_deceased city \<and> vi_family_count city \<le> vi_living city \<and>
    (hl_status (city_health env depth db) = ''alive'' \<longleftrightarrow> list_families db \<noteq> []) \<and>
    (hb_alive (city_heartbeat env p db) \<longleftrightarrow> list_families db \<noteq> [])"
proof -
  let ?fs = "list_families db"
  define living where "living = sum_list (map (\<lambda>f. length (filter (\<lambda>m. \<not> dead m) (family_members db (fa_id f)))) ?fs)"
  define died where "died = sum_list (map (\<lambda>f. length (filter dead (family_members db (fa_id f)))) ?fs)"
  define every where "every = sum_list (map (\<lambda>f. length (family_members db (fa_id f))) ?fs)"
  note det = family_details_listed [OF city_ok_rows(1) [OF assms]]
  have city: "vi_living (er_city (city_ecosystem env n db)) = living" "vi_deceased (er_city (city_ecosystem env n db)) = died"
    "vi_family_count (er_city (city_ecosystem env n db)) = length ?fs" for n
    by (simp_all add: city_ecosystem_def Let_def det comp_def eco_counts [OF assms] living_def died_def)
  have snap: "sn_agent_count (city_snapshot env k db) = every" for k
    by (simp add: city_snapshot_def Let_def det comp_def every_def)
  have "living + died = every"
    unfolding living_def died_def every_def sum_list_addf [symmetric] by (simp add: add.commute sum_length_filter_compl)
  moreover have "sum_list (map gn_members (gr_generations (generation_report env proof db))) = every"
    using cohorts_members [of "concat (map members_of (family_details env db))"]
    by (simp add: generation_report_def Let_def comp_def members_of_generation sum_list_sort case_prod_unfold
        det length_concat_map members_of_def every_def)
  moreover have "gr_legacy_edges (generation_report env proof db) = died"
    by (simp add: generation_report_def Let_def det filter_concat length_concat_map comp_def filter_map
        successor_count [OF assms] died_def del: not_None_eq)
  moreover have "length ?fs \<le> living"
  proof -
    have "(\<Sum>f \<leftarrow> ?fs. 1) \<le> living" unfolding living_def using living_family [OF assms] by (intro sum_list_mono) (simp add: Suc_leI)
    then show ?thesis by (simp add: sum_list_triv)
  qed
  moreover have "0 < living \<longleftrightarrow> ?fs \<noteq> []" using \<open>length ?fs \<le> living\<close> by (cases ?fs) (auto simp: living_def)
  moreover have "?fs = [] \<Longrightarrow> every = 0" by (simp add: every_def)
  ultimately show ?thesis
    by (auto simp: Let_def city snap city_health_def city_heartbeat_def)
qed

section \<open>The exported graph\<close>

lemma find_mem: "find P xs = Some x \<Longrightarrow> x \<in> set xs"
  by (auto simp: find_Some_iff)

lemma edge_endpoints:
  assumes "e \<in> set (edge_from fv m i kind)"
  shows "\<exists>x \<in> set (fv_members fv). ed_from e = fm_agent_id (mv_row x) \<and> ed_to e = fm_agent_id (mv_row m) \<and>
    ed_family_id e = fa_id (fv_row fv)"
proof -
  obtain j where j: "i = Some j" using assms by (cases i) (auto simp: edge_from_def)
  obtain x where x: "find (\<lambda>x. fm_id (mv_row x) = j) (fv_members fv) = Some x"
    using assms by (cases "find (\<lambda>x. fm_id (mv_row x) = j) (fv_members fv)") (auto simp: edge_from_def j)
  from find_mem [OF x] show ?thesis using assms by (intro bexI [of _ x]) (simp_all add: edge_from_def j x)
qed

lemma edge_found:
  assumes "x \<in> set (fv_members fv)" "fm_id (mv_row x) = i"
  shows "length (edge_from fv m (Some i) kind) = 1"
proof -
  have "find (\<lambda>x. fm_id (mv_row x) = i) (fv_members fv) \<noteq> None" using assms by (auto simp: find_None_iff)
  then show ?thesis by (auto simp: edge_from_def)
qed

lemma listed_edges:
  assumes "city_ok u db" "m \<in> set (family_members db (fa_id f))"
  shows "length (member_edges (listed env db f) (serialize_member env db m)) =
    (if fm_parent_member_id m = None then 0 else 1) + (if fm_successor_of_id m = None then 0 else 1)"
proof -
  have m: "m \<in> set (members db)" "fm_family_id m = fa_id f" using assms(2) by (auto simp: family_members_rows)
  have row: "length (edge_from (listed env db f) (serialize_member env db m) (Some i) kind) = 1"
    if "q \<in> set (members db)" "fm_id q = i" "fm_family_id q = fm_family_id m" for q i kind
    using that m(2) by (intro edge_found [of "serialize_member env db q"]) (auto simp: family_members_rows)
  have "length (edge_from (listed env db f) (serialize_member env db m) (fm_parent_member_id m) kind) =
      (if fm_parent_member_id m = None then 0 else 1)" for kind
  proof (cases "fm_parent_member_id m")
    case (Some p)
    with city_ok_rows(3) [OF assms(1)] m(1) obtain q where "q \<in> set (members db)" "fm_id q = p" "fm_family_id q = fm_family_id m"
      by (auto simp: lineage_ok_def)
    with row Some show ?thesis by auto
  qed (simp add: edge_from_def)
  moreover have "length (edge_from (listed env db f) (serialize_member env db m) (fm_successor_of_id m) kind) =
      (if fm_successor_of_id m = None then 0 else 1)" for kind
  proof (cases "fm_successor_of_id m")
    case (Some p)
    with city_ok_rows(3) [OF assms(1)] m(1) obtain d where "d \<in> set (members db)" "succeeds_to m d"
      by (auto simp: lineage_ok_def)
    with row [of d p] Some show ?thesis by (auto simp: succeeds_to_def)
  qed (simp add: edge_from_def)
  ultimately show ?thesis by (simp add: member_edges_def)
qed

text \<open>
  The graph of the exported pack is closed and complete in a consistent city: every edge joins two
  nodes of one family, and every member with a parent or a predecessor has its edge.
\<close>

theorem exported_graph_complete:
  assumes "city_ok u db" "export_austin_pack env str p prf n inc mx db = Inr pack"
  shows "list_all (\<lambda>e. \<exists>a b. a \<in> set (ap_nodes pack) \<and> b \<in> set (ap_nodes pack) \<and> nd_id a = ed_from e \<and> nd_id b = ed_to e \<and>
      nd_family_id a = ed_family_id e \<and> nd_family_id b = ed_family_id e) (ap_edges pack) \<and>
    length (ap_edges pack) = sum_list (map (\<lambda>f. sum_list (map (\<lambda>m.
      (if fm_parent_member_id m = None then 0 else 1) + (if fm_successor_of_id m = None then 0 else 1))
      (family_members db (fa_id f)))) (list_families db))"
proof -
  let ?fams = "map (listed env db) (list_families db)"
  have pack: "ap_nodes pack = graph_nodes ?fams" "ap_edges pack = graph_edges ?fams"
    using assms(2) family_details_listed [OF city_ok_rows(1) [OF assms(1)], of env]
    by (auto simp: export_austin_pack_def Let_def rbind_eq_Inr city_snapshot_def)
  have "\<exists>a b. a \<in> set (graph_nodes fams) \<and> b \<in> set (graph_nodes fams) \<and> nd_id a = ed_from e \<and> nd_id b = ed_to e \<and>
      nd_family_id a = ed_family_id e \<and> nd_family_id b = ed_family_id e" if e: "e \<in> set (graph_edges fams)" for e fams
  proof -
    from e obtain fv m where fm: "fv \<in> set fams" "m \<in> set (fv_members fv)" "e \<in> set (member_edges fv m)"
      by (auto simp: graph_edges_def)
    then obtain x where x: "x \<in> set (fv_members fv)" "ed_from e = fm_agent_id (mv_row x)" "ed_to e = fm_agent_id (mv_row m)"
      "ed_family_id e = fa_id (fv_row fv)"
      using edge_endpoints [of e fv m] by (auto simp: member_edges_def)
    have "graph_node_of fv x \<in> set (graph_nodes fams)" "graph_node_of fv m \<in> set (graph_nodes fams)"
      using fm x by (auto simp: graph_nodes_def)
    with x show ?thesis by (intro exI [of _ "graph_node_of fv x"] exI [of _ "graph_node_of fv m"]) (simp add: graph_node_of_def)
  qed
  moreover have "length (graph_edges ?fams) = sum_list (map (\<lambda>f. sum_list (map (\<lambda>m.
      (if fm_parent_member_id m = None then 0 else 1) + (if fm_successor_of_id m = None then 0 else 1))
      (family_members db (fa_id f)))) (list_families db))"
    unfolding graph_edges_def length_concat_map map_map comp_def
    by (intro arg_cong [where f = sum_list] map_cong refl)
       (simp add: length_concat_map comp_def listed_edges [OF assms(1)] cong: map_cong)
  ultimately show ?thesis unfolding pack list_all_iff by blast
qed

section \<open>Which past a chronicle shows\<close>

lemma sorted_take_earlier:
  assumes "sorted (map k xs)" "e \<in> set (take n xs)"
  shows "length (filter (\<lambda>x. k x < k e) xs) < n"
proof -
  obtain i where i: "i < length xs" "i < n" "xs ! i = e" using assms(2) by (auto simp: in_set_conv_nth)
  have "\<not> k x < k e" if "x \<in> set (drop i xs)" for x
    using that assms(1) i by (auto simp: in_set_conv_nth sorted_iff_nth_mono leD)
  then have "filter (\<lambda>x. k x < k e) (drop i xs) = []" by (simp add: filter_empty_conv)
  then have "length (filter (\<lambda>x. k x < k e) (take i xs @ drop i xs)) \<le> i"
    unfolding filter_append by (simp add: le_trans [OF length_filter_le])
  then show ?thesis using i(2) by simp
qed

lemma sorted_drop_later:
  assumes "sorted (map k xs)" "e \<in> set xs" "length (filter (\<lambda>x. k e \<le> k x) xs) \<le> n"
  shows "e \<in> set (drop (length xs - n) xs)"
proof (rule ccontr)
  assume no: "e \<notin> set (drop (length xs - n) xs)"
  obtain i where i: "i < length xs" "xs ! i = e" using assms(2) by (auto simp: in_set_conv_nth)
  have "i < length xs - n"
  proof (rule ccontr)
    assume "\<not> i < length xs - n"
    then have "e \<in> set (drop (length xs - n) xs)"
      using i nth_mem [of "i - (length xs - n)" "drop (length xs - n) xs"] by simp
    with no show False by simp
  qed
  have "filter (\<lambda>x. k e \<le> k x) (drop i xs) = drop i xs"
    using assms(1) i by (intro filter_True) (auto simp: in_set_conv_nth sorted_iff_nth_mono)
  then have "length xs - i \<le> length (filter (\<lambda>x. k e \<le> k x) (take i xs @ drop i xs))" unfolding filter_append by simp
  with assms(3) \<open>i < length xs - n\<close> show False by simp
qed

lemma set_last_n: "set (last_n n xs) \<subseteq> set xs"
  by (auto simp: last_n_def dest: in_set_dropD)

lemma length_filter_sort: "length (filter P (sort_key f xs)) = length (filter P xs)"
  by (simp add: filter_sort)

lemma recent_events: "events_list_recent n db = drop (length (events db) - n) (sort_key ev_created_at (rev (events db)))"
  by (simp add: events_list_recent_def sort_desc_def rev_take)

text \<open>
  The chronicle of the whole city shows its latest events: an event with at most \<open>limit\<close> events as late
  as itself is always in it. The chronicle of one family shows its earliest events instead: an event
  with \<open>limit\<close> earlier ones of the family (four times as many for life events) is never in it.
\<close>

theorem chronicle_window:
  assumes "e \<in> set (events db)"
  shows "(length (filter (\<lambda>x. ev_created_at e \<le> ev_created_at x) (events db)) \<le> limit \<longrightarrow>
      (\<exists>rows. chronicle_rows limit False None db = Inr rows \<and> e \<in> set rows)) \<and>
    (chronicle_rows limit life_only (Some f) db = Inr rows' \<and>
     (if life_only then limit * 4 else limit) \<le>
       length (filter (\<lambda>x. ev_created_at x < ev_created_at e) (filter (\<lambda>x. ev_family_id x = Some f) (events db))) \<longrightarrow>
      e \<notin> set rows')"
proof (intro conjI impI)
  let ?xs = "sort_key ev_created_at (rev (events db))"
  assume "length (filter (\<lambda>x. ev_created_at e \<le> ev_created_at x) (events db)) \<le> limit"
  then have "length (filter (\<lambda>x. ev_created_at e \<le> ev_created_at x) ?xs) \<le> limit"
    by (simp add: length_filter_sort rev_filter [symmetric])
  with sorted_drop_later [of ev_created_at ?xs e limit] assms
  have "e \<in> set (drop (length ?xs - limit) ?xs)" by (simp add: sorted_sort_key)
  then show "\<exists>rows. chronicle_rows limit False None db = Inr rows \<and> e \<in> set rows"
    by (auto simp: chronicle_rows_def recent_events last_n_def)
next
  let ?n = "if life_only then limit * 4 else limit"
  let ?xs = "sort_key ev_created_at (filter (\<lambda>x. ev_family_id x = Some f) (events db))"
  assume a: "chronicle_rows limit life_only (Some f) db = Inr rows' \<and>
    ?n \<le> length (filter (\<lambda>x. ev_created_at x < ev_created_at e) (filter (\<lambda>x. ev_family_id x = Some f) (events db)))"
  then have "set rows' \<subseteq> set (take ?n ?xs)"
    using set_last_n by (fastforce simp: chronicle_rows_def Let_def rbind_eq_Inr events_list_for_family_def split: if_splits)
  moreover have "e \<notin> set (take ?n ?xs)"
    using sorted_take_earlier [of ev_created_at ?xs e ?n] a by (auto simp: sorted_sort_key length_filter_sort)
  ultimately show "e \<notin> set rows'" by blast
qed

section \<open>A city with a past\<close>

lemma old_list: "list_families old_city = [sample_family]"
  by (simp add: list_families_def families_list_recent_def old_city_def young_city_def sort_desc_def sample_family_def)

lemma old_members: "family_members old_city (fa_id sample_family) = [buried sample_env founder, founder_heir]"
  by (simp add: family_members_def old_city_def sample_family_def founder_facts heir_facts buried_def)

lemma old_dead: "dead (buried sample_env founder)" "\<not> dead founder_heir"
  by (simp_all add: dead_def buried_def heir_facts(4) [unfolded dead_def])

theorem memorial_names_heirs_witness:
  "city_ok sample_uuid old_city \<and> length (mo_entries (city_memorial sample_env 5 old_city)) = 1 \<and>
   (\<exists>e h. mo_entries (city_memorial sample_env 5 old_city) = [e] \<and> me_heirs e = [h] \<and> he_generation h = me_generation e + 1)"
proof -
  have "length (mourned sample_env old_city) = 1" by (simp add: mourned_def old_list old_members old_dead)
  with memorial_names_heirs [OF old_city_ok, of 5 sample_env] old_city_ok show ?thesis
    by (cases "mourned sample_env old_city") auto
qed

theorem reports_agree_witness:
  "city_ok sample_uuid old_city \<and> gr_legacy_edges (generation_report sample_env None old_city) = vi_deceased (er_city (city_ecosystem sample_env 1 old_city)) \<and>
   hl_status (city_health sample_env 0 old_city) = ''alive''"
  using reports_agree [OF old_city_ok, of sample_env 1 1 None 0 "()"] old_city_ok by (simp add: Let_def old_list)

lemma export_succeeds: "\<exists>pack. export_austin_pack env str p prf n inc mx db = Inr pack"
  by (simp add: export_austin_pack_def city_chronicle_def chronicle_rows_def Let_def)

theorem exported_graph_complete_witness:
  "city_ok sample_uuid old_city \<and>
   (\<exists>pack. export_austin_pack sample_env (\<lambda>_. []) () None 9 True 9 old_city = Inr pack \<and> length (ap_edges pack) = 1)"
proof -
  obtain pack where p: "export_austin_pack sample_env (\<lambda>_. []) () None 9 True 9 old_city = Inr pack"
    using export_succeeds [of sample_env "\<lambda>_. []" "()" None 9 True 9 old_city] by auto
  have "fm_parent_member_id (buried sample_env founder) = None" "fm_successor_of_id (buried sample_env founder) = None"
    by (simp_all add: buried_def founder_facts)
  with exported_graph_complete [OF old_city_ok p] have "length (ap_edges pack) = 1"
    by (simp add: old_list old_members heir_facts)
  with p old_city_ok show ?thesis by auto
qed

definition long_past :: city_db where
  "long_past = old_city\<lparr>events := [(sample_event ''a'' 1)\<lparr>ev_family_id := Some ''i''\<rparr>, (sample_event ''b'' 2)\<lparr>ev_family_id := Some ''i''\<rparr>]\<rparr>"

theorem chronicle_window_witness:
  "\<exists>rows rows'. chronicle_rows 1 False None long_past = Inr rows \<and> chronicle_rows 1 False (Some ''i'') long_past = Inr rows' \<and>
     last (events long_past) \<in> set rows \<and> last (events long_past) \<notin> set rows'"
proof -
  have e: "last (events long_past) \<in> set (events long_past)" by (simp add: long_past_def)
  have n: "length (filter (\<lambda>x. ev_created_at (last (events long_past)) \<le> ev_created_at x) (events long_past)) \<le> 1"
    "(if False then 1 * 4 else 1 :: nat) \<le> length (filter (\<lambda>x. ev_created_at x < ev_created_at (last (events long_past)))
       (filter (\<lambda>x. ev_family_id x = Some ''i'') (events long_past)))"
    by (simp_all add: long_past_def sample_event_def)
  obtain rows' where r: "chronicle_rows 1 False (Some ''i'') long_past = Inr rows'"
    by (simp add: chronicle_rows_def Let_def long_past_def old_city_def young_city_def row_get_def sample_family_def)
  from chronicle_window [OF e, of 1 False "''i''" rows'] n r show ?thesis by blast
qed

end
