(* ===== verification/CityCommons.thy ===== *)
theory CityCommons
  imports CityJobs
begin

text \<open>
  What the commons of a job promise: the workspace as a map from paths to contents, numbered
  versions, the rows of runs, and the cohesion gate.
\<close>

section \<open>The workspace as a map\<close>

text \<open>The abstract workspace: what the latest version of each path of each job holds.\<close>

definition workspace :: "city_db \<Rightarrow> string \<times> string \<Rightarrow> string option option" where
  "workspace db jp = map_option wa_content (get_latest_by_path db (fst jp) (snd jp))"

lemma emit_event_rows [simp]:
  "families (emit_event env t f j p db) = families db" "members (emit_event env t f j p db) = members db"
  "jobs (emit_event env t f j p db) = jobs db" "artifacts (emit_event env t f j p db) = artifacts db"
  "runs (emit_event env t f j p db) = runs db"
  by (simp_all add: emit_event_def used_id_def)

lemma with_job_Inr: "with_job db jid f = Inr x \<longleftrightarrow> (\<exists>job. row_get cj_id (jobs db) jid = Some job \<and> f job = Inr x)"
  by (auto simp: with_job_def split: option.splits)

lemma path_versions_sorted: "sorted_wrt (\<lambda>a b. wa_version b \<le> wa_version a) (path_versions db jid path)"
  unfolding path_versions_def by (rule sorted_sort_desc)

lemma path_versions_le: "a \<in> set (path_versions db jid path) \<Longrightarrow> wa_version a \<le> latest_version db jid path"
  using path_versions_sorted [of db jid path] by (auto simp: latest_version_def split: list.splits)

lemma sort_desc_snoc_max:
  assumes "\<And>y. y \<in> set xs \<Longrightarrow> f y < f x"
  shows "sort_desc f (xs @ [x]) = x # sort_desc f xs"
proof -
  have "sort_key f (x # rev xs) = sort_key f (rev xs) @ [x]"
  proof -
    have "insort_key f x ys = ys @ [x]" if "\<forall>y \<in> set ys. f y < f x" for ys
      using that by (induction ys) auto
    moreover have "\<forall>y \<in> set (sort_key f (rev xs)). f y < f x" using assms by simp
    ultimately show ?thesis by (simp del: set_sort)
  qed
  then show ?thesis by (simp add: sort_desc_def)
qed

lemma record_artifact_effect:
  assumes "record_artifact env jid path content agent ctype meta db = Inr (db', row)"
  shows "artifacts db' = artifacts db @ [row]" "runs db' = runs db" "jobs db' = jobs db" "families db' = families db"
    "members db' = members db" "wa_job_id row = jid" "wa_path row = path" "wa_content row = content"
    "wa_version row = latest_version db jid path + 1"
  using assms by (auto simp: record_artifact_def with_job_Inr Let_def used_id_def)

lemma path_versions_record:
  assumes "record_artifact env jid path content agent ctype meta db = Inr (db', row)"
  shows "path_versions db' j p = (if j = jid \<and> p = path then row # path_versions db j p else path_versions db j p)"
proof (cases "j = jid \<and> p = path")
  case True
  note e = record_artifact_effect [OF assms]
  let ?old = "filter (\<lambda>a. wa_job_id a = jid \<and> wa_path a = path) (artifacts db)"
  have "wa_version y < wa_version row" if "y \<in> set ?old" for y
  proof -
    have "y \<in> set (path_versions db jid path)" using that unfolding path_versions_def by simp
    from path_versions_le [OF this] e(9) show ?thesis by simp
  qed
  from sort_desc_snoc_max [of ?old wa_version row, OF this] True e show ?thesis by (simp add: path_versions_def)
next
  case False
  then show ?thesis using record_artifact_effect [OF assms] by (auto simp: path_versions_def)
qed

text \<open>Recording an artifact is an update of the abstract workspace.\<close>

lemma record_artifact_refines:
  assumes "record_artifact env jid path content agent ctype meta db = Inr (db', row)"
  shows "workspace db' = (workspace db)((jid, wa_path row) \<mapsto> wa_content row)"
proof
  fix jp
  show "workspace db' jp = ((workspace db)((jid, wa_path row) \<mapsto> wa_content row)) jp"
    using record_artifact_effect(7) [OF assms]
    by (cases jp) (simp add: workspace_def get_latest_by_path_def path_versions_record [OF assms])
qed

lemma workspace_same: "artifacts db' = artifacts db \<Longrightarrow> workspace db' = workspace db"
  by (simp add: workspace_def fun_eq_iff get_latest_by_path_def path_versions_def)

section \<open>Runs\<close>

definition run_count :: "string \<Rightarrow> string \<Rightarrow> WorkspaceRunModel list \<Rightarrow> nat" where
  "run_count status jid rs = length (filter (\<lambda>r. wr_job_id r = jid \<and> wr_status r = status) rs)"

lemma run_count_append [simp]: "run_count st j (xs @ ys) = run_count st j xs + run_count st j ys"
  by (simp add: run_count_def)

definition balanced :: "WorkspaceRunModel list \<Rightarrow> bool" where
  "balanced rs \<longleftrightarrow> (\<forall>j. run_count ''succeeded'' j rs \<le> run_count ''running'' j rs)"

lemma balanced_append: "balanced xs \<Longrightarrow> balanced ys \<Longrightarrow> balanced (xs @ ys)"
  by (simp add: balanced_def add_mono)

lemma record_run_effect:
  assumes "record_run env jid tool args status out err ms agent refs db = Inr (db', row)"
  shows "runs db' = runs db @ [row]" "artifacts db' = artifacts db" "jobs db' = jobs db" "families db' = families db"
    "members db' = members db" "wr_job_id row = jid" "wr_status row = status"
  using assms by (auto simp: record_run_def with_job_Inr Let_def used_id_def split: if_splits)

text \<open>What a tool may do to the tables of the commons.\<close>

definition tool_effect :: "city_db \<Rightarrow> city_db \<Rightarrow> bool" where
  "tool_effect db db' \<longleftrightarrow> families db' = families db \<and> members db' = members db \<and> jobs db' = jobs db \<and>
     (\<exists>rs. runs db' = runs db @ rs \<and> balanced rs)"

lemma balanced_Nil [simp]: "balanced []"
  by (simp add: balanced_def run_count_def)

lemma tool_effect_refl [simp]: "tool_effect db db"
  by (auto simp: tool_effect_def balanced_def run_count_def intro!: exI [of _ "[]"])

lemma tool_effect_trans: "tool_effect a b \<Longrightarrow> tool_effect b c \<Longrightarrow> tool_effect a c"
  unfolding tool_effect_def by (metis append_assoc balanced_append)

lemma record_run_tool_effect:
  assumes "record_run env jid tool args status out err ms agent refs db = Inr (db', row)" "status \<noteq> ''succeeded''"
  shows "tool_effect db db' \<and> artifacts db' = artifacts db"
  using record_run_effect [OF assms(1)] assms(2)
  by (auto simp: tool_effect_def balanced_def run_count_def intro!: exI [of _ "[row]"])

lemma running_then_ended:
  assumes "record_run env jid tool args ''running'' out err ms agent refs db = Inr (db1, r1)"
    "record_run env jid tool' args' status out' err' ms' agent' refs' db1 = Inr (db2, r2)"
  shows "tool_effect db db2 \<and> artifacts db2 = artifacts db"
  using record_run_effect [OF assms(1)] record_run_effect [OF assms(2)]
  by (auto simp: tool_effect_def balanced_def run_count_def intro!: exI [of _ "[r1, r2]"])

lemma run_source_effect:
  assumes "run_source env te jid agent args source filename by_path db = (db', out)"
  shows "tool_effect db db' \<and> artifacts db' = artifacts db"
  using assms unfolding run_source_def
  by (auto simp: Let_def split: sum.splits prod.splits pyexc.splits
      dest: running_then_ended record_run_tool_effect)

lemma run_python_effect:
  assumes "run_python env te jid agent args db = (db', out)"
  shows "tool_effect db db' \<and> artifacts db' = artifacts db"
  using assms unfolding run_python_def
  by (auto split: sum.splits prod.splits option.splits if_splits
      dest: run_source_effect record_run_tool_effect)

lemma workspace_write_cases:
  assumes "workspace_write env te jid agent args db = (db', out)"
  obtains "db' = db" "\<not> (\<exists>row. out = Inr (Written row))"
  | path c ct meta row where "record_artifact env jid path c agent ct meta db = Inr (db', row)" "out = Inr (Written row)"
  using assms unfolding workspace_write_def by (auto split: option.splits sum.splits if_splits prod.splits)

lemma emit_viz_event_effect:
  assumes "emit_viz_event env te jid agent args db = (db', out)"
  shows "tool_effect db db' \<and> artifacts db' = artifacts db"
  using assms unfolding emit_viz_event_def
  by (auto simp: Let_def tool_effect_def balanced_def run_count_def split: option.splits if_splits)

lemma workspace_read_effect:
  assumes "workspace_read te jid args db = (db', out)"
  shows "db' = db \<and> (case out of Inr (ReadBack path a) \<Rightarrow> map_option wa_content a = workspace db (jid, path) | _ \<Rightarrow> True)"
  using assms unfolding workspace_read_def get_artifact_by_path_def with_job_def rbind_def
  by (auto simp: workspace_def split: option.splits sum.splits)

lemma other_tools_unwritten:
  "run_python env te jid agent args db = (db', out) \<Longrightarrow> \<not> (\<exists>row. out = Inr (Written row)) \<and> \<not> (\<exists>p a. out = Inr (ReadBack p a))"
  "emit_viz_event env te jid agent args db = (db', out) \<Longrightarrow> \<not> (\<exists>row. out = Inr (Written row)) \<and> \<not> (\<exists>p a. out = Inr (ReadBack p a))"
  "workspace_list te jid args db = (db', out) \<Longrightarrow> db' = db \<and> \<not> (\<exists>row. out = Inr (Written row)) \<and> \<not> (\<exists>p a. out = Inr (ReadBack p a))"
  "workspace_write env te jid agent args db = (db', out) \<Longrightarrow> \<not> (\<exists>p a. out = Inr (ReadBack p a))"
  "workspace_read te jid args db = (db', out) \<Longrightarrow> \<not> (\<exists>row. out = Inr (Written row))"
  by (auto simp: run_python_def run_source_def emit_viz_event_def workspace_list_def workspace_write_def workspace_read_def
      Let_def rbind_eq_Inr split: option.splits sum.splits if_splits prod.splits pyexc.splits)

definition writes :: "string \<Rightarrow> pyexc + tool_result \<Rightarrow> (string \<times> string \<Rightarrow> string option option) \<Rightarrow> string \<times> string \<Rightarrow> string option option" where
  "writes jid out w = (case out of Inr (Written row) \<Rightarrow> w((jid, wa_path row) \<mapsto> wa_content row) | _ \<Rightarrow> w)"

lemma writes_none: "\<not> (\<exists>row. out = Inr (Written row)) \<Longrightarrow> writes jid out w = w"
  by (auto simp: writes_def split: sum.split tool_result.split)

lemma city_tool_cases:
  assumes "city_tool env te jid agent name args db = (db', out)"
  obtains (wr) "workspace_write env te jid agent args db = (db', out)"
  | (rd) "workspace_read te jid args db = (db', out)"
  | (ls) "workspace_list te jid args db = (db', out)"
  | (run) "run_python env te jid agent args db = (db', out)"
  | (viz) "emit_viz_event env te jid agent args db = (db', out)"
  | (other) "db' = db" "\<not> (\<exists>row. out = Inr (Written row))" "\<not> (\<exists>p a. out = Inr (ReadBack p a))"
  using assms unfolding city_tool_def by (auto simp: rbind_eq_Inr split: if_splits option.splits)

lemma city_tool_refines:
  assumes "city_tool env te jid agent name args db = (db', out)"
  shows "workspace db' = writes jid out (workspace db)"
  using assms
proof (cases rule: city_tool_cases)
  case wr
  then show ?thesis
    by (cases rule: workspace_write_cases) (simp_all add: writes_none record_artifact_refines, simp add: writes_def)
next
  case rd
  then show ?thesis using workspace_read_effect [OF rd] other_tools_unwritten(5) [OF rd] by (simp add: writes_none)
next
  case ls
  then show ?thesis using other_tools_unwritten(3) [OF ls] by (simp add: writes_none)
next
  case run
  then show ?thesis using run_python_effect [OF run] other_tools_unwritten(1) [OF run] by (simp add: writes_none workspace_same [of db' db])
next
  case viz
  then show ?thesis using emit_viz_event_effect [OF viz] other_tools_unwritten(2) [OF viz] by (simp add: writes_none workspace_same [of db' db])
qed (simp add: writes_none)

lemma city_tool_reads:
  assumes "city_tool env te jid agent name args db = (db', Inr (ReadBack path a))"
  shows "map_option wa_content a = workspace db (jid, path)"
  using assms
  by (cases rule: city_tool_cases) (auto dest: workspace_read_effect other_tools_unwritten)

text \<open>
  C3. The versioned artifact table implements a map from paths to contents. Whatever tool is called
  with whatever arguments, a write that succeeds updates the map at the sanitised path and nowhere
  else, every other call leaves it alone, failing ones included, and a read returns the map's value.
\<close>

theorem tools_refine_workspace:
  "case city_tool env te jid agent name args db of (db', out) \<Rightarrow>
     workspace db' = (case out of Inr (Written row) \<Rightarrow> (workspace db)((jid, wa_path row) \<mapsto> wa_content row) | _ \<Rightarrow> workspace db) \<and>
     (case out of Inr (ReadBack path a) \<Rightarrow> map_option wa_content a = workspace db (jid, path) | _ \<Rightarrow> True)"
proof (cases "city_tool env te jid agent name args db")
  case (Pair db' out)
  from city_tool_refines [OF Pair] have "workspace db' = writes jid out (workspace db)" .
  moreover have "case out of Inr (ReadBack path a) \<Rightarrow> map_option wa_content a = workspace db (jid, path) | _ \<Rightarrow> True"
    using city_tool_reads Pair by (auto split: sum.split tool_result.split)
  ultimately show ?thesis using Pair by (simp add: writes_def)
qed

section \<open>The commons as a system\<close>

text \<open>
  The invariant of the commons: the versions of a path of a job, newest first, are \<open>n, \<dots>, 2, 1\<close>, and
  at least as many rows of runs of a job say "running" as say "succeeded".
\<close>

definition numbered :: "city_db \<Rightarrow> bool" where
  "numbered db \<longleftrightarrow> (\<forall>j p. map wa_version (path_versions db j p) = rev (map int [1..<Suc (length (path_versions db j p))]))"

definition commons_ok :: "city_db \<Rightarrow> bool" where
  "commons_ok db \<longleftrightarrow> numbered db \<and> balanced (runs db)"

lemma numbered_same: "artifacts db' = artifacts db \<Longrightarrow> numbered db \<Longrightarrow> numbered db'"
  by (simp add: numbered_def path_versions_def)

lemma latest_version_numbered:
  assumes "numbered db"
  shows "latest_version db j p = int (length (path_versions db j p))"
proof (cases "path_versions db j p")
  case (Cons a as)
  have "map wa_version (path_versions db j p) = rev (map int [1..<Suc (length (path_versions db j p))])"
    using assms by (simp add: numbered_def)
  with Cons show ?thesis by (simp add: latest_version_def)
qed (simp add: latest_version_def)

lemma numbered_record:
  assumes "numbered db" "record_artifact env jid path content agent ctype meta db = Inr (db', row)"
  shows "numbered db'"
  using assms(1) record_artifact_effect(9) [OF assms(2)] latest_version_numbered [OF assms(1)]
  by (simp add: numbered_def path_versions_record [OF assms(2)])

lemma tool_effect_balanced: "tool_effect db db' \<Longrightarrow> balanced (runs db) \<Longrightarrow> balanced (runs db')"
  by (auto simp: tool_effect_def balanced_append)

lemma city_tool_effect:
  assumes "city_tool env te jid agent name args db = (db', out)"
  shows "tool_effect db db' \<and> (numbered db \<longrightarrow> numbered db')"
  using assms
proof (cases rule: city_tool_cases)
  case wr
  then show ?thesis
  proof (cases rule: workspace_write_cases)
    case (2 path c ct meta row)
    have "tool_effect db db'"
      using record_artifact_effect [OF 2(1)] tool_effect_refl [of db] by (simp add: tool_effect_def)
    with numbered_record [OF _ 2(1)] show ?thesis by blast
  qed simp
next
  case rd
  then show ?thesis using workspace_read_effect [OF rd] by simp
next
  case ls
  then show ?thesis using other_tools_unwritten(3) [OF ls] by simp
next
  case run
  then show ?thesis using run_python_effect [OF run] numbered_same by blast
next
  case viz
  then show ?thesis using emit_viz_event_effect [OF viz] numbered_same by blast
qed simp

lemma run_calls_effect:
  "run_calls env te jid agent calls db = (db', reports) \<Longrightarrow> tool_effect db db' \<and> (numbered db \<longrightarrow> numbered db')"
proof (induction calls arbitrary: db db' reports)
  case (Cons call calls)
  obtain name args where call: "call = (name, args)" by fastforce
  obtain db1 out where one: "city_tool env te jid agent name args db = (db1, out)" by fastforce
  obtain db2 rs where rest: "run_calls env te jid agent calls db1 = (db2, rs)" by fastforce
  have "db' = db2" using Cons.prems call one rest by (simp add: Let_def)
  then show ?case using Cons.IH [OF rest] city_tool_effect [OF one] tool_effect_trans by blast
qed simp

lemma execute_tool_calls_effect:
  assumes "execute_tool_calls env te jid calls agent db = Inr (db', v)"
  shows "families db' = families db" "members db' = members db" "jobs db' = row_set cj_id jid (mark_running env) (jobs db)"
    "balanced (runs db) \<Longrightarrow> balanced (runs db')" "numbered db \<Longrightarrow> numbered db'"
proof -
  let ?db = "db\<lparr>jobs := row_set cj_id jid (mark_running env) (jobs db)\<rparr>"
  obtain db1 reports where r: "run_calls env te jid agent (concat (map (normalize_call te) calls)) ?db = (db1, reports)"
    by fastforce
  moreover have "db1 = db'" using assms r by (auto simp: execute_tool_calls_def with_job_Inr)
  ultimately have "run_calls env te jid agent (concat (map (normalize_call te) calls)) ?db = (db', reports)" by simp
  from run_calls_effect [OF this] have e: "tool_effect ?db db'" "numbered ?db \<Longrightarrow> numbered db'" by blast+
  show "families db' = families db" "members db' = members db" "jobs db' = row_set cj_id jid (mark_running env) (jobs db)"
    using e(1) by (simp_all add: tool_effect_def)
  show "balanced (runs db) \<Longrightarrow> balanced (runs db')" using tool_effect_balanced [OF e(1)] by simp
  show "numbered db \<Longrightarrow> numbered db'" using e(2) numbered_same [of ?db db] by simp
qed

lemma set_job_status_effect:
  assumes "set_job_status env jid status summary result db = Inr (db', job')"
  shows "artifacts db' = artifacts db" "runs db' = runs db" "families db' = families db" "members db' = members db"
    "jobs db' = row_set cj_id jid (status_fields env status summary result) (jobs db)"
    "status \<in> set CityJobStatus"
  using assms by (auto simp: set_job_status_def with_job_Inr Let_def split: if_splits)

lemma start_job_effect:
  assumes "start_job env fid goal district team status db = Inr (db', job)"
  shows "artifacts db' = artifacts db" "runs db' = runs db"
  using assms by (auto simp: start_job_def Let_def used_id_def split: option.splits if_splits)

text \<open>Any step that leaves artifacts and runs alone, such as the operations on the population, keeps the invariant.\<close>

inductive commons_step :: "city_db \<Rightarrow> city_db \<Rightarrow> bool" where
  started: "start_job env fid goal district team status db = Inr (db', job) \<Longrightarrow> commons_step db db'"
| recorded: "record_artifact env jid path content agent ctype meta db = Inr (db', row) \<Longrightarrow> commons_step db db'"
| worked: "execute_tool_calls env te jid calls agent db = Inr (db', v) \<Longrightarrow> commons_step db db'"
| called: "city_tool env te jid agent name args db = (db', out) \<Longrightarrow> commons_step db db'"
| moved: "set_job_status env jid status summary result db = Inr (db', job) \<Longrightarrow> commons_step db db'"
| decided: "cohesion_decide env te jid action reason force db = Inr (db', d) \<Longrightarrow> commons_step db db'"
| elsewhere: "artifacts db' = artifacts db \<Longrightarrow> runs db' = runs db \<Longrightarrow> commons_step db db'"

lemma commons_ok_same: "artifacts db' = artifacts db \<Longrightarrow> runs db' = runs db \<Longrightarrow> commons_ok db \<Longrightarrow> commons_ok db'"
  using numbered_same by (auto simp: commons_ok_def)

lemma commons_ok_execute:
  "execute_tool_calls env te jid calls agent db = Inr (db', v) \<Longrightarrow> commons_ok db \<Longrightarrow> commons_ok db'"
  by (auto simp: commons_ok_def execute_tool_calls_effect)

lemma commons_ok_status:
  "set_job_status env jid status summary result db = Inr (db', job) \<Longrightarrow> commons_ok db \<Longrightarrow> commons_ok db'"
  by (rule commons_ok_same) (auto simp: set_job_status_effect)

text \<open>What a decision of the cohesion gate goes through.\<close>

lemma cohesion_decide_start:
  assumes "cohesion_decide env te jid action reason force db = Inr (db', d)"
  obtains job fv c where "row_get cj_id (jobs db) jid = Some job"
    "get_family env db (cj_family_id job) = Some fv" "cohesion_score db jid = Inr c"
    "dv_cohesion d = c" "dv_threshold d = cohesion_threshold (fa_policy (fv_row fv))" "dv_job d = get_job db' jid"
    "dv_decision d = ''merge'' \<and> (force \<or> dv_threshold d \<le> co_score c) \<and>
       cohesion_merge env te jid reason c (dv_threshold d) fv db = Inr db' \<or>
     dv_decision d = ''veto'' \<and> cohesion_veto env (cj_family_id job) jid reason c (dv_threshold d) fv db = Inr db'"
  using assms unfolding cohesion_decide_def
  by (auto simp: Let_def with_job_Inr rbind_eq_Inr not_less split: if_splits option.splits)

lemma cohesion_merge_Inr:
  assumes "cohesion_merge env te jid reason c threshold fv db = Inr db'"
  obtains calls agent db1 v summary job' where "execute_tool_calls env te jid calls agent db = Inr (db1, v)"
    "set_job_status env jid ''completed'' summary (Some (decision_result jid c ''merge'' threshold)) db1 = Inr (db', job')"
  using assms unfolding cohesion_merge_def by (auto simp: rbind_eq_Inr)

lemma cohesion_veto_Inr:
  assumes "cohesion_veto env fid jid reason c threshold fv db = Inr db'"
  obtains payload summary job' where "set_job_status env jid ''failed'' summary (Some (decision_result jid c ''veto'' threshold))
    (emit_event env ''cohesion.veto'' (Some fid) (Some jid) payload db) = Inr (db', job')"
  using assms unfolding cohesion_veto_def by (auto simp: rbind_eq_Inr)

lemma cohesion_decide_cases:
  assumes "cohesion_decide env te jid action reason force db = Inr (db', d)"
  obtains (merge) job fv calls agent db1 v summary job' where "row_get cj_id (jobs db) jid = Some job"
    "get_family env db (cj_family_id job) = Some fv" "cohesion_score db jid = Inr (dv_cohesion d)"
    "dv_decision d = ''merge''" "dv_threshold d = cohesion_threshold (fa_policy (fv_row fv))"
    "dv_job d = get_job db' jid" "force \<or> dv_threshold d \<le> co_score (dv_cohesion d)"
    "execute_tool_calls env te jid calls agent db = Inr (db1, v)"
    "set_job_status env jid ''completed'' summary
       (Some (decision_result jid (dv_cohesion d) ''merge'' (dv_threshold d))) db1 = Inr (db', job')"
  | (veto) job fv payload summary job' where "row_get cj_id (jobs db) jid = Some job"
    "get_family env db (cj_family_id job) = Some fv" "cohesion_score db jid = Inr (dv_cohesion d)"
    "dv_decision d = ''veto''" "dv_threshold d = cohesion_threshold (fa_policy (fv_row fv))"
    "dv_job d = get_job db' jid"
    "set_job_status env jid ''failed'' summary (Some (decision_result jid (dv_cohesion d) ''veto'' (dv_threshold d)))
       (emit_event env ''cohesion.veto'' (Some (cj_family_id job)) (Some jid) payload db) = Inr (db', job')"
proof -
  from assms show thesis
  proof (cases rule: cohesion_decide_start)
    case (1 job fv c)
    from 1(7) show thesis
    proof
      assume m: "dv_decision d = ''merge'' \<and> (force \<or> dv_threshold d \<le> co_score c) \<and>
        cohesion_merge env te jid reason c (dv_threshold d) fv db = Inr db'"
      then have "cohesion_merge env te jid reason c (dv_threshold d) fv db = Inr db'" by simp
      then show thesis by (rule cohesion_merge_Inr) (use m 1(1-6) merge in simp)
    next
      assume v: "dv_decision d = ''veto'' \<and> cohesion_veto env (cj_family_id job) jid reason c (dv_threshold d) fv db = Inr db'"
      then have "cohesion_veto env (cj_family_id job) jid reason c (dv_threshold d) fv db = Inr db'" by simp
      then show thesis by (rule cohesion_veto_Inr) (use v 1(1-6) veto in simp)
    qed
  qed
qed

lemma commons_ok_decide:
  assumes "cohesion_decide env te jid action reason force db = Inr (db', d)" "commons_ok db"
  shows "commons_ok db'"
  using assms(1)
proof (cases rule: cohesion_decide_cases)
  case (merge job fv calls agent db1 v summary job')
  then show ?thesis using commons_ok_execute commons_ok_status assms(2) by blast
next
  case (veto job fv payload summary job')
  show ?thesis using commons_ok_status [OF veto(7)] commons_ok_same [OF _ _ assms(2)] by simp
qed

interpretation commons: invariant_system commons_step "\<lambda>db. artifacts db = [] \<and> runs db = []" commons_ok
proof
  show "artifacts db = [] \<and> runs db = [] \<Longrightarrow> commons_ok db" for db
    by (simp add: commons_ok_def numbered_def path_versions_def sort_desc_def balanced_def run_count_def)
  show "commons_step db db' \<Longrightarrow> commons_ok db \<Longrightarrow> commons_ok db'" for db db'
  proof (induction rule: commons_step.cases)
    case (called env te jid agent name args db db' out)
    then show ?case using city_tool_effect tool_effect_balanced by (blast intro: commons_ok_def [THEN iffD2] dest: commons_ok_def [THEN iffD1])
  next
    case (recorded env jid path content agent ctype meta db db' row)
    then show ?case using numbered_record [OF _ recorded(3)] record_artifact_effect(2) [OF recorded(3)] by (simp add: commons_ok_def)
  qed (blast intro: commons_ok_decide commons_ok_execute commons_ok_status commons_ok_same start_job_effect)+
qed


section \<open>Cohesion\<close>

lemma sort_desc_filter: "filter P (sort_desc f xs) = sort_desc f (filter P xs)"
  by (simp add: sort_desc_def rev_filter [symmetric] filter_sort)

lemma length_filter_sort_desc: "length (filter P (sort_desc f xs)) = length (filter P xs)"
  by (simp add: sort_desc_filter)

lemma ratio_mono: "a \<le> a' \<Longrightarrow> ratio a b \<le> ratio a' b"
  by (simp add: ratio_def fdiv_mono)

lemma ratio_unit: "a \<le> b \<Longrightarrow> 0 \<le> ratio a b \<and> ratio a b \<le> 1"
  using fdiv_unit [of "of_nat a" "of_nat b"] by (auto simp: ratio_def)

lemma fl_half [simp]: "fl (1/2) = 1/2"
  by (rule fl_fixed [of _ 1 "-1"]) auto

lemma ratio_half: "2 * a \<le> b \<Longrightarrow> ratio a b \<le> 1/2"
proof -
  assume "2 * a \<le> b"
  then have "2 * (of_nat a :: rat) \<le> of_nat b" by (metis of_nat_le_iff of_nat_mult of_nat_numeral)
  then have "(of_nat a :: rat) / of_nat b \<le> 1/2" if "b \<noteq> 0" using that by (simp add: divide_le_eq)
  then show ?thesis using flr.le_fixed [OF fl_half] by (simp add: ratio_def fdiv_def)
qed

lemma card_participants: "finite A \<Longrightarrow> card (participants A xs \<union> participants A ys) \<le> card A"
  by (rule card_mono) (auto simp: participants_def)

lemma fl_weights:
  "fl (6/10) = 5404319552844595 / 2 ^ 53" "fl (4/10) = 3602879701896397 / 2 ^ 53"
proof -
  show "fl (6/10) = 5404319552844595 / 2 ^ 53"
    using fl_eq_frac [of 53 "6/10" 5404319552844595] by simp
  show "fl (4/10) = 3602879701896397 / 2 ^ 53"
    using fl_eq_frac [of 54 "4/10" 7205759403792794] by simp
qed

lemma half_of_weight: "fmul (fl (4/10)) (1/2) = 3602879701896397 / 2 ^ 54"
  unfolding fmul_def fl_weights using fl_eq_frac [of 55 "3602879701896397 / 2 ^ 54" 7205759403792794] by simp

lemma score_cap: "py_round 4 (fadd (fl (6/10)) (3602879701896397 / 2 ^ 54)) = fl (8/10)"
proof -
  have s: "fadd (fl (6/10)) (3602879701896397 / 2 ^ 54) = 7205759403792794 / 2 ^ 53"
    unfolding fadd_def fl_weights using fl_eq_frac [of 53 "14411518807585587 / 2 ^ 54" 7205759403792794] by simp
  have f: "\<lfloor>7205759403792794 / 2 ^ 53 * 10 ^ 4 :: rat\<rfloor> = 8000" by (simp add: floor_eq_iff)
  show ?thesis unfolding py_round_def rne_def Let_def s f by simp
qed

lemma fmul_fl_le: "0 \<le> w \<Longrightarrow> 0 \<le> x \<Longrightarrow> x \<le> 1 \<Longrightarrow> fmul (fl w) x \<le> fl w"
  using flr.prod_unit [of x "fl w"] by (simp add: fmul_def mult.commute fl_nonneg)

text \<open>The score and its parts as numbers, with what the family contributes as a ratio of at most 1.\<close>

lemma cohesion_of_bounds:
  fixes rns :: "WorkspaceRunModel list" and arts :: "WorkspaceArtifactModel list"
  assumes "finite A"
  defines "c \<equiv> cohesion_of A arts rns"
  shows "0 \<le> co_score c \<and> co_score c \<le> 1" "0 \<le> co_participation c \<and> co_participation c \<le> 1"
    "0 \<le> co_tool_success_rate c \<and> co_tool_success_rate c \<le> 1" "co_participants c \<le> co_family_size c"
proof -
  let ?ps = "participants A (map wa_created_by_agent_id arts) \<union> participants A (map wr_started_by_agent_id rns)"
  let ?p = "ratio (card ?ps) (card A)" and ?s = "ratio (length (filter (\<lambda>r. wr_status r = ''succeeded'') rns)) (length rns)"
  note le = card_participants [OF assms(1), of "map wa_created_by_agent_id arts" "map wr_started_by_agent_id rns"]
  have p: "0 \<le> ?p \<and> ?p \<le> 1" using ratio_unit [OF le] .
  have s: "0 \<le> ?s \<and> ?s \<le> 1" by (rule ratio_unit) simp
  have "fadd (fmul (fl (6/10)) ?p) (fmul (fl (4/10)) ?s) \<le> fadd (fl (6/10)) (fl (4/10))"
    using p s by (intro fadd_mono fmul_fl_le) auto
  also have "\<dots> = 1" unfolding fadd_def fl_weights by simp
  finally have "fadd (fmul (fl (6/10)) ?p) (fmul (fl (4/10)) ?s) \<le> 1" .
  moreover have "0 \<le> fadd (fmul (fl (6/10)) ?p) (fmul (fl (4/10)) ?s)" using p s by (simp add: fl_nonneg)
  ultimately show "0 \<le> co_score c \<and> co_score c \<le> 1" unfolding c_def cohesion_of_def Let_def by (simp add: py_round_unit)
  show "0 \<le> co_participation c \<and> co_participation c \<le> 1" "0 \<le> co_tool_success_rate c \<and> co_tool_success_rate c \<le> 1"
    unfolding c_def cohesion_of_def Let_def using p s by (simp_all add: py_round_unit)
  show "co_participants c \<le> co_family_size c" unfolding c_def cohesion_of_def Let_def using le by simp
qed

lemma cohesion_of_half:
  fixes rns :: "WorkspaceRunModel list"
  assumes "finite A" "2 * length (filter (\<lambda>r. wr_status r = ''succeeded'') rns) \<le> length rns"
  shows "co_tool_success_rate (cohesion_of A arts rns) \<le> 1/2" "co_score (cohesion_of A arts rns) \<le> fl (8/10)"
proof -
  let ?ps = "participants A (map wa_created_by_agent_id arts) \<union> participants A (map wr_started_by_agent_id rns)"
  let ?p = "ratio (card ?ps) (card A)" and ?s = "ratio (length (filter (\<lambda>r. wr_status r = ''succeeded'') rns)) (length rns)"
  have p: "0 \<le> ?p \<and> ?p \<le> 1" using ratio_unit [OF card_participants [OF assms(1)]] .
  have s: "0 \<le> ?s" "?s \<le> 1/2" using ratio_unit ratio_half [OF assms(2)] by auto
  have "py_round 4 (1/2) = 1/2" by (simp add: py_round_def rne_def)
  then show "co_tool_success_rate (cohesion_of A arts rns) \<le> 1/2"
    unfolding cohesion_of_def Let_def using py_round_mono [OF s(2), of 4] by simp
  have "fadd (fmul (fl (6/10)) ?p) (fmul (fl (4/10)) ?s) \<le> fadd (fl (6/10)) (fmul (fl (4/10)) (1/2))"
    using p s by (intro fadd_mono fmul_fl_le fmul_mono) (auto simp: fl_nonneg)
  from py_round_mono [OF this, of 4] show "co_score (cohesion_of A arts rns) \<le> fl (8/10)"
    unfolding cohesion_of_def Let_def half_of_weight score_cap cohesion.simps .
qed

lemma two_filters: "(\<And>x. P x \<Longrightarrow> \<not> Q x) \<Longrightarrow> length (filter P xs) + length (filter Q xs) \<le> length xs"
  by (induction xs) auto

lemma running_halves:
  assumes "balanced (runs db)" "length (filter (\<lambda>r. wr_job_id r = jid) (runs db)) \<le> 1000"
  shows "2 * length (filter (\<lambda>r. wr_status r = ''succeeded'') (runs_list_for_job 1000 db jid))
    \<le> length (runs_list_for_job 1000 db jid)"
proof -
  let ?rs = "filter (\<lambda>r. wr_job_id r = jid) (runs db)"
  have count: "run_count st jid (runs db) = length (filter (\<lambda>r. wr_status r = st) ?rs)" for st
    by (simp add: run_count_def conj_commute)
  have "length (filter (\<lambda>r. wr_status r = ''succeeded'') ?rs) + length (filter (\<lambda>r. wr_status r = ''running'') ?rs) \<le> length ?rs"
    by (rule two_filters) simp
  moreover have "length (filter (\<lambda>r. wr_status r = ''succeeded'') ?rs) \<le> length (filter (\<lambda>r. wr_status r = ''running'') ?rs)"
    using assms(1) unfolding balanced_def count [symmetric] by blast
  ultimately show ?thesis using assms(2) by (simp add: runs_list_for_job_def length_filter_sort_desc)
qed

text \<open>
  A run is never counted as a success without a row beside it that is not one: while a job has at
  most 1000 runs, its tool success rate is at most one half and its cohesion score at most 0.8, even
  when every program it ran succeeded.
\<close>

theorem success_rate_at_most_half:
  assumes "artifacts db0 = []" "runs db0 = []" "commons_step\<^sup>*\<^sup>* db0 db"
    and "length (filter (\<lambda>r. wr_job_id r = jid) (runs db)) \<le> 1000" "cohesion_score db jid = Inr c"
  shows "co_tool_success_rate c \<le> 1/2 \<and> co_score c \<le> fl (8/10)"
proof -
  have "balanced (runs db)" using commons.reachable_inv [of db0 db] assms by (simp add: commons_ok_def)
  note half = running_halves [OF this assms(4)]
  obtain A where "finite A" "c = cohesion_of A (artifacts_list_for_job 1000 db jid) (runs_list_for_job 1000 db jid)"
    using assms(5) by (auto simp: cohesion_score_def with_job_Inr)
  with cohesion_of_half [OF _ half] show ?thesis by blast
qed

lemma touched:
  "cj_id (if j = job then job else j\<lparr>cj_updated_at := t\<rparr>) = cj_id j"
  "cj_status (if j = job then job else j\<lparr>cj_updated_at := t\<rparr>) = cj_status j"
  "cj_result (if j = job then job else j\<lparr>cj_updated_at := t\<rparr>) = cj_result j"
  "cj_completed_at (if j = job then job else j\<lparr>cj_updated_at := t\<rparr>) = cj_completed_at j"
  by auto

lemma status_fields_simps [simp]:
  "cj_id (status_fields env st summary result job) = cj_id job"
  "cj_status (status_fields env st summary result job) = st"
  "cj_result (status_fields env st summary (Some r) job) = r"
  "cj_completed_at (status_fields env st summary result job) =
     (if st \<in> {''completed'', ''failed''} then Some (env_now env) else cj_completed_at job)"
  unfolding status_fields_def Let_def touched by simp_all

lemma mark_running_id [simp]: "cj_id (mark_running env job) = cj_id job"
  by (simp add: mark_running_def)

lemma cohesion_threshold_unit: "0 \<le> cohesion_threshold policy \<and> cohesion_threshold policy \<le> 1"
  using fl_mono [of "35/100" 1] by (auto simp: cohesion_threshold_def fl_nonneg split: sum.split)

lemma cohesion_score_bounds: "cohesion_score db jid = Inr c \<Longrightarrow> 0 \<le> co_score c \<and> co_score c \<le> 1"
  using cohesion_of_bounds(1) by (auto simp: cohesion_score_def with_job_Inr)


section \<open>A city at work\<close>

text \<open>A family of one, whose parent runs a program for the family's only job.\<close>

definition work_env :: city_env where
  "work_env = \<lparr> env_uuid = (\<lambda>n. replicate n (CHR ''u'')), env_digest = (\<lambda>_. ''fp''),
     env_tiers = \<lparr> mt_parent = ''big'', mt_child = ''small'' \<rparr>, env_now = 5, env_sum = Plain \<rparr>"

definition work_tools :: tool_env where
  "work_tools = \<lparr> te_str = (\<lambda>j. case j of JStr s \<Rightarrow> s | _ \<Rightarrow> ''None''), te_resolve = (\<lambda>p. p), te_tmp = [''tmp''],
     te_child = (\<lambda>fs script. Exited 0 ''ok'' []), te_elapsed = 3, te_parse = (\<lambda>_. []), te_team_tool = (\<lambda>_ _. Inr None) \<rparr>"

definition work_db :: city_db where
  "work_db = city_empty\<lparr>
     families := [\<lparr> fa_id = ''f'', fa_name = ''Ash'', fa_description = None, fa_default_district = ''build'',
       fa_policy = [], fa_is_active = True, fa_created_at = 0, fa_updated_at = 0 \<rparr>],
     members := [\<lparr> fm_id = ''m'', fm_family_id = ''f'', fm_agent_id = ''a'', fm_parent_member_id = None,
       fm_role_in_family = ''parent'', fm_role_label = None, fm_knob_overrides = [], fm_tool_tags = [''run''],
       fm_is_active = True, fm_generation = 0, fm_age_ticks = 0, fm_max_age_ticks = 40, fm_life_status = ''alive'',
       fm_goals = [], fm_dreams = [], fm_structured_thinking = 1/2, fm_growth = 0, fm_deceased_at = None,
       fm_successor_of_id = None, fm_legacy = None, fm_created_at = 0, fm_updated_at = 0 \<rparr>],
     jobs := [\<lparr> cj_id = ''j'', cj_family_id = ''f'', cj_goal = ''g'', cj_district = ''build'', cj_status = ''pending'',
       cj_result_summary = None, cj_result = [], cj_team_session_id = None, cj_created_at = 0, cj_updated_at = 0,
       cj_completed_at = None \<rparr>]\<rparr>"

definition work_args :: "(string, json) dict" where
  "work_args = [(''code'', JStr ''pass'')]"

definition written_args :: "string \<Rightarrow> (string, json) dict" where
  "written_args c = [(''path'', JStr ''./a.txt''), (''content'', JStr c)]"

definition ran_db :: city_db where
  "ran_db = fst (city_tool work_env work_tools ''j'' (Some ''a'') ''run_python'' work_args work_db)"

definition wrote_db :: city_db where
  "wrote_db = fst (city_tool work_env work_tools ''j'' (Some ''a'') ''workspace_write'' (written_args ''new'')
     (fst (city_tool work_env work_tools ''j'' (Some ''a'') ''workspace_write'' (written_args ''old'') work_db)))"

lemma work_sandbox:
  "run_python_sandboxed (\<lambda>p. p) (\<lambda>fs script. Exited 0 ''ok'' []) [''tmp''] ts ms DEFAULT_OUTPUT_CAP ''pass'' ''main.py'' [] =
     Inr ([([''tmp'', ''main.py''], ''pass'')], \<lparr> rr_status = ''succeeded'', rr_stdout = ''ok'', rr_stderr = [],
       rr_returncode = Some 0, rr_duration_ms = None, rr_truncated = False \<rparr>)"
proof -
  have "sanitize_workspace_path ''main.py'' = Inr ''main.py''" by code_simp
  then show ?thesis
    by (simp add: run_python_sandboxed_def resolve_under_root_def cap_output_def DEFAULT_OUTPUT_CAP_def)
qed

lemma ran_runs: "map (\<lambda>r. (wr_job_id r, wr_status r)) (runs ran_db) = [(''j'', ''running''), (''j'', ''succeeded'')]"
proof -
  have s: "sanitize_workspace_path ''main.py'' = Inr ''main.py''" by code_simp
  show ?thesis
    by (simp add: ran_db_def city_tool_def run_python_def run_source_def work_args_def kwarg_def dget_or_def dget_def
        work_tools_def or_else_def s get_job_def work_db_def city_empty_def row_get_def record_run_def with_job_def
        WorkspaceRunStatus_def Let_def used_id_def emit_event_def list_artifacts_def artifacts_list_for_job_def
        sort_desc_def sibling_files_def work_sandbox run_status_def)
qed

lemma wrote_versions: "map wa_version (path_versions wrote_db ''j'' ''a.txt'') = [2, 1]"
  by code_simp

lemma work_start: "artifacts work_db = []" "runs work_db = []"
  by (simp_all add: work_db_def city_empty_def)

lemma work_job: "row_get cj_id (jobs work_db) ''j'' \<noteq> None"
  by (simp add: work_db_def row_get_def)

lemma tool_pair: "city_tool env te jid agent name args db = (fst (city_tool env te jid agent name args db), snd (city_tool env te jid agent name args db))"
  by simp

lemma ran_step: "commons_step\<^sup>*\<^sup>* work_db ran_db"
  unfolding ran_db_def by (intro r_into_rtranclp commons_step.called [OF tool_pair])

lemma wrote_steps: "commons_step\<^sup>*\<^sup>* work_db wrote_db"
  unfolding wrote_db_def by (meson commons_step.called tool_pair rtranclp.rtrancl_into_rtrancl rtranclp.rtrancl_refl)


theorem success_rate_at_most_half_witness:
  "\<exists>c. map wr_status (runs ran_db) = [''running'', ''succeeded''] \<and> cohesion_score ran_db ''j'' = Inr c \<and> co_tool_success_rate c \<le> 1/2"
proof -
  have "jobs ran_db = jobs work_db"
    using city_tool_effect [OF tool_pair [of work_env work_tools "''j''" "Some ''a''" "''run_python''" work_args work_db]]
    by (simp add: ran_db_def tool_effect_def)
  then obtain c where c: "cohesion_score ran_db ''j'' = Inr c" using work_job by (auto simp: cohesion_score_def with_job_def)
  have r: "map wr_status (runs ran_db) = [''running'', ''succeeded'']"
    using arg_cong [OF ran_runs, of "map snd"] by (simp add: comp_def)
  have "length (filter (\<lambda>r. wr_job_id r = ''j'') (runs ran_db)) \<le> length (map wr_status (runs ran_db))" by simp
  then have "length (filter (\<lambda>r. wr_job_id r = ''j'') (runs ran_db)) \<le> 1000" unfolding r by simp
  from success_rate_at_most_half [OF work_start ran_step this c] r c show ?thesis by auto
qed

text \<open>A veto succeeds whatever the score.\<close>

lemma veto_succeeds: "\<exists>db' d. cohesion_decide work_env work_tools ''j'' '' VETO '' None False work_db = Inr (db', d) \<and> dv_decision d = ''veto''"
proof -
  have "py_strip (py_lower '' VETO '') = ''veto''" by code_simp
  then show ?thesis
    by (simp add: cohesion_decide_def Let_def with_job_def work_db_def row_get_def get_family_def get_with_members_def
        cohesion_score_def cohesion_veto_def set_job_status_def emit_event_def used_id_def CityJobStatus_def)
qed


section \<open>What a program sees beside it\<close>

text \<open>The artifacts of a path that are handed to a run: those with a content that is not too large.\<close>

definition handed :: "city_db \<Rightarrow> string \<Rightarrow> string \<Rightarrow> WorkspaceArtifactModel list" where
  "handed db jid p = filter (\<lambda>a. wa_content a \<noteq> None \<and> wa_size_bytes a < 100000) (path_versions db jid p)"

lemma sibling_fold:
  "dget (fold (\<lambda>a extra. if wa_path a = filename then extra
      else (case wa_content a of None \<Rightarrow> extra
        | Some c \<Rightarrow> if wa_size_bytes a < 100000 then dset (wa_path a) c extra else extra)) arts ex) p =
   (if p = filename then dget ex p
    else case rev (filter (\<lambda>a. wa_content a \<noteq> None \<and> wa_size_bytes a < 100000) (filter (\<lambda>a. wa_path a = p) arts)) of
       [] \<Rightarrow> dget ex p | a # _ \<Rightarrow> wa_content a)"
  by (induction arts arbitrary: ex) (auto simp: dget_dset split: option.splits list.splits)

lemma listing_path: 
  assumes "length (filter (\<lambda>a. wa_job_id a = jid) (artifacts db)) \<le> n"
  shows "filter (\<lambda>a. wa_path a = p) (artifacts_list_for_job n db jid) = path_versions db jid p"
  using assms by (simp add: artifacts_list_for_job_def path_versions_def sort_key_stable sort_desc_filter conj_commute)

text \<open>
  A program that runs in the sandbox sees, under every path but its own, the oldest version of the
  file that fits, not the one the workspace holds: the listing is newest first and later entries
  overwrite earlier ones. It is the current content exactly when no newer version fits.
\<close>

theorem runs_see_oldest_siblings:
  assumes "length (filter (\<lambda>a. wa_job_id a = jid) (artifacts db)) \<le> 50" "p \<noteq> filename"
  shows "dget (sibling_files filename (artifacts_list_for_job 50 db jid)) p =
    (if handed db jid p = [] then None else wa_content (last (handed db jid p)))"
proof -
  have "dget (sibling_files filename (artifacts_list_for_job 50 db jid)) p =
      (case rev (handed db jid p) of [] \<Rightarrow> None | a # _ \<Rightarrow> wa_content a)"
    unfolding sibling_files_def sibling_fold using assms(2)
    by (simp add: handed_def listing_path [OF assms(1)] dget_def split: list.split)
  then show ?thesis by (cases "handed db jid p" rule: rev_cases) simp_all
qed

lemma wrote_facts:
  "map wa_content (handed wrote_db ''j'' ''a.txt'') = [Some ''new'', Some ''old'']" "length (artifacts wrote_db) = 2"
  by code_simp+

theorem runs_see_oldest_siblings_witness:
  "workspace wrote_db (''j'', ''a.txt'') = Some (Some ''new'') \<and>
   dget (sibling_files ''main.py'' (artifacts_list_for_job 50 wrote_db ''j'')) ''a.txt'' = Some ''old''"
proof -
  have "workspace wrote_db (''j'', ''a.txt'') = Some (Some ''new'')" by code_simp
  moreover have "length (filter (\<lambda>a. wa_job_id a = ''j'') (artifacts wrote_db)) \<le> 50"
    using wrote_facts(2) length_filter_le [of "\<lambda>a. wa_job_id a = ''j''" "artifacts wrote_db"] by linarith
  moreover have "handed wrote_db ''j'' ''a.txt'' \<noteq> []" "wa_content (last (handed wrote_db ''j'' ''a.txt'')) = Some ''old''"
    using wrote_facts(1) last_map [of "handed wrote_db ''j'' ''a.txt''" wa_content] by auto
  ultimately show ?thesis using runs_see_oldest_siblings [of "''j''" wrote_db "''a.txt''" "''main.py''"] by simp
qed

end
