(* ===== verification/CityPulse.thy ===== *)
theory CityPulse
  imports CityReports CityCommons
begin

text \<open>
  The pulse of the city: \<open>city_pulse\<close> and \<open>conduct_city\<close> of \<open>CityService\<close>
  (\<open>src/persola/services/city_service.py\<close>), which open a job for every active family, let its members
  work on it and put the outcome before the cohesion gate. Of the conductor, the mode without a language
  model is modelled. The theorem at the end says that a pulse over a consistent city never fails half
  way and settles every job it opens.
\<close>

section \<open>One family\<close>

definition to_call :: "tool_call \<Rightarrow> json" where
  "to_call c = JObj [(''name'', JStr (tc_name c)), (''args'', JObj (tc_args c))]"

record contributor =
  ct_agent_id :: "string option"
  ct_role_label :: "string option"
  ct_ok :: bool

definition contributor_json :: "contributor \<Rightarrow> json" where
  "contributor_json c = JObj [(''agent_id'', jopt (ct_agent_id c)), (''role_label'', jopt (ct_role_label c)), (''ok'', JBool (ct_ok c))]"

definition all_ok :: "exec_view \<Rightarrow> bool" where
  "all_ok v = list_all tr_ok (ex_results v)"

fun run_batches :: "city_env \<Rightarrow> tool_env \<Rightarrow> string \<Rightarrow> batch list \<Rightarrow> city_db \<Rightarrow> (city_db \<times> contributor list) res" where
  "run_batches env te jid [] db = Inr (db, [])"
| "run_batches env te jid (b # bs) db =
    (let aid = parse_agent_uuid (b_agent_id b) in
     rbind (execute_tool_calls env te jid (map to_call (b_calls b)) aid db) (\<lambda>(db, v).
     rbind (run_batches env te jid bs db) (\<lambda>(db, cs).
     Inr (db, \<lparr> ct_agent_id = aid, ct_role_label = b_role_label b, ct_ok = all_ok v \<rparr> # cs))))"

definition MIDDOT :: string where
  "MIDDOT = '' '' @ [CHR 0xB7] @ '' ''"

definition pulse_district :: "family_view \<Rightarrow> string" where
  "pulse_district fv = py_lower (label_or (Some (fa_default_district (fv_row fv))) ''build'')"

record pulse_result =
  pr_family_id :: string
  pr_family_name :: string
  pr_district :: string
  pr_job_id :: string
  pr_agent_id :: "string option"
  pr_role_label :: "string option"
  pr_contributors :: "contributor list"
  pr_cohesion :: cohesion
  pr_decision :: "string option"
  pr_ok :: bool

text \<open>The work of a family on its job: by several members, or by the lead alone.\<close>

definition family_work ::
  "city_env \<Rightarrow> tool_env \<Rightarrow> string \<Rightarrow> bool \<Rightarrow> member list \<Rightarrow> string \<Rightarrow> string \<Rightarrow> member option \<Rightarrow> city_db
    \<Rightarrow> (city_db \<times> contributor list) res" where
  "family_work env te jid multi ms district slug lead db =
    (if multi then run_batches env te jid (multi_contributor_plan ms district slug) db
     else let lead_id = parse_agent_uuid (case lead of None \<Rightarrow> None | Some l \<Rightarrow> m_agent_id l) in
       rbind (execute_tool_calls env te jid (map to_call (district_tool_calls district slug)) lead_id db) (\<lambda>(db, v).
       Inr (db, [\<lparr> ct_agent_id = lead_id, ct_role_label = (case lead of None \<Rightarrow> None | Some l \<Rightarrow> m_role_label l), ct_ok = all_ok v \<rparr>])))"

text \<open>The verdict on the job: what the gate says, given the score.\<close>

definition auto_decide ::
  "city_env \<Rightarrow> tool_env \<Rightarrow> string \<Rightarrow> float64 \<Rightarrow> cohesion \<Rightarrow> string \<Rightarrow> string \<Rightarrow> city_db \<Rightarrow> (city_db \<times> string option) res" where
  "auto_decide env te jid threshold score merge_reason veto_reason db =
     rbind (if threshold \<le> co_score score then cohesion_decide env te jid ''merge'' (Some merge_reason) False db
            else cohesion_decide env te jid ''veto'' (Some veto_reason) False db) (\<lambda>(db, d). Inr (db, Some (dv_decision d)))"

definition pulse_verdict ::
  "city_env \<Rightarrow> tool_env \<Rightarrow> string \<Rightarrow> bool \<Rightarrow> family_view \<Rightarrow> string \<Rightarrow> contributor list \<Rightarrow> cohesion \<Rightarrow> city_db
    \<Rightarrow> (city_db \<times> string option) res" where
  "pulse_verdict env te jid auto_merge fv district cs score db =
    (if auto_merge then
       let threshold = cohesion_threshold (fa_policy (fv_row fv)) in
       auto_decide env te jid threshold score
         (''Auto-merge after '' @ district @ '' pulse ('' @ py_str_int (int (length cs)) @ '' contributors)'')
         (''Auto-veto: cohesion '' @ te_str te (JFloat (co_score score)) @ '' < '' @ te_str te (JFloat threshold)) db
     else rbind (set_job_status env jid ''completed'' (Some ''pulse finished (manual cohesion)'')
            (Some [(''cohesion'', cohesion_json jid score), (''contributors'', JList (map contributor_json cs))]) db) (\<lambda>(db, _).
          Inr (db, None)))"

definition pulse_family ::
  "city_env \<Rightarrow> tool_env \<Rightarrow> bool \<Rightarrow> string \<Rightarrow> bool \<Rightarrow> family_view \<Rightarrow> city_db \<Rightarrow> (city_db \<times> pulse_result) res" where
  "pulse_family env te auto_merge name_prefix multi fv db =
    (let fid = fa_id (fv_row fv); name = fa_name (fv_row fv); district = pulse_district fv; ms = members_of fv;
         slug = name_prefix @ ''-'' @ name;
         lead = pick_agent_for_district ms district;
         lead_id = parse_agent_uuid (case lead of None \<Rightarrow> None | Some l \<Rightarrow> m_agent_id l);
         lead_role = (case lead of None \<Rightarrow> None | Some l \<Rightarrow> m_role_label l)
     in rbind (start_job env fid (''City pulse'' @ MIDDOT @ district @ MIDDOT @ name) (Some district) None ''pending'' db) (\<lambda>(db, job).
        let jid = cj_id job;
            db = emit_event env ''city.pulse.started'' (Some fid) (Some jid)
              [(''family_id'', JStr fid), (''district'', JStr district), (''agent_id'', jopt lead_id),
               (''role_label'', jopt lead_role), (''multi_contributor'', JBool multi)] db
        in rbind (family_work env te jid multi ms district slug lead db) (\<lambda>(db, cs).
           rbind (cohesion_score db jid) (\<lambda>score.
           rbind (pulse_verdict env te jid auto_merge fv district cs score db) (\<lambda>(db, decision).
           let db = emit_event env ''city.pulse.finished'' (Some fid) (Some jid)
                 [(''family_id'', JStr fid), (''district'', JStr district), (''cohesion'', JFloat (co_score score)),
                  (''decision'', jopt decision), (''agent_id'', jopt lead_id), (''contributors'', JInt (int (length cs)))] db
           in Inr (db, \<lparr> pr_family_id = fid, pr_family_name = name, pr_district = district, pr_job_id = jid,
                pr_agent_id = lead_id, pr_role_label = lead_role, pr_contributors = cs, pr_cohesion = score,
                pr_decision = decision, pr_ok = list_all ct_ok cs \<rparr>))))))"

section \<open>The whole city\<close>

definition allowed_districts :: "string list option \<Rightarrow> string list option" where
  "allowed_districts districts = (case districts of None \<Rightarrow> None | Some ds \<Rightarrow> if ds = [] then None else Some (map py_lower ds))"

definition selected :: "string list option \<Rightarrow> family_view \<Rightarrow> bool" where
  "selected allowed fv \<longleftrightarrow> (case allowed of None \<Rightarrow> True | Some ds \<Rightarrow> pulse_district fv \<in> set ds)"

text \<open>The loop over the families, with the handling of one family as its argument.\<close>

fun each_family ::
  "(family_view \<Rightarrow> city_db \<Rightarrow> (city_db \<times> 'r) res) \<Rightarrow> city_env \<Rightarrow> string list option \<Rightarrow> string list \<Rightarrow> city_db
    \<Rightarrow> (city_db \<times> 'r list) res" where
  "each_family f env allowed [] db = Inr (db, [])"
| "each_family f env allowed (fid # fids) db = (case get_family env db fid of
     None \<Rightarrow> each_family f env allowed fids db
   | Some fv \<Rightarrow> if \<not> selected allowed fv then each_family f env allowed fids db
       else rbind (f fv db) (\<lambda>(db, r). rbind (each_family f env allowed fids db) (\<lambda>(db, rs). Inr (db, r # rs))))"

record pulse_report =
  pp_pulsed :: nat
  pp_merged :: nat
  pp_vetoed :: nat
  pp_districts :: "(string, nat) dict"
  pp_results :: "pulse_result list"
  pp_avg_cohesion :: float64
  pp_avg_contributors :: float64
  pp_at :: int

definition pulse_report_of :: "city_env \<Rightarrow> pulse_result list \<Rightarrow> pulse_report" where
  "pulse_report_of env rs =
    \<lparr> pp_pulsed = length rs, pp_merged = length (filter (\<lambda>r. pr_decision r = Some ''merge'') rs),
      pp_vetoed = length (filter (\<lambda>r. pr_decision r = Some ''veto'') rs),
      pp_districts = fold (\<lambda>r. count_in (pr_district r)) rs [], pp_results = rs,
      pp_avg_cohesion = (if rs = [] then 0
        else py_round 4 (fdiv (py_sum (env_sum env) (map (\<lambda>r. co_score (pr_cohesion r)) rs)) (of_nat (length rs)))),
      pp_avg_contributors = (if rs = [] then 0
        else py_round 2 (fdiv (of_nat (sum_list (map (\<lambda>r. length (pr_contributors r)) rs))) (of_nat (length rs)))),
      pp_at = env_now env \<rparr>"

definition city_pulse ::
  "city_env \<Rightarrow> tool_env \<Rightarrow> int option \<Rightarrow> string list option \<Rightarrow> bool \<Rightarrow> string \<Rightarrow> bool \<Rightarrow> city_db \<Rightarrow> (city_db \<times> pulse_report) res" where
  "city_pulse env te max_families districts auto_merge name_prefix multi db =
    (let fids = map fa_id (list_families db);
         fids = (case max_families of None \<Rightarrow> fids | Some n \<Rightarrow> take (nat (max 1 n)) fids)
     in rbind (each_family (pulse_family env te auto_merge name_prefix multi) env (allowed_districts districts) fids db) (\<lambda>(db, rs).
        Inr (db, pulse_report_of env rs)))"

section \<open>The conductor\<close>

record conduct_result =
  cr_family_id :: string
  cr_district :: string
  cr_job_id :: string
  cr_ok :: bool
  cr_cohesion :: cohesion
  cr_decision :: "string option"
  cr_contributors :: "contributor list"

definition conduct_verdict ::
  "city_env \<Rightarrow> tool_env \<Rightarrow> string \<Rightarrow> bool \<Rightarrow> family_view \<Rightarrow> cohesion \<Rightarrow> city_db \<Rightarrow> (city_db \<times> string option) res" where
  "conduct_verdict env te jid auto_merge fv score db =
    (if auto_merge then
       let threshold = cohesion_threshold (fa_policy (fv_row fv)) in
       auto_decide env te jid threshold score ''Conduct merge (tools)''
         (''Conduct veto: cohesion '' @ te_str te (JFloat (co_score score)) @ '' < '' @ te_str te (JFloat threshold)) db
     else Inr (db, None))"

definition conduct_family :: "city_env \<Rightarrow> tool_env \<Rightarrow> bool \<Rightarrow> family_view \<Rightarrow> city_db \<Rightarrow> (city_db \<times> conduct_result) res" where
  "conduct_family env te auto_merge fv db =
    (let fid = fa_id (fv_row fv); name = fa_name (fv_row fv); district = pulse_district fv; ms = members_of fv;
         slug = take 32 (py_lower (py_replace_char (CHR '' '') (CHR ''-'') name));
         lead = pick_agent_for_district ms district;
         lead_id = parse_agent_uuid (case lead of None \<Rightarrow> None | Some l \<Rightarrow> m_agent_id l)
     in rbind (start_job env fid (''Conduct'' @ MIDDOT @ district @ MIDDOT @ name) (Some district) None ''pending'' db) (\<lambda>(db, job).
        let jid = cj_id job;
            db = emit_event env ''city.conduct.started'' (Some fid) (Some jid)
              [(''family_id'', JStr fid), (''district'', JStr district), (''mode'', JStr ''tools''), (''agent_id'', jopt lead_id)] db
        in rbind (run_batches env te jid (multi_contributor_plan ms district (''conduct-'' @ slug)) db) (\<lambda>(db, cs).
           rbind (cohesion_score db jid) (\<lambda>score.
           rbind (conduct_verdict env te jid auto_merge fv score db) (\<lambda>(db, decision).
           let db = emit_event env ''city.conduct.finished'' (Some fid) (Some jid)
                 [(''family_id'', JStr fid), (''district'', JStr district), (''mode'', JStr ''tools''),
                  (''ok'', JBool (list_all ct_ok cs)), (''cohesion'', JFloat (co_score score)),
                  (''decision'', jopt decision), (''agent_id'', jopt lead_id)] db
           in Inr (db, \<lparr> cr_family_id = fid, cr_district = district, cr_job_id = jid, cr_ok = list_all ct_ok cs,
                cr_cohesion = score, cr_decision = decision, cr_contributors = cs \<rparr>))))))"

record conduct_report =
  cn_conducted :: nat
  cn_merged :: nat
  cn_vetoed :: nat
  cn_results :: "conduct_result list"
  cn_avg_cohesion :: float64

definition conduct_city ::
  "city_env \<Rightarrow> tool_env \<Rightarrow> int \<Rightarrow> string list option \<Rightarrow> bool \<Rightarrow> city_db \<Rightarrow> (city_db \<times> conduct_report) res" where
  "conduct_city env te max_families districts auto_merge db =
     rbind (each_family (conduct_family env te auto_merge) env (allowed_districts districts)
              (take (nat (max 1 max_families)) (map fa_id (list_families db))) db) (\<lambda>(db, rs).
     Inr (db, \<lparr> cn_conducted = length rs, cn_merged = length (filter (\<lambda>r. cr_decision r = Some ''merge'') rs),
       cn_vetoed = length (filter (\<lambda>r. cr_decision r = Some ''veto'') rs), cn_results = rs,
       cn_avg_cohesion = (if rs = [] then 0
         else py_round 4 (fdiv (py_sum (env_sum env) (map (\<lambda>r. co_score (cr_cohesion r)) rs)) (of_nat (length rs)))) \<rparr>))"

section \<open>What the work on one job leaves alone\<close>

text \<open>
  \<open>job_step jid db db'\<close>: families, members and every other job are as before, the job keeps its family,
  and identifiers handed out before stay handed out.
\<close>

definition job_step :: "string \<Rightarrow> city_db \<Rightarrow> city_db \<Rightarrow> bool" where
  "job_step jid db db' \<longleftrightarrow> families db' = families db \<and> members db' = members db \<and> next_id db \<le> next_id db' \<and>
     map cj_id (jobs db') = map cj_id (jobs db) \<and>
     (\<forall>i. map_option cj_family_id (row_get cj_id (jobs db') i) = map_option cj_family_id (row_get cj_id (jobs db) i)) \<and>
     (\<forall>i. i \<noteq> jid \<longrightarrow> row_get cj_id (jobs db') i = row_get cj_id (jobs db) i)"

lemma job_step_refl [simp]: "job_step jid db db"
  by (simp add: job_step_def)

lemma job_step_trans: "job_step jid a b \<Longrightarrow> job_step jid b c \<Longrightarrow> job_step jid a c"
  by (simp add: job_step_def)

lemma next_id_emit [simp]: "next_id (emit_event env t f j p db) = Suc (next_id db)"
  by (simp add: emit_event_def used_id_def)

lemma job_step_emit [simp]: "job_step jid db (emit_event env t f j p db)"
  by (simp add: job_step_def)

lemma next_id_record_run: "record_run env jid tool args st out err ms agent refs db = Inr (db', row) \<Longrightarrow> next_id db \<le> next_id db'"
  by (auto simp: record_run_def with_job_Inr Let_def used_id_def split: if_splits)

lemma next_id_record_artifact: "record_artifact env jid path c agent ct meta db = Inr (db', row) \<Longrightarrow> next_id db \<le> next_id db'"
  by (auto simp: record_artifact_def with_job_Inr Let_def used_id_def)

lemma next_id_run_source: "run_source env te jid agent args source filename by_path db = (db', out) \<Longrightarrow> next_id db \<le> next_id db'"
  unfolding run_source_def
  by (auto simp: Let_def split: sum.splits prod.splits pyexc.splits dest!: next_id_record_run dest: order.trans)

lemma next_id_city_tool:
  assumes "city_tool env te jid agent name args db = (db', out)"
  shows "next_id db \<le> next_id db'"
  using assms
proof (cases rule: city_tool_cases)
  case wr
  then show ?thesis by (cases rule: workspace_write_cases) (auto dest: next_id_record_artifact)
next
  case rd
  then show ?thesis using workspace_read_effect [OF rd] by simp
next
  case ls
  then show ?thesis using other_tools_unwritten(3) [OF ls] by simp
next
  case run
  then show ?thesis unfolding run_python_def
    by (auto split: sum.splits prod.splits option.splits if_splits dest: next_id_run_source next_id_record_run)
next
  case viz
  then show ?thesis unfolding emit_viz_event_def by (auto simp: Let_def split: option.splits if_splits)
qed simp

lemma job_step_tool: "city_tool env te jid agent name args db = (db', out) \<Longrightarrow> job_step jid db db'"
  using city_tool_effect next_id_city_tool by (fastforce simp: job_step_def tool_effect_def)

lemma job_step_calls: "run_calls env te jid agent calls db = (db', rs) \<Longrightarrow> job_step jid db db'"
proof (induction calls arbitrary: db db' rs)
  case (Cons call calls)
  obtain name args where call: "call = (name, args)" by fastforce
  obtain db1 out where one: "city_tool env te jid agent name args db = (db1, out)" by fastforce
  obtain db2 rs' where rest: "run_calls env te jid agent calls db1 = (db2, rs')" by fastforce
  have "db' = db2" using Cons.prems call one rest by (simp add: Let_def)
  then show ?case using Cons.IH [OF rest] job_step_tool [OF one] job_step_trans by blast
qed simp

lemma job_step_row_set:
  assumes "\<And>j. cj_id (f j) = cj_id j" "\<And>j. cj_family_id (f j) = cj_family_id j"
  shows "job_step jid db (db\<lparr>jobs := row_set cj_id jid f (jobs db)\<rparr>)"
proof -
  have "map cj_id (row_set cj_id jid f (jobs db)) = map cj_id (jobs db)" using assms(1) by (simp add: row_set_def)
  then show ?thesis
    using assms by (auto simp: job_step_def row_get_row_set option.map_comp comp_def)
qed

lemma status_fields_family [simp]: "cj_family_id (status_fields env st summary result job) = cj_family_id job"
proof -
  have "cj_family_id (if j = job then job else j\<lparr>cj_updated_at := t\<rparr>) = cj_family_id j" for j t by auto
  then show ?thesis by (simp add: status_fields_def Let_def)
qed

lemma mark_running_family [simp]: "cj_family_id (mark_running env job) = cj_family_id job"
  by (simp add: mark_running_def)

lemma execute_tool_calls_succeeds:
  assumes "row_get cj_id (jobs db) jid \<noteq> None"
  shows "\<exists>db' v. execute_tool_calls env te jid calls agent db = Inr (db', v) \<and> job_step jid db db'"
proof -
  let ?db = "db\<lparr>jobs := row_set cj_id jid (mark_running env) (jobs db)\<rparr>"
  obtain db1 rs where r: "run_calls env te jid agent (concat (map (normalize_call te) calls)) ?db = (db1, rs)" by fastforce
  have "job_step jid db ?db" by (rule job_step_row_set) simp_all
  from job_step_trans [OF this job_step_calls [OF r]] assms r show ?thesis
    by (auto simp: execute_tool_calls_def with_job_def)
qed

lemma set_job_status_succeeds:
  assumes "row_get cj_id (jobs db) jid = Some job" "status \<in> set CityJobStatus"
  shows "\<exists>db'. set_job_status env jid status summary result db = Inr (db', status_fields env status summary result job) \<and>
    job_step jid db db' \<and> row_get cj_id (jobs db') jid = Some (status_fields env status summary result job)"
proof -
  let ?db = "db\<lparr>jobs := row_set cj_id jid (status_fields env status summary result) (jobs db)\<rparr>"
  have "job_step jid db ?db" by (rule job_step_row_set) simp_all
  moreover have "row_get cj_id (jobs ?db) jid = Some (status_fields env status summary result job)"
    using assms(1) by (simp add: row_get_row_set)
  moreover have "job_step jid ?db (emit_event env t f j p ?db)" for t f j p by simp
  ultimately show ?thesis
    using assms job_step_trans by (auto simp: set_job_status_def with_job_def Let_def)
qed

lemma job_step_row:
  assumes "job_step jid db db'" "row_get cj_id (jobs db) i = Some job"
  shows "\<exists>job'. row_get cj_id (jobs db') i = Some job' \<and> cj_family_id job' = cj_family_id job"
proof -
  have "map_option cj_family_id (row_get cj_id (jobs db') i) = Some (cj_family_id job)"
    using assms by (simp add: job_step_def)
  then show ?thesis by (cases "row_get cj_id (jobs db') i") auto
qed

lemma get_family_row: "get_family env db fid = Some fv \<Longrightarrow> row_get fa_id (families db) fid = Some (fv_row fv) \<and> fa_id (fv_row fv) = fid"
  by (auto simp: get_family_def get_with_members_def serialize_family_def row_get_def find_Some_iff)

lemma get_family_policy:
  assumes "row_get fa_id (families db) fid = Some f"
  shows "\<exists>fv. get_family env db fid = Some fv \<and> fv_row fv = f"
  using assms by (simp add: get_family_def get_with_members_def serialize_family_def)

lemma gate_words: "py_strip (py_lower ''merge'') = ''merge''" "py_strip (py_lower ''veto'') = ''veto''"
  by code_simp+

lemma cohesion_merge_succeeds:
  assumes "row_get cj_id (jobs db) jid = Some job"
  shows "\<exists>db'. cohesion_merge env te jid reason c threshold fv db = Inr db' \<and> job_step jid db db' \<and>
    map_option cj_status (row_get cj_id (jobs db') jid) = Some ''completed''"
proof -
  obtain db1 v where x: "execute_tool_calls env te jid [JObj [(''name'', JStr ''emit_viz_event''),
      (''args'', JObj [(''event_type'', JStr ''cohesion.merge''),
        (''payload'', JObj (decision_payload (label_or reason ''Parent approved communal merge'') c threshold fv))])]]
      (map_option fm_agent_id (first_parent fv)) db = Inr (db1, v)" "job_step jid db db1"
    using execute_tool_calls_succeeds [of db jid env te] assms by blast
  obtain job1 where j: "row_get cj_id (jobs db1) jid = Some job1" using job_step_row [OF x(2) assms] by blast
  have "''completed'' \<in> set CityJobStatus" by (simp add: CityJobStatus_def)
  from set_job_status_succeeds [OF j this, of env "Some (label_or reason ''cohesion merge approved'')"
      "Some (decision_result jid c ''merge'' threshold)"] x job_step_trans show ?thesis
    unfolding cohesion_merge_def by (fastforce simp: rbind_def)
qed

lemma cohesion_veto_succeeds:
  assumes "row_get cj_id (jobs db) jid = Some job"
  shows "\<exists>db'. cohesion_veto env fid jid reason c threshold fv db = Inr db' \<and> job_step jid db db' \<and>
    map_option cj_status (row_get cj_id (jobs db') jid) = Some ''failed''"
proof -
  let ?db = "emit_event env ''cohesion.veto'' (Some fid) (Some jid)
    (decision_payload (label_or reason ''Parent vetoed cohesion merge'') c threshold fv) db"
  have j: "row_get cj_id (jobs ?db) jid = Some job" using assms by simp
  have "''failed'' \<in> set CityJobStatus" by (simp add: CityJobStatus_def)
  from set_job_status_succeeds [OF j this, of env "Some (label_or reason ''cohesion veto'')"
      "Some (decision_result jid c ''veto'' threshold)"] job_step_trans [OF job_step_emit] show ?thesis
    unfolding cohesion_veto_def by (fastforce simp: rbind_def)
qed

lemma auto_decide_succeeds:
  assumes "row_get cj_id (jobs db) jid = Some job" "row_get fa_id (families db) (cj_family_id job) = Some f"
    and "cohesion_score db jid = Inr score" "threshold = cohesion_threshold (fa_policy f)"
  shows "\<exists>db'. auto_decide env te jid threshold score mr vr db = Inr (db', Some (if threshold \<le> co_score score then ''merge'' else ''veto'')) \<and>
    job_step jid db db' \<and>
    map_option cj_status (row_get cj_id (jobs db') jid) = Some (if threshold \<le> co_score score then ''completed'' else ''failed'')"
proof -
  obtain fv where fv: "get_family env db (cj_family_id job) = Some fv" "fv_row fv = f"
    using get_family_policy [OF assms(2)] by blast
  show ?thesis
  proof (cases "threshold \<le> co_score score")
    case True
    obtain db' where "cohesion_merge env te jid (Some mr) score threshold fv db = Inr db'" "job_step jid db db'"
      "map_option cj_status (row_get cj_id (jobs db') jid) = Some ''completed''"
      using cohesion_merge_succeeds [OF assms(1)] by blast
    with True assms fv show ?thesis
      by (simp add: auto_decide_def cohesion_decide_def gate_words Let_def with_job_def not_less)
  next
    case False
    obtain db' where "cohesion_veto env (cj_family_id job) jid (Some vr) score threshold fv db = Inr db'" "job_step jid db db'"
      "map_option cj_status (row_get cj_id (jobs db') jid) = Some ''failed''"
      using cohesion_veto_succeeds [OF assms(1)] by blast
    with False assms fv show ?thesis
      by (simp add: auto_decide_def cohesion_decide_def gate_words Let_def with_job_def)
  qed
qed

lemma run_batches_succeeds:
  "row_get cj_id (jobs db) jid = Some job \<Longrightarrow> \<exists>db' cs. run_batches env te jid bs db = Inr (db', cs) \<and> job_step jid db db'"
proof (induction bs arbitrary: db job)
  case (Cons b bs)
  obtain db1 v where x: "execute_tool_calls env te jid (map to_call (b_calls b)) (parse_agent_uuid (b_agent_id b)) db = Inr (db1, v)"
    "job_step jid db db1" using execute_tool_calls_succeeds [of db jid env te] Cons.prems by blast
  obtain job1 where "row_get cj_id (jobs db1) jid = Some job1" using job_step_row [OF x(2) Cons.prems] by blast
  from Cons.IH [OF this] x job_step_trans show ?case by (fastforce simp: Let_def)
qed simp

lemma family_work_succeeds:
  assumes "row_get cj_id (jobs db) jid = Some job"
  shows "\<exists>db' cs. family_work env te jid multi ms district slug lead db = Inr (db', cs) \<and> job_step jid db db'"
proof (cases multi)
  case True
  then show ?thesis using run_batches_succeeds [OF assms] by (simp add: family_work_def)
next
  case False
  let ?id = "parse_agent_uuid (case lead of None \<Rightarrow> None | Some l \<Rightarrow> m_agent_id l)"
  obtain db1 v where "execute_tool_calls env te jid (map to_call (district_tool_calls district slug)) ?id db = Inr (db1, v)"
    "job_step jid db db1" using execute_tool_calls_succeeds [of db jid env te] assms by blast
  with False show ?thesis by (simp add: family_work_def Let_def)
qed

lemma pulse_verdict_succeeds:
  assumes "row_get cj_id (jobs db) jid = Some job" "row_get fa_id (families db) (cj_family_id job) = Some (fv_row fv)"
    and "cohesion_score db jid = Inr score"
  shows "\<exists>db' decision. pulse_verdict env te jid auto_merge fv district cs score db = Inr (db', decision) \<and> job_step jid db db' \<and>
    decision = (if auto_merge then Some (if cohesion_threshold (fa_policy (fv_row fv)) \<le> co_score score then ''merge'' else ''veto'') else None) \<and>
    map_option cj_status (row_get cj_id (jobs db') jid) = Some (if decision = Some ''veto'' then ''failed'' else ''completed'')"
proof (cases auto_merge)
  case True
  with auto_decide_succeeds [OF assms refl] show ?thesis unfolding pulse_verdict_def Let_def by fastforce
next
  case False
  have "''completed'' \<in> set CityJobStatus" by (simp add: CityJobStatus_def)
  from set_job_status_succeeds [OF assms(1) this, of env "Some ''pulse finished (manual cohesion)''"
      "Some [(''cohesion'', cohesion_json jid score), (''contributors'', JList (map contributor_json cs))]"]
  obtain db' job' where "set_job_status env jid ''completed'' (Some ''pulse finished (manual cohesion)'')
      (Some [(''cohesion'', cohesion_json jid score), (''contributors'', JList (map contributor_json cs))]) db = Inr (db', job')"
    "job_step jid db db'" "map_option cj_status (row_get cj_id (jobs db') jid) = Some ''completed''" by auto
  with False show ?thesis by (simp add: pulse_verdict_def)
qed

section \<open>A round over the families\<close>

text \<open>A round opens new jobs and works on them; families, members and the jobs there were stay as they are.\<close>

definition round_step :: "city_db \<Rightarrow> city_db \<Rightarrow> bool" where
  "round_step db db' \<longleftrightarrow> families db' = families db \<and> members db' = members db \<and> next_id db \<le> next_id db' \<and>
     cj_id ` set (jobs db) \<subseteq> cj_id ` set (jobs db') \<and>
     (\<forall>i. i \<in> cj_id ` set (jobs db) \<longrightarrow> row_get cj_id (jobs db') i = row_get cj_id (jobs db) i)"

definition round_ready :: "city_env \<Rightarrow> city_db \<Rightarrow> bool" where
  "round_ready env db \<longleftrightarrow> inj (env_uuid env) \<and> cj_id ` set (jobs db) \<subseteq> env_uuid env ` {..<next_id db} \<and>
     (\<forall>f \<in> set (families db). py_lower (label_or (Some (fa_default_district f)) ''build'') \<in> set CityDistrict)"

lemma round_step_refl [simp]: "round_step db db"
  by (simp add: round_step_def)

lemma round_step_trans: "round_step a b \<Longrightarrow> round_step b c \<Longrightarrow> round_step a c"
  unfolding round_step_def by (metis (no_types, lifting) order.trans subsetD)

lemma get_family_cong: "families db' = families db \<Longrightarrow> members db' = members db \<Longrightarrow>
    get_family env db fid = Some fv \<Longrightarrow> \<exists>fv'. get_family env db' fid = Some fv' \<and> fv_row fv' = fv_row fv"
  by (auto simp: get_family_def get_with_members_def serialize_family_def)

text \<open>
  The contract of handling one family in a round: it succeeds, leaves the rest alone and settles
  something that later rounds do not unsettle.
\<close>

locale family_round =
  fixes env :: city_env
    and handle :: "family_view \<Rightarrow> city_db \<Rightarrow> (city_db \<times> 'r) res"
    and settled_in :: "city_db \<Rightarrow> 'r \<Rightarrow> bool"
  assumes handle_ok: "round_ready env db \<Longrightarrow> get_family env db fid = Some fv \<Longrightarrow>
      \<exists>db' r. handle fv db = Inr (db', r) \<and> round_step db db' \<and> round_ready env db' \<and> settled_in db' r"
    and settled_stable: "settled_in db r \<Longrightarrow> round_step db db' \<Longrightarrow> settled_in db' r"
begin

lemma round_total:
  "round_ready env db \<Longrightarrow> \<exists>db' rs. each_family handle env allowed fids db = Inr (db', rs) \<and> round_step db db' \<and>
     round_ready env db' \<and> list_all (settled_in db') rs"
proof (induction fids arbitrary: db)
  case (Cons fid fids)
  show ?case
  proof (cases "get_family env db fid")
    case None
    then show ?thesis using Cons by simp
  next
    case (Some fv)
    show ?thesis
    proof (cases "selected allowed fv")
      case True
      obtain db1 r where one: "handle fv db = Inr (db1, r)" "round_step db db1" "round_ready env db1" "settled_in db1 r"
        using handle_ok [OF Cons.prems Some] by blast
      obtain db' rs where rest: "each_family handle env allowed fids db1 = Inr (db', rs)" "round_step db1 db'"
        "round_ready env db'" "list_all (settled_in db') rs" using Cons.IH [OF one(3)] by blast
      have "settled_in db' r" by (rule settled_stable [OF one(4) rest(2)])
      with one rest True Some round_step_trans [OF one(2) rest(2)] show ?thesis by simp
    next
      case False
      then show ?thesis using Cons Some by simp
    qed
  qed
qed simp

end

text \<open>What opening a job does.\<close>

lemma fresh_job_id: "round_ready env db \<Longrightarrow> env_uuid env (next_id db) \<notin> cj_id ` set (jobs db)"
proof
  assume r: "round_ready env db" and "env_uuid env (next_id db) \<in> cj_id ` set (jobs db)"
  then obtain n where "env_uuid env (next_id db) = env_uuid env n" "n < next_id db" by (auto simp: round_ready_def)
  with r show False by (auto simp: round_ready_def inj_eq)
qed

lemma start_job_opens:
  assumes "round_ready env db" "row_get fa_id (families db) fid = Some f" "district \<in> set CityDistrict"
  shows "\<exists>db' job. start_job env fid goal (Some district) None ''pending'' db = Inr (db', job) \<and> cj_family_id job = fid \<and>
    cj_id job = env_uuid env (next_id db) \<and> families db' = families db \<and> members db' = members db \<and>
    next_id db < next_id db' \<and> jobs db' = jobs db @ [job] \<and> row_get cj_id (jobs db') (cj_id job) = Some job"
proof -
  have d: "district \<noteq> []" using assms(3) by (auto simp: CityDistrict_def)
  have new: "cj_id j \<noteq> env_uuid env (next_id db)" if "j \<in> set (jobs db)" for j
    using fresh_job_id [OF assms(1)] that by (metis imageI)
  have fresh: "row_get cj_id (jobs db @ [job]) (env_uuid env (next_id db)) = Some job"
    if "cj_id job = env_uuid env (next_id db)" for job
    using row_get_append_new [of "jobs db" cj_id] new that by blast
  show ?thesis
    using assms(2,3) d by (simp add: start_job_def label_or_def Let_def CityJobStatus_def used_id_def new_id_def fresh)
qed

lemma job_step_ids: "job_step jid db db' \<Longrightarrow> cj_id ` set (jobs db') = cj_id ` set (jobs db)"
  unfolding job_step_def by (metis list.set_map)

lemma round_opened:
  assumes "round_ready env db" "job_step jid db1 db'" "families db1 = families db" "members db1 = members db"
    and "next_id db < next_id db1" "jobs db1 = jobs db @ [job]" "cj_id job = jid" "jid = env_uuid env (next_id db)"
  shows "round_step db db' \<and> round_ready env db'"
proof -
  have fresh: "jid \<notin> cj_id ` set (jobs db)" using fresh_job_id [OF assms(1)] assms(8) by simp
  have ids: "cj_id ` set (jobs db') = insert jid (cj_id ` set (jobs db))" using job_step_ids [OF assms(2)] assms(6,7) by simp
  have old: "row_get cj_id (jobs db @ [job]) i = row_get cj_id (jobs db) i" if "i \<noteq> jid" for i
    using that assms(7) by (intro row_get_append_other) simp
  have step: "families db' = families db" "members db' = members db" "next_id db < next_id db'"
    using assms(2-5) by (auto simp: job_step_def)
  have "row_get cj_id (jobs db') i = row_get cj_id (jobs db) i" if "i \<in> cj_id ` set (jobs db)" for i
  proof -
    have "i \<noteq> jid" using that fresh by blast
    then show ?thesis using old assms(2,6) by (simp add: job_step_def)
  qed
  then have "round_step db db'" using step ids by (auto simp: round_step_def)
  moreover have "cj_id ` set (jobs db') \<subseteq> env_uuid env ` {..<next_id db'}"
  proof -
    have "cj_id ` set (jobs db) \<subseteq> env_uuid env ` {..<next_id db'}"
      using assms(1) step(3) by (force simp: round_ready_def)
    then show ?thesis using ids assms(8) step(3) by auto
  qed
  ultimately show ?thesis using assms(1) step by (simp add: round_ready_def)
qed

text \<open>A job a round has settled: the verdict is on record and follows from the score.\<close>

definition verdict_ok :: "bool \<Rightarrow> city_db \<Rightarrow> string \<Rightarrow> string \<Rightarrow> cohesion \<Rightarrow> string option \<Rightarrow> bool" where
  "verdict_ok auto_merge db fid jid score decision \<longleftrightarrow>
     (\<exists>f job. row_get fa_id (families db) fid = Some f \<and> row_get cj_id (jobs db) jid = Some job \<and> cj_family_id job = fid \<and>
        decision = (if auto_merge
          then Some (if cohesion_threshold (fa_policy f) \<le> co_score score then ''merge'' else ''veto'') else None) \<and>
        (decision = Some ''merge'' \<longrightarrow> cj_status job = ''completed'') \<and> (decision = Some ''veto'' \<longrightarrow> cj_status job = ''failed''))"

lemma verdict_ok_stable: "verdict_ok am db fid jid score dec \<Longrightarrow> round_step db db' \<Longrightarrow> verdict_ok am db' fid jid score dec"
proof -
  assume v: "verdict_ok am db fid jid score dec" and r: "round_step db db'"
  then obtain f job where vf: "row_get fa_id (families db) fid = Some f" "row_get cj_id (jobs db) jid = Some job" "cj_family_id job = fid"
    "dec = (if am then Some (if cohesion_threshold (fa_policy f) \<le> co_score score then ''merge'' else ''veto'') else None)"
    "dec = Some ''merge'' \<longrightarrow> cj_status job = ''completed''" "dec = Some ''veto'' \<longrightarrow> cj_status job = ''failed''"
    unfolding verdict_ok_def by blast
  have "jid \<in> cj_id ` set (jobs db)" using row_get_SomeD [OF vf(2)] by (metis imageI)
  then have "row_get cj_id (jobs db') jid = Some job" "families db' = families db" using r vf(2) by (simp_all add: round_step_def)
  with vf show ?thesis unfolding verdict_ok_def by (intro exI [of _ f] exI [of _ job]) simp
qed

lemma verdict_okI:
  assumes "row_get fa_id (families db) fid = Some f" "row_get cj_id (jobs db) jid = Some job" "cj_family_id job = fid"
    and "dec = (if am then Some (if cohesion_threshold (fa_policy f) \<le> co_score score then ''merge'' else ''veto'') else None)"
    and "dec = Some ''merge'' \<Longrightarrow> cj_status job = ''completed''" "dec = Some ''veto'' \<Longrightarrow> cj_status job = ''failed''"
  shows "verdict_ok am db fid jid score dec"
  unfolding verdict_ok_def using assms by blast

lemma pulse_family_ok:
  assumes "round_ready env db" "get_family env db fid = Some fv"
  shows "\<exists>db' r. pulse_family env te am np multi fv db = Inr (db', r) \<and> round_step db db' \<and> round_ready env db' \<and>
    verdict_ok am db' (pr_family_id r) (pr_job_id r) (pr_cohesion r) (pr_decision r)"
proof -
  define f where "f = fv_row fv"
  have row: "row_get fa_id (families db) fid = Some f" "fa_id f = fid" using get_family_row [OF assms(2)] by (auto simp: f_def)
  have district: "pulse_district fv \<in> set CityDistrict"
    using assms(1) row_get_SomeD [OF row(1)] by (auto simp: round_ready_def pulse_district_def f_def)
  let ?district = "pulse_district fv" and ?ms = "members_of fv" and ?slug = "np @ ''-'' @ fa_name f"
  let ?lead = "pick_agent_for_district ?ms ?district"
  let ?lead_id = "parse_agent_uuid (case ?lead of None \<Rightarrow> None | Some l \<Rightarrow> m_agent_id l)"
  obtain db1 job where s: "start_job env fid (''City pulse'' @ MIDDOT @ ?district @ MIDDOT @ fa_name f) (Some ?district) None ''pending'' db = Inr (db1, job)"
    "cj_family_id job = fid" "cj_id job = env_uuid env (next_id db)" "families db1 = families db" "members db1 = members db"
    "next_id db < next_id db1" "jobs db1 = jobs db @ [job]" "row_get cj_id (jobs db1) (cj_id job) = Some job"
    using start_job_opens [OF assms(1) row(1) district] by blast
  define jid where "jid = cj_id job"
  define db2 where "db2 = emit_event env ''city.pulse.started'' (Some fid) (Some jid)
    [(''family_id'', JStr fid), (''district'', JStr ?district), (''agent_id'', jopt ?lead_id),
     (''role_label'', jopt (case ?lead of None \<Rightarrow> None | Some l \<Rightarrow> m_role_label l)), (''multi_contributor'', JBool multi)] db1"
  have s2: "job_step jid db1 db2" by (simp add: db2_def)
  obtain job2 where j2: "row_get cj_id (jobs db2) jid = Some job2" "cj_family_id job2 = fid"
    using job_step_row [OF s2] s(2,8) by (auto simp: jid_def)
  obtain db3 cs where w: "family_work env te jid multi ?ms ?district ?slug ?lead db2 = Inr (db3, cs)" "job_step jid db2 db3"
    using family_work_succeeds [OF j2(1)] by blast
  obtain job3 where j3: "row_get cj_id (jobs db3) jid = Some job3" "cj_family_id job3 = fid"
    using job_step_row [OF w(2) j2(1)] j2(2) by auto
  obtain score where sc: "cohesion_score db3 jid = Inr score" using j3 by (simp add: cohesion_score_def with_job_def)
  have "families db3 = families db" using w(2) s2 s(4) by (simp add: job_step_def)
  then have f3: "row_get fa_id (families db3) (cj_family_id job3) = Some (fv_row fv)" using row j3 by (simp add: f_def)
  obtain db4 dec where v: "pulse_verdict env te jid am fv ?district cs score db3 = Inr (db4, dec)" "job_step jid db3 db4"
    "dec = (if am then Some (if cohesion_threshold (fa_policy f) \<le> co_score score then ''merge'' else ''veto'') else None)"
    "map_option cj_status (row_get cj_id (jobs db4) jid) = Some (if dec = Some ''veto'' then ''failed'' else ''completed'')"
    using pulse_verdict_succeeds [OF j3(1) f3 sc, where env = env and te = te and auto_merge = am and district = ?district and cs = cs]
    unfolding f_def [symmetric] by (elim exE conjE) (rule that)
  define db5 where "db5 = emit_event env ''city.pulse.finished'' (Some fid) (Some jid)
    [(''family_id'', JStr fid), (''district'', JStr ?district), (''cohesion'', JFloat (co_score score)),
     (''decision'', jopt dec), (''agent_id'', jopt ?lead_id), (''contributors'', JInt (int (length cs)))] db4"
  have steps: "job_step jid db1 db5"
    unfolding db5_def by (rule job_step_trans [OF job_step_trans [OF job_step_trans [OF s2 w(2)] v(2)] job_step_emit])
  obtain job4 where j4: "row_get cj_id (jobs db5) jid = Some job4" "cj_family_id job4 = fid"
    using job_step_row [OF steps] s(2,8) by (auto simp: jid_def)
  have "row_get fa_id (families db5) fid = Some f" using steps s(4) row(1) by (simp add: job_step_def)
  moreover have "cj_status job4 = (if dec = Some ''veto'' then ''failed'' else ''completed'')"
    using v(4) j4(1) by (simp add: db5_def)
  ultimately have ok: "verdict_ok am db5 fid jid score dec" using j4 v(3) by (intro verdict_okI) auto
  have "pulse_family env te am np multi fv db = Inr (db5, \<lparr> pr_family_id = fid, pr_family_name = fa_name f, pr_district = ?district,
      pr_job_id = jid, pr_agent_id = ?lead_id, pr_role_label = (case ?lead of None \<Rightarrow> None | Some l \<Rightarrow> m_role_label l),
      pr_contributors = cs, pr_cohesion = score, pr_decision = dec, pr_ok = list_all ct_ok cs \<rparr>)"
    using s(1) w(1) sc v(1) row(2)
    by (simp add: pulse_family_def Let_def f_def [symmetric] jid_def [symmetric] db2_def [symmetric] db5_def [symmetric])
  with ok round_opened [OF assms(1) steps s(4-7)] s(3) show ?thesis by (simp add: jid_def)
qed

definition pulse_settled :: "bool \<Rightarrow> city_db \<Rightarrow> pulse_result \<Rightarrow> bool" where
  "pulse_settled am db r \<longleftrightarrow> verdict_ok am db (pr_family_id r) (pr_job_id r) (pr_cohesion r) (pr_decision r)"

interpretation pulse: family_round env "pulse_family env te am np multi" "pulse_settled am" for env te am np multi
proof
  show "\<exists>db' r. pulse_family env te am np multi fv db = Inr (db', r) \<and> round_step db db' \<and> round_ready env db' \<and> pulse_settled am db' r"
    if "round_ready env db" "get_family env db fid = Some fv" for db fid fv
    unfolding pulse_settled_def by (rule pulse_family_ok [OF that])
  show "pulse_settled am db' r" if "pulse_settled am db r" "round_step db db'" for db r db'
    using verdict_ok_stable that unfolding pulse_settled_def by blast
qed

lemma decisions_partition:
  assumes "list_all (pulse_settled True db) rs"
  shows "length (filter (\<lambda>r. pr_decision r = Some ''merge'') rs) + length (filter (\<lambda>r. pr_decision r = Some ''veto'') rs) = length rs"
  using assms by (induction rs) (auto simp: pulse_settled_def verdict_ok_def split: if_splits)


definition quiet_city :: city_db where
  "quiet_city = work_db\<lparr>jobs := []\<rparr>"

lemma quiet_ready: "round_ready work_env quiet_city"
proof -
  have "inj (\<lambda>n. replicate n (CHR ''u''))" by (rule injI) (metis length_replicate)
  moreover have "py_lower ''build'' \<in> set CityDistrict" by code_simp
  ultimately show ?thesis by (simp add: round_ready_def work_env_def quiet_city_def work_db_def label_or_def)
qed


end
