(* ===== verification/WorkerPool.thy ===== *)
theory WorkerPool
  imports CityCommons "HOL-Library.Multiset"
begin

text \<open>
  The worker pool of the city, \<open>src/persola/orchestration/city_worker.py\<close>: a bounded queue of tool
  batches and workers that run them under the governor.

  A work item is shared between the table of items, the queue and the worker that runs it; here the
  queue and the workers hold its identifier and the table holds the item. Between two \<open>await\<close>s the
  code runs without interruption, so each step of \<open>pool_step\<close> is one such stretch: a caller registers an
  item, a caller whose \<open>put\<close> finds room appends it, a worker takes the head of the queue, a worker gets
  its slots from the governor (modelled in \<open>Governor\<close>) and a worker runs the batch. The batch is
  \<open>execute_tool_calls\<close> on the city's tables. Metrics, timings and the event object that wakes a waiting
  caller (\<open>wi_done\<close> stands for it) are left out, and so is the cancellation of a worker. An item's identifier is a
  \<open>uuid4\<close>, so a caller registers an identifier that is not in the table. The shutdown has one caller.
\<close>

section \<open>Items, workers and the pool\<close>

record CityWorkItem =
  wi_id :: string
  wi_job_id :: string
  wi_family_id :: string
  wi_district :: string
  wi_calls :: "json list"
  wi_agent_id :: "string option"
  wi_result :: "exec_view option"
  wi_error :: "pyexc option"
  wi_status :: string
  wi_done :: bool

datatype worker = Idle | Acquiring string | Working string | Returned

record pool =
  po_started :: bool
  po_workers :: "worker list"
  po_putting :: "string list"
  po_stops :: nat
  po_queue :: "string option list"
  po_items :: "(string, CityWorkItem) dict"
  po_completed :: nat
  po_failed :: nat
  po_in_flight :: int

definition pool_init :: pool where
  "pool_init = \<lparr> po_started = False, po_workers = [], po_putting = [], po_stops = 0, po_queue = [], po_items = [],
     po_completed = 0, po_failed = 0, po_in_flight = 0 \<rparr>"

definition pool_start :: "nat \<Rightarrow> pool \<Rightarrow> pool" where
  "pool_start worker_count p = (if po_started p then p else p\<lparr>po_started := True, po_workers := po_workers p @ replicate worker_count Idle\<rparr>)"

text \<open>\<open>enqueue_city_tools\<close> makes the item; \<open>enqueue\<close> registers it and then waits for room in the queue.\<close>

definition new_item :: "string \<Rightarrow> string \<Rightarrow> string \<Rightarrow> string \<Rightarrow> json list \<Rightarrow> string option \<Rightarrow> CityWorkItem" where
  "new_item i jid fid district calls agent = \<lparr> wi_id = i, wi_job_id = jid, wi_family_id = fid,
     wi_district = (if district = [] then ''build'' else district), wi_calls = calls, wi_agent_id = agent,
     wi_result = None, wi_error = None, wi_status = ''queued'', wi_done = False \<rparr>"

definition pool_register :: "nat \<Rightarrow> CityWorkItem \<Rightarrow> pool \<Rightarrow> pool" where
  "pool_register worker_count item p =
    (let p = pool_start worker_count p
     in p\<lparr>po_items := dset (wi_id item) item (po_items p), po_putting := po_putting p @ [wi_id item]\<rparr>)"

definition pool_put :: "nat \<Rightarrow> string \<Rightarrow> pool \<Rightarrow> pool option" where
  "pool_put maxsize i p =
    (if i \<in> set (po_putting p) \<and> (maxsize = 0 \<or> length (po_queue p) < maxsize)
     then Some (p\<lparr>po_putting := remove1 i (po_putting p), po_queue := po_queue p @ [Some i]\<rparr>) else None)"

definition set_item :: "string \<Rightarrow> (CityWorkItem \<Rightarrow> CityWorkItem) \<Rightarrow> pool \<Rightarrow> pool" where
  "set_item i f p = (case dget (po_items p) i of None \<Rightarrow> p | Some x \<Rightarrow> p\<lparr>po_items := dset i (f x) (po_items p)\<rparr>)"

definition worker_take :: "nat \<Rightarrow> pool \<Rightarrow> pool option" where
  "worker_take w p =
    (if w < length (po_workers p) \<and> po_workers p ! w = Idle then
       (case po_queue p of
          [] \<Rightarrow> None
        | None # q \<Rightarrow> Some (p\<lparr>po_queue := q, po_workers := (po_workers p)[w := Returned]\<rparr>)
        | Some i # q \<Rightarrow> Some (set_item i (wi_status_update (\<lambda>_. ''running''))
            (p\<lparr>po_queue := q, po_workers := (po_workers p)[w := Acquiring i], po_in_flight := po_in_flight p + 1\<rparr>)))
     else None)"

definition worker_granted :: "nat \<Rightarrow> pool \<Rightarrow> pool option" where
  "worker_granted w p =
    (if w < length (po_workers p) then
       (case po_workers p ! w of Acquiring i \<Rightarrow> Some (p\<lparr>po_workers := (po_workers p)[w := Working i]\<rparr>) | _ \<Rightarrow> None)
     else None)"

definition item_outcome :: "pyexc + exec_view \<Rightarrow> CityWorkItem \<Rightarrow> CityWorkItem" where
  "item_outcome out x = (case out of
     Inr v \<Rightarrow> x\<lparr>wi_result := Some v, wi_status := ''completed'', wi_done := True\<rparr>
   | Inl e \<Rightarrow> x\<lparr>wi_error := Some e, wi_status := ''failed'', wi_done := True\<rparr>)"

definition worker_run :: "city_env \<Rightarrow> tool_env \<Rightarrow> nat \<Rightarrow> pool \<Rightarrow> city_db \<Rightarrow> (pool \<times> city_db) option" where
  "worker_run env te w p db =
    (if w < length (po_workers p) then
       (case po_workers p ! w of
          Working i \<Rightarrow> (case dget (po_items p) i of
             None \<Rightarrow> None
           | Some x \<Rightarrow>
              let (db', out) = (case execute_tool_calls env te (wi_job_id x) (wi_calls x) (wi_agent_id x) db of
                    Inl e \<Rightarrow> (db, Inl e) | Inr (db', v) \<Rightarrow> (db', Inr v));
                  p = set_item i (item_outcome out) p
              in Some (p\<lparr>po_workers := (po_workers p)[w := Idle], po_in_flight := max 0 (po_in_flight p - 1),
                   po_completed := po_completed p + (if isl out then 0 else 1),
                   po_failed := po_failed p + (if isl out then 1 else 0)\<rparr>, db'))
        | _ \<Rightarrow> None)
     else None)"

text \<open>\<open>stop\<close> puts one sentinel per worker, waiting for room each time, and then for the workers to return.\<close>

definition pool_stop :: "pool \<Rightarrow> pool" where
  "pool_stop p = (if po_started p then p\<lparr>po_stops := po_stops p + length (po_workers p)\<rparr> else p)"

definition put_sentinel :: "nat \<Rightarrow> pool \<Rightarrow> pool option" where
  "put_sentinel maxsize p =
    (if 0 < po_stops p \<and> (maxsize = 0 \<or> length (po_queue p) < maxsize)
     then Some (p\<lparr>po_stops := po_stops p - 1, po_queue := po_queue p @ [None]\<rparr>) else None)"

definition pool_stopped :: "pool \<Rightarrow> pool option" where
  "pool_stopped p = (if po_started p \<and> po_stops p = 0 \<and> list_all (\<lambda>w. w = Returned) (po_workers p)
     then Some (p\<lparr>po_workers := [], po_started := False\<rparr>) else None)"

record pool_view =
  pv_started :: bool
  pv_worker_count :: nat
  pv_queue_depth :: nat
  pv_busy_workers :: int
  pv_completed :: nat
  pv_failed :: nat
  pv_tracked_items :: nat

definition pool_snapshot :: "pool \<Rightarrow> pool_view" where
  "pool_snapshot p = \<lparr> pv_started = po_started p, pv_worker_count = length (po_workers p), pv_queue_depth = length (po_queue p),
     pv_busy_workers = po_in_flight p, pv_completed = po_completed p, pv_failed = po_failed p,
     pv_tracked_items = length (po_items p) \<rparr>"

section \<open>The pool and the city as a system\<close>

inductive pool_step :: "nat \<Rightarrow> nat \<Rightarrow> pool \<times> city_db \<Rightarrow> pool \<times> city_db \<Rightarrow> bool" for worker_count maxsize where
  register: "dget (po_items p) i = None \<Longrightarrow>
     pool_step worker_count maxsize (p, db) (pool_register worker_count (new_item i jid fid district calls agent) p, db)"
| put: "pool_put maxsize i p = Some p' \<Longrightarrow> pool_step worker_count maxsize (p, db) (p', db)"
| take: "worker_take w p = Some p' \<Longrightarrow> pool_step worker_count maxsize (p, db) (p', db)"
| granted: "worker_granted w p = Some p' \<Longrightarrow> pool_step worker_count maxsize (p, db) (p', db)"
| run: "worker_run env te w p db = Some (p', db') \<Longrightarrow> pool_step worker_count maxsize (p, db) (p', db')"
| stop: "pool_step worker_count maxsize (p, db) (pool_stop p, db)"
| sentinel: "put_sentinel maxsize p = Some p' \<Longrightarrow> pool_step worker_count maxsize (p, db) (p', db)"
| stopped: "pool_stopped p = Some p' \<Longrightarrow> pool_step worker_count maxsize (p, db) (p', db)"

fun held :: "worker \<Rightarrow> string option" where
  "held (Acquiring i) = Some i"
| "held (Working i) = Some i"
| "held _ = None"

definition in_hand :: "pool \<Rightarrow> string list" where
  "in_hand p = List.map_filter held (po_workers p)"

definition waiting :: "pool \<Rightarrow> string list" where
  "waiting p = po_putting p @ List.map_filter (\<lambda>q. q) (po_queue p)"

definition with_status :: "pool \<Rightarrow> string \<Rightarrow> string set" where
  "with_status p st = {i. \<exists>x. dget (po_items p) i = Some x \<and> wi_status x = st}"

text \<open>
  The invariant: every item is waiting, in the hands of exactly one worker, completed or failed, as its
  status says, and has a result or an error accordingly; the counters are exact.
\<close>

definition item_ok :: "CityWorkItem \<Rightarrow> bool" where
  "item_ok x \<longleftrightarrow> wi_status x \<in> {''queued'', ''running'', ''completed'', ''failed''} \<and>
     (wi_done x \<longleftrightarrow> wi_status x \<in> {''completed'', ''failed''}) \<and>
     (wi_result x \<noteq> None \<longleftrightarrow> wi_status x = ''completed'') \<and> (wi_error x \<noteq> None \<longleftrightarrow> wi_status x = ''failed'')"

definition pool_ok :: "pool \<Rightarrow> bool" where
  "pool_ok p \<longleftrightarrow> dict_ok (po_items p) \<and> distinct (waiting p @ in_hand p) \<and>
     set (waiting p) = with_status p ''queued'' \<and> set (in_hand p) = with_status p ''running'' \<and>
     po_in_flight p = int (length (in_hand p)) \<and>
     po_completed p = card (with_status p ''completed'') \<and> po_failed p = card (with_status p ''failed'') \<and>
     (\<forall>i x. dget (po_items p) i = Some x \<longrightarrow> item_ok x)"

section \<open>The invariant is kept\<close>

lemma pool_okD:
  assumes "pool_ok p"
  shows "dict_ok (po_items p)" "distinct (waiting p @ in_hand p)" "set (waiting p) = with_status p ''queued''"
    "set (in_hand p) = with_status p ''running''" "po_in_flight p = int (length (in_hand p))"
    "po_completed p = card (with_status p ''completed'')" "po_failed p = card (with_status p ''failed'')"
    "dget (po_items p) i = Some x \<Longrightarrow> item_ok x"
  using assms unfolding pool_ok_def by blast+

lemma pool_ok_same:
  assumes "pool_ok p" "po_items q = po_items p" "mset (waiting q) = mset (waiting p)" "in_hand q = in_hand p"
    "po_in_flight q = po_in_flight p" "po_completed q = po_completed p" "po_failed q = po_failed p"
  shows "pool_ok q"
proof -
  have st: "with_status q st = with_status p st" for st by (simp add: with_status_def assms(2))
  have "distinct (waiting q @ in_hand q)"
    using pool_okD(2) [OF assms(1)] assms(3,4) by (metis mset_append mset_eq_imp_distinct_iff)
  moreover have "set (waiting q) = with_status q ''queued''"
    using pool_okD(3) [OF assms(1)] assms(3) st by (metis mset_eq_setD)
  ultimately show ?thesis
    using pool_okD [OF assms(1)] unfolding pool_ok_def assms(2,4-7) st by blast
qed

lemma with_status_set:
  assumes "po_items q = dset i x' (po_items p)"
  shows "with_status q st = (if wi_status x' = st then insert i (with_status p st) else with_status p st - {i})"
  using assms by (auto simp: with_status_def dget_dset split: if_splits)

text \<open>The common case of the operations: one item gets a new value and moves between the lists.\<close>

lemma pool_ok_moved:
  assumes "pool_ok p" "po_items q = dset i x' (po_items p)" "item_ok x'"
    and "distinct (waiting q @ in_hand q)"
    and "set (waiting q) = (if wi_status x' = ''queued'' then insert i (set (waiting p)) else set (waiting p) - {i})"
    and "set (in_hand q) = (if wi_status x' = ''running'' then insert i (set (in_hand p)) else set (in_hand p) - {i})"
    and "po_in_flight q = int (length (in_hand q))"
    and "po_completed q = (if wi_status x' = ''completed'' then Suc (po_completed p) else po_completed p)"
    and "po_failed q = (if wi_status x' = ''failed'' then Suc (po_failed p) else po_failed p)"
    and "i \<notin> with_status p ''completed''" "i \<notin> with_status p ''failed''"
  shows "pool_ok q"
proof -
  note st = with_status_set [OF assms(2)] and ok = pool_okD [OF assms(1)]
  have fin: "finite (with_status p s)" for s
    by (rule finite_subset [of _ "set (dkeys (po_items p))"]) (auto simp: with_status_def dest: dget_Some_keys)
  have "dict_ok (po_items q)" using ok(1) by (simp add: assms(2))
  moreover have "set (waiting q) = with_status q ''queued''" by (simp add: assms(5) st ok(3))
  moreover have "set (in_hand q) = with_status q ''running''" by (simp add: assms(6) st ok(4))
  moreover have "po_completed q = card (with_status q ''completed'')" "po_failed q = card (with_status q ''failed'')"
    using assms(10,11) by (simp_all add: assms(8,9) st ok(6,7) fin)
  moreover have "item_ok y" if "dget (po_items q) j = Some y" for j y
    using that ok(8) assms(3) by (auto simp: assms(2) dget_dset split: if_splits)
  ultimately show ?thesis unfolding pool_ok_def using assms(4,7) by blast
qed

definition opt_list :: "'a option \<Rightarrow> 'a list" where
  "opt_list x = (case x of None \<Rightarrow> [] | Some a \<Rightarrow> [a])"

lemma opt_list_simps [simp]: "opt_list None = []" "opt_list (Some a) = [a]"
  by (simp_all add: opt_list_def)

lemma map_filter_list: "List.map_filter f (x # xs) = opt_list (f x) @ List.map_filter f xs"
  "List.map_filter f (xs @ ys) = List.map_filter f xs @ List.map_filter f ys" "List.map_filter f [] = []"
  by (auto simp: map_filter_def split: option.split)

lemma in_hand_split:
  assumes "w < length (po_workers p)"
  obtains a b where "in_hand p = a @ opt_list (held (po_workers p ! w)) @ b"
    "\<And>v. List.map_filter held ((po_workers p)[w := v]) = a @ opt_list (held v) @ b"
proof
  let ?a = "List.map_filter held (take w (po_workers p))" and ?b = "List.map_filter held (drop (Suc w) (po_workers p))"
  show "in_hand p = ?a @ opt_list (held (po_workers p ! w)) @ ?b"
    unfolding in_hand_def by (subst id_take_nth_drop [OF assms]) (simp only: map_filter_list)
  show "List.map_filter held ((po_workers p)[w := v]) = ?a @ opt_list (held v) @ ?b" for v
    unfolding upd_conv_take_nth_drop [OF assms] by (simp only: map_filter_list)
qed

lemma held_replicate: "List.map_filter held (replicate n Idle) = []"
  by (induction n) (auto simp: map_filter_def)

lemma in_hand_start: "in_hand (pool_start n p) = in_hand p"
  by (simp add: in_hand_def pool_start_def map_filter_list held_replicate)

lemma pool_ok_register:
  assumes "pool_ok p" "dget (po_items p) i = None"
  shows "pool_ok (pool_register n (new_item i jid fid district calls agent) p)"
proof -
  let ?x = "new_item i jid fid district calls agent" and ?q = "pool_register n (new_item i jid fid district calls agent) p"
  have x: "wi_id ?x = i" "wi_status ?x = ''queued''" "\<not> wi_done ?x" "wi_result ?x = None" "wi_error ?x = None"
    by (simp_all add: new_item_def)
  have same: "po_items (pool_start n p) = po_items p" "po_queue (pool_start n p) = po_queue p" "po_putting (pool_start n p) = po_putting p"
    by (simp_all add: pool_start_def)
  have items: "po_items ?q = dset i ?x (po_items p)" by (simp add: pool_register_def x same Let_def)
  have wait: "waiting ?q = po_putting p @ [i] @ List.map_filter (\<lambda>q. q) (po_queue p)"
    "waiting p = po_putting p @ List.map_filter (\<lambda>q. q) (po_queue p)"
    by (simp_all add: waiting_def pool_register_def same x Let_def map_filter_list)
  have hand: "in_hand ?q = in_hand p" using in_hand_start [of n p] by (simp add: pool_register_def in_hand_def Let_def)
  have none: "i \<notin> with_status p st" for st using assms(2) by (simp add: with_status_def)
  have i: "i \<notin> set (waiting p)" "i \<notin> set (in_hand p)" using none by (simp_all add: pool_okD [OF assms(1)])
  show ?thesis
  proof (rule pool_ok_moved [OF assms(1) items])
    show "distinct (waiting ?q @ in_hand ?q)"
      using pool_okD(2) [OF assms(1)] i by (auto simp: wait hand)
    show "po_in_flight ?q = int (length (in_hand ?q))"
      using pool_okD(5) [OF assms(1)] by (simp add: hand) (simp add: pool_register_def pool_start_def Let_def)
  qed (use none i in \<open>auto simp: x wait hand item_ok_def\<close>, simp_all add: x pool_register_def pool_start_def Let_def)
qed

lemma pool_ok_put: "pool_ok p \<Longrightarrow> pool_put maxsize i p = Some p' \<Longrightarrow> pool_ok p'"
  by (erule pool_ok_same) (auto simp: pool_put_def waiting_def in_hand_def map_filter_list split: if_splits)

lemma set_item_dget: "dget (po_items p) i = Some x \<Longrightarrow> set_item i f p = p\<lparr>po_items := dset i (f x) (po_items p)\<rparr>"
  by (simp add: set_item_def)

lemma pool_ok_take:
  assumes "pool_ok p" "worker_take w p = Some p'"
  shows "pool_ok p'"
proof -
  have w: "w < length (po_workers p)" "po_workers p ! w = Idle"
    using assms(2) by (simp_all add: worker_take_def split: if_splits)
  obtain a b where ab: "in_hand p = a @ opt_list (held (po_workers p ! w)) @ b"
    "\<And>v. List.map_filter held ((po_workers p)[w := v]) = a @ opt_list (held v) @ b"
    using in_hand_split [OF w(1)] by blast
  note ok = pool_okD [OF assms(1)]
  consider q where "po_queue p = None # q" | i q where "po_queue p = Some i # q"
    using assms(2) w by (auto simp: worker_take_def split: list.splits option.splits)
  then show ?thesis
  proof cases
    case 1
    then show ?thesis
      using assms(2) w ab by (intro pool_ok_same [OF assms(1)]) (auto simp: worker_take_def waiting_def in_hand_def map_filter_list)
  next
    case (2 i q)
    then have "i \<in> with_status p ''queued''" using ok(3) by (auto simp: waiting_def map_filter_list)
    then obtain x where x: "dget (po_items p) i = Some x" "wi_status x = ''queued''" by (auto simp: with_status_def)
    let ?x = "x\<lparr>wi_status := ''running''\<rparr>"
    have p': "p' = p\<lparr>po_queue := q, po_workers := (po_workers p)[w := Acquiring i], po_in_flight := po_in_flight p + 1,
        po_items := dset i ?x (po_items p)\<rparr>"
      using assms(2) w 2 x by (simp add: worker_take_def set_item_dget)
    have hand: "in_hand p' = a @ [i] @ b" "in_hand p = a @ b" using ab(2) by (simp_all add: p' in_hand_def ab(1) [unfolded in_hand_def] w)
    have wait: "waiting p = po_putting p @ [i] @ List.map_filter (\<lambda>q. q) q" "waiting p' = po_putting p @ List.map_filter (\<lambda>q. q) q"
      by (simp_all add: waiting_def 2 map_filter_list p')
    show ?thesis
    proof (rule pool_ok_moved [OF assms(1)])
      show "po_items p' = dset i ?x (po_items p)" by (simp add: p')
      show "item_ok ?x" using ok(8) [OF x(1)] x(2) by (simp add: item_ok_def)
      show "distinct (waiting p' @ in_hand p')" using ok(2) by (auto simp: wait hand)
      show "po_in_flight p' = int (length (in_hand p'))" using ok(5) by (simp add: hand) (simp add: p' hand)
    qed (use ok(2) x in \<open>auto simp: wait hand with_status_def\<close>, simp_all add: p')
  qed
qed

lemma pool_ok_granted:
  assumes "pool_ok p" "worker_granted w p = Some p'"
  shows "pool_ok p'"
proof -
  obtain i where w: "w < length (po_workers p)" "po_workers p ! w = Acquiring i" "p' = p\<lparr>po_workers := (po_workers p)[w := Working i]\<rparr>"
    using assms(2) by (auto simp: worker_granted_def split: if_splits worker.splits)
  obtain a b where ab: "in_hand p = a @ opt_list (held (po_workers p ! w)) @ b"
    "\<And>v. List.map_filter held ((po_workers p)[w := v]) = a @ opt_list (held v) @ b"
    using in_hand_split [OF w(1)] by blast
  have "in_hand p' = in_hand p" by (simp add: ab(1) w) (simp add: w(3) in_hand_def ab(2))
  then show ?thesis by (intro pool_ok_same [OF assms(1)]) (simp_all add: w(3) waiting_def)
qed

lemma worker_run_cases:
  assumes "worker_run env te w p db = Some (p', db')"
  obtains i x out where "w < length (po_workers p)" "po_workers p ! w = Working i" "dget (po_items p) i = Some x"
    "p' = p\<lparr>po_items := dset i (item_outcome out x) (po_items p), po_workers := (po_workers p)[w := Idle],
      po_in_flight := max 0 (po_in_flight p - 1), po_completed := po_completed p + (if isl out then 0 else 1),
      po_failed := po_failed p + (if isl out then 1 else 0)\<rparr>"
proof -
  obtain i x where w: "w < length (po_workers p)" "po_workers p ! w = Working i" "dget (po_items p) i = Some x"
    using assms by (auto simp: worker_run_def split: if_splits worker.splits option.splits)
  obtain d out where "(case execute_tool_calls env te (wi_job_id x) (wi_calls x) (wi_agent_id x) db of
      Inl e \<Rightarrow> (db, Inl e) | Inr (db', v) \<Rightarrow> (db', Inr v)) = (d, out)"
    by (rule prod.exhaust)
  with assms w show thesis
    by (intro that [OF w, of out]) (simp add: worker_run_def Let_def set_item_dget del: One_nat_def)
qed

lemma pool_ok_run:
  assumes "pool_ok p" "worker_run env te w p db = Some (p', db')"
  shows "pool_ok p'"
proof -
  obtain i x out where w: "w < length (po_workers p)" "po_workers p ! w = Working i" "dget (po_items p) i = Some x"
    and p': "p' = p\<lparr>po_items := dset i (item_outcome out x) (po_items p), po_workers := (po_workers p)[w := Idle],
      po_in_flight := max 0 (po_in_flight p - 1), po_completed := po_completed p + (if isl out then 0 else 1),
      po_failed := po_failed p + (if isl out then 1 else 0)\<rparr>"
    using assms(2) by (rule worker_run_cases)
  obtain a b where ab: "in_hand p = a @ opt_list (held (po_workers p ! w)) @ b"
    "\<And>v. List.map_filter held ((po_workers p)[w := v]) = a @ opt_list (held v) @ b"
    using in_hand_split [OF w(1)] by blast
  note ok = pool_okD [OF assms(1)]
  have hand: "in_hand p' = a @ b" "in_hand p = a @ [i] @ b"
    using ab(2) by (simp_all add: p' in_hand_def ab(1) [unfolded in_hand_def] w)
  have run: "wi_status x = ''running''" using w(3) ok(4) [unfolded hand with_status_def, THEN equalityD1, THEN subsetD, of i] by simp
  have wait: "waiting p' = waiting p" by (simp add: waiting_def p')
  let ?x = "item_outcome out x"
  have x: "wi_status ?x = (if isl out then ''failed'' else ''completed'')" by (cases out) (simp_all add: item_outcome_def)
  show ?thesis
  proof (rule pool_ok_moved [OF assms(1)])
    show "po_items p' = dset i ?x (po_items p)" by (simp add: p')
    show "item_ok ?x" using ok(8) [OF w(3)] run by (cases out) (auto simp: item_ok_def item_outcome_def)
    show "distinct (waiting p' @ in_hand p')" using ok(2) by (auto simp: wait hand)
    show "po_in_flight p' = int (length (in_hand p'))" using ok(5) by (simp add: hand) (simp add: p' hand)
  qed (use ok(2) w(3) run x in \<open>auto simp: wait hand with_status_def\<close>, simp_all add: p')
qed

lemma pool_ok_stop: "pool_ok p \<Longrightarrow> pool_ok (pool_stop p)"
  by (erule pool_ok_same) (simp_all add: pool_stop_def waiting_def in_hand_def)

lemma pool_ok_sentinel: "pool_ok p \<Longrightarrow> put_sentinel maxsize p = Some p' \<Longrightarrow> pool_ok p'"
  by (erule pool_ok_same) (auto simp: put_sentinel_def waiting_def in_hand_def map_filter_list split: if_splits)

lemma held_all_returned: "list_all (\<lambda>w. w = Returned) ws \<Longrightarrow> List.map_filter held ws = []"
  by (induction ws) (auto simp: map_filter_list)

lemma pool_ok_stopped: "pool_ok p \<Longrightarrow> pool_stopped p = Some p' \<Longrightarrow> pool_ok p'"
  by (erule pool_ok_same) (auto simp: pool_stopped_def waiting_def in_hand_def held_all_returned map_filter_list split: if_splits)

lemma pool_ok_init: "pool_ok pool_init"
  by (simp add: pool_ok_def pool_init_def waiting_def in_hand_def with_status_def map_filter_list dget_def dict_ok_def dkeys_def)

lemma pool_ok_step: "pool_step n m s s' \<Longrightarrow> pool_ok (fst s) \<Longrightarrow> pool_ok (fst s')"
  by (induction rule: pool_step.induct)
    (auto intro: pool_ok_register pool_ok_put pool_ok_take pool_ok_granted pool_ok_run pool_ok_stop pool_ok_sentinel pool_ok_stopped)

lemma commons_ok_step: "pool_step n m s s' \<Longrightarrow> commons_ok (snd s) \<Longrightarrow> commons_ok (snd s')"
proof (induction rule: pool_step.induct)
  case (run env te w p db p' db')
  then show ?case
    by (auto simp: worker_run_def Let_def intro: commons_ok_execute
        split: if_splits worker.splits option.splits prod.splits sum.splits)
qed simp_all

interpretation pool_sys: invariant_system "pool_step n m" "\<lambda>s. fst s = pool_init \<and> commons_ok (snd s)"
  "\<lambda>s. pool_ok (fst s) \<and> commons_ok (snd s)" for n m
  by unfold_locales (auto simp: pool_ok_init dest: pool_ok_step commons_ok_step)

section \<open>The workers finish what was queued\<close>

inductive worker_step :: "pool \<times> city_db \<Rightarrow> pool \<times> city_db \<Rightarrow> bool" where
  take: "worker_take w p = Some p' \<Longrightarrow> worker_step (p, db) (p', db)"
| granted: "worker_granted w p = Some p' \<Longrightarrow> worker_step (p, db) (p', db)"
| run: "worker_run env te w p db = Some (p', db') \<Longrightarrow> worker_step (p, db) (p', db')"

lemma worker_step_pool: "worker_step s s' \<Longrightarrow> pool_step n m s s'"
  by (induction rule: worker_step.induct) (auto intro: pool_step.intros)

fun worker_load :: "worker \<Rightarrow> nat" where
  "worker_load (Acquiring _) = 2"
| "worker_load (Working _) = 1"
| "worker_load _ = 0"

definition pool_load :: "pool \<Rightarrow> nat" where
  "pool_load p = 3 * length (po_queue p) + sum_list (map worker_load (po_workers p))"

lemma worker_load_update:
  "w < length ws \<Longrightarrow> sum_list (map worker_load (ws[w := v])) + worker_load (ws ! w) = sum_list (map worker_load ws) + worker_load v"
  by (induction ws arbitrary: w) (auto simp: nth_Cons split: nat.splits)

lemma set_item_other [simp]:
  "po_queue (set_item i f p) = po_queue p" "po_workers (set_item i f p) = po_workers p" "po_putting (set_item i f p) = po_putting p"
  by (simp_all add: set_item_def split: option.splits)

text \<open>Every move of a worker lowers the load, so the workers alone cannot run forever.\<close>

lemma worker_step_load: "worker_step s s' \<Longrightarrow> pool_load (fst s') < pool_load (fst s)"
proof (induction rule: worker_step.induct)
  case (take w p p' db)
  then obtain x q v where "po_queue p = x # q" "w < length (po_workers p)" "po_workers p ! w = Idle"
    "po_queue p' = q" "po_workers p' = (po_workers p)[w := v]" "worker_load v \<le> 2"
    by (auto simp: worker_take_def split: if_splits list.splits option.splits)
  then show ?case using worker_load_update [of w "po_workers p" v] by (simp add: pool_load_def)
next
  case (granted w p p' db)
  then obtain i where "w < length (po_workers p)" "po_workers p ! w = Acquiring i" "p' = p\<lparr>po_workers := (po_workers p)[w := Working i]\<rparr>"
    by (auto simp: worker_granted_def split: if_splits worker.splits)
  then show ?case using worker_load_update [of w "po_workers p" "Working i"] by (simp add: pool_load_def)
next
  case (run env te w p db p' db')
  then show ?case using worker_load_update [of w "po_workers p" Idle]
    by (elim worker_run_cases) (simp add: pool_load_def)
qed

definition serving :: "pool \<Rightarrow> bool" where
  "serving p \<longleftrightarrow> None \<notin> set (po_queue p) \<and> (\<exists>v\<in>set (po_workers p). v \<noteq> Returned)"

lemma update_not_returned:
  assumes "w < length ws" "v \<noteq> Returned" shows "\<exists>u\<in>set (ws[w := v]). u \<noteq> Returned"
  using assms by (intro bexI [of _ v]) (simp_all add: set_update_memI)

lemma worker_step_serving:
  "worker_step s s' \<Longrightarrow> serving (fst s) \<Longrightarrow> serving (fst s') \<and> po_putting (fst s') = po_putting (fst s) \<and>
     set (dkeys (po_items (fst s))) \<subseteq> set (dkeys (po_items (fst s')))"
proof (induction rule: worker_step.induct)
  case (take w p p' db)
  then obtain i q where "po_queue p = Some i # q" "w < length (po_workers p)"
    "p' = set_item i (wi_status_update (\<lambda>_. ''running''))
       (p\<lparr>po_queue := q, po_workers := (po_workers p)[w := Acquiring i], po_in_flight := po_in_flight p + 1\<rparr>)"
    by (auto simp: worker_take_def serving_def split: if_splits list.splits option.splits)
  then show ?case using take update_not_returned [of w "po_workers p" "Acquiring i"]
    by (auto simp: serving_def set_item_def dkeys_dset split: option.splits)
next
  case (granted w p p' db)
  then obtain i where "w < length (po_workers p)" "p' = p\<lparr>po_workers := (po_workers p)[w := Working i]\<rparr>"
    by (auto simp: worker_granted_def split: if_splits worker.splits)
  then show ?case using granted update_not_returned [of w "po_workers p" "Working i"] by (simp add: serving_def)
next
  case (run env te w p db p' db')
  then show ?case using update_not_returned [of w "po_workers p" Idle]
    by (elim worker_run_cases) (auto simp: serving_def dkeys_dset)
qed

lemma worker_steps_serving:
  "worker_step\<^sup>*\<^sup>* s s' \<Longrightarrow> serving (fst s) \<Longrightarrow> serving (fst s') \<and> po_putting (fst s') = po_putting (fst s) \<and>
     set (dkeys (po_items (fst s))) \<subseteq> set (dkeys (po_items (fst s')))"
proof (induction rule: rtranclp_induct)
  case (step y z)
  with worker_step_serving [OF step.hyps(2)] show ?case by (metis order.trans)
qed simp

lemma worker_not_stuck:
  assumes "pool_ok p" "serving p" "po_queue p \<noteq> [] \<or> in_hand p \<noteq> []"
  shows "\<exists>s'. worker_step (p, db) s'"
proof -
  obtain w where w: "w < length (po_workers p)" "po_workers p ! w \<noteq> Returned" "po_queue p \<noteq> [] \<or> po_workers p ! w \<noteq> Idle"
  proof (cases "in_hand p = []")
    case True
    then show thesis using that assms(2,3) by (auto simp: serving_def in_set_conv_nth)
  next
    case False
    then obtain v i where "v \<in> set (po_workers p)" "held v = Some i" by (auto simp: in_hand_def map_filter_def filter_empty_conv)
    moreover then have "v \<noteq> Idle" "v \<noteq> Returned" by auto
    ultimately show thesis using that by (auto simp: in_set_conv_nth)
  qed
  show ?thesis
  proof (cases "po_workers p ! w")
    case Idle
    then have "worker_take w p \<noteq> None" using w by (auto simp: worker_take_def split: list.splits option.splits)
    then show ?thesis using worker_step.take by blast
  next
    case (Acquiring i)
    then have "worker_granted w p \<noteq> None" using w by (auto simp: worker_granted_def)
    then show ?thesis using worker_step.granted by blast
  next
    case (Working i)
    then have "held (po_workers p ! w) = Some i" by simp
    then have "i \<in> set (in_hand p)" using w(1) unfolding in_hand_def map_filter_def by force
    then obtain x where "dget (po_items p) i = Some x" using pool_okD(4) [OF assms(1)] by (auto simp: with_status_def)
    then have "worker_run env te w p db \<noteq> None" for env te
      using w(1) Working by (simp add: worker_run_def Let_def split: prod.splits)
    then show ?thesis using worker_step.run by fast
  qed (use w in simp)
qed

section \<open>The properties of the pool\<close>


lemma no_endless_work: "\<not> (\<exists>f. f 0 = (p, db) \<and> (\<forall>k. worker_step (f k) (f (Suc k))))"
proof
  assume "\<exists>f. f 0 = (p, db) \<and> (\<forall>k. worker_step (f k) (f (Suc k)))"
  then obtain f where "\<forall>k. worker_step (f k) (f (Suc k))" by blast
  then have "\<forall>k. (f (Suc k), f k) \<in> measure (pool_load \<circ> fst)" using worker_step_load by (simp add: in_measure)
  then show False using wf_iff_no_infinite_down_chain [THEN iffD1, OF wf_measure [of "pool_load \<circ> fst"]] by blast
qed

lemma work_drained:
  assumes "pool_ok p" "serving p" and steps: "worker_step\<^sup>*\<^sup>* (p, db) (p', db')" and stuck: "\<not> (\<exists>s. worker_step (p', db') s)"
  shows "po_queue p' = []" "in_hand p' = []"
    and "Some i \<in> set (po_queue p) \<or> i \<in> set (in_hand p) \<Longrightarrow>
      \<exists>x. dget (po_items p') i = Some x \<and> wi_done x \<and> wi_status x \<in> {''completed'', ''failed''}"
proof -
  have ok: "pool_ok p'" using steps assms(1)
    by (induction rule: rtranclp_induct2) (auto dest: pool_ok_step [OF worker_step_pool])
  have s: "serving p'" "po_putting p' = po_putting p" "set (dkeys (po_items p)) \<subseteq> set (dkeys (po_items p'))"
    using worker_steps_serving [OF steps] assms(2) by simp_all
  show e: "po_queue p' = []" "in_hand p' = []" using worker_not_stuck [OF ok s(1)] stuck by blast+
  show "\<exists>x. dget (po_items p') i = Some x \<and> wi_done x \<and> wi_status x \<in> {''completed'', ''failed''}"
    if i: "Some i \<in> set (po_queue p) \<or> i \<in> set (in_hand p)"
  proof -
    have w: "i \<in> set (List.map_filter (\<lambda>q. q) (po_queue p)) \<or> i \<in> set (in_hand p)" using i by (force simp: map_filter_def)
    then have "i \<in> with_status p ''queued'' \<or> i \<in> with_status p ''running''"
      unfolding pool_okD(3,4) [OF assms(1), symmetric] by (auto simp: waiting_def)
    then have "i \<in> set (dkeys (po_items p'))" using s(3) by (auto simp: with_status_def dest: dget_Some_keys)
    then obtain x where x: "dget (po_items p') i = Some x" by (metis dget_None not_None_eq)
    have "i \<notin> set (po_putting p)" using w pool_okD(2) [OF assms(1)] by (auto simp: waiting_def)
    then have "i \<notin> with_status p' ''queued''" "i \<notin> with_status p' ''running''"
      unfolding pool_okD(3,4) [OF ok, symmetric] by (simp_all add: waiting_def e s(2) map_filter_list)
    with x pool_okD(8) [OF ok x] show ?thesis by (auto simp: item_ok_def with_status_def)
  qed
qed


section \<open>Witnesses\<close>

text \<open>One batch for a job that does not exist: it is registered, queued, taken, granted its slots and fails.\<close>

definition pool1 :: pool where
  "pool1 = pool_register 1 (new_item ''w'' ''j'' ''f'' [] [] None) pool_init"

definition pool2 :: pool where
  "pool2 = the (pool_put 2 ''w'' pool1)"

definition pool3 :: pool where
  "pool3 = the (worker_granted 0 (the (worker_take 0 pool2)))"

definition pool_db :: city_db where
  "pool_db = work_db\<lparr>jobs := []\<rparr>"

definition pool4 :: "pool \<times> city_db" where
  "pool4 = the (worker_run work_env work_tools 0 pool3 pool_db)"

lemma pool_trace:
  "pool_put 2 ''w'' pool1 = Some pool2" "worker_take 0 pool2 = Some (the (worker_take 0 pool2))"
  "worker_granted 0 (the (worker_take 0 pool2)) = Some pool3" "worker_run work_env work_tools 0 pool3 pool_db = Some pool4"
  "pv_failed (pool_snapshot (fst pool4)) = 1"
  "po_queue pool2 = [Some ''w'']" "po_workers pool2 = [Idle]" "po_queue (fst pool4) = []" "po_workers (fst pool4) = [Idle]"
  by code_simp+

lemma pool_trace_steps: "(pool_step 1 2)\<^sup>*\<^sup>* (pool_init, pool_db) (pool2, pool_db)" "worker_step\<^sup>*\<^sup>* (pool2, pool_db) pool4"
proof -
  have "pool_step 1 2 (pool_init, pool_db) (pool1, pool_db)"
    unfolding pool1_def by (rule pool_step.register) (simp add: pool_init_def dget_def)
  moreover have "pool_step 1 2 (pool1, pool_db) (pool2, pool_db)" by (rule pool_step.put [OF pool_trace(1)])
  ultimately show "(pool_step 1 2)\<^sup>*\<^sup>* (pool_init, pool_db) (pool2, pool_db)" by simp
  have "worker_step (pool2, pool_db) (the (worker_take 0 pool2), pool_db)" by (rule worker_step.take [OF pool_trace(2)])
  moreover have "worker_step (the (worker_take 0 pool2), pool_db) (pool3, pool_db)" by (rule worker_step.granted [OF pool_trace(3)])
  moreover have "worker_step (pool3, pool_db) pool4"
    using worker_step.run [of work_env work_tools 0 pool3 pool_db "fst pool4" "snd pool4"] pool_trace(4) by simp
  ultimately show "worker_step\<^sup>*\<^sup>* (pool2, pool_db) pool4" by (meson converse_rtranclp_into_rtranclp rtranclp.rtrancl_refl)
qed

lemma pool_trace_all: "(pool_step 1 2)\<^sup>*\<^sup>* (pool_init, pool_db) pool4"
proof -
  have "worker_step \<le> pool_step 1 2" using worker_step_pool by blast
  then have "(pool_step 1 2)\<^sup>*\<^sup>* (pool2, pool_db) pool4" using pool_trace_steps(2) by (metis rtranclp_mono predicate2D)
  with pool_trace_steps(1) show ?thesis by (rule rtranclp_trans)
qed

lemma pool_db_ok: "commons_ok pool_db"
  by (rule commons.init_inv) (simp add: pool_db_def work_db_def city_empty_def)


lemma pool4_stuck: "\<not> (\<exists>s. worker_step pool4 s)"
proof
  assume "\<exists>s. worker_step pool4 s"
  then obtain s where "worker_step (fst pool4, snd pool4) s" by auto
  then show False
    by cases (auto simp: worker_take_def worker_granted_def worker_run_def pool_trace(8,9) split: if_splits)
qed


end
