(* ===== verification/ApiGuard.thy ===== *)
theory ApiGuard
  imports Sandbox
begin

text \<open>
  What stands in front of the API: the key check of \<open>src/persola/auth.py\<close>, which every request passes,
  and the route of \<open>src/persola/api/main.py\<close> that serves static files.

  A handler that raises answers with a status code: an \<open>HTTPException\<close> with its own, any other exception
  with 500. The path of a request is the text the server hands on, the environment variable with the
  keys an argument. As in \<open>Sandbox\<close>, a path of the host is a list of components and \<open>Path.resolve\<close>, which
  follows symbolic links, is an argument; so is the test whether a path is a regular file.
\<close>

section \<open>Errors of a handler\<close>

datatype api_error = HTTPException int string | Unhandled pyexc

type_synonym 'a api = "api_error + 'a"

definition abind :: "'a api \<Rightarrow> ('a \<Rightarrow> 'b api) \<Rightarrow> 'b api" where
  "abind m f = (case m of Inl e \<Rightarrow> Inl e | Inr x \<Rightarrow> f x)"

definition lift_res :: "'a res \<Rightarrow> 'a api" where
  "lift_res m = (case m of Inl e \<Rightarrow> Inl (Unhandled e) | Inr x \<Rightarrow> Inr x)"

fun status_code :: "api_error \<Rightarrow> int" where
  "status_code (HTTPException c _) = c"
| "status_code (Unhandled _) = 500"

lemma abind_simps [simp]: "abind (Inl e) f = Inl e" "abind (Inr x) f = f x"
  by (simp_all add: abind_def)

lemma abind_eq_Inr: "abind m f = Inr y \<longleftrightarrow> (\<exists>x. m = Inr x \<and> f x = Inr y)"
  by (cases m) auto

lemma lift_res_eq_Inr: "lift_res m = Inr x \<longleftrightarrow> m = Inr x"
  by (cases m) (simp_all add: lift_res_def)

lemma lift_res_simps [simp]: "lift_res (Inr x) = Inr x" "lift_res (Inl e) = Inl (Unhandled e)"
  by (simp_all add: lift_res_def)

section \<open>The API key\<close>

definition EXEMPT_PREFIXES :: "string list" where
  "EXEMPT_PREFIXES = [''/health'', ''/'', ''/ui'', ''/static'', ''/metrics'', ''/api/v1/city/health'']"

definition get_valid_keys :: "string option \<Rightarrow> string list" where
  "get_valid_keys env = map py_strip (filter (\<lambda>k. py_strip k \<noteq> [])
     (py_split (CHR '','') (case env of None \<Rightarrow> [] | Some raw \<Rightarrow> raw)))"

definition is_exempt :: "string \<Rightarrow> bool" where
  "is_exempt path = (if path = ''/'' then True
     else list_ex (\<lambda>prefix. prefix \<noteq> ''/'' \<and> py_startswith path prefix) EXEMPT_PREFIXES)"

text \<open>The middleware answers 401 itself or hands the request on to \<open>call_next\<close>.\<close>

definition dispatch :: "string option \<Rightarrow> string \<Rightarrow> string option \<Rightarrow> 'a api \<Rightarrow> 'a api" where
  "dispatch env path header call_next =
    (if is_exempt path then call_next
     else let valid_keys = get_valid_keys env in
       if valid_keys = [] then call_next
       else let provided_key = (case header of None \<Rightarrow> [] | Some k \<Rightarrow> k) in
         if provided_key \<notin> set valid_keys then Inl (HTTPException 401 ''Invalid or missing API key'')
         else call_next)"

section \<open>Static files\<close>

definition safe_static_char :: "char \<Rightarrow> bool" where
  "safe_static_char c = (let n = of_char c :: int in
     65 \<le> n \<and> n \<le> 90 \<or> 97 \<le> n \<and> n \<le> 122 \<or> 48 \<le> n \<and> n \<le> 57 \<or> c \<in> {CHR ''.'', CHR ''_'', CHR ''-''})"

definition safe_static_segment :: "string \<Rightarrow> bool" where
  "safe_static_segment p = (p \<noteq> [] \<and> list_all safe_static_char p)"

text \<open>\<open>Path(text).parts\<close> of a relative path drops empty components and single dots.\<close>

definition get_static :: "(path \<Rightarrow> path) \<Rightarrow> (path \<Rightarrow> bool) \<Rightarrow> path \<Rightarrow> string \<Rightarrow> path api" where
  "get_static resolve is_file static_dir text =
    (let static_root = resolve static_dir in
     if py_startswith text ''/'' \<or> CHR 0x00 \<in> set text then Inl (HTTPException 403 ''Forbidden'')
     else let parts = path_parts text in
       if parts = [] \<or> list_ex (\<lambda>part. part \<in> {[], ''.'', ''..''}) parts \<or>
          list_ex (\<lambda>part. \<not> safe_static_segment part) parts
       then Inl (HTTPException 403 ''Forbidden'')
       else let static_path = resolve (static_root @ parts) in
         if take (length static_root) static_path \<noteq> static_root then Inl (HTTPException 403 ''Forbidden'')
         else if \<not> is_file static_path then Inl (HTTPException 404 ''File not found'')
         else Inr static_path)"

section \<open>Laws\<close>

lemma get_valid_keys_in:
  "k \<in> set (get_valid_keys env) \<longleftrightarrow>
     k \<noteq> [] \<and> (\<exists>raw w. env = Some raw \<and> w \<in> set (py_split (CHR '','') raw) \<and> k = py_strip w)"
  by (cases env) (auto simp: get_valid_keys_def py_strip_def py_strip_by_def)

lemma slash_unsafe: "\<not> safe_static_char (CHR ''/'')"
  by code_simp

lemma safe_static_no_slash: "safe_static_segment p \<Longrightarrow> CHR ''/'' \<notin> set p"
  using slash_unsafe by (auto simp: safe_static_segment_def list_all_iff)


text \<open>
  A static file is served only from below the static directory, whatever symbolic links the host
  has, for every text a client sends; the components of the requested path hold only letters, digits,
  dots, dashes and underscores, and none of them steps up. Everything else is answered with 403 or 404.
\<close>

theorem static_confined:
  "case get_static resolve is_file static_dir text of
     Inr target \<Rightarrow> is_file target \<and> take (length (resolve static_dir)) target = resolve static_dir \<and>
       (\<exists>parts. parts \<noteq> [] \<and> target = resolve (resolve static_dir @ parts) \<and>
          list_all (\<lambda>p. safe_static_segment p \<and> p \<noteq> ''..'' \<and> CHR ''/'' \<notin> set p) parts)
   | Inl e \<Rightarrow> status_code e = 403 \<or> status_code e = 404"
proof (cases "get_static resolve is_file static_dir text")
  case (Inr target)
  then have p: "path_parts text \<noteq> []" "target = resolve (resolve static_dir @ path_parts text)" "is_file target"
    "take (length (resolve static_dir)) target = resolve static_dir"
    "\<forall>p \<in> set (path_parts text). p \<noteq> ''..'' \<and> safe_static_segment p"
    by (auto simp: get_static_def Let_def list_ex_iff split: if_splits)
  with Inr show ?thesis by (auto simp: list_all_iff safe_static_no_slash intro!: exI [of _ "path_parts text"])
qed (auto simp: get_static_def Let_def split: if_splits)

end
