(* ===== verification/RateLimit.thy ===== *)
theory RateLimit
  imports PyFloat ApiGuard
begin

text \<open>
  The token-bucket rate limiter of \<open>src/persola/cache.py\<close> and the two routes guarded by it.

  The script that Redis runs is a string of the source and runs as one command, so a request is one
  step. Its numbers are binary64 (\<open>PyFloat\<close>), and Redis keeps them with 17 digits, which loses
  nothing. A bucket is the hash of its key, \<open>None\<close> when there is none. Redis drops a key whose time to live has
  passed; whether it has done so before a request is part of the request (\<open>rq_dropped\<close>), and so is
  whether Redis can be reached.
\<close>

section \<open>The script\<close>

record bucket =
  bk_tokens :: float64
  bk_last_refill :: float64

definition refilled_tokens :: "float64 \<Rightarrow> float64 \<Rightarrow> float64 \<Rightarrow> bucket option \<Rightarrow> float64" where
  "refilled_tokens capacity refill_rate now data =
    (let tokens = (case data of None \<Rightarrow> capacity | Some b \<Rightarrow> bk_tokens b);
         last_refill = (case data of None \<Rightarrow> now | Some b \<Rightarrow> bk_last_refill b);
         elapsed = max 0 (fsub now last_refill)
     in min capacity (fadd tokens (fmul elapsed refill_rate)))"

definition TOKEN_BUCKET_LUA ::
  "float64 \<Rightarrow> float64 \<Rightarrow> float64 \<Rightarrow> float64 \<Rightarrow> bucket option \<Rightarrow> bucket \<times> int \<times> int" where
  "TOKEN_BUCKET_LUA capacity refill_rate now requested data =
    (let refilled = refilled_tokens capacity refill_rate now data;
         (refilled, allowed) = (if requested \<le> refilled then (fsub refilled requested, 1) else (refilled, 0))
     in (\<lparr> bk_tokens = refilled, bk_last_refill = now \<rparr>, allowed, \<lfloor>refilled\<rfloor>))"

section \<open>The limiter\<close>

record limiter =
  rl_capacity :: int
  rl_refill_rate :: float64
  rl_ttl :: int

definition TokenBucketRateLimiter :: "int \<Rightarrow> float64 \<Rightarrow> limiter res" where
  "TokenBucketRateLimiter capacity refill_rate =
    (if capacity < 1 then Inl (ValueError ''capacity must be >= 1'')
     else if refill_rate \<le> 0 then Inl (ValueError ''refill_rate must be > 0'')
     else Inr \<lparr> rl_capacity = capacity, rl_refill_rate = refill_rate,
       rl_ttl = max 60 (py_int (fmul (fdiv (of_int capacity) refill_rate) 2)) \<rparr>)"

definition bucket_key :: "string \<Rightarrow> string" where
  "bucket_key identifier = ''persola:ratelimit:tb'' @ '':'' @ identifier"

record rate_request =
  rq_now :: float64
  rq_tokens :: int
  rq_dropped :: bool
  rq_reachable :: bool

definition consume :: "limiter \<Rightarrow> string \<Rightarrow> rate_request \<Rightarrow> (string, bucket) dict \<Rightarrow> (string, bucket) dict \<times> bool \<times> int" where
  "consume l identifier rq redis =
    (if \<not> rq_reachable rq then (redis, True, rl_capacity l)
     else let key = bucket_key identifier;
              (b, allowed, remaining) = TOKEN_BUCKET_LUA (of_int (rl_capacity l)) (rl_refill_rate l) (rq_now rq)
                (of_int (rq_tokens rq)) (if rq_dropped rq then None else dget redis key)
          in (dset key b redis, allowed = 1, remaining))"

text \<open>The two dependencies of the API that consume a token before the handler runs.\<close>

definition invoke_bucket :: "limiter res" where
  "invoke_bucket = TokenBucketRateLimiter 30 (fl (1/2))"

definition invoke_rate_limit :: "limiter \<Rightarrow> string \<Rightarrow> rate_request \<Rightarrow> (string, bucket) dict \<Rightarrow> (string, bucket) dict \<times> unit api" where
  "invoke_rate_limit l identifier rq redis =
    (case consume l identifier (rq\<lparr>rq_tokens := 1\<rparr>) redis of
       (redis, allowed, remaining) \<Rightarrow> (redis, if \<not> allowed then Inl (HTTPException 429 ''Rate limit exceeded'') else Inr ()))"

definition team_rate_limit :: "limiter \<Rightarrow> string \<Rightarrow> rate_request \<Rightarrow> (string, bucket) dict \<Rightarrow> (string, bucket) dict \<times> unit api" where
  "team_rate_limit l identifier rq redis =
    (case consume l identifier (rq\<lparr>rq_tokens := 1\<rparr>) redis of
       (redis, allowed, remaining) \<Rightarrow> (redis, if \<not> allowed then Inl (HTTPException 429 ''Team invoke rate limit exceeded'') else Inr ()))"

section \<open>A budget argument\<close>

text \<open>
  Operations that spend from a potential: when each one spends at most what the potential loses plus an
  allowance, a run spends at most the potential at its start plus all allowances.
\<close>

locale budgeted =
  fixes step :: "'q \<Rightarrow> 's \<Rightarrow> 's"
    and ok :: "'q \<Rightarrow> 's \<Rightarrow> bool"
    and inv :: "'s \<Rightarrow> bool"
    and cost :: "'q \<Rightarrow> 's \<Rightarrow> rat"
    and potential :: "'s \<Rightarrow> rat"
    and allowance :: "'q \<Rightarrow> 's \<Rightarrow> rat"
  assumes inv_step: "inv s \<Longrightarrow> ok q s \<Longrightarrow> inv (step q s)"
    and nonneg: "inv s \<Longrightarrow> 0 \<le> potential s"
    and spend: "inv s \<Longrightarrow> ok q s \<Longrightarrow> cost q s + potential (step q s) \<le> potential s + allowance q s"
begin

fun run_ok :: "'q list \<Rightarrow> 's \<Rightarrow> bool" where
  "run_ok [] s = True"
| "run_ok (q # qs) s = (ok q s \<and> run_ok qs (step q s))"

fun total :: "('q \<Rightarrow> 's \<Rightarrow> rat) \<Rightarrow> 'q list \<Rightarrow> 's \<Rightarrow> rat" where
  "total f [] s = 0"
| "total f (q # qs) s = f q s + total f qs (step q s)"

lemma total_cost: "inv s \<Longrightarrow> run_ok qs s \<Longrightarrow> total cost qs s \<le> potential s + total allowance qs s"
proof (induction qs arbitrary: s)
  case (Cons q qs)
  then have "total cost qs (step q s) \<le> potential (step q s) + total allowance qs (step q s)"
    using inv_step by simp
  with Cons.prems spend [of s q] show ?case by simp
qed (use nonneg in simp)

end

section \<open>Rounding errors\<close>

definition eps :: rat where "eps = 1 / 2 ^ 53"
definition eta :: rat where "eta = 1 / 2 ^ 1075"

lemma eps_eta_pos [simp]: "0 < eps" "0 \<le> eps" "0 < eta" "0 \<le> eta"
  by (simp_all add: eps_def eta_def)

lemma eps_eta_small: "eps \<le> 1/8" "eta \<le> 1/8"
  by (simp_all add: eps_def eta_def)

lemma half_ulp: assumes "0 < x" shows "ulp x / 2 \<le> x * eps + eta"
proof -
  have "2 powi ilog2 x \<le> x" using ilog2_spec [OF assms] by blast
  moreover have "ulp x \<le> 2 powi (ilog2 x - 52) + 2 powi (- 1074)"
    using assms by (simp add: ulp_def max_def)
  moreover have "(2::rat) powi (ilog2 x - 52) = 2 powi ilog2 x / 2 ^ 52" by (simp add: power_int_diff)
  moreover have "(2::rat) powi (- 1074) = 1 / 2 ^ 1074" by (simp add: power_int_minus_divide)
  ultimately show ?thesis by (simp add: eps_def eta_def)
qed

lemma fl_upper: assumes "0 \<le> x" shows "fl x \<le> x + x * eps + eta"
proof (cases "x = 0")
  case False
  then show ?thesis using half_ulp [of x] fl_error [of x] assms by linarith
qed simp

lemma fl_lower: assumes "0 \<le> x" shows "x - x * eps - eta \<le> fl x"
proof (cases "x = 0")
  case False
  then show ?thesis using half_ulp [of x] fl_error [of x] assms by linarith
qed simp

text \<open>Below a cap the error of a sum or difference is at most that of the cap.\<close>

lemma fl_upper_cap: assumes "0 \<le> x" "x \<le> c" shows "fl x \<le> x + (c * eps + eta)"
proof -
  have "x * eps \<le> c * eps" using assms(2) by (intro mult_right_mono) simp_all
  then show ?thesis using fl_upper [OF assms(1)] by linarith
qed

section \<open>One request\<close>

definition slack :: "rat \<Rightarrow> rat \<Rightarrow> rat" where
  "slack c r = 2 * (c * eps + eta) + eta * (r * (1 + eps) + 1)"

lemma refill_upper:
  assumes "0 \<le> d" "0 \<le> r"
  shows "fmul (fl d) r \<le> d * r * (1 + eps)^2 + eta * (r * (1 + eps) + 1)"
proof -
  have "fl d * r \<le> (d + d * eps + eta) * r" using fl_upper [OF assms(1)] assms(2) by (rule mult_right_mono)
  from mult_right_mono [OF this, of "1 + eps"]
  have "fl d * r * (1 + eps) \<le> (d + d * eps + eta) * r * (1 + eps)" by (simp add: add_nonneg_nonneg)
  moreover have n: "0 \<le> fl d * r" using fl_nonneg [OF assms(1)] assms(2) by simp
  moreover have "fmul (fl d) r \<le> fl d * r * (1 + eps) + eta"
    using fl_upper [OF n] by (simp add: fmul_def distrib_left)
  ultimately show ?thesis by (simp add: power2_eq_square algebra_simps)
qed

lemma refilled_range:
  assumes "0 \<le> c" "0 \<le> r" "\<And>b. data = Some b \<Longrightarrow> 0 \<le> bk_tokens b"
  shows "0 \<le> refilled_tokens c r now data" "refilled_tokens c r now data \<le> c"
  using assms by (auto simp: refilled_tokens_def Let_def split: option.splits)

lemma refilled_upper:
  assumes "0 \<le> bk_tokens b" "bk_last_refill b \<le> now" "0 \<le> c" "0 \<le> r"
  shows "refilled_tokens c r now (Some b) \<le>
    bk_tokens b + (now - bk_last_refill b) * r * (1 + eps)^2 + (c * eps + eta) + eta * (r * (1 + eps) + 1)"
proof -
  let ?d = "now - bk_last_refill b" and ?x = "fmul (fl (now - bk_last_refill b)) r"
  have x: "?x \<le> ?d * r * (1 + eps)^2 + eta * (r * (1 + eps) + 1)" "0 \<le> ?x"
    using refill_upper [of ?d r] assms by (simp_all add: fl_nonneg)
  have pos: "0 \<le> c * eps + eta" using assms(3) by simp
  have "max 0 (fsub now (bk_last_refill b)) = fl ?d" using assms(2) fl_nonneg [of ?d] by (simp add: fsub_def)
  then have r: "refilled_tokens c r now (Some b) = min c (fl (bk_tokens b + ?x))"
    by (simp add: refilled_tokens_def fadd_def Let_def)
  have "min c (fl (bk_tokens b + ?x)) \<le> bk_tokens b + ?x + (c * eps + eta)"
  proof (cases "bk_tokens b + ?x \<le> c")
    case True
    then show ?thesis using fl_upper_cap [OF _ True] assms(1) x(2) by (simp add: min.coboundedI2)
  qed (use pos in \<open>simp add: min.coboundedI1\<close>)
  with x(1) show ?thesis unfolding r by linarith
qed

text \<open>The time to live is long enough for a bucket to fill up, so a dropped bucket would be full anyway.\<close>

lemma ttl_fills:
  assumes "TokenBucketRateLimiter capacity refill_rate = Inr l"
  shows "of_int (rl_capacity l) \<le> of_int (rl_ttl l) * rl_refill_rate l"
proof -
  define x where "x = of_int capacity / refill_rate"
  have l: "rl_capacity l = capacity" "rl_refill_rate l = refill_rate" "0 < refill_rate" "1 \<le> capacity"
    "rl_ttl l = max 60 (py_int (fmul (fdiv (of_int capacity) refill_rate) 2))"
    using assms by (auto simp: TokenBucketRateLimiter_def split: if_splits)
  have "x \<le> of_int (rl_ttl l)"
  proof (cases "x \<le> 60")
    case True
    also have "(60 :: rat) \<le> of_int (rl_ttl l)" by (simp add: l(5))
    finally show ?thesis .
  next
    case False
    then have "x * eps \<le> x * (1/8)" by (intro mult_left_mono eps_eta_small) simp
    moreover have "x - x * eps - eta \<le> fl x" using False by (intro fl_lower) simp
    ultimately have "x + 1 \<le> 2 * fl x" using False eps_eta_small(2) by linarith
    moreover have "fmul (fdiv (of_int capacity) refill_rate) 2 = 2 * fl x"
      using fl_double [of "fl x"] by (simp add: fmul_def fdiv_def x_def mult.commute)
    moreover have "2 * fl x - 1 \<le> of_int (py_int (2 * fl x))"
      using calculation(1) False by (simp add: py_int_def) linarith
    ultimately have "x \<le> of_int (py_int (fmul (fdiv (of_int capacity) refill_rate) 2))" by simp
    also have "\<dots> \<le> of_int (rl_ttl l)" by (simp add: l(5))
    finally show ?thesis .
  qed
  then show ?thesis using l by (simp add: x_def pos_divide_le_eq)
qed

section \<open>A run of requests\<close>

definition bucket_step :: "limiter \<Rightarrow> rate_request \<Rightarrow> bucket \<Rightarrow> bucket" where
  "bucket_step l rq b = fst (TOKEN_BUCKET_LUA (of_int (rl_capacity l)) (rl_refill_rate l) (rq_now rq)
     (of_int (rq_tokens rq)) (if rq_dropped rq then None else Some b))"

definition bucket_granted :: "limiter \<Rightarrow> rate_request \<Rightarrow> bucket \<Rightarrow> rat" where
  "bucket_granted l rq b = (if fst (snd (TOKEN_BUCKET_LUA (of_int (rl_capacity l)) (rl_refill_rate l) (rq_now rq)
     (of_int (rq_tokens rq)) (if rq_dropped rq then None else Some b))) = 1 then of_int (rq_tokens rq) else 0)"

definition request_ok :: "limiter \<Rightarrow> rate_request \<Rightarrow> bucket \<Rightarrow> bool" where
  "request_ok l rq b \<longleftrightarrow> 0 \<le> rq_tokens rq \<and> bk_last_refill b \<le> rq_now rq \<and>
     (rq_dropped rq \<longrightarrow> bk_last_refill b + of_int (rl_ttl l) \<le> rq_now rq)"

definition bucket_allowance :: "limiter \<Rightarrow> rate_request \<Rightarrow> bucket \<Rightarrow> rat" where
  "bucket_allowance l rq b = (rq_now rq - bk_last_refill b) * rl_refill_rate l * (1 + eps)^2 +
     slack (of_int (rl_capacity l)) (rl_refill_rate l)"

definition limiter_ok :: "limiter \<Rightarrow> bool" where
  "limiter_ok l \<longleftrightarrow> 1 \<le> rl_capacity l \<and> rl_capacity l \<le> 2 ^ 53 \<and> 0 < rl_refill_rate l \<and>
     of_int (rl_capacity l) \<le> of_int (rl_ttl l) * rl_refill_rate l"

definition bucket_ok :: "limiter \<Rightarrow> bucket \<Rightarrow> bool" where
  "bucket_ok l b \<longleftrightarrow> limiter_ok l \<and> 0 \<le> bk_tokens b \<and> bk_tokens b \<le> of_int (rl_capacity l)"

lemma fl_capacity: "limiter_ok l \<Longrightarrow> fl (of_int (rl_capacity l)) = of_int (rl_capacity l)"
  by (intro fl_of_int) (simp add: limiter_ok_def)

lemma refilled_before:
  assumes "bucket_ok l b" "request_ok l rq b"
  defines "c \<equiv> of_int (rl_capacity l) :: rat" and "r \<equiv> rl_refill_rate l"
  shows "refilled_tokens c r (rq_now rq) (if rq_dropped rq then None else Some b) \<le>
    bk_tokens b + (rq_now rq - bk_last_refill b) * r * (1 + eps)^2 + (c * eps + eta) + eta * (r * (1 + eps) + 1)"
proof (cases "rq_dropped rq")
  case False
  then show ?thesis using assms by (simp add: refilled_upper bucket_ok_def limiter_ok_def request_ok_def)
next
  case True
  have l: "0 < r" "0 \<le> c" "c \<le> of_int (rl_ttl l) * r" "0 \<le> bk_tokens b" using assms by (simp_all add: bucket_ok_def limiter_ok_def)
  have d: "of_int (rl_ttl l) \<le> rq_now rq - bk_last_refill b" using assms(2) True by (simp add: request_ok_def algebra_simps)
  have "c \<le> (rq_now rq - bk_last_refill b) * r"
    using l(3) mult_right_mono [OF d less_imp_le [OF l(1)]] by (rule order.trans)
  moreover have "(rq_now rq - bk_last_refill b) * r * 1 \<le> (rq_now rq - bk_last_refill b) * r * (1 + eps)^2"
    using assms(2) l(1) by (intro mult_left_mono) (simp_all add: request_ok_def one_le_power)
  moreover have "0 \<le> c * eps + eta" "0 \<le> eta * (r * (1 + eps) + 1)" using l by (simp_all add: add_nonneg_nonneg)
  moreover have "refilled_tokens c r (rq_now rq) None \<le> c" by (simp add: refilled_tokens_def Let_def)
  ultimately show ?thesis using l(4) True by simp
qed

lemma lua_outcome:
  assumes "limiter_ok l" "0 \<le> k" "\<And>b. data = Some b \<Longrightarrow> 0 \<le> bk_tokens b"
  defines "c \<equiv> of_int (rl_capacity l) :: rat"
  obtains x t where "x = refilled_tokens c (rl_refill_rate l) now data" "0 \<le> x" "x \<le> c" "0 \<le> t" "t \<le> c"
    "t = (if k \<le> x then fl (x - k) else x)"
    "TOKEN_BUCKET_LUA c (rl_refill_rate l) now k data =
       (\<lparr> bk_tokens = t, bk_last_refill = now \<rparr>, (if k \<le> x then 1 else 0), \<lfloor>t\<rfloor>)"
proof
  let ?x = "refilled_tokens c (rl_refill_rate l) now data"
  show x: "0 \<le> ?x" "?x \<le> c"
    using refilled_range [of c "rl_refill_rate l" data now] assms by (simp_all add: limiter_ok_def)
  have "fl (?x - k) \<le> fl c" using x assms(2) by (intro fl_mono) simp
  then have "fl (?x - k) \<le> c" using fl_capacity [OF assms(1)] by (simp add: c_def)
  with x show "0 \<le> (if k \<le> ?x then fl (?x - k) else ?x)" "(if k \<le> ?x then fl (?x - k) else ?x) \<le> c"
    by (simp_all add: fl_nonneg)
  show "TOKEN_BUCKET_LUA c (rl_refill_rate l) now k data =
       (\<lparr> bk_tokens = (if k \<le> ?x then fl (?x - k) else ?x), bk_last_refill = now \<rparr>, (if k \<le> ?x then 1 else 0),
        \<lfloor>if k \<le> ?x then fl (?x - k) else ?x\<rfloor>)"
    by (simp add: TOKEN_BUCKET_LUA_def Let_def fsub_def)
qed simp_all

lemma bucket_spend:
  assumes "bucket_ok l b" "request_ok l rq b"
  shows "bucket_ok l (bucket_step l rq b)" "bk_last_refill (bucket_step l rq b) = rq_now rq"
    and "bucket_granted l rq b + bk_tokens (bucket_step l rq b) \<le> bk_tokens b + bucket_allowance l rq b"
proof -
  define c r where "c = (of_int (rl_capacity l) :: rat)" and "r = rl_refill_rate l"
  let ?k = "of_int (rq_tokens rq) :: rat" and ?data = "if rq_dropped rq then None else Some b"
  have l: "0 \<le> c" "0 \<le> ?k" "limiter_ok l"
    using assms by (simp_all add: bucket_ok_def limiter_ok_def request_ok_def c_def)
  have data: "0 \<le> bk_tokens b'" if "?data = Some b'" for b' using that assms(1) by (simp add: bucket_ok_def split: if_splits)
  obtain x t where x: "x = refilled_tokens c r (rq_now rq) ?data" "0 \<le> x" "x \<le> c" "0 \<le> t" "t \<le> c" "t = (if ?k \<le> x then fl (x - ?k) else x)"
    "TOKEN_BUCKET_LUA c r (rq_now rq) ?k ?data = (\<lparr> bk_tokens = t, bk_last_refill = rq_now rq \<rparr>, (if ?k \<le> x then 1 else 0), \<lfloor>t\<rfloor>)"
    using lua_outcome [OF l(3,2) data, where now = "rq_now rq"] unfolding c_def r_def by blast
  have step: "bucket_step l rq b = \<lparr> bk_tokens = t, bk_last_refill = rq_now rq \<rparr>" "bucket_granted l rq b = (if ?k \<le> x then ?k else 0)"
    using x(7) by (simp_all add: bucket_step_def bucket_granted_def flip: c_def r_def)
  show "bucket_ok l (bucket_step l rq b)" "bk_last_refill (bucket_step l rq b) = rq_now rq"
    using x l(3) by (simp_all add: bucket_ok_def step flip: c_def)
  have pos: "0 \<le> c * eps + eta" using l by simp
  have "fl (x - ?k) \<le> x - ?k + (c * eps + eta)" if "?k \<le> x" using that x l(2) by (intro fl_upper_cap) simp_all
  then have "bucket_granted l rq b + bk_tokens (bucket_step l rq b) \<le> x + (c * eps + eta)"
    using pos unfolding step x(6) by (cases "?k \<le> x") (simp_all, linarith?)
  with refilled_before [OF assms] show "bucket_granted l rq b + bk_tokens (bucket_step l rq b) \<le> bk_tokens b + bucket_allowance l rq b"
    by (simp add: bucket_allowance_def slack_def x(1) flip: c_def r_def)
qed

interpretation bucket: budgeted "bucket_step l" "request_ok l" "bucket_ok l" "bucket_granted l" bk_tokens "bucket_allowance l" for l
  by unfold_locales (use bucket_spend in \<open>auto simp: bucket_ok_def\<close>)

text \<open>The allowances of a run add up to the time it takes.\<close>

lemma total_allowance:
  assumes "bucket_ok l b" "bucket.run_ok l qs b"
  shows "bucket.total l (bucket_allowance l) qs b =
    (last (bk_last_refill b # map rq_now qs) - bk_last_refill b) * (rl_refill_rate l * (1 + eps)^2) +
    of_nat (length qs) * slack (of_int (rl_capacity l)) (rl_refill_rate l)"
  using assms
proof (induction qs arbitrary: b)
  case (Cons q qs)
  then have "bucket_ok l (bucket_step l q b)" "bk_last_refill (bucket_step l q b) = rq_now q"
    using bucket_spend by simp_all
  with Cons.IH [of "bucket_step l q b"] Cons.prems(2) show ?case
    by (simp add: bucket_allowance_def algebra_simps)
qed simp

fun consume_all :: "limiter \<Rightarrow> string \<Rightarrow> rate_request list \<Rightarrow> (string, bucket) dict \<Rightarrow> bool list" where
  "consume_all l i [] redis = []"
| "consume_all l i (q # qs) redis = (case consume l i q redis of (redis, allowed, _) \<Rightarrow> allowed # consume_all l i qs redis)"

definition granted :: "rate_request list \<Rightarrow> bool list \<Rightarrow> int" where
  "granted qs flags = sum_list (map2 (\<lambda>q a. if a then rq_tokens q else 0) qs flags)"

text \<open>Requests in the order of the clock, with Redis up; a key is dropped only after its time to live.\<close>

fun orderly :: "limiter \<Rightarrow> float64 \<Rightarrow> rate_request list \<Rightarrow> bool" where
  "orderly l t [] = True"
| "orderly l t (q # qs) = (rq_reachable q \<and> 0 \<le> rq_tokens q \<and> t \<le> rq_now q \<and>
     (rq_dropped q \<longrightarrow> t + of_int (rl_ttl l) \<le> rq_now q) \<and> orderly l (rq_now q) qs)"

lemma lua_fresh:
  "TOKEN_BUCKET_LUA c r now k (Some \<lparr> bk_tokens = c, bk_last_refill = now \<rparr>) = TOKEN_BUCKET_LUA c r now k None"
  by (simp add: TOKEN_BUCKET_LUA_def refilled_tokens_def)

lemma consume_bucket:
  assumes "dget redis (bucket_key i) = Some b" "rq_reachable q"
  obtains redis' where "dget redis' (bucket_key i) = Some (bucket_step l q b)"
    "consume l i q redis = (redis', fst (snd (consume l i q redis)), snd (snd (consume l i q redis)))"
    "(if fst (snd (consume l i q redis)) then of_int (rq_tokens q) else 0) = bucket_granted l q b"
proof
  show "dget (fst (consume l i q redis)) (bucket_key i) = Some (bucket_step l q b)"
    using assms by (simp add: consume_def bucket_step_def dget_dset Let_def split: prod.splits)
  show "(if fst (snd (consume l i q redis)) then of_int (rq_tokens q) else 0) = bucket_granted l q b"
    using assms by (simp add: consume_def bucket_granted_def Let_def split: prod.splits)
qed simp

lemma granted_total:
  assumes "dget redis (bucket_key i) = Some b" "bucket_ok l b" "orderly l (bk_last_refill b) qs"
  shows "bucket.run_ok l qs b \<and> of_int (granted qs (consume_all l i qs redis)) = bucket.total l (bucket_granted l) qs b"
  using assms
proof (induction qs arbitrary: b redis)
  case (Cons q qs)
  obtain redis' where r: "dget redis' (bucket_key i) = Some (bucket_step l q b)"
    "consume l i q redis = (redis', fst (snd (consume l i q redis)), snd (snd (consume l i q redis)))"
    "(if fst (snd (consume l i q redis)) then of_int (rq_tokens q) else 0) = bucket_granted l q b"
    using consume_bucket [of redis i b q l] Cons.prems by auto
  have ok: "request_ok l q b" using Cons.prems(3) by (simp add: request_ok_def)
  note after = bucket_spend(1,2) [OF Cons.prems(2) ok]
  then have o: "orderly l (bk_last_refill (bucket_step l q b)) qs" using Cons.prems(3) by simp
  have "consume_all l i (q # qs) redis = fst (snd (consume l i q redis)) # consume_all l i qs redis'"
    using r(2) by (metis (mono_tags, lifting) consume_all.simps(2) case_prod_conv)
  then show ?case using Cons.IH [OF r(1) after(1) o] r(3) ok by (auto simp: granted_def)
qed (simp add: granted_def)

lemma consume_all_Cons:
  "consume_all l i (q # qs) redis = fst (snd (consume l i q redis)) # consume_all l i qs (fst (consume l i q redis))"
  by (simp split: prod.splits)

text \<open>The verdicts on one client depend on that client's bucket alone.\<close>

lemma consume_all_cong: "dget redis (bucket_key i) = dget redis' (bucket_key i) \<Longrightarrow> consume_all l i qs redis = consume_all l i qs redis'"
proof (induction qs arbitrary: redis redis')
  case (Cons q qs)
  then have "snd (consume l i q redis) = snd (consume l i q redis')"
    "dget (fst (consume l i q redis)) (bucket_key i) = dget (fst (consume l i q redis')) (bucket_key i)"
    by (simp_all add: consume_def dget_dset Let_def split: prod.splits)
  with Cons.IH show ?case unfolding consume_all_Cons by metis
qed simp

lemma slack_small:
  assumes "0 \<le> r" "r \<le> 2 ^ 1000"
  shows "slack c r \<le> (c + 1) / 2 ^ 52"
proof -
  have "r * (1 + eps) \<le> 2 ^ 1000 * 2" using assms eps_eta_small(1) by (intro mult_mono) auto
  then have a: "eta * (r * (1 + eps) + 1) \<le> eta * (2 ^ 1000 * 2 + 1)" by (intro mult_left_mono) simp_all
  have b: "2 * eta + eta * (2 ^ 1000 * 2 + 1) \<le> 1 / 2 ^ 52" by (simp add: eta_def)
  have c: "2 * (c * eps) = c / 2 ^ 52" by (simp add: eps_def)
  have "2 * (x + e) + A \<le> z" if "A \<le> B" "2 * e + B \<le> u" "2 * x = w" "z = w + u" for x e A B z w u :: rat
    using that by simp
  from this [OF a b c add_divide_distrib] show ?thesis unfolding slack_def .
qed


text \<open>
  Whatever is asked, the bucket of a client stays within its capacity, the number of remaining tokens
  reported is between 0 and the capacity, a request is granted only when the refilled bucket covers it,
  and the buckets of all other clients are untouched.
\<close>

theorem consume_within_capacity:
  assumes "TokenBucketRateLimiter capacity refill_rate = Inr l" "capacity \<le> 2 ^ 53"
    and "\<And>b. dget redis (bucket_key identifier) = Some b \<Longrightarrow> bucket_ok l b" "0 \<le> rq_tokens rq"
    and "consume l identifier rq redis = (redis', allowed, remaining)"
  shows "0 \<le> remaining \<and> remaining \<le> capacity \<and>
    (\<forall>b. dget redis' (bucket_key identifier) = Some b \<longrightarrow> bucket_ok l b) \<and>
    (\<forall>other. other \<noteq> identifier \<longrightarrow> dget redis' (bucket_key other) = dget redis (bucket_key other)) \<and>
    (rq_reachable rq \<longrightarrow> allowed = (of_int (rq_tokens rq) \<le> refilled_tokens (of_int capacity) refill_rate (rq_now rq)
       (if rq_dropped rq then None else dget redis (bucket_key identifier))))"
proof (cases "rq_reachable rq")
  case False
  then show ?thesis using assms by (auto simp: consume_def TokenBucketRateLimiter_def split: if_splits)
next
  case True
  let ?k = "of_int (rq_tokens rq) :: rat" and ?data = "if rq_dropped rq then None else dget redis (bucket_key identifier)"
  have l: "rl_capacity l = capacity" "rl_refill_rate l = refill_rate" "0 < refill_rate" "1 \<le> capacity"
    using assms(1) by (auto simp: TokenBucketRateLimiter_def split: if_splits)
  have ok: "limiter_ok l" using l assms(2) ttl_fills [OF assms(1)] by (simp add: limiter_ok_def)
  have "0 \<le> ?k" "\<And>b. ?data = Some b \<Longrightarrow> 0 \<le> bk_tokens b" using assms(3,4) by (auto simp: bucket_ok_def split: if_splits)
  from lua_outcome [OF ok this, where now = "rq_now rq"] obtain x t where
    x: "x = refilled_tokens (of_int capacity) refill_rate (rq_now rq) ?data" "0 \<le> t" "t \<le> of_int capacity"
    "TOKEN_BUCKET_LUA (of_int capacity) refill_rate (rq_now rq) ?k ?data =
       (\<lparr> bk_tokens = t, bk_last_refill = rq_now rq \<rparr>, (if ?k \<le> x then 1 else 0), \<lfloor>t\<rfloor>)"
    unfolding l by blast
  have r: "redis' = dset (bucket_key identifier) \<lparr> bk_tokens = t, bk_last_refill = rq_now rq \<rparr> redis" "allowed = (?k \<le> x)" "remaining = \<lfloor>t\<rfloor>"
    using assms(5) True x(4) by (auto simp: consume_def l Let_def split: if_splits)
  have "0 \<le> \<lfloor>t\<rfloor>" "\<lfloor>t\<rfloor> \<le> capacity" using x(2,3) by (simp_all add: le_floor_iff floor_le_iff)
  moreover have "bucket_ok l \<lparr> bk_tokens = t, bk_last_refill = rq_now rq \<rparr>" using ok x(2,3) by (simp add: bucket_ok_def l)
  ultimately show ?thesis using r by (auto simp: dget_dset bucket_key_def x(1))
qed

section \<open>Witnesses\<close>

definition burst :: "rate_request list" where
  "burst = map (\<lambda>t. \<lparr> rq_now = of_int t, rq_tokens = 1, rq_dropped = False, rq_reachable = True \<rparr>) (replicate 3 0 @ [2])"

lemma burst_limiter: "invoke_bucket = Inr \<lparr> rl_capacity = 30, rl_refill_rate = 1/2, rl_ttl = 120 \<rparr>"
  by code_simp


theorem consume_within_capacity_witness:
  "case consume \<lparr> rl_capacity = 30, rl_refill_rate = 1/2, rl_ttl = 120 \<rparr> ''ip'' (hd burst) [] of
     (redis', allowed, remaining) \<Rightarrow> allowed \<and> 0 \<le> remaining \<and> remaining \<le> 30"
proof -
  let ?l = "\<lparr> rl_capacity = 30, rl_refill_rate = 1/2, rl_ttl = 120 \<rparr>"
  obtain redis' allowed remaining where c: "consume ?l ''ip'' (hd burst) [] = (redis', allowed, remaining)" by (rule prod_cases3)
  have h: "TokenBucketRateLimiter 30 (1/2) = Inr ?l" "0 \<le> rq_tokens (hd burst)" by code_simp+
  have "fst (snd (consume ?l ''ip'' (hd burst) []))" by code_simp
  with consume_within_capacity [OF h(1) _ _ h(2) c] c show ?thesis by (simp add: dget_def)
qed

end
