(* ===== verification/ApiStore.thy ===== *)
theory ApiStore
  imports CityStore ApiGuard
begin

text \<open>
  The tables behind the persona and agent routes and their repositories: the classes of
  \<open>src/persola/db/models.py\<close> and the files under \<open>src/persola/db/repositories\<close> that
  \<open>src/persola/api/main.py\<close> uses.

  A database is one list of rows per table, in the order of insertion. A new row takes the next
  identifier of \<open>ae_uuid\<close> and the next reading of the clock \<open>ae_clock\<close>. A flush that violates a
  column length, a check constraint, a unique constraint or a foreign key raises; the transaction is then
  rolled back, so an operation that raises returns no database. Deleting a parent follows the
  relationships of its class: with a delete cascade the children go too, otherwise the mapper clears
  their reference, which raises when the column may not be null.
\<close>

section \<open>Rows\<close>

record PersonaVersionModel =
  vn_id :: string
  vn_persona_id :: string
  vn_version_number :: int
  vn_source :: string
  vn_summary :: "string option"
  vn_knob_snapshot :: "(string, float64) dict"
  vn_settings_snapshot :: ModelSettings
  vn_created_at :: int

record AnalysisRunModel =
  an_id :: string
  an_persona_id :: "string option"
  an_source_text :: string
  an_knobs :: "(string, float64) dict"
  an_confidence_score :: float64
  an_notes :: string
  an_created_at :: int

record AgentToolModel =
  tl_id :: string
  tl_agent_id :: string
  tl_name :: string
  tl_enabled :: bool

record SessionModel =
  se_id :: string
  se_agent_id :: string
  se_session_id :: string
  se_metadata :: "(string, string) dict"
  se_message_count :: int
  se_last_message_at :: "int option"
  se_created_at :: int

record MessageModel =
  me_id :: string
  me_session_id :: string
  me_role :: string
  me_content :: string
  me_metadata :: "(string, string) dict"
  me_created_at :: int

record AgentRunModel =
  ar_id :: string
  ar_agent_id :: string
  ar_session_id :: "string option"
  ar_status :: string
  ar_provider :: "string option"
  ar_model :: "string option"
  ar_request_message :: string
  ar_response_message :: "string option"
  ar_tokens_used :: "int option"
  ar_completed_at :: "int option"
  ar_created_at :: int

record api_db =
  ad_personas :: "PersonaModel list"
  ad_versions :: "PersonaVersionModel list"
  ad_analyses :: "AnalysisRunModel list"
  ad_agents :: "AgentModel list"
  ad_tools :: "AgentToolModel list"
  ad_sessions :: "SessionModel list"
  ad_messages :: "MessageModel list"
  ad_runs :: "AgentRunModel list"
  ad_next :: nat

record api_env =
  ae_uuid :: "nat \<Rightarrow> string"
  ae_clock :: "nat \<Rightarrow> int"
  ae_sum :: summation
  ae_show_weights :: "float64 list \<Rightarrow> string"
  ae_show_ratio :: "float64 \<Rightarrow> string"

definition api_empty :: api_db where
  "api_empty = \<lparr> ad_personas = [], ad_versions = [], ad_analyses = [], ad_agents = [], ad_tools = [],
     ad_sessions = [], ad_messages = [], ad_runs = [], ad_next = 0 \<rparr>"

abbreviation fresh_uuid :: "api_env \<Rightarrow> api_db \<Rightarrow> string" where
  "fresh_uuid env db \<equiv> ae_uuid env (ad_next db)"

abbreviation clock :: "api_env \<Rightarrow> api_db \<Rightarrow> int" where
  "clock env db \<equiv> ae_clock env (ad_next db)"

definition tick_db :: "api_db \<Rightarrow> api_db" where
  "tick_db db = db\<lparr>ad_next := Suc (ad_next db)\<rparr>"

definition integrity_error :: api_error where
  "integrity_error = Unhandled (RuntimeFailure ''IntegrityError'')"

definition to_uuid :: "string \<Rightarrow> string api" where
  "to_uuid t = (case py_uuid t of None \<Rightarrow> Inl (Unhandled (ValueError ''badly formed hexadecimal UUID string'')) | Some u \<Rightarrow> Inr u)"

section \<open>Personas and their versions\<close>

definition persona_fits :: "PersonaModel \<Rightarrow> bool" where
  "persona_fits m = (length (pm_name m) \<le> 255 \<and> length (pm_model m) \<le> 100 \<and>
     list_all (\<lambda>kv. 0 \<le> snd kv \<and> snd kv \<le> 1) (pm_knobs m) \<and>
     0 \<le> pm_temperature m \<and> pm_temperature m \<le> 2 \<and> 1 \<le> pm_max_tokens m \<and> pm_max_tokens m \<le> 32000)"

definition create_persona_row :: "PersonaModel \<Rightarrow> api_db \<Rightarrow> (api_db \<times> PersonaModel) api" where
  "create_persona_row m db =
    (if persona_fits m then Inr (tick_db (db\<lparr>ad_personas := ad_personas db @ [m]\<rparr>), m) else Inl integrity_error)"

text \<open>
  An update sets the attributes and flushes. When a column changed and \<open>updated_at\<close> was not set to a new
  value, the flush sets it to the current time.
\<close>

definition flushed :: "int \<Rightarrow> PersonaModel \<Rightarrow> PersonaModel \<Rightarrow> PersonaModel" where
  "flushed now old new = (if new = old then old
     else if pm_updated_at new = pm_updated_at old then new\<lparr>pm_updated_at := now\<rparr> else new)"

definition update_persona_row ::
  "api_env \<Rightarrow> string \<Rightarrow> (PersonaModel \<Rightarrow> PersonaModel) \<Rightarrow> api_db \<Rightarrow> (api_db \<times> PersonaModel option) api" where
  "update_persona_row env i f db = (case row_get pm_id (ad_personas db) i of
     None \<Rightarrow> Inr (db, None)
   | Some old \<Rightarrow> let new = flushed (clock env db) old (f old) in
       if persona_fits new
       then Inr (tick_db (db\<lparr>ad_personas := row_set pm_id i (\<lambda>_. new) (ad_personas db)\<rparr>), Some new)
       else Inl integrity_error)"

definition delete_persona_row :: "string \<Rightarrow> api_db \<Rightarrow> api_db \<times> bool" where
  "delete_persona_row i db = (case row_get pm_id (ad_personas db) i of
     None \<Rightarrow> (db, False)
   | Some _ \<Rightarrow> (db\<lparr>ad_personas := filter (\<lambda>m. pm_id m \<noteq> i) (ad_personas db),
         ad_versions := filter (\<lambda>v. vn_persona_id v \<noteq> i) (ad_versions db),
         ad_analyses := map (\<lambda>a. if an_persona_id a = Some i then a\<lparr>an_persona_id := None\<rparr> else a) (ad_analyses db),
         ad_agents := map (\<lambda>a. if am_persona_id a = Some i then a\<lparr>am_persona_id := None\<rparr> else a) (ad_agents db)\<rparr>, True))"

definition get_persona_by_name :: "string \<Rightarrow> api_db \<Rightarrow> PersonaModel option res" where
  "get_persona_by_name name db = scalar_one_or_none (filter (\<lambda>m. pm_name m = name) (ad_personas db))"

definition list_presets :: "api_db \<Rightarrow> PersonaModel list" where
  "list_presets db = filter pm_is_preset (ad_personas db)"

text \<open>\<open>ILIKE\<close>: a percent sign matches any text, an underscore any character, a backslash quotes.\<close>

fun like :: "string \<Rightarrow> string \<Rightarrow> bool" where
  "like [] s = (s = [])"
| "like (p # ps) [] = (p = CHR ''%'' \<and> like ps [])"
| "like (p # ps) (c # s) =
    (if p = CHR ''%'' then like ps (c # s) \<or> like (p # ps) s
     else if p = CHR ''_'' then like ps s
     else if p = CHR 0x5C then (case ps of [] \<Rightarrow> False | q # qs \<Rightarrow> q = c \<and> like qs s)
     else p = c \<and> like ps s)"

definition ilike :: "string \<Rightarrow> string \<Rightarrow> bool" where
  "ilike s pattern = like (py_lower pattern) (py_lower s)"

definition search_rows :: "string \<Rightarrow> api_db \<Rightarrow> PersonaModel list" where
  "search_rows query_text db = (let term = py_strip query_text in
     if term = [] then []
     else filter (\<lambda>m. ilike (pm_name m) (''%'' @ term @ ''%'') \<or>
       (case pm_description m of None \<Rightarrow> False | Some d \<Rightarrow> ilike d (''%'' @ term @ ''%''))) (ad_personas db))"

definition clone_row :: "api_env \<Rightarrow> string \<Rightarrow> string \<Rightarrow> api_db \<Rightarrow> (api_db \<times> PersonaModel) api" where
  "clone_row env i new_name db = (case row_get pm_id (ad_personas db) i of
     None \<Rightarrow> Inl (Unhandled (ValueError ''Persona not found''))
   | Some original \<Rightarrow> abind (lift_res (to_profile original)) (\<lambda>p.
       create_persona_row (from_profile (fresh_uuid env db) (clock env db) (p\<lparr>p_name := new_name\<rparr>) False) db))"

fun seed_presets :: "api_env \<Rightarrow> (PresetName, PersonaProfile) dict \<Rightarrow> api_db \<Rightarrow> api_db api" where
  "seed_presets env [] db = Inr db"
| "seed_presets env ((preset_name, preset_data) # rest) db =
    (let name = preset_value preset_name in
     abind (lift_res (get_persona_by_name name db)) (\<lambda>existing.
       case existing of
         Some _ \<Rightarrow> seed_presets env rest db
       | None \<Rightarrow> abind (create_persona_row (from_profile (fresh_uuid env db) (clock env db)
             (preset_data\<lparr>p_id := ''preset_'' @ name, p_name := name\<rparr>) True) db)
           (\<lambda>(db, _). seed_presets env rest db)))"

definition persona_versions :: "api_db \<Rightarrow> string \<Rightarrow> PersonaVersionModel list" where
  "persona_versions db i = filter (\<lambda>v. vn_persona_id v = i) (ad_versions db)"

definition get_latest_version_number :: "api_db \<Rightarrow> string \<Rightarrow> int" where
  "get_latest_version_number db i = fold max (map vn_version_number (persona_versions db i)) 0"

definition versions_list_by_persona :: "nat \<Rightarrow> api_db \<Rightarrow> string \<Rightarrow> PersonaVersionModel list" where
  "versions_list_by_persona limit db i = take limit (sort_desc vn_version_number (persona_versions db i))"

definition create_version_row :: "PersonaVersionModel \<Rightarrow> api_db \<Rightarrow> api_db api" where
  "create_version_row v db =
    (if list_ex (\<lambda>w. vn_persona_id w = vn_persona_id v \<and> vn_version_number w = vn_version_number v) (ad_versions db) \<or>
        row_get pm_id (ad_personas db) (vn_persona_id v) = None
     then Inl integrity_error else Inr (tick_db (db\<lparr>ad_versions := ad_versions db @ [v]\<rparr>)))"

definition create_analysis_row :: "AnalysisRunModel \<Rightarrow> api_db \<Rightarrow> api_db api" where
  "create_analysis_row a db =
    (if 0 \<le> an_confidence_score a \<and> an_confidence_score a \<le> 1 \<and>
        (case an_persona_id a of None \<Rightarrow> True | Some i \<Rightarrow> row_get pm_id (ad_personas db) i \<noteq> None)
     then Inr (tick_db (db\<lparr>ad_analyses := ad_analyses db @ [a]\<rparr>)) else Inl integrity_error)"

section \<open>Agents, tools, sessions, messages and runs\<close>

definition agent_fits :: "api_db \<Rightarrow> AgentModel \<Rightarrow> bool" where
  "agent_fits db a = (length (am_name a) \<le> 255 \<and> am_role a = ''assistant'' \<and>
     (case am_model a of None \<Rightarrow> True | Some m \<Rightarrow> length m \<le> 100) \<and>
     (case am_temperature a of None \<Rightarrow> True | Some t \<Rightarrow> 0 \<le> t \<and> t \<le> 2) \<and>
     (case am_max_tokens a of None \<Rightarrow> True | Some n \<Rightarrow> 1 \<le> n \<and> n \<le> 32000) \<and>
     (case am_persona_id a of None \<Rightarrow> True | Some i \<Rightarrow> row_get pm_id (ad_personas db) i \<noteq> None))"

definition create_agent_row :: "AgentModel \<Rightarrow> api_db \<Rightarrow> api_db api" where
  "create_agent_row a db =
    (if agent_fits db a then Inr (tick_db (db\<lparr>ad_agents := ad_agents db @ [a]\<rparr>)) else Inl integrity_error)"

definition update_agent_row :: "string \<Rightarrow> (AgentModel \<Rightarrow> AgentModel) \<Rightarrow> api_db \<Rightarrow> (api_db \<times> AgentModel option) api" where
  "update_agent_row i f db = (case row_get am_id (ad_agents db) i of
     None \<Rightarrow> Inr (db, None)
   | Some old \<Rightarrow> if agent_fits db (f old)
       then Inr (db\<lparr>ad_agents := row_set am_id i f (ad_agents db)\<rparr>, Some (f old)) else Inl integrity_error)"

text \<open>The relationship \<open>sessions\<close> of an agent has no cascade, and \<open>agent_id\<close> of a session may not be null.\<close>

definition delete_agent_row :: "string \<Rightarrow> api_db \<Rightarrow> (api_db \<times> bool) api" where
  "delete_agent_row i db = (case row_get am_id (ad_agents db) i of
     None \<Rightarrow> Inr (db, False)
   | Some _ \<Rightarrow> if list_ex (\<lambda>s. se_agent_id s = i) (ad_sessions db) then Inl integrity_error
       else Inr (db\<lparr>ad_agents := filter (\<lambda>a. am_id a \<noteq> i) (ad_agents db),
              ad_tools := filter (\<lambda>t. tl_agent_id t \<noteq> i) (ad_tools db),
              ad_runs := filter (\<lambda>r. ar_agent_id r \<noteq> i) (ad_runs db)\<rparr>, True))"

fun add_tools :: "api_env \<Rightarrow> string \<Rightarrow> string list \<Rightarrow> api_db \<Rightarrow> api_db api" where
  "add_tools env i [] db = Inr db"
| "add_tools env i (name # names) db =
    (if 100 < length name \<or> list_ex (\<lambda>t. tl_agent_id t = i \<and> tl_name t = name) (ad_tools db) then Inl integrity_error
     else add_tools env i names (tick_db (db\<lparr>ad_tools := ad_tools db @
       [\<lparr> tl_id = fresh_uuid env db, tl_agent_id = i, tl_name = name, tl_enabled = True \<rparr>]\<rparr>)))"

definition replace_for_agent :: "api_env \<Rightarrow> string \<Rightarrow> string list \<Rightarrow> api_db \<Rightarrow> api_db api" where
  "replace_for_agent env i names db = add_tools env i names (db\<lparr>ad_tools := filter (\<lambda>t. tl_agent_id t \<noteq> i) (ad_tools db)\<rparr>)"

definition tools_list_by_agent :: "api_db \<Rightarrow> string \<Rightarrow> AgentToolModel list" where
  "tools_list_by_agent db i = filter (\<lambda>t. tl_agent_id t = i) (ad_tools db)"

definition get_by_session_id :: "string \<Rightarrow> api_db \<Rightarrow> SessionModel option" where
  "get_by_session_id sid db = row_get se_session_id (ad_sessions db) sid"

definition create_session_row ::
  "api_env \<Rightarrow> string \<Rightarrow> string \<Rightarrow> (string, string) dict \<Rightarrow> api_db \<Rightarrow> (api_db \<times> SessionModel) api" where
  "create_session_row env agent sid metadata db =
    (let s = \<lparr> se_id = fresh_uuid env db, se_agent_id = agent, se_session_id = sid, se_metadata = metadata,
         se_message_count = 0, se_last_message_at = None, se_created_at = clock env db \<rparr>
     in if 100 < length sid \<or> get_by_session_id sid db \<noteq> None then Inl integrity_error
        else Inr (tick_db (db\<lparr>ad_sessions := ad_sessions db @ [s]\<rparr>), s))"

definition get_or_create :: "api_env \<Rightarrow> string \<Rightarrow> string \<Rightarrow> api_db \<Rightarrow> (api_db \<times> SessionModel) api" where
  "get_or_create env agent sid db = (case get_by_session_id sid db of
     Some existing \<Rightarrow> Inr (db, existing) | None \<Rightarrow> create_session_row env agent sid [] db)"

definition increment_message_count :: "api_env \<Rightarrow> string \<Rightarrow> api_db \<Rightarrow> api_db" where
  "increment_message_count env i db = db\<lparr>ad_sessions := row_set se_id i
     (\<lambda>s. s\<lparr>se_message_count := se_message_count s + 1, se_last_message_at := Some (clock env db)\<rparr>) (ad_sessions db)\<rparr>"

definition sessions_list_by_agent :: "api_db \<Rightarrow> string \<Rightarrow> SessionModel list" where
  "sessions_list_by_agent db i = filter (\<lambda>s. se_agent_id s = i) (ad_sessions db)"

text \<open>The relationship \<open>messages\<close> of a session has no cascade, and \<open>session_id\<close> of a message may not be null.\<close>

definition delete_session_row :: "string \<Rightarrow> api_db \<Rightarrow> api_db api" where
  "delete_session_row i db =
    (if list_ex (\<lambda>m. me_session_id m = i) (ad_messages db) then Inl integrity_error
     else Inr (db\<lparr>ad_sessions := filter (\<lambda>s. se_id s \<noteq> i) (ad_sessions db),
       ad_runs := map (\<lambda>r. if ar_session_id r = Some i then r\<lparr>ar_session_id := None\<rparr> else r) (ad_runs db)\<rparr>))"

definition add_message ::
  "api_env \<Rightarrow> string \<Rightarrow> string \<Rightarrow> string \<Rightarrow> (string, string) dict \<Rightarrow> api_db \<Rightarrow> (api_db \<times> MessageModel) api" where
  "add_message env session role content meta db =
    (let m = \<lparr> me_id = fresh_uuid env db, me_session_id = session, me_role = role, me_content = content,
         me_metadata = meta, me_created_at = clock env db \<rparr>
     in if role \<in> {''user'', ''assistant'', ''system'', ''tool''}
        then Inr (tick_db (db\<lparr>ad_messages := ad_messages db @ [m]\<rparr>), m) else Inl integrity_error)"

definition session_messages :: "api_db \<Rightarrow> string \<Rightarrow> MessageModel list" where
  "session_messages db i = sort_key me_created_at (filter (\<lambda>m. me_session_id m = i) (ad_messages db))"

definition get_history :: "nat \<Rightarrow> api_db \<Rightarrow> string \<Rightarrow> MessageModel list" where
  "get_history limit db i = take limit (session_messages db i)"

definition get_recent :: "nat \<Rightarrow> api_db \<Rightarrow> string \<Rightarrow> MessageModel list" where
  "get_recent n db i = take n (sort_desc me_created_at (filter (\<lambda>m. me_session_id m = i) (ad_messages db)))"

definition runs_list_by_agent :: "nat \<Rightarrow> api_db \<Rightarrow> string \<Rightarrow> AgentRunModel list" where
  "runs_list_by_agent limit db i = take limit (sort_desc ar_created_at (filter (\<lambda>r. ar_agent_id r = i) (ad_runs db)))"

definition run_completed ::
  "api_env \<Rightarrow> string \<Rightarrow> string \<Rightarrow> string option \<Rightarrow> string option \<Rightarrow> string option \<Rightarrow> api_db \<Rightarrow> api_db" where
  "run_completed env i status response provider model db = db\<lparr>ad_runs := row_set ar_id i
     (\<lambda>r. r\<lparr>ar_status := status, ar_response_message := response, ar_provider := provider, ar_model := model,
        ar_tokens_used := None, ar_completed_at := Some (clock env db)\<rparr>) (ad_runs db)\<rparr>"

end
