(* ===== verification/PersonaApi.thy ===== *)
theory PersonaApi
  imports ApiStore
begin

text \<open>
  The persona routes of \<open>src/persola/api/main.py\<close>, \<open>PersonaService\<close>
  (\<open>src/persola/db/services/persona_service.py\<close>) and its cache, the class \<open>PersonaCache\<close> of
  \<open>src/persola/cache.py\<close>.

  A route takes the database and, where it uses the service, the cache, and returns the committed
  database or the error it answers with; the cache is not part of the transaction, so a route returns it
  in both cases. The Redis key of a persona's generation is the persona's identifier here, that of an
  entry the pair of identifier and generation. An entry is the JSON object the code stores, whose
  two fields are the prompt and the sampling parameters. Redis can fail at any command; the code then
  goes on as if nothing were cached, which \<open>rc_up = False\<close> stands for, and it drops entries whose time is up.
  The answer of the style extractor and of Cyrex are arguments. Logs and gauges are left out.
\<close>

section \<open>The cache\<close>

record cache_entry =
  ce_system_prompt :: "string option"
  ce_sampling :: "SamplingParams option"

record persona_cache =
  rc_up :: bool
  rc_generation :: "(string, int) dict"
  rc_entries :: "(string \<times> int, cache_entry) dict"

definition cache_init :: persona_cache where
  "cache_init = \<lparr> rc_up = True, rc_generation = [], rc_entries = [] \<rparr>"

definition get_generation :: "persona_cache \<Rightarrow> string \<Rightarrow> int" where
  "get_generation c i = dget_or (rc_generation c) i 0"

definition get_entry :: "persona_cache \<Rightarrow> string \<Rightarrow> cache_entry option" where
  "get_entry c i = (if rc_up c then dget (rc_entries c) (i, get_generation c i) else None)"

definition set_cache_fields :: "string \<Rightarrow> (cache_entry \<Rightarrow> cache_entry) \<Rightarrow> persona_cache \<Rightarrow> persona_cache" where
  "set_cache_fields i f c = (if rc_up c then
     let generation = get_generation c i;
         current = (case get_entry c i of None \<Rightarrow> \<lparr> ce_system_prompt = None, ce_sampling = None \<rparr> | Some e \<Rightarrow> e)
     in c\<lparr>rc_entries := dset (i, generation) (f current) (rc_entries c)\<rparr> else c)"

definition cached_prompt :: "persona_cache \<Rightarrow> string \<Rightarrow> string option" where
  "cached_prompt c i = (case get_entry c i of None \<Rightarrow> None | Some e \<Rightarrow> nonempty (ce_system_prompt e))"

definition cached_sampling :: "persona_cache \<Rightarrow> string \<Rightarrow> SamplingParams option" where
  "cached_sampling c i = (case get_entry c i of None \<Rightarrow> None | Some e \<Rightarrow> ce_sampling e)"

definition cache_system_prompt :: "string \<Rightarrow> string \<Rightarrow> persona_cache \<Rightarrow> persona_cache" where
  "cache_system_prompt i prompt c = set_cache_fields i (ce_system_prompt_update (\<lambda>_. Some prompt)) c"

definition cache_sampling :: "string \<Rightarrow> SamplingParams \<Rightarrow> persona_cache \<Rightarrow> persona_cache" where
  "cache_sampling i params c = set_cache_fields i (ce_sampling_update (\<lambda>_. Some params)) c"

definition invalidate :: "string \<Rightarrow> persona_cache \<Rightarrow> persona_cache" where
  "invalidate i c = (if rc_up c then
     let current_generation = get_generation c i; next_generation = current_generation + 1
     in c\<lparr>rc_generation := dset i next_generation (rc_generation c),
          rc_entries := ddel (i, next_generation) (ddel (i, current_generation) (rc_entries c))\<rparr> else c)"

section \<open>The service\<close>

definition service_update ::
  "api_env \<Rightarrow> string \<Rightarrow> (PersonaModel \<Rightarrow> PersonaModel) \<Rightarrow> api_db \<Rightarrow> persona_cache \<Rightarrow> persona_cache \<times> (api_db \<times> PersonaModel option) api" where
  "service_update env i f db c = (case update_persona_row env i f db of
     Inl e \<Rightarrow> (c, Inl e)
   | Inr (db, None) \<Rightarrow> (c, Inr (db, None))
   | Inr (db, Some m) \<Rightarrow> (invalidate i c, Inr (db, Some m)))"

definition service_delete :: "string \<Rightarrow> api_db \<Rightarrow> persona_cache \<Rightarrow> persona_cache \<times> api_db \<times> bool" where
  "service_delete i db c = (let (db, deleted) = delete_persona_row i db in (if deleted then invalidate i c else c, db, deleted))"

definition service_system_prompt :: "string \<Rightarrow> api_db \<Rightarrow> persona_cache \<Rightarrow> persona_cache \<times> string option api" where
  "service_system_prompt i db c = (case cached_prompt c i of
     Some prompt \<Rightarrow> (c, Inr (Some prompt))
   | None \<Rightarrow> (case row_get pm_id (ad_personas db) i of
       None \<Rightarrow> (c, Inr None)
     | Some m \<Rightarrow> (case to_profile m of
         Inl e \<Rightarrow> (c, Inl (Unhandled e))
       | Inr p \<Rightarrow> let prompt = build_system_prompt p in (cache_system_prompt i prompt c, Inr (Some prompt)))))"

definition service_sampling_params :: "string \<Rightarrow> api_db \<Rightarrow> persona_cache \<Rightarrow> persona_cache \<times> SamplingParams option api" where
  "service_sampling_params i db c = (case cached_sampling c i of
     Some params \<Rightarrow> (c, Inr (Some params))
   | None \<Rightarrow> (case row_get pm_id (ad_personas db) i of
       None \<Rightarrow> (c, Inr None)
     | Some m \<Rightarrow> (case to_profile m of
         Inl e \<Rightarrow> (c, Inl (Unhandled e))
       | Inr p \<Rightarrow> let params = get_sampling_params p in (cache_sampling i params c, Inr (Some params)))))"

section \<open>Routes that create personas\<close>

definition not_found :: "'a api" where
  "not_found = Inl (HTTPException 404 ''Persona not found'')"

definition record_persona_version ::
  "api_env \<Rightarrow> PersonaModel \<Rightarrow> string \<Rightarrow> string option \<Rightarrow> api_db \<Rightarrow> api_db api" where
  "record_persona_version env m source summary db =
    (let version_number = get_latest_version_number db (pm_id m) + 1 in
     abind (lift_res (to_profile m)) (\<lambda>profile.
       create_version_row \<lparr> vn_id = fresh_uuid env db, vn_persona_id = pm_id m, vn_version_number = version_number,
         vn_source = source, vn_summary = summary, vn_knob_snapshot = get_knobs profile,
         vn_settings_snapshot = settings_values m, vn_created_at = clock env db \<rparr> db))"

definition record_analysis_run ::
  "api_env \<Rightarrow> string \<Rightarrow> (string, float64) dict \<Rightarrow> float64 \<Rightarrow> string \<Rightarrow> string option \<Rightarrow> api_db \<Rightarrow> api_db api" where
  "record_analysis_run env text knobs conf notes persona_id db =
     create_analysis_row \<lparr> an_id = fresh_uuid env db, an_persona_id = persona_id, an_source_text = text, an_knobs = knobs,
       an_confidence_score = conf, an_notes = notes, an_created_at = clock env db \<rparr> db"

text \<open>Creating a row from a profile, recording its first version and answering with the stored persona.\<close>

definition create_with_version ::
  "api_env \<Rightarrow> PersonaProfile \<Rightarrow> string \<Rightarrow> string \<Rightarrow> api_db \<Rightarrow> (api_db \<times> PersonaModel) api" where
  "create_with_version env p source summary db =
     abind (create_persona_row (from_profile (fresh_uuid env db) (clock env db) p False) db) (\<lambda>(db, created).
     abind (record_persona_version env created source (Some summary) db) (\<lambda>db. Inr (db, created)))"

definition answer_profile :: "api_db \<times> PersonaModel \<Rightarrow> (api_db \<times> PersonaProfile) api" where
  "answer_profile r = (case r of (db, created) \<Rightarrow> abind (lift_res (to_profile created)) (\<lambda>p. Inr (db, p)))"

definition create_persona :: "api_env \<Rightarrow> PersonaProfile \<Rightarrow> api_db \<Rightarrow> (api_db \<times> PersonaProfile) api" where
  "create_persona env p db = abind (create_with_version env p ''manual'' ''Persona created'' db) answer_profile"

definition import_persona :: "api_env \<Rightarrow> PersonaProfile \<Rightarrow> api_db \<Rightarrow> (api_db \<times> PersonaProfile) api" where
  "import_persona env p db = abind (create_with_version env p ''import'' ''Persona imported'' db) answer_profile"

definition clone_persona :: "api_env \<Rightarrow> string \<Rightarrow> string \<Rightarrow> api_db \<Rightarrow> (api_db \<times> PersonaProfile) api" where
  "clone_persona env persona_id name db =
    (case abind (to_uuid persona_id) (\<lambda>i. clone_row env i name db) of
       Inl (Unhandled (ValueError _)) \<Rightarrow> not_found
     | Inl (Unhandled ValidationError) \<Rightarrow> not_found
     | Inl e \<Rightarrow> Inl e
     | Inr (db, cloned) \<Rightarrow> abind (record_persona_version env cloned ''manual'' (Some (''Cloned from '' @ persona_id)) db)
         (\<lambda>db. answer_profile (db, cloned)))"

record style_result =
  sr_knobs :: "(string, float64) dict"
  sr_confidence :: float64
  sr_notes :: string

definition run_style_analysis :: "style_result res \<Rightarrow> style_result api" where
  "run_style_analysis extracted = abind (lift_res extracted) (\<lambda>a.
     if fst (validate_knobs (sr_knobs a)) then Inr a
     else Inl (HTTPException 502 ''Analysis produced invalid knob values''))"

definition build_persona_from_knobs :: "api_env \<Rightarrow> api_db \<Rightarrow> string \<Rightarrow> (string, float64) dict \<Rightarrow> string \<Rightarrow> PersonaProfile res" where
  "build_persona_from_knobs env db name knobs notes = PersonaProfile_init (clock env db) []
     \<lparr> kw_name = Some name, kw_description = Some notes, kw_knobs = knobs, kw_system_prompt = None, kw_model = None,
       kw_temperature = None, kw_max_tokens = None \<rparr>"

definition extract_analysis ::
  "api_env \<Rightarrow> string \<Rightarrow> bool \<Rightarrow> string option \<Rightarrow> style_result res \<Rightarrow> api_db \<Rightarrow> (api_db \<times> style_result \<times> string option) api" where
  "extract_analysis env text create persona_name extracted db =
     abind (run_style_analysis extracted) (\<lambda>a.
     abind (if create then
              abind (lift_res (build_persona_from_knobs env db (str_or persona_name ''Writing Style Persona'') (sr_knobs a) (sr_notes a))) (\<lambda>p.
              abind (create_with_version env p ''analysis'' ''Persona created from writing analysis'' db) (\<lambda>(db, created).
              Inr (db, Some (pm_id created))))
            else Inr (db, None)) (\<lambda>(db, persona_id).
     abind (record_analysis_run env text (sr_knobs a) (sr_confidence a) (sr_notes a) persona_id db) (\<lambda>db.
     Inr (db, a, persona_id))))"

definition extract_and_create_persona ::
  "api_env \<Rightarrow> string \<Rightarrow> string \<Rightarrow> style_result res \<Rightarrow> api_db \<Rightarrow> (api_db \<times> PersonaProfile) api" where
  "extract_and_create_persona env text name extracted db =
     abind (run_style_analysis extracted) (\<lambda>a.
     abind (lift_res (build_persona_from_knobs env db name (sr_knobs a) (sr_notes a))) (\<lambda>p.
     abind (create_with_version env p ''analysis'' ''Persona created from writing analysis'' db) (\<lambda>(db, created).
     abind (record_analysis_run env text (sr_knobs a) (sr_confidence a) (sr_notes a) (Some (pm_id created)) db) (\<lambda>db.
     answer_profile (db, created)))))"

definition import_persona_from_cyrex ::
  "api_env \<Rightarrow> bool \<Rightarrow> string \<Rightarrow> PersonaProfile res \<Rightarrow> api_db \<Rightarrow> (api_db \<times> PersonaProfile) api" where
  "import_persona_from_cyrex env configured cyrex_id pulled db =
    (if \<not> configured then Inl (HTTPException 503 ''Cyrex is not configured. Set CYREX_URL and CYREX_API_KEY.'')
     else case abind (lift_res pulled) (\<lambda>p.
         abind (create_with_version env p ''cyrex'' (''Imported from Cyrex '' @ cyrex_id) db) answer_profile) of
       Inl _ \<Rightarrow> Inl (HTTPException 502 ''Cyrex import failed'') | Inr r \<Rightarrow> Inr r)"

section \<open>Blending\<close>

fun fetch_profiles :: "api_db \<Rightarrow> string list \<Rightarrow> PersonaProfile list api" where
  "fetch_profiles db [] = Inr []"
| "fetch_profiles db (t # ts) =
     abind (to_uuid t) (\<lambda>i. case row_get pm_id (ad_personas db) i of
       None \<Rightarrow> Inl (HTTPException 404 (''Persona '' @ t @ '' not found''))
     | Some m \<Rightarrow> abind (lift_res (to_profile m)) (\<lambda>p. abind (fetch_profiles db ts) (\<lambda>ps. Inr (p # ps))))"

definition blend_or_400 :: "PersonaProfile res \<Rightarrow> PersonaProfile api" where
  "blend_or_400 r = (case r of
     Inl (ValueError msg) \<Rightarrow> Inl (HTTPException 400 msg)
   | Inl ValidationError \<Rightarrow> Inl (HTTPException 400 ''validation error'')
   | Inl e \<Rightarrow> Inl (Unhandled e) | Inr p \<Rightarrow> Inr p)"

definition preview_blend :: "api_env \<Rightarrow> string list \<Rightarrow> float64 list \<Rightarrow> api_db \<Rightarrow> PersonaProfile api" where
  "preview_blend env persona_ids weights db =
    (if length persona_ids \<noteq> length weights then Inl (HTTPException 400 ''Number of persona_ids must equal number of weights'')
     else abind (fetch_profiles db persona_ids) (\<lambda>ps. blend_or_400 (blend_multiple (ae_sum env) (clock env db) [] ps weights)))"

record BlendRequest =
  br_persona1_id :: "string option"
  br_persona2_id :: "string option"
  br_ratio :: float64
  br_persona_ids :: "string list option"
  br_weights :: "float64 list option"
  br_name :: "string option"
  br_description :: "string option"

definition blend_many :: "api_env \<Rightarrow> BlendRequest \<Rightarrow> string list \<Rightarrow> api_db \<Rightarrow> (api_db \<times> PersonaProfile) api" where
  "blend_many env rq persona_ids db = (let weights = (case br_weights rq of None \<Rightarrow> [] | Some ws \<Rightarrow> ws) in
     if length persona_ids \<noteq> length weights then Inl (HTTPException 400 ''Number of persona_ids must equal number of weights'')
     else abind (fetch_profiles db persona_ids) (\<lambda>ps.
       abind (case br_weights rq of None \<Rightarrow> Inl (Unhandled TypeError)
              | Some ws \<Rightarrow> blend_or_400 (blend_multiple (ae_sum env) (clock env db) [] ps ws)) (\<lambda>blended.
       let blended = (case nonempty (br_name rq) of None \<Rightarrow> blended | Some n \<Rightarrow> blended\<lparr>p_name := n\<rparr>);
           blended = (case nonempty (br_description rq) of None \<Rightarrow> blended | Some d \<Rightarrow> blended\<lparr>p_description := d\<rparr>)
       in abind (create_with_version env blended ''blend'' (''Multi-persona blend with weights '' @ ae_show_weights env weights) db)
            answer_profile)))"

definition blend_pair :: "api_env \<Rightarrow> string \<Rightarrow> string \<Rightarrow> float64 \<Rightarrow> api_db \<Rightarrow> (api_db \<times> PersonaProfile) api" where
  "blend_pair env id1 id2 ratio db =
     abind (to_uuid id1) (\<lambda>i1. abind (to_uuid id2) (\<lambda>i2.
     case row_get pm_id (ad_personas db) i1 of
       None \<Rightarrow> Inl (HTTPException 404 ''Persona 1 not found'')
     | Some m1 \<Rightarrow> (case row_get pm_id (ad_personas db) i2 of
         None \<Rightarrow> Inl (HTTPException 404 ''Persona 2 not found'')
       | Some m2 \<Rightarrow> abind (lift_res (to_profile m1)) (\<lambda>p1. abind (lift_res (to_profile m2)) (\<lambda>p2.
           abind (lift_res (Engine.blend_personas (clock env db) [] p1 p2 ratio)) (\<lambda>blended.
           abind (create_with_version env blended ''blend'' (''Blend ratio '' @ ae_show_ratio env ratio) db) answer_profile))))))"

definition blend_route :: "api_env \<Rightarrow> BlendRequest \<Rightarrow> api_db \<Rightarrow> (api_db \<times> PersonaProfile) api" where
  "blend_route env rq db = (case br_persona_ids rq of
     Some persona_ids \<Rightarrow> blend_many env rq persona_ids db
   | None \<Rightarrow> (case (br_persona1_id rq, br_persona2_id rq) of
       (Some id1, Some id2) \<Rightarrow> blend_pair env id1 id2 (br_ratio rq) db
     | _ \<Rightarrow> Inl (HTTPException 400 ''Either (persona1_id, persona2_id, ratio) or (persona_ids, weights) must be provided'')))"

section \<open>Routes that read, change and delete personas\<close>

fun profiles_of :: "PersonaModel list \<Rightarrow> PersonaProfile list res" where
  "profiles_of [] = Inr []"
| "profiles_of (m # ms) = rbind (to_profile m) (\<lambda>p. rbind (profiles_of ms) (\<lambda>ps. Inr (p # ps)))"

definition list_personas :: "api_db \<Rightarrow> PersonaProfile list res" where
  "list_personas db = profiles_of (take 1000 (ad_personas db))"

definition search_personas :: "string \<Rightarrow> api_db \<Rightarrow> PersonaProfile list res" where
  "search_personas q db = profiles_of (search_rows q db)"

definition get_persona :: "string \<Rightarrow> api_db \<Rightarrow> PersonaProfile api" where
  "get_persona persona_id db = abind (to_uuid persona_id) (\<lambda>i.
     case row_get pm_id (ad_personas db) i of None \<Rightarrow> not_found | Some m \<Rightarrow> lift_res (to_profile m))"

definition put_fields :: "PersonaProfile \<Rightarrow> PersonaModel \<Rightarrow> PersonaModel" where
  "put_fields p m = m\<lparr>pm_name := p_name p, pm_description := Some (p_description p), pm_knobs := get_knobs p, pm_model := p_model p,
     pm_temperature := p_temperature p, pm_max_tokens := p_max_tokens p, pm_updated_at := p_updated_at p\<rparr>"

definition preset_fields :: "PersonaProfile \<Rightarrow> PersonaModel \<Rightarrow> PersonaModel" where
  "preset_fields p m = m\<lparr>pm_name := p_name p, pm_description := Some (p_description p), pm_knobs := get_knobs p\<rparr>"

definition update_with_version ::
  "api_env \<Rightarrow> string \<Rightarrow> (PersonaModel \<Rightarrow> PersonaModel) \<Rightarrow> string \<Rightarrow> string \<Rightarrow> api_db \<Rightarrow> persona_cache
    \<Rightarrow> persona_cache \<times> (api_db \<times> PersonaProfile) api" where
  "update_with_version env i f source summary db c = (case service_update env i f db c of
     (c, Inl e) \<Rightarrow> (c, Inl e)
   | (c, Inr (db, None)) \<Rightarrow> (c, not_found)
   | (c, Inr (db, Some updated)) \<Rightarrow>
       (c, abind (record_persona_version env updated source (Some summary) db) (\<lambda>db. answer_profile (db, updated))))"

definition update_persona ::
  "api_env \<Rightarrow> string \<Rightarrow> PersonaProfile \<Rightarrow> api_db \<Rightarrow> persona_cache \<Rightarrow> persona_cache \<times> (api_db \<times> PersonaProfile) api" where
  "update_persona env persona_id p db c = (case to_uuid persona_id of
     Inl e \<Rightarrow> (c, Inl e)
   | Inr i \<Rightarrow> update_with_version env i (put_fields p) ''manual'' ''Persona updated'' db c)"

definition apply_preset_route ::
  "api_env \<Rightarrow> (PresetName, PersonaProfile) dict \<Rightarrow> PresetName \<Rightarrow> string \<Rightarrow> api_db \<Rightarrow> persona_cache
    \<Rightarrow> persona_cache \<times> (api_db \<times> PersonaProfile) api" where
  "apply_preset_route env presets preset persona_id db c = (case to_uuid persona_id of
     Inl e \<Rightarrow> (c, Inl e)
   | Inr i \<Rightarrow> (case row_get pm_id (ad_personas db) i of
       None \<Rightarrow> (c, not_found)
     | Some existing \<Rightarrow> (case apply_preset presets preset of
         Inl e \<Rightarrow> (c, Inl (Unhandled e))
       | Inr p \<Rightarrow> update_with_version env (pm_id existing) (preset_fields p) ''preset''
           (''Applied preset '' @ preset_value preset) db c)))"

definition delete_persona :: "string \<Rightarrow> api_db \<Rightarrow> api_db api" where
  "delete_persona persona_id db = abind (to_uuid persona_id) (\<lambda>i.
     case delete_persona_row i db of (db, deleted) \<Rightarrow> if deleted then Inr db else not_found)"

definition system_prompt_route :: "string \<Rightarrow> api_db \<Rightarrow> persona_cache \<Rightarrow> persona_cache \<times> string api" where
  "system_prompt_route persona_id db c = (case to_uuid persona_id of
     Inl e \<Rightarrow> (c, Inl e)
   | Inr i \<Rightarrow> (case service_system_prompt i db c of
       (c, r) \<Rightarrow> (c, abind r (\<lambda>p. case p of None \<Rightarrow> not_found | Some prompt \<Rightarrow> Inr prompt))))"

definition sampling_route :: "string \<Rightarrow> api_db \<Rightarrow> persona_cache \<Rightarrow> persona_cache \<times> SamplingParams api" where
  "sampling_route persona_id db c = (case to_uuid persona_id of
     Inl e \<Rightarrow> (c, Inl e)
   | Inr i \<Rightarrow> (case service_sampling_params i db c of
       (c, r) \<Rightarrow> (c, abind r (\<lambda>p. case p of None \<Rightarrow> not_found | Some params \<Rightarrow> Inr params))))"

definition export_persona :: "string \<Rightarrow> api_db \<Rightarrow> (PersonaProfile \<times> string) api" where
  "export_persona persona_id db = abind (get_persona persona_id db) (\<lambda>p. Inr (p, ''persona_'' @ persona_id @ ''.json''))"

definition get_presets :: "(PresetName, PersonaProfile) dict \<Rightarrow> (string, string \<times> string \<times> (string, float64) dict) dict" where
  "get_presets presets = map (\<lambda>(k, v). (preset_value k, p_name v, p_description v, get_knobs v)) presets"

end
