(* ===== verification/LlmProvider.thy ===== *)
theory LlmProvider
  imports Persona Json ApiGuard
begin

text \<open>
  The settings of the language model and its clients: \<open>src/persola/integrations/llm_settings.py\<close>,
  \<open>src/persola/integrations/llm.py\<close> and the routes of \<open>src/persola/api/settings.py\<close>.

  The process state is the environment, the settings file and the cached settings. The file is absent,
  unreadable, or holds a JSON value. Pydantic's \<open>model_validate\<close>, which turns a dictionary into settings or raises, is
  an argument. A client is the data it was built with; what it sends is a request, and what comes back
  over HTTP or from an SDK is an argument. The two characters of a masked key that are not Latin-1, the
  bullet and the ellipsis, are the constructors of \<open>masked\<close>.
\<close>

section \<open>Settings\<close>

record LLMSettings =
  ls_provider :: string
  ls_model :: string
  ls_temperature :: float64
  ls_max_tokens :: int
  ls_ollama_base_url :: string
  ls_openai_api_key :: string
  ls_openai_base_url :: string
  ls_openai_model :: string
  ls_anthropic_api_key :: string
  ls_anthropic_model :: string
  ls_gemini_api_key :: string
  ls_gemini_model :: string
  ls_openrouter_api_key :: string
  ls_openrouter_base_url :: string
  ls_openrouter_model :: string

type_synonym environ = "(string, string) dict"

text \<open>\<open>os.getenv(a) or os.getenv(b) or d\<close>: the first variable that is set and not empty.\<close>

fun env_first :: "environ \<Rightarrow> string list \<Rightarrow> string \<Rightarrow> string" where
  "env_first e [] d = d"
| "env_first e (k # ks) d = (case nonempty (dget e k) of Some v \<Rightarrow> v | None \<Rightarrow> env_first e ks d)"

definition CLOUD_MODEL_CATALOG :: "(string, string list) dict" where
  "CLOUD_MODEL_CATALOG =
    [(''openai'', [''gpt-4o-mini'', ''gpt-4o'', ''gpt-4.1-mini'', ''o4-mini'']),
     (''anthropic'', [''claude-sonnet-4-20250514'', ''claude-3-5-sonnet-latest'', ''claude-3-5-haiku-latest'']),
     (''gemini'', [''gemini-2.0-flash'', ''gemini-2.5-flash'', ''gemini-1.5-pro'']),
     (''openrouter'', [''openrouter/auto'', ''anthropic/claude-3.5-sonnet'', ''openai/gpt-4o-mini'',
        ''google/gemini-2.0-flash-001'', ''meta-llama/llama-3.1-70b-instruct'']),
     (''ollama'', [])]"

definition resolved_api_key :: "environ \<Rightarrow> LLMSettings \<Rightarrow> string option \<Rightarrow> string" where
  "resolved_api_key e s provider =
    (let p = py_lower (str_or provider (ls_provider s));
         file_key = dget_or [(''openai'', ls_openai_api_key s), (''anthropic'', ls_anthropic_api_key s),
            (''gemini'', ls_gemini_api_key s), (''openrouter'', ls_openrouter_api_key s)] p '''';
         env_map = [(''openai'', ''OPENAI_API_KEY''), (''anthropic'', ''ANTHROPIC_API_KEY''),
            (''gemini'', ''GEMINI_API_KEY''), (''openrouter'', ''OPENROUTER_API_KEY'')]
     in if py_strip file_key \<noteq> [] then py_strip file_key
        else if p = ''gemini'' then py_strip (env_first e [''GEMINI_API_KEY'', ''GOOGLE_API_KEY''] '''')
        else (case dget env_map p of None \<Rightarrow> '''' | Some k \<Rightarrow> py_strip (dget_or e k '''')))"

definition resolved_model :: "environ \<Rightarrow> LLMSettings \<Rightarrow> string option \<Rightarrow> string" where
  "resolved_model e s provider =
    (let p = py_lower (str_or provider (ls_provider s)) in
     if py_strip (ls_model s) \<noteq> [] then py_strip (ls_model s)
     else let or_env = (\<lambda>m k d. if m \<noteq> [] then m else dget_or e k d);
              defaults = [(''ollama'', dget_or e ''LOCAL_LLM_MODEL'' ''qwen3-coder:30b''),
                (''openai'', or_env (ls_openai_model s) ''OPENAI_MODEL'' ''gpt-4o-mini''),
                (''anthropic'', or_env (ls_anthropic_model s) ''ANTHROPIC_MODEL'' ''claude-sonnet-4-20250514''),
                (''gemini'', or_env (ls_gemini_model s) ''GEMINI_MODEL'' ''gemini-2.0-flash''),
                (''openrouter'', or_env (ls_openrouter_model s) ''OPENROUTER_MODEL'' ''openrouter/auto'')]
          in dget_or defaults p ''qwen3-coder:30b'')"

datatype masked = Unset | Hidden | Ends string string

definition mask :: "string \<Rightarrow> masked" where
  "mask v = (let v = py_strip v in
     if v = [] then Unset else if length v \<le> 8 then Hidden else Ends (take 4 v) (drop (length v - 4) v))"

record PublicSettings =
  ps_provider :: string
  ps_model :: string
  ps_temperature :: float64
  ps_max_tokens :: int
  ps_ollama_base_url :: string
  ps_openai_base_url :: string
  ps_openrouter_base_url :: string
  ps_api_key_set :: "(string, bool) dict"
  ps_api_key_masked :: "(string, masked) dict"
  ps_catalog :: "(string, string list) dict"
  ps_settings_path :: string

definition keyed_providers :: "string list" where
  "keyed_providers = [''openai'', ''anthropic'', ''gemini'', ''openrouter'']"

definition public_dict :: "environ \<Rightarrow> string \<Rightarrow> LLMSettings \<Rightarrow> PublicSettings" where
  "public_dict e path s =
    (let or_env = (\<lambda>m k d. if m \<noteq> [] then m else dget_or e k d) in
     \<lparr> ps_provider = ls_provider s, ps_model = resolved_model e s None, ps_temperature = ls_temperature s,
       ps_max_tokens = ls_max_tokens s,
       ps_ollama_base_url = or_env (ls_ollama_base_url s) ''OLLAMA_BASE_URL'' ''http://127.0.0.1:11434'',
       ps_openai_base_url = or_env (ls_openai_base_url s) ''OPENAI_BASE_URL'' '''',
       ps_openrouter_base_url = or_env (ls_openrouter_base_url s) ''OPENROUTER_BASE_URL'' ''https://openrouter.ai/api/v1'',
       ps_api_key_set = map (\<lambda>p. (p, resolved_api_key e s (Some p) \<noteq> [])) keyed_providers,
       ps_api_key_masked = map (\<lambda>p. (p, mask (resolved_api_key e s (Some p)))) keyed_providers,
       ps_catalog = CLOUD_MODEL_CATALOG, ps_settings_path = path \<rparr>)"

definition env_bootstrap :: "environ \<Rightarrow> (string, json) dict" where
  "env_bootstrap e =
    [(''provider'', JStr (py_lower (env_first e [''PERSOLA_LLM_PROVIDER'', ''DEFAULT_PROVIDER''] ''ollama''))),
     (''model'', JStr (env_first e [''PERSOLA_LLM_MODEL'', ''DEFAULT_MODEL'', ''LOCAL_LLM_MODEL''] ''qwen3-coder:30b'')),
     (''ollama_base_url'', JStr (dget_or e ''OLLAMA_BASE_URL'' ''http://127.0.0.1:11434'')),
     (''openai_api_key'', JStr (dget_or e ''OPENAI_API_KEY'' '''')),
     (''openai_base_url'', JStr (dget_or e ''OPENAI_BASE_URL'' '''')),
     (''anthropic_api_key'', JStr (dget_or e ''ANTHROPIC_API_KEY'' '''')),
     (''gemini_api_key'', JStr (env_first e [''GEMINI_API_KEY''] (dget_or e ''GOOGLE_API_KEY'' ''''))),
     (''openrouter_api_key'', JStr (dget_or e ''OPENROUTER_API_KEY'' '''')),
     (''openrouter_base_url'', JStr (dget_or e ''OPENROUTER_BASE_URL'' ''https://openrouter.ai/api/v1''))]"

definition model_dump :: "LLMSettings \<Rightarrow> (string, json) dict" where
  "model_dump s =
    [(''provider'', JStr (ls_provider s)), (''model'', JStr (ls_model s)), (''temperature'', JFloat (ls_temperature s)),
     (''max_tokens'', JInt (ls_max_tokens s)), (''ollama_base_url'', JStr (ls_ollama_base_url s)),
     (''openai_api_key'', JStr (ls_openai_api_key s)), (''openai_base_url'', JStr (ls_openai_base_url s)),
     (''openai_model'', JStr (ls_openai_model s)), (''anthropic_api_key'', JStr (ls_anthropic_api_key s)),
     (''anthropic_model'', JStr (ls_anthropic_model s)), (''gemini_api_key'', JStr (ls_gemini_api_key s)),
     (''gemini_model'', JStr (ls_gemini_model s)), (''openrouter_api_key'', JStr (ls_openrouter_api_key s)),
     (''openrouter_base_url'', JStr (ls_openrouter_base_url s)), (''openrouter_model'', JStr (ls_openrouter_model s))]"

datatype settings_file = NoFile | Unreadable | FileData json

record llm_state =
  lt_environ :: environ
  lt_file :: settings_file
  lt_cached :: "LLMSettings option"

type_synonym validator = "(string, json) dict \<Rightarrow> LLMSettings res"

definition settings_data :: "environ \<Rightarrow> settings_file \<Rightarrow> (string, json) dict" where
  "settings_data e file = (case file of
     FileData (JObj file_data) \<Rightarrow> dmerge (env_bootstrap e) (filter (\<lambda>kv. snd kv \<noteq> JNull) file_data)
   | _ \<Rightarrow> env_bootstrap e)"

definition load_llm_settings :: "validator \<Rightarrow> bool \<Rightarrow> llm_state \<Rightarrow> llm_state \<times> LLMSettings res" where
  "load_llm_settings model_validate force st = (case (lt_cached st, force) of
     (Some s, False) \<Rightarrow> (st, Inr s)
   | _ \<Rightarrow> (case model_validate (settings_data (lt_environ st) (lt_file st)) of
       Inl e \<Rightarrow> (st, Inl e) | Inr s \<Rightarrow> (st\<lparr>lt_cached := Some s\<rparr>, Inr s)))"

definition is_secret :: "string \<Rightarrow> bool" where
  "is_secret key = (drop (length key - 8) key = ''_api_key'')"

definition patch_field :: "string \<times> json \<Rightarrow> (string, json) dict \<Rightarrow> (string, json) dict" where
  "patch_field kv current = (case kv of (key, v) \<Rightarrow>
     if is_secret key \<and> v = JStr '''' then current
     else if v = JNull \<and> is_secret key then dset key (JStr '''') current
     else if dget current key \<noteq> None then dset key v current else current)"

definition mirrored :: "LLMSettings \<Rightarrow> environ \<Rightarrow> environ" where
  "mirrored s e = dset ''PERSOLA_LLM_MODEL'' (ls_model s) (dset ''PERSOLA_LLM_PROVIDER'' (ls_provider s)
     (dset ''DEFAULT_MODEL'' (ls_model s) (dset ''DEFAULT_PROVIDER'' (ls_provider s)
     (dset ''OLLAMA_BASE_URL'' (ls_ollama_base_url s) e))))"

definition save_llm_settings :: "validator \<Rightarrow> (string, json) dict \<Rightarrow> llm_state \<Rightarrow> llm_state \<times> LLMSettings res" where
  "save_llm_settings model_validate patch st = (case load_llm_settings model_validate True st of
     (st, Inl e) \<Rightarrow> (st, Inl e)
   | (st, Inr loaded) \<Rightarrow> (case model_validate (fold patch_field patch (model_dump loaded)) of
       Inl e \<Rightarrow> (st, Inl e)
     | Inr s \<Rightarrow> (st\<lparr>lt_file := FileData (JObj (model_dump s)), lt_cached := Some s, lt_environ := mirrored s (lt_environ st)\<rparr>, Inr s)))"

section \<open>Clients\<close>

type_synonym chat_message = "string \<times> string"

datatype llm_client =
    OllamaClient (cl_model: string) (cl_base_url: string) (cl_temperature: float64) (cl_max_tokens: int)
  | OpenAICompatibleClient (cl_label: string) (cl_model: string) (cl_api_key: string) (cl_custom_url: "string option")
      (cl_temperature: float64) (cl_max_tokens: int)
  | AnthropicClientWrapper (cl_model: string) (cl_api_key: string) (cl_temperature: float64) (cl_max_tokens: int)
  | GeminiClient (cl_model: string) (cl_api_key: string) (cl_temperature: float64) (cl_max_tokens: int)

definition rstrip_slash :: "string \<Rightarrow> string" where
  "rstrip_slash s = rev (dropWhile (\<lambda>c. c = CHR ''/'') (rev s))"

definition make_ollama :: "environ \<Rightarrow> LLMSettings \<Rightarrow> string \<Rightarrow> string option \<Rightarrow> float64 \<Rightarrow> int \<Rightarrow> llm_client" where
  "make_ollama e s model base_url temperature max_tokens =
     OllamaClient model (rstrip_slash (str_or base_url (if ls_ollama_base_url s \<noteq> [] then ls_ollama_base_url s
       else dget_or e ''OLLAMA_BASE_URL'' ''http://127.0.0.1:11434''))) temperature max_tokens"

definition make_openai :: "string \<Rightarrow> string \<Rightarrow> string \<Rightarrow> string option \<Rightarrow> float64 \<Rightarrow> int \<Rightarrow> llm_client" where
  "make_openai label model api_key base_url temperature max_tokens =
     OpenAICompatibleClient label model api_key (nonempty (Some (rstrip_slash (str_or base_url '''')))) temperature max_tokens"

datatype llm_request =
    OllamaChat string string "chat_message list" float64 int
  | OllamaGenerate string string string float64 int
  | OpenAIChat string "string option" string "chat_message list" float64 int
  | AnthropicMessages string string int float64 "chat_message list" "string option"
  | GeminiContent string string "chat_message list" float64 int "string option"

definition with_system :: "string \<Rightarrow> chat_message list \<Rightarrow> chat_message list" where
  "with_system system_prompt messages = (if system_prompt \<noteq> [] then [(''system'', system_prompt)] else []) @ messages"

definition gemini_contents :: "chat_message list \<Rightarrow> chat_message list" where
  "gemini_contents messages = map (\<lambda>(role, content). (if role \<noteq> ''assistant'' then ''user'' else ''model'', content)) messages"

fun chat_request :: "llm_client \<Rightarrow> chat_message list \<Rightarrow> string \<Rightarrow> llm_request" where
  "chat_request (OllamaClient m url t n) messages system_prompt = OllamaChat (url @ ''/api/chat'') m (with_system system_prompt messages) t n"
| "chat_request (OpenAICompatibleClient l m k url t n) messages system_prompt = OpenAIChat k url m (with_system system_prompt messages) t n"
| "chat_request (AnthropicClientWrapper m k t n) messages system_prompt = AnthropicMessages k m n t messages (nonempty (Some system_prompt))"
| "chat_request (GeminiClient m k t n) messages system_prompt =
     GeminiContent (''https://generativelanguage.googleapis.com/v1beta/models/'' @ m @ '':generateContent'') k
       (gemini_contents messages) t n (nonempty (Some system_prompt))"

fun generate_request :: "llm_client \<Rightarrow> string \<Rightarrow> llm_request" where
  "generate_request (OllamaClient m url t n) prompt = OllamaGenerate (url @ ''/api/generate'') m prompt t n"
| "generate_request c prompt = chat_request c [(''user'', prompt)] ''''"

text \<open>An Ollama server is probed over HTTP; a cloud client is available when it has a key.\<close>

fun client_available :: "(string \<Rightarrow> bool) \<Rightarrow> llm_client \<Rightarrow> bool" where
  "client_available probe (OllamaClient m url t n) = probe (url @ ''/api/tags'')"
| "client_available probe c = (cl_api_key c \<noteq> [])"

text \<open>\<open>d.get(k, default)\<close> of a value that may not be a dictionary.\<close>

definition jget :: "json \<Rightarrow> string \<Rightarrow> json \<Rightarrow> json res" where
  "jget j k d = (case j of JObj o' \<Rightarrow> Inr (dget_or o' k d) | _ \<Rightarrow> Inl (RuntimeFailure ''AttributeError''))"

fun jgets :: "json list \<Rightarrow> string \<Rightarrow> json list res" where
  "jgets [] k = Inr []"
| "jgets (m # ms) k = rbind (jget m k JNull) (\<lambda>v. rbind (jgets ms k) (\<lambda>vs. Inr (v # vs)))"

definition ollama_chat_text :: "json \<Rightarrow> json res" where
  "ollama_chat_text body = rbind (jget body ''message'' (JObj [])) (\<lambda>m. jget m ''content'' (JStr ''''))"

definition ollama_generate_text :: "json \<Rightarrow> json res" where
  "ollama_generate_text body = jget body ''response'' (JStr '''')"

text \<open>The streaming answer: one JSON text per line, \<open>loads\<close> being \<open>json.loads\<close>.\<close>

fun stream_chunks :: "(string \<Rightarrow> json option) \<Rightarrow> string list \<Rightarrow> json list" where
  "stream_chunks loads [] = []"
| "stream_chunks loads (line # lines) =
    (if py_strip line = [] then stream_chunks loads lines
     else (case loads line of
        Some (JObj j) \<Rightarrow> (case dget j ''response'' of None \<Rightarrow> stream_chunks loads lines | Some r \<Rightarrow> r # stream_chunks loads lines)
      | _ \<Rightarrow> stream_chunks loads lines))"

fun json_texts :: "json list \<Rightarrow> string res" where
  "json_texts [] = Inr []"
| "json_texts (p # ps) = rbind (jget p ''text'' (JStr '''')) (\<lambda>t. case t of
     JStr s \<Rightarrow> rbind (json_texts ps) (\<lambda>rest. Inr (s @ rest)) | _ \<Rightarrow> Inl TypeError)"

definition json_or :: "json \<Rightarrow> json \<Rightarrow> json" where
  "json_or j d = (if truthy j then j else d)"

definition gemini_text :: "json \<Rightarrow> string res" where
  "gemini_text data = rbind (jget data ''candidates'' JNull) (\<lambda>candidates.
     case json_or candidates (JList []) of
       JList [] \<Rightarrow> Inr ''''
     | JList (c # _) \<Rightarrow> rbind (jget c ''content'' JNull) (\<lambda>content.
         rbind (jget (json_or content (JObj [])) ''parts'' JNull) (\<lambda>parts.
         case json_or parts (JList []) of JList ps \<Rightarrow> json_texts ps | _ \<Rightarrow> Inl TypeError))
     | _ \<Rightarrow> Inl TypeError)"

definition ollama_models :: "json \<Rightarrow> json list res" where
  "ollama_models body = rbind (jget body ''models'' JNull) (\<lambda>models.
     case json_or models (JList []) of
       JList ms \<Rightarrow> rbind (jgets ms ''name'') (\<lambda>names. rbind (jgets ms ''model'') (\<lambda>ids.
         Inr (filter truthy (map2 json_or names ids))))
     | _ \<Rightarrow> Inl TypeError)"

section \<open>The provider in use\<close>

record PersolaLLM =
  pl_provider_type :: string
  pl_model :: string
  pl_client :: llm_client

definition initialize_provider :: "environ \<Rightarrow> LLMSettings \<Rightarrow> string \<Rightarrow> string \<Rightarrow> float64 \<Rightarrow> int \<Rightarrow> llm_client res" where
  "initialize_provider e s provider model temperature max_tokens =
    (if provider = ''openai'' then Inr (make_openai ''openai'' model (resolved_api_key e s (Some ''openai''))
        (nonempty (Some (ls_openai_base_url s))) temperature max_tokens)
     else if provider = ''openrouter'' then Inr (make_openai ''openrouter'' model (resolved_api_key e s (Some ''openrouter''))
        (Some (str_or (Some (ls_openrouter_base_url s)) ''https://openrouter.ai/api/v1'')) temperature max_tokens)
     else if provider = ''anthropic'' then Inr (AnthropicClientWrapper model (resolved_api_key e s (Some ''anthropic'')) temperature max_tokens)
     else if provider = ''gemini'' then Inr (GeminiClient model (resolved_api_key e s (Some ''gemini'')) temperature max_tokens)
     else if provider = ''ollama'' then Inr (make_ollama e s model (Some (ls_ollama_base_url s)) temperature max_tokens)
     else Inl (ValueError (''Unknown LLM provider '' @ [CHR 0x27] @ provider @ [CHR 0x27] @
        ''. Use ollama, openai, anthropic, gemini, or openrouter.'')))"

definition get_llm_provider ::
  "environ \<Rightarrow> LLMSettings \<Rightarrow> string \<Rightarrow> string option \<Rightarrow> float64 option \<Rightarrow> int option \<Rightarrow> PersolaLLM res" where
  "get_llm_provider e s provider model temperature max_tokens =
    (let provider = py_lower (if provider = ''auto'' then str_or (Some (ls_provider s)) ''ollama'' else provider);
         model = str_or model (resolved_model e s (Some provider));
         temperature = or_default temperature (ls_temperature s);
         max_tokens = or_default max_tokens (ls_max_tokens s)
     in rbind (initialize_provider e s provider model temperature max_tokens) (\<lambda>client.
        Inr \<lparr> pl_provider_type = provider, pl_model = model, pl_client = client \<rparr>))"

definition get_provider_type :: "PersolaLLM \<Rightarrow> string" where
  "get_provider_type llm = str_or (Some (pl_provider_type llm)) ''unknown''"

section \<open>Routes\<close>

definition allowed_providers :: "string list" where
  "allowed_providers = [''ollama'', ''openai'', ''anthropic'', ''gemini'', ''openrouter'']"

text \<open>The body holds the fields the request sets; a provider that is null prints as \<open>None\<close>.\<close>

definition patch_llm_settings :: "validator \<Rightarrow> (string, json) dict \<Rightarrow> llm_state \<Rightarrow> llm_state \<times> LLMSettings api" where
  "patch_llm_settings model_validate patch st =
    (case (if truthy (dget_or patch ''provider'' JNull) then (st, Inr None)
           else apsnd (map_sum id Some) (load_llm_settings model_validate False st)) of
       (st, Inl e) \<Rightarrow> (st, Inl (Unhandled e))
     | (st, Inr _) \<Rightarrow> (case dget patch ''provider'' of
         None \<Rightarrow> apsnd lift_res (save_llm_settings model_validate patch st)
       | Some v \<Rightarrow> let provider = py_lower (case v of JStr p \<Rightarrow> p | _ \<Rightarrow> ''None'') in
           if provider \<notin> set allowed_providers
           then (st, Inl (HTTPException 400 ''provider must be one of ['anthropic', 'gemini', 'ollama', 'openai', 'openrouter']''))
           else apsnd lift_res (save_llm_settings model_validate (dset ''provider'' (JStr provider) patch) st)))"

record model_list =
  ml_provider :: string
  ml_available :: bool
  ml_models :: "json list"

text \<open>\<open>tags\<close> is the answer of the Ollama server to a request for that URL, or an error.\<close>

definition list_llm_models :: "environ \<Rightarrow> (string \<Rightarrow> json res) \<Rightarrow> LLMSettings \<Rightarrow> string option \<Rightarrow> model_list" where
  "list_llm_models e tags s provider =
    (let p = py_lower (str_or provider (str_or (Some (ls_provider s)) ''ollama'')) in
     if p = ''ollama'' then
       let client = make_ollama e s ''qwen3-coder:30b'' (Some (ls_ollama_base_url s)) (fl (7/10)) 2000
       in (case rbind (tags (cl_base_url client @ ''/api/tags'')) ollama_models of
            Inr models \<Rightarrow> \<lparr> ml_provider = ''ollama'', ml_available = True, ml_models = models \<rparr>
          | Inl _ \<Rightarrow> \<lparr> ml_provider = ''ollama'', ml_available = False, ml_models = [] \<rparr>)
     else \<lparr> ml_provider = p, ml_available = resolved_api_key e s (Some p) \<noteq> [], ml_models = map JStr (dget_or CLOUD_MODEL_CATALOG p []) \<rparr>)"

definition ollama_health :: "(string \<Rightarrow> json res) \<Rightarrow> LLMSettings \<Rightarrow> bool \<times> string \<times> json list" where
  "ollama_health tags s = (let base = rstrip_slash (ls_ollama_base_url s) in
     case rbind (tags (base @ ''/api/tags'')) (\<lambda>body. rbind (jget body ''models'' JNull) (\<lambda>models.
            case json_or models (JList []) of JList ms \<Rightarrow> jgets ms ''name'' | _ \<Rightarrow> Inl TypeError)) of
       Inr models \<Rightarrow> (True, base, models) | Inl _ \<Rightarrow> (False, base, []))"

definition test_llm ::
  "environ \<Rightarrow> (string \<Rightarrow> bool) \<Rightarrow> (llm_request \<Rightarrow> string + string) \<Rightarrow> LLMSettings \<Rightarrow> string \<Rightarrow> (string \<times> string \<times> string) api" where
  "test_llm e probe send s prompt =
     abind (lift_res (get_llm_provider e s (ls_provider s) (Some (resolved_model e s None)) (Some (ls_temperature s))
       (Some (min (ls_max_tokens s) 128)))) (\<lambda>llm.
     if \<not> client_available probe (pl_client llm)
     then Inl (HTTPException 503 (''Provider '' @ [CHR 0x27] @ ls_provider s @ [CHR 0x27] @
       '' is not available. Check Ollama is running or set the provider API key in Settings.''))
     else (case send (generate_request (pl_client llm) prompt) of
         Inl msg \<Rightarrow> Inl (HTTPException 502 msg)
       | Inr text \<Rightarrow> Inr (get_provider_type llm, pl_model llm, take 2000 text)))"

record provider_row =
  pr_type :: string
  pr_available :: bool
  pr_model :: string
  pr_active :: bool

definition get_provider_status :: "environ \<Rightarrow> LLMSettings \<Rightarrow> provider_row list" where
  "get_provider_status e s =
    (let row = (\<lambda>p m. \<lparr> pr_type = p, pr_available = resolved_api_key e s (Some p) \<noteq> [], pr_model = m, pr_active = (ls_provider s = p) \<rparr>)
     in [\<lparr> pr_type = ''ollama'', pr_available = True, pr_model = ls_model s, pr_active = (ls_provider s = ''ollama'') \<rparr>,
         row ''openai'' (ls_openai_model s), row ''anthropic'' (ls_anthropic_model s), row ''gemini'' (ls_gemini_model s),
         row ''openrouter'' (ls_openrouter_model s)])"

section \<open>Properties\<close>

lemma map_of_rev_dict: "dict_ok d \<Longrightarrow> map_of (rev d) k = dget d k"
proof (induction d)
  case (Cons x d)
  then have "map_of (rev d) k = dget d k" "fst x = k \<Longrightarrow> dget d k = None"
    by (auto simp: dict_ok_def dkeys_def dget_def map_of_eq_None_iff)
  then show ?case by (cases "fst x = k") (simp_all add: dget_def map_add_def split: option.split)
qed (simp add: dget_def)

lemma dump_keys: "dict_ok (model_dump s)" "dget (env_bootstrap e) k \<noteq> None \<Longrightarrow> dget (model_dump s) k \<noteq> None"
  by (simp_all add: dict_ok_def dkeys_def model_dump_def env_bootstrap_def dget_def split: if_splits)

lemma dump_no_null: "filter (\<lambda>kv. snd kv \<noteq> JNull) (model_dump s) = model_dump s"
  by (simp add: model_dump_def)

lemma saved_data: "dget (settings_data e (FileData (JObj (model_dump s)))) k = dget (model_dump s) k"
proof (cases "dget (model_dump s) k")
  case None
  then have "dget (env_bootstrap e) k = None" using dump_keys(2) by blast
  then show ?thesis using None by (simp add: settings_data_def dump_no_null dget_dmerge map_of_rev_dict [OF dump_keys(1)])
qed (simp add: settings_data_def dump_no_null dget_dmerge map_of_rev_dict [OF dump_keys(1)])


lemma patch_field_get:
  "dget d k \<noteq> None \<Longrightarrow> dget (patch_field (key, v) d) k =
     (if k \<noteq> key \<or> is_secret k \<and> v = JStr [] then dget d k else if is_secret k \<and> v = JNull then Some (JStr []) else Some v)"
  by (auto simp: patch_field_def dget_dset)

text \<open>
  What a patch does to a field of the settings: a field it does not name keeps its value, a secret
  sent as the empty text keeps its value, a secret sent as null is cleared, any other field takes the
  value sent.
\<close>

theorem patch_settings_field:
  assumes "dict_ok patch" "dget d k \<noteq> None"
  shows "dget (fold patch_field patch d) k = (case dget patch k of
      None \<Rightarrow> dget d k
    | Some v \<Rightarrow> if is_secret k \<and> v = JStr [] then dget d k else if is_secret k \<and> v = JNull then Some (JStr []) else Some v)"
  using assms
proof (induction patch arbitrary: d)
  case Nil
  then show ?case by (simp add: dget_def)
next
  case (Cons kv rest)
  obtain key v where kv: "kv = (key, v)" by fastforce
  have ok: "dict_ok rest" "dget rest key = None" using Cons.prems(1) by (simp_all add: kv dict_ok_def dkeys_def dget_None)
  have d: "dget (patch_field kv d) k \<noteq> None" using Cons.prems(2) by (simp add: kv patch_field_get)
  have get: "dget ((key, v) # rest) k = (if k = key then Some v else dget rest k)" by (simp add: dget_def)
  show ?case using Cons.IH [OF ok(1) d] ok(2) patch_field_get [OF Cons.prems(2), of key v] unfolding kv get
    by (cases "k = key"; cases "dget rest k") simp_all
qed

definition alike :: "string \<Rightarrow> string \<Rightarrow> bool" where
  "alike k k' \<longleftrightarrow> py_strip k = py_strip k' \<or>
     (py_strip k \<noteq> [] \<and> py_strip k' \<noteq> [] \<and> length (py_strip k) \<le> 8 \<and> length (py_strip k') \<le> 8) \<or>
     (8 < length (py_strip k) \<and> 8 < length (py_strip k') \<and> take 4 (py_strip k) = take 4 (py_strip k') \<and>
      drop (length (py_strip k) - 4) (py_strip k) = drop (length (py_strip k') - 4) (py_strip k'))"

definition with_keys :: "LLMSettings \<Rightarrow> string \<Rightarrow> string \<Rightarrow> string \<Rightarrow> string \<Rightarrow> LLMSettings" where
  "with_keys s k1 k2 k3 k4 = s\<lparr>ls_openai_api_key := k1, ls_anthropic_api_key := k2, ls_gemini_api_key := k3, ls_openrouter_api_key := k4\<rparr>"

lemma py_strip_idem [simp]: "py_strip (py_strip s) = py_strip s"
proof -
  have hd: "dropWhile py_isspace t = t" if "t = [] \<or> \<not> py_isspace (hd t)" for t using that by (cases t) auto
  let ?a = "dropWhile py_isspace s"
  let ?b = "dropWhile py_isspace (rev ?a)"
  have "dropWhile py_isspace (rev ?b) = rev ?b"
  proof (rule hd)
    show "rev ?b = [] \<or> \<not> py_isspace (hd (rev ?b))"
    proof (cases "?b = []")
      case False
      obtain pre where "rev ?a = pre @ ?b" by (metis takeWhile_dropWhile_id)
      then have "?a = rev ?b @ rev pre" by (metis rev_append rev_rev_ident)
      then have "hd ?a = hd (rev ?b)" "?a \<noteq> []" using False by (metis hd_append2 rev_is_Nil_conv, metis append_is_Nil_conv rev_is_Nil_conv)
      then show ?thesis using hd_dropWhile by metis
    qed simp
  qed
  moreover have "dropWhile py_isspace ?b = ?b" by (rule hd) (metis hd_dropWhile)
  ultimately show ?thesis by (simp add: py_strip_def py_strip_by_def)
qed

lemma alike_key:
  assumes "alike k k'"
  shows "(py_strip k = []) = (py_strip k' = [])" "mask (py_strip k) = mask (py_strip k')"
  using assms by (auto simp: alike_def mask_def Let_def)

lemma resolved_key:
  "resolved_api_key e s (Some ''openai'') = (if py_strip (ls_openai_api_key s) \<noteq> [] then py_strip (ls_openai_api_key s)
     else py_strip (dget_or e ''OPENAI_API_KEY'' []))"
  "resolved_api_key e s (Some ''anthropic'') = (if py_strip (ls_anthropic_api_key s) \<noteq> [] then py_strip (ls_anthropic_api_key s)
     else py_strip (dget_or e ''ANTHROPIC_API_KEY'' []))"
  "resolved_api_key e s (Some ''gemini'') = (if py_strip (ls_gemini_api_key s) \<noteq> [] then py_strip (ls_gemini_api_key s)
     else py_strip (env_first e [''GEMINI_API_KEY'', ''GOOGLE_API_KEY''] []))"
  "resolved_api_key e s (Some ''openrouter'') = (if py_strip (ls_openrouter_api_key s) \<noteq> [] then py_strip (ls_openrouter_api_key s)
     else py_strip (dget_or e ''OPENROUTER_API_KEY'' []))"
proof -
  have "py_lower ''openai'' = ''openai''" "py_lower ''anthropic'' = ''anthropic''" "py_lower ''gemini'' = ''gemini''"
    "py_lower ''openrouter'' = ''openrouter''"
    by code_simp+
  then show "resolved_api_key e s (Some ''openai'') = (if py_strip (ls_openai_api_key s) \<noteq> [] then py_strip (ls_openai_api_key s)
      else py_strip (dget_or e ''OPENAI_API_KEY'' []))"
    "resolved_api_key e s (Some ''anthropic'') = (if py_strip (ls_anthropic_api_key s) \<noteq> [] then py_strip (ls_anthropic_api_key s)
      else py_strip (dget_or e ''ANTHROPIC_API_KEY'' []))"
    "resolved_api_key e s (Some ''gemini'') = (if py_strip (ls_gemini_api_key s) \<noteq> [] then py_strip (ls_gemini_api_key s)
      else py_strip (env_first e [''GEMINI_API_KEY'', ''GOOGLE_API_KEY''] []))"
    "resolved_api_key e s (Some ''openrouter'') = (if py_strip (ls_openrouter_api_key s) \<noteq> [] then py_strip (ls_openrouter_api_key s)
      else py_strip (dget_or e ''OPENROUTER_API_KEY'' []))"
    by (simp_all add: resolved_api_key_def str_or_def dget_or_def [of "(_, _) # _"] dget_def)
qed

text \<open>
  C29. The settings route does not give secrets away: its answer is the same for any two sets of stored keys
  that are blank in the same places and agree on the first and the last four characters of the keys
  longer than eight; of a shorter key nothing shows but that it is set.
\<close>

theorem public_dict_hides_keys:
  assumes "alike k1 k1'" "alike k2 k2'" "alike k3 k3'" "alike k4 k4'"
  shows "public_dict e path (with_keys s k1 k2 k3 k4) = public_dict e path (with_keys s k1' k2' k3' k4')"
proof -
  note a = assms [THEN alike_key(1)] assms [THEN alike_key(2)]
  have "resolved_model e (with_keys s k1 k2 k3 k4) None = resolved_model e (with_keys s k1' k2' k3' k4') None"
    by (simp add: resolved_model_def with_keys_def)
  then show ?thesis using a by (simp add: public_dict_def keyed_providers_def resolved_key with_keys_def Let_def)
qed

text \<open>
  A model name in the settings wins over the provider: with any non-blank name, asking for a provider
  without naming a model builds a client for that name, whatever provider the name belongs to. (A
  comment in \<open>resolved_model\<close> says the name is preferred when it matches the provider.)
\<close>

theorem provider_model_mismatch:
  assumes "get_llm_provider e s provider None temperature max_tokens = Inr llm" "py_strip (ls_model s) \<noteq> []"
  shows "pl_model llm = py_strip (ls_model s) \<and> cl_model (pl_client llm) = py_strip (ls_model s)"
  using assms by (auto simp: get_llm_provider_def Let_def rbind_eq_Inr str_or_def resolved_model_def initialize_provider_def
      make_openai_def make_ollama_def split: if_splits)

text \<open>What a request says to the model: the system prompt, if there is one, and the texts of the turns.\<close>

fun request_texts :: "llm_request \<Rightarrow> string list" where
  "request_texts (OllamaChat _ _ ms _ _) = map snd ms"
| "request_texts (OllamaGenerate _ _ p _ _) = [p]"
| "request_texts (OpenAIChat _ _ _ ms _ _) = map snd ms"
| "request_texts (AnthropicMessages _ _ _ _ ms system) = (case system of None \<Rightarrow> [] | Some t \<Rightarrow> [t]) @ map snd ms"
| "request_texts (GeminiContent _ _ ms _ _ system) = (case system of None \<Rightarrow> [] | Some t \<Rightarrow> [t]) @ map snd ms"

text \<open>
  The four clients say the same to their models: the system prompt first, unless it is empty, then the
  text of every turn in order, nothing dropped, merged or repeated.
\<close>

theorem chat_request_complete:
  "request_texts (chat_request c messages system_prompt) = (if system_prompt = [] then [] else [system_prompt]) @ map snd messages"
  by (cases c) (simp_all add: with_system_def nonempty_def gemini_contents_def split_beta comp_def)

section \<open>Witnesses\<close>

text \<open>A validator that accepts exactly the declared types and ranges.\<close>

definition str_field :: "(string, json) dict \<Rightarrow> string \<Rightarrow> string \<Rightarrow> string res" where
  "str_field d k v = (case dget d k of None \<Rightarrow> Inr v | Some (JStr s) \<Rightarrow> Inr s | _ \<Rightarrow> Inl ValidationError)"

definition strict_validate :: validator where
  "strict_validate d =
     rbind (str_field d ''provider'' ''ollama'') (\<lambda>a1. rbind (str_field d ''model'' ''qwen3-coder:30b'') (\<lambda>a2.
     rbind (case dget d ''temperature'' of None \<Rightarrow> Inr (fl (7/10)) | Some (JFloat x) \<Rightarrow> Inr x | _ \<Rightarrow> Inl ValidationError) (\<lambda>a3.
     rbind (case dget d ''max_tokens'' of None \<Rightarrow> Inr 2000 | Some (JInt n) \<Rightarrow> Inr n | _ \<Rightarrow> Inl ValidationError) (\<lambda>a4.
     rbind (str_field d ''ollama_base_url'' ''http://127.0.0.1:11434'') (\<lambda>a5. rbind (str_field d ''openai_api_key'' []) (\<lambda>a6.
     rbind (str_field d ''openai_base_url'' []) (\<lambda>a7. rbind (str_field d ''openai_model'' ''gpt-4o-mini'') (\<lambda>a8.
     rbind (str_field d ''anthropic_api_key'' []) (\<lambda>a9. rbind (str_field d ''anthropic_model'' ''claude-sonnet-4-20250514'') (\<lambda>a10.
     rbind (str_field d ''gemini_api_key'' []) (\<lambda>a11. rbind (str_field d ''gemini_model'' ''gemini-2.0-flash'') (\<lambda>a12.
     rbind (str_field d ''openrouter_api_key'' []) (\<lambda>a13. rbind (str_field d ''openrouter_base_url'' ''https://openrouter.ai/api/v1'') (\<lambda>a14.
     rbind (str_field d ''openrouter_model'' ''openrouter/auto'') (\<lambda>a15.
     if a3 < 0 \<or> 2 < a3 \<or> a4 < 1 \<or> 128000 < a4 then Inl ValidationError else
     Inr \<lparr> ls_provider = a1, ls_model = a2, ls_temperature = a3, ls_max_tokens = a4, ls_ollama_base_url = a5, ls_openai_api_key = a6,
       ls_openai_base_url = a7, ls_openai_model = a8, ls_anthropic_api_key = a9, ls_anthropic_model = a10, ls_gemini_api_key = a11,
       ls_gemini_model = a12, ls_openrouter_api_key = a13, ls_openrouter_base_url = a14, ls_openrouter_model = a15 \<rparr>)))))))))))))))"

lemma strict_validate_dump:
  assumes "strict_validate d = Inr s" "\<And>k. dget d' k = dget (model_dump s) k"
  shows "strict_validate d' = Inr s"
proof -
  have "\<not> (ls_temperature s < 0 \<or> 2 < ls_temperature s \<or> ls_max_tokens s < 1 \<or> 128000 < ls_max_tokens s)"
    using assms(1) by (auto simp: strict_validate_def rbind_eq_Inr split: if_splits)
  then show ?thesis unfolding strict_validate_def str_field_def assms(2) by (simp add: model_dump_def dget_def)
qed

definition fresh_state :: llm_state where
  "fresh_state = \<lparr> lt_environ = [(''OPENAI_API_KEY'', ''sk-environment'')], lt_file = NoFile, lt_cached = None \<rparr>"

definition openai_patch :: "(string, json) dict" where
  "openai_patch = [(''provider'', JStr ''openai''), (''temperature'', JFloat 1), (''openai_api_key'', JStr [])]"

lemma demo_save: "\<exists>st' s. save_llm_settings strict_validate openai_patch fresh_state = (st', Inr s) \<and> ls_provider s = ''openai'' \<and>
    ls_openai_api_key s = ''sk-environment''"
proof -
  have "0 \<le> fl (7/10)" "fl (7/10) \<le> 2" using fl_mono [of 0 "7/10"] fl_mono [of "7/10" 2] by simp_all
  then show ?thesis
    by (simp add: save_llm_settings_def load_llm_settings_def fresh_state_def settings_data_def env_bootstrap_def strict_validate_def
        str_field_def dget_def dget_or_def nonempty_def py_lower_def py_lower_char_def openai_patch_def patch_field_def model_dump_def
        is_secret_def not_less)
qed


theorem patch_settings_field_witness:
  "dget (fold patch_field openai_patch [(''provider'', JStr ''ollama''), (''openai_api_key'', JStr ''k'')]) ''openai_api_key'' = Some (JStr ''k'')"
proof -
  have h: "dict_ok openai_patch" "dget [(''provider'', JStr ''ollama''), (''openai_api_key'', JStr ''k'')] ''openai_api_key'' \<noteq> None"
    "is_secret ''openai_api_key''" "dget openai_patch ''openai_api_key'' = Some (JStr [])"
    by (simp_all add: dict_ok_def dkeys_def openai_patch_def dget_def is_secret_def)
  show ?thesis using patch_settings_field [OF h(1,2)] by (simp add: h(3,4)) (simp add: dget_def)
qed

definition plain_settings :: LLMSettings where
  "plain_settings = \<lparr> ls_provider = ''ollama'', ls_model = ''qwen3-coder:30b'', ls_temperature = 1, ls_max_tokens = 2000,
     ls_ollama_base_url = ''http://127.0.0.1:11434'', ls_openai_api_key = [], ls_openai_base_url = [], ls_openai_model = ''gpt-4o-mini'',
     ls_anthropic_api_key = [], ls_anthropic_model = ''claude-sonnet-4-20250514'', ls_gemini_api_key = [], ls_gemini_model = ''gemini-2.0-flash'',
     ls_openrouter_api_key = [], ls_openrouter_base_url = ''https://openrouter.ai/api/v1'', ls_openrouter_model = ''openrouter/auto'' \<rparr>"

theorem public_dict_hides_keys_witness:
  "public_dict [] [] (with_keys plain_settings ''sk-a-secret-tail'' [] [] ''short'') =
   public_dict [] [] (with_keys plain_settings ''sk-a-hidden-tail'' [] [] ''other'') \<and> ''sk-a-secret-tail'' \<noteq> ''sk-a-hidden-tail''"
proof -
  have "alike ''sk-a-secret-tail'' ''sk-a-hidden-tail''" "alike ''short'' ''other''" "alike [] []" by code_simp+
  then show ?thesis using public_dict_hides_keys by simp
qed

theorem provider_model_mismatch_witness:
  "\<exists>llm. get_llm_provider [] plain_settings ''openai'' None None None = Inr llm \<and> pl_provider_type llm = ''openai'' \<and> pl_model llm = ''qwen3-coder:30b''"
proof -
  have lower: "py_lower ''openai'' = ''openai''" and m: "py_strip (ls_model plain_settings) = ''qwen3-coder:30b''" by code_simp+
  obtain llm where l: "get_llm_provider [] plain_settings ''openai'' None None None = Inr llm" "pl_provider_type llm = ''openai''"
    by (simp add: get_llm_provider_def lower initialize_provider_def Let_def)
  show ?thesis using provider_model_mismatch [OF l(1)] l m by simp
qed

end
