(* ===== verification/AgentApi.thy ===== *)
theory AgentApi
  imports PersonaApi LlmProvider
begin

text \<open>
  The agent and session routes of \<open>src/persola/api/main.py\<close>, from \<open>create_agent\<close> to \<open>invoke_agent\<close>.

  The settings as \<open>load_llm_settings\<close> returns them (or the exception it raises), the probe of the Ollama
  server and the answer of the model to a request are arguments. A route that raises leaves the database
  as it was, except \<open>invoke_agent\<close>, which commits a failed run first; it returns the committed
  database beside its answer. Gauges, logs and token counters are left out.
\<close>

section \<open>Agents\<close>

definition agent_not_found :: "'a api" where
  "agent_not_found = Inl (HTTPException 404 ''Agent not found'')"

definition session_not_found :: "'a api" where
  "session_not_found = Inl (HTTPException 404 ''Session not found'')"

text \<open>The prompt an agent gets from its persona, when it has one that exists.\<close>

definition persona_prompt :: "string option \<Rightarrow> api_db \<Rightarrow> string option api" where
  "persona_prompt persona db = (case persona of
     None \<Rightarrow> Inr None
   | Some i \<Rightarrow> (case row_get pm_id (ad_personas db) i of
       None \<Rightarrow> Inr None
     | Some m \<Rightarrow> abind (lift_res (to_profile m)) (\<lambda>p. Inr (Some (build_system_prompt p)))))"

definition create_agent :: "api_env \<Rightarrow> AgentConfig \<Rightarrow> api_db \<Rightarrow> (api_db \<times> AgentConfig) api" where
  "create_agent env c db =
     abind (lift_res (from_config (fresh_uuid env db) c)) (\<lambda>m.
     abind (persona_prompt (am_persona_id m) db) (\<lambda>prompt.
     let m = (case prompt of None \<Rightarrow> m | Some t \<Rightarrow> m\<lparr>am_system_prompt := Some t\<rparr>) in
     abind (create_agent_row m db) (\<lambda>db.
     abind (replace_for_agent env (am_id m) (ac_tools c) db) (\<lambda>db.
     Inr (db, to_config m)))))"

definition list_agents :: "api_db \<Rightarrow> AgentConfig list" where
  "list_agents db = map to_config (take 1000 (ad_agents db))"

definition get_agent :: "string \<Rightarrow> api_db \<Rightarrow> AgentConfig api" where
  "get_agent agent_id db = abind (to_uuid agent_id) (\<lambda>i.
     case row_get am_id (ad_agents db) i of None \<Rightarrow> agent_not_found | Some a \<Rightarrow> Inr (to_config a))"

definition agent_fields :: "AgentConfig \<Rightarrow> string option \<Rightarrow> string \<Rightarrow> AgentModel \<Rightarrow> AgentModel" where
  "agent_fields c persona prompt a = a\<lparr>am_name := ac_name c, am_role := ac_role c, am_model := Some (ac_model c),
     am_temperature := Some (ac_temperature c), am_max_tokens := Some (ac_max_tokens c), am_system_prompt := Some prompt,
     am_persona_id := persona, am_tools := ac_tools c, am_memory_enabled := ac_memory_enabled c\<rparr>"

definition update_agent :: "api_env \<Rightarrow> string \<Rightarrow> AgentConfig \<Rightarrow> api_db \<Rightarrow> (api_db \<times> AgentConfig) api" where
  "update_agent env agent_id c db = abind (to_uuid agent_id) (\<lambda>i.
     case row_get am_id (ad_agents db) i of
       None \<Rightarrow> agent_not_found
     | Some _ \<Rightarrow>
       abind (case nonempty (ac_persona_id c) of None \<Rightarrow> Inr None | Some t \<Rightarrow> abind (to_uuid t) (\<lambda>u. Inr (Some u))) (\<lambda>persona.
       abind (persona_prompt persona db) (\<lambda>prompt.
       abind (update_agent_row i (agent_fields c persona (or_default prompt (ac_system_prompt c))) db) (\<lambda>(db, updated).
       case updated of
         None \<Rightarrow> Inl (Unhandled (RuntimeFailure ''AttributeError''))
       | Some a \<Rightarrow> abind (replace_for_agent env (am_id a) (ac_tools c) db) (\<lambda>db. Inr (db, to_config a))))))"

definition delete_agent :: "string \<Rightarrow> api_db \<Rightarrow> api_db api" where
  "delete_agent agent_id db = abind (to_uuid agent_id) (\<lambda>i.
     abind (delete_agent_row i db) (\<lambda>(db, deleted). if deleted then Inr db else agent_not_found))"

section \<open>Sessions\<close>

definition list_agent_sessions :: "string \<Rightarrow> api_db \<Rightarrow> SessionModel list api" where
  "list_agent_sessions agent_id db = abind (to_uuid agent_id) (\<lambda>i. Inr (sessions_list_by_agent db i))"

definition get_session_messages :: "string \<Rightarrow> api_db \<Rightarrow> MessageModel list api" where
  "get_session_messages sid db = (case get_by_session_id sid db of
     None \<Rightarrow> session_not_found | Some s \<Rightarrow> Inr (get_history 1000 db (se_id s)))"

text \<open>The identifier for a session without one is a second value of \<open>uuid4\<close>.\<close>

definition create_session ::
  "api_env \<Rightarrow> string \<Rightarrow> string option \<Rightarrow> (string, string) dict \<Rightarrow> api_db \<Rightarrow> (api_db \<times> SessionModel) api" where
  "create_session env agent_id session_id metadata db = abind (to_uuid agent_id) (\<lambda>i.
     case row_get am_id (ad_agents db) i of
       None \<Rightarrow> agent_not_found
     | Some a \<Rightarrow> (let (sid, db) = (case nonempty session_id of Some sid \<Rightarrow> (sid, db) | None \<Rightarrow> (fresh_uuid env db, tick_db db)) in
         case get_by_session_id sid db of
           Some _ \<Rightarrow> Inl (HTTPException 409 ''Session ID already exists'')
         | None \<Rightarrow> create_session_row env (am_id a) sid metadata db))"

definition append_message :: "api_env \<Rightarrow> string \<Rightarrow> string \<Rightarrow> string \<Rightarrow> api_db \<Rightarrow> (api_db \<times> MessageModel) api" where
  "append_message env sid role content db =
    (if role \<notin> {''user'', ''assistant'', ''system''} \<or> content = [] \<or> 32768 < length content then Inl (HTTPException 422 [])
     else case get_by_session_id sid db of
       None \<Rightarrow> session_not_found
     | Some s \<Rightarrow> abind (add_message env (se_id s) role content [] db) (\<lambda>(db, m).
         Inr (increment_message_count env (se_id s) db, m)))"

definition delete_session :: "string \<Rightarrow> api_db \<Rightarrow> api_db api" where
  "delete_session sid db = (case get_by_session_id sid db of
     None \<Rightarrow> session_not_found | Some s \<Rightarrow> delete_session_row (se_id s) db)"

section \<open>Invoking an agent\<close>

datatype llm_outcome =
    Unavailable string
  | Answered string string
  | Failed bool

definition no_provider_text :: string where
  "no_provider_text = ''[Persola] No LLM provider available. Open Settings and select Ollama (local) or configure a cloud API key.''"

definition internal_error_text :: string where
  "internal_error_text = ''[Persola Error] An internal error has occurred.''"

definition agent_system_prompt :: "AgentModel \<Rightarrow> api_db \<Rightarrow> string api" where
  "agent_system_prompt a db = (case nonempty (am_system_prompt a) of
     Some t \<Rightarrow> Inr t | None \<Rightarrow> abind (persona_prompt (am_persona_id a) db) (\<lambda>p. Inr (or_default p [])))"

definition invoke_messages :: "MessageModel list \<Rightarrow> string \<Rightarrow> chat_message list" where
  "invoke_messages past message = map (\<lambda>m. (me_role m, me_content m)) past @ [(''user'', message)]"

text \<open>
  The body of the \<open>try\<close>: the settings, the provider, its availability, the prompt and the call. \<open>Failed\<close>
  says whether the variable \<open>provider_type\<close> was bound when the exception was raised.
\<close>

definition ask_llm ::
  "environ \<Rightarrow> LLMSettings res \<Rightarrow> (string \<Rightarrow> bool) \<Rightarrow> (llm_request \<Rightarrow> string res) \<Rightarrow> AgentModel \<Rightarrow> MessageModel list \<Rightarrow> string \<Rightarrow> api_db
    \<Rightarrow> llm_outcome" where
  "ask_llm e settings probe chat a past message db = (case settings of
     Inl _ \<Rightarrow> Failed False
   | Inr s \<Rightarrow> let provider_type = str_or (Some (ls_provider s)) ''ollama'' in
      (case get_llm_provider e s provider_type (Some (str_or (am_model a) (resolved_model e s None)))
          (Some (or_default (am_temperature a) (ls_temperature s))) (Some (num_or (am_max_tokens a) (ls_max_tokens s))) of
         Inl _ \<Rightarrow> Failed True
       | Inr llm \<Rightarrow>
           if \<not> client_available probe (pl_client llm) then Unavailable provider_type
           else (case agent_system_prompt a db of
               Inl _ \<Rightarrow> Failed True
             | Inr system_prompt \<Rightarrow> (case chat (chat_request (pl_client llm) (invoke_messages past message) system_prompt) of
                 Inl _ \<Rightarrow> Failed True
               | Inr response \<Rightarrow> Answered (get_provider_type llm) response))))"

record invoke_answer =
  ia_agent_id :: string
  ia_response :: string
  ia_message :: string
  ia_provider :: "string option"
  ia_error :: "string option"

definition new_run :: "api_env \<Rightarrow> AgentModel \<Rightarrow> SessionModel \<Rightarrow> string \<Rightarrow> api_db \<Rightarrow> AgentRunModel" where
  "new_run env a session message db =
    \<lparr> ar_id = fresh_uuid env db, ar_agent_id = am_id a, ar_session_id = Some (se_id session), ar_status = ''running'',
      ar_provider = None, ar_model = am_model a, ar_request_message = message, ar_response_message = None,
      ar_tokens_used = None, ar_completed_at = None, ar_created_at = clock env db \<rparr>"

definition settle_run ::
  "api_env \<Rightarrow> string \<Rightarrow> AgentModel \<Rightarrow> SessionModel \<Rightarrow> AgentRunModel \<Rightarrow> string \<Rightarrow> llm_outcome \<Rightarrow> api_db \<Rightarrow> api_db \<times> invoke_answer api" where
  "settle_run env agent_id a session run message outcome db = (case outcome of
     Unavailable provider \<Rightarrow>
       (run_completed env (ar_id run) ''unavailable'' (Some no_provider_text) (Some provider) (am_model a) db,
        Inr \<lparr> ia_agent_id = agent_id, ia_response = no_provider_text, ia_message = message, ia_provider = Some provider, ia_error = None \<rparr>)
   | Answered provider response \<Rightarrow>
       (case add_message env (se_id session) ''assistant'' response [(''provider'', provider)] db of
          Inl e \<Rightarrow> (db, Inl e)
        | Inr (db, _) \<Rightarrow>
          (run_completed env (ar_id run) ''completed'' (Some response) (Some provider) (am_model a)
             (increment_message_count env (se_id session) db),
           Inr \<lparr> ia_agent_id = agent_id, ia_response = response, ia_message = message, ia_provider = Some provider, ia_error = None \<rparr>))
   | Failed bound \<Rightarrow>
       (run_completed env (ar_id run) ''failed'' (Some internal_error_text) None (am_model a) db,
        if bound then Inr \<lparr> ia_agent_id = agent_id, ia_response = internal_error_text, ia_message = message, ia_provider = None,
             ia_error = Some ''internal_error'' \<rparr>
        else Inl (Unhandled (RuntimeFailure ''UnboundLocalError''))))"

definition invoke_agent ::
  "api_env \<Rightarrow> environ \<Rightarrow> LLMSettings res \<Rightarrow> (string \<Rightarrow> bool) \<Rightarrow> (llm_request \<Rightarrow> string res) \<Rightarrow> string \<Rightarrow> string \<Rightarrow> string option \<Rightarrow> api_db
    \<Rightarrow> api_db \<times> invoke_answer api" where
  "invoke_agent env e settings probe chat agent_id message session_id db =
    (case abind (to_uuid agent_id) (\<lambda>i. case row_get am_id (ad_agents db) i of
         None \<Rightarrow> agent_not_found
       | Some a \<Rightarrow> abind (get_or_create env (am_id a) (str_or session_id (agent_id @ ''-default'')) db) (\<lambda>(db, session).
           let past = get_history 20 db (se_id session) in
           abind (add_message env (se_id session) ''user'' message [] db) (\<lambda>(db, _).
           let run = new_run env a session message db in
           Inr (a, session, past, run, tick_db (db\<lparr>ad_runs := ad_runs db @ [run]\<rparr>))))) of
       Inl err \<Rightarrow> (db, Inl err)
     | Inr (a, session, past, run, db) \<Rightarrow>
         settle_run env agent_id a session run message (ask_llm e settings probe chat a past message db) db)"

end
