(* ===== verification/PersonaHistory.thy ===== *)
theory PersonaHistory
  imports PersonaApi
begin

text \<open>
  What the persona routes guarantee: every change of a persona leaves a version that holds its new
  knobs and settings, the cache answers what the database would, and where they do not.
\<close>

section \<open>Rows and profiles\<close>

lemma to_profile_knobs: "to_profile m = Inr p \<Longrightarrow> get_knobs p = knob_values m"
  by (auto simp: to_profile_def PersonaProfile_init_def Let_def get_knobs_raw_profile knob_values_def knob_or_default_def dget_or_map
      get_knobs_def [of "_\<lparr>p_updated_at := _\<rparr>"] simp flip: get_knobs_def split: sum.splits if_splits)

lemma from_profile_fields [simp]:
  "pm_id (from_profile i now p preset) = i" "pm_is_preset (from_profile i now p preset) = preset"
  by (simp_all add: from_profile_def apply_profile_def)

lemma tick_db_fields [simp]:
  "ad_personas (tick_db db) = ad_personas db" "ad_versions (tick_db db) = ad_versions db" "ad_next (tick_db db) = Suc (ad_next db)"
  "ad_analyses (tick_db db) = ad_analyses db" "ad_agents (tick_db db) = ad_agents db" "ad_tools (tick_db db) = ad_tools db"
  "ad_sessions (tick_db db) = ad_sessions db" "ad_messages (tick_db db) = ad_messages db" "ad_runs (tick_db db) = ad_runs db"
  by (simp_all add: tick_db_def)

lemma same_key: "distinct (map key xs) \<Longrightarrow> x \<in> set xs \<Longrightarrow> y \<in> set xs \<Longrightarrow> key x = key y \<Longrightarrow> x = y"
  by (auto simp: distinct_map dest: inj_onD)

lemma option_case_Inr: "(case x of None \<Rightarrow> Inl e | Some y \<Rightarrow> f y) = Inr r \<longleftrightarrow> (\<exists>y. x = Some y \<and> f y = Inr r)"
  by (cases x) auto

lemma row_get_replace: "key m = i \<Longrightarrow> j \<noteq> i \<Longrightarrow> row_get key (row_set key i (\<lambda>_. m) tbl) j = row_get key tbl j"
  by (induction tbl) (auto simp: row_get_def row_set_def)

lemma row_get_replaced: "key m = i \<Longrightarrow> row_get key tbl i = Some r \<Longrightarrow> row_get key (row_set key i (\<lambda>_. m) tbl) i = Some m"
  by (induction tbl) (auto simp: row_get_def row_set_def split: if_splits)

lemma row_get_without: "row_get key (filter (\<lambda>r. key r \<noteq> i) tbl) j = (if j = i then None else row_get key tbl j)"
  by (induction tbl) (auto simp: row_get_def)

section \<open>The history of a persona\<close>

text \<open>
  Versions belong to personas and are numbered from 1 without gaps; the newest one is a snapshot of the
  row as it is now. A persona with no version is a preset nobody has changed. The identifiers in
  \<open>pending\<close> are those of personas that a route has just written and not yet recorded.
\<close>

definition snapshot_of :: "api_db \<Rightarrow> PersonaModel \<Rightarrow> bool" where
  "snapshot_of db m \<longleftrightarrow> (let vs = persona_versions db (pm_id m) in
     if vs = [] then pm_is_preset m
     else vn_knob_snapshot (last vs) = knob_values m \<and> vn_settings_snapshot (last vs) = settings_values m)"

definition numbers :: "nat \<Rightarrow> int list" where
  "numbers n = map int [1..<Suc n]"

definition history_ok :: "api_env \<Rightarrow> string set \<Rightarrow> api_db \<Rightarrow> bool" where
  "history_ok env pending db \<longleftrightarrow> distinct (map pm_id (ad_personas db)) \<and>
     pm_id ` set (ad_personas db) \<subseteq> ae_uuid env ` {..<ad_next db} \<and>
     vn_persona_id ` set (ad_versions db) \<subseteq> pm_id ` set (ad_personas db) \<and>
     (\<forall>i. map vn_version_number (persona_versions db i) = numbers (length (persona_versions db i))) \<and>
     (\<forall>m \<in> set (ad_personas db). pm_id m \<in> pending \<or> snapshot_of db m)"

lemma history_okD:
  assumes "history_ok env X db"
  shows "distinct (map pm_id (ad_personas db))" "pm_id ` set (ad_personas db) \<subseteq> ae_uuid env ` {..<ad_next db}"
    "vn_persona_id ` set (ad_versions db) \<subseteq> pm_id ` set (ad_personas db)"
    "map vn_version_number (persona_versions db i) = numbers (length (persona_versions db i))"
    "m \<in> set (ad_personas db) \<Longrightarrow> pm_id m \<in> X \<or> snapshot_of db m"
  using assms unfolding history_ok_def by blast+

lemma numbers_Suc: "numbers (Suc n) = numbers n @ [int n + 1]" "numbers 0 = []"
  by (simp_all add: numbers_def)

lemma fold_max_numbers: "fold max (numbers n) 0 = int n"
  by (induction n) (simp_all add: numbers_Suc)

lemma latest_version_length:
  "history_ok env X db \<Longrightarrow> get_latest_version_number db i = int (length (persona_versions db i))"
  by (simp add: history_okD(4) get_latest_version_number_def fold_max_numbers)

lemma history_ok_create:
  assumes "history_ok env {} db" "inj (ae_uuid env)" "create_persona_row m db = Inr (db', m')" "pm_id m = fresh_uuid env db"
  shows "history_ok env {pm_id m} db'" "m' = m" "m \<in> set (ad_personas db')" "persona_versions db' (pm_id m) = []"
proof -
  have db': "db' = tick_db (db\<lparr>ad_personas := ad_personas db @ [m]\<rparr>)" "m' = m"
    using assms(3) by (auto simp: create_persona_row_def split: if_splits)
  note ok = history_okD [OF assms(1)]
  have fresh: "pm_id m \<notin> pm_id ` set (ad_personas db)"
    using ok(2) assms(2,4) by (auto dest!: subsetD inj_onD)
  have same: "persona_versions db' i = persona_versions db i" for i by (simp add: db' persona_versions_def)
  have "snapshot_of db' x = snapshot_of db x" for x by (simp add: snapshot_of_def same)
  then show "history_ok env {pm_id m} db'"
    using ok assms(4) fresh unfolding history_ok_def same by (auto simp: db' lessThan_Suc)
  show "persona_versions db' (pm_id m) = []"
  proof -
    have "vn_persona_id v \<noteq> pm_id m" if "v \<in> set (ad_versions db)" for v using fresh imageI [OF that, of vn_persona_id] ok(3) by (metis subsetD)
    then show ?thesis unfolding same by (simp add: persona_versions_def)
  qed
  show "m' = m" "m \<in> set (ad_personas db')" by (simp_all add: db')
qed

lemma history_ok_update:
  assumes "history_ok env {} db" "update_persona_row env i f db = Inr (db', Some m)" "\<And>x. pm_id (f x) = pm_id x"
  shows "history_ok env {i} db'" "pm_id m = i" "m \<in> set (ad_personas db')" "ad_versions db' = ad_versions db"
    "row_get pm_id (ad_personas db') i = Some m"
proof -
  obtain old where old: "row_get pm_id (ad_personas db) i = Some old" "m = flushed (clock env db) old (f old)"
    and db': "db' = tick_db (db\<lparr>ad_personas := row_set pm_id i (\<lambda>_. m) (ad_personas db)\<rparr>)"
    using assms(2) by (auto simp: update_persona_row_def Let_def split: option.splits if_splits)
  have old_id: "pm_id old = i" "old \<in> set (ad_personas db)" using row_get_SomeD [OF old(1)] by auto
  then show id: "pm_id m = i" using assms(3) by (simp add: old(2) flushed_def)
  note ok = history_okD [OF assms(1)]
  have ids: "map pm_id (ad_personas db') = map pm_id (ad_personas db)" by (simp add: db' map_key_row_set id)
  have same: "persona_versions db' j = persona_versions db j" for j by (simp add: db' persona_versions_def)
  have "x \<in> set (ad_personas db)" if "x \<in> set (ad_personas db')" "pm_id x \<noteq> i" for x
    using that id by (auto simp: db' row_set_def split: if_splits)
  moreover have "snapshot_of db' x = snapshot_of db x" for x by (simp add: snapshot_of_def same)
  ultimately have "pm_id x \<in> {i} \<or> snapshot_of db' x" if "x \<in> set (ad_personas db')" for x using that ok(5) by blast
  moreover have "pm_id ` set (ad_personas db') \<subseteq> ae_uuid env ` {..<ad_next db'}"
    using ok(2) unfolding ids set_map [symmetric] by (auto simp: db' lessThan_Suc)
  moreover have "vn_persona_id ` set (ad_versions db') \<subseteq> pm_id ` set (ad_personas db')"
    using ok(3) unfolding set_map [symmetric] ids by (simp add: db')
  ultimately show "history_ok env {i} db'" unfolding history_ok_def same ids using ok(1,4) by blast
  show m: "m \<in> set (ad_personas db')" using old_id by (force simp: db' row_set_def)
  show "ad_versions db' = ad_versions db" by (simp add: db')
  show "row_get pm_id (ad_personas db') i = Some m"
    using row_get_unique [of pm_id "ad_personas db'" m] m ok(1) id by (simp add: ids)
qed

lemma record_version_effect:
  assumes "record_persona_version env m source summary db = Inr db'"
  obtains v where "db' = tick_db (db\<lparr>ad_versions := ad_versions db @ [v]\<rparr>)" "vn_persona_id v = pm_id m"
    "vn_version_number v = get_latest_version_number db (pm_id m) + 1" "vn_knob_snapshot v = knob_values m"
    "vn_settings_snapshot v = settings_values m" "vn_source v = source"
  using assms by (auto simp: record_persona_version_def Let_def abind_eq_Inr lift_res_eq_Inr create_version_row_def to_profile_knobs
      split: if_splits)

lemma history_ok_record:
  assumes "history_ok env {pm_id m} db" "m \<in> set (ad_personas db)" "record_persona_version env m source summary db = Inr db'"
  shows "history_ok env {} db'" "ad_personas db' = ad_personas db"
proof -
  obtain v where db': "db' = tick_db (db\<lparr>ad_versions := ad_versions db @ [v]\<rparr>)"
    and v: "vn_persona_id v = pm_id m" "vn_version_number v = get_latest_version_number db (pm_id m) + 1"
      "vn_knob_snapshot v = knob_values m" "vn_settings_snapshot v = settings_values m"
    using record_version_effect [OF assms(3)] .
  note ok = history_okD [OF assms(1)]
  have vs: "persona_versions db' i = persona_versions db i @ (if i = pm_id m then [v] else [])" for i
    by (simp add: db' persona_versions_def v)
  have "map vn_version_number (persona_versions db' i) = numbers (length (persona_versions db' i))" for i
    using ok(4) [of i] by (simp add: vs numbers_Suc v latest_version_length [OF assms(1)])
  moreover have "snapshot_of db' x" if "x \<in> set (ad_personas db)" for x
  proof (cases "pm_id x = pm_id m")
    case True
    then have "x = m" using same_key [OF ok(1) that assms(2)] by simp
    then show ?thesis by (simp add: snapshot_of_def vs v)
  next
    case False
    then show ?thesis using ok(5) [OF that] by (simp add: snapshot_of_def vs)
  qed
  ultimately show "history_ok env {} db'" unfolding history_ok_def using ok assms(2) v(1)
    by (auto simp: db' lessThan_Suc)
  show "ad_personas db' = ad_personas db" by (simp add: db')
qed

section \<open>The routes as a system\<close>

lemma history_ok_created:
  assumes "history_ok env {} db" "inj (ae_uuid env)" "create_with_version env p source summary db = Inr (db', m)"
  shows "history_ok env {} db'" "m = from_profile (fresh_uuid env db) (clock env db) p False" "m \<in> set (ad_personas db')"
proof -
  let ?m = "from_profile (fresh_uuid env db) (clock env db) p False"
  obtain db1 m1 where c: "create_persona_row ?m db = Inr (db1, m1)" "record_persona_version env m1 source (Some summary) db1 = Inr db'" "m = m1"
    using assms(3) by (auto simp: create_with_version_def abind_eq_Inr)
  note n = history_ok_create [OF assms(1,2) c(1)]
  have m: "m1 = ?m" using n(2) by simp
  have r: "history_ok env {} db'" "ad_personas db' = ad_personas db1"
    using history_ok_record [OF _ _ c(2)] n m by simp_all
  show "history_ok env {} db'" "m = ?m" "m \<in> set (ad_personas db')" using r n m c(3) by simp_all
qed

lemma answer_profile_Inr: "answer_profile r = Inr (db', p) \<longleftrightarrow> db' = fst r \<and> to_profile (snd r) = Inr p"
  by (auto simp: answer_profile_def abind_eq_Inr lift_res_eq_Inr split: prod.splits)

lemma history_ok_same:
  "history_ok env X db \<Longrightarrow> ad_personas db' = ad_personas db \<Longrightarrow> ad_versions db' = ad_versions db \<Longrightarrow> ad_next db \<le> ad_next db' \<Longrightarrow>
     history_ok env X db'"
  unfolding history_ok_def snapshot_of_def persona_versions_def
  by (auto dest!: subsetD intro: less_le_trans)

lemma history_ok_analysis:
  "record_analysis_run env text knobs conf notes pid db = Inr db' \<Longrightarrow> history_ok env {} db \<Longrightarrow> history_ok env {} db'"
  by (rule history_ok_same [of env "{}" db]) (auto simp: record_analysis_run_def create_analysis_row_def split: if_splits)

lemma history_ok_delete:
  assumes "history_ok env {} db" "delete_persona_row i db = (db', True)"
  shows "history_ok env {} db'"
proof -
  have db': "ad_personas db' = filter (\<lambda>m. pm_id m \<noteq> i) (ad_personas db)" "ad_versions db' = filter (\<lambda>v. vn_persona_id v \<noteq> i) (ad_versions db)"
    "ad_next db' = ad_next db"
    using assms(2) by (auto simp: delete_persona_row_def split: option.splits)
  have vs: "persona_versions db' j = (if j = i then [] else persona_versions db j)" for j
    by (auto simp: persona_versions_def db' filter_empty_conv intro: filter_cong)
  note ok = history_okD [OF assms(1)]
  have "snapshot_of db' m" if "m \<in> set (ad_personas db')" for m
    using that ok(5) by (auto simp: snapshot_of_def vs db')
  moreover have "map vn_version_number (persona_versions db' j) = numbers (length (persona_versions db' j))" for j
    using ok(4) by (simp add: vs numbers_Suc)
  moreover have "pm_id ` set (ad_personas db') \<subseteq> ae_uuid env ` {..<ad_next db'}" using ok(2) by (auto simp: db')
  moreover have "vn_persona_id v \<in> pm_id ` set (ad_personas db')" if "v \<in> set (ad_versions db')" for v
  proof -
    have "vn_persona_id v \<in> pm_id ` set (ad_personas db)" using ok(3) that by (auto simp: db')
    then show ?thesis using that by (auto simp: db')
  qed
  ultimately show ?thesis unfolding history_ok_def using ok(1) by (auto simp: db' distinct_map_filter)
qed

lemma history_ok_seed:
  "seed_presets env ps db = Inr db' \<Longrightarrow> history_ok env {} db \<Longrightarrow> inj (ae_uuid env) \<Longrightarrow> history_ok env {} db'"
proof (induction ps arbitrary: db)
  case (Cons xp rest)
  obtain x p where xp: "xp = (x, p)" by fastforce
  let ?m = "from_profile (fresh_uuid env db) (clock env db) (p\<lparr>p_id := ''preset_'' @ preset_value x, p_name := preset_value x\<rparr>) True"
  from Cons.prems(1) obtain ex where ex: "get_persona_by_name (preset_value x) db = Inr ex"
    by (auto simp: xp abind_eq_Inr lift_res_eq_Inr Let_def)
  show ?case
  proof (cases ex)
    case (Some y)
    then show ?thesis using Cons ex by (simp add: xp)
  next
    case None
    then obtain db1 m1 where c: "create_persona_row ?m db = Inr (db1, m1)" "seed_presets env rest db1 = Inr db'"
      using Cons.prems(1) ex by (auto simp: xp abind_eq_Inr Let_def)
    note n = history_ok_create [OF Cons.prems(2,3) c(1)]
    have "snapshot_of db1 y" if "y \<in> set (ad_personas db1)" for y
    proof (cases "pm_id y = pm_id ?m")
      case True
      then have "y = ?m" using same_key [OF history_okD(1) [OF n(1)] that n(3)] by simp
      then show ?thesis using n(4) by (simp add: snapshot_of_def)
    qed (use history_okD(5) [OF n(1) that] in auto)
    then have "history_ok env {} db1" using n(1) by (simp add: history_ok_def)
    then show ?thesis using Cons.IH [OF c(2) _ Cons.prems(3)] by simp
  qed
qed simp

lemma history_ok_updated:
  assumes "history_ok env {} db" "update_with_version env i f source summary db c = (c', Inr (db', p))" "\<And>x. pm_id (f x) = pm_id x"
  obtains m where "history_ok env {} db'" "to_profile m = Inr p" "row_get pm_id (ad_personas db') i = Some m"
    "update_persona_row env i f db \<noteq> Inr (db, None)"
proof -
  obtain db1 m c1 where u: "update_persona_row env i f db = Inr (db1, Some m)" and r: "record_persona_version env m source (Some summary) db1 = Inr db'"
    and p: "to_profile m = Inr p"
    using assms(2) by (auto simp: update_with_version_def service_update_def not_found_def abind_eq_Inr answer_profile_Inr
        split: sum.splits option.splits)
  note n = history_ok_update [OF assms(1) u assms(3)]
  have "history_ok env {} db'" "ad_personas db' = ad_personas db1" using history_ok_record [OF _ _ r] n by simp_all
  then show thesis using that n(5) p u by simp
qed

text \<open>Any route may answer; those that raise leave the database as it was.\<close>

inductive persona_step :: "api_env \<Rightarrow> api_db \<Rightarrow> api_db \<Rightarrow> bool" for env where
  created: "create_persona env p db = Inr (db', q) \<Longrightarrow> persona_step env db db'"
| imported: "import_persona env p db = Inr (db', q) \<Longrightarrow> persona_step env db db'"
| cloned: "clone_persona env t name db = Inr (db', q) \<Longrightarrow> persona_step env db db'"
| analysed: "extract_analysis env text create name a db = Inr (db', r) \<Longrightarrow> persona_step env db db'"
| extracted: "extract_and_create_persona env text name a db = Inr (db', q) \<Longrightarrow> persona_step env db db'"
| pulled: "import_persona_from_cyrex env configured t r db = Inr (db', q) \<Longrightarrow> persona_step env db db'"
| blended: "blend_route env rq db = Inr (db', q) \<Longrightarrow> persona_step env db db'"
| updated: "update_persona env t p db c = (c', Inr (db', q)) \<Longrightarrow> persona_step env db db'"
| preset: "apply_preset_route env presets x t db c = (c', Inr (db', q)) \<Longrightarrow> persona_step env db db'"
| deleted: "delete_persona t db = Inr db' \<Longrightarrow> persona_step env db db'"
| seeded: "seed_presets env presets db = Inr db' \<Longrightarrow> persona_step env db db'"

lemma clone_persona_Inr:
  assumes "clone_persona env t name db = Inr (db', q)"
  obtains i p db1 m where "create_persona_row (from_profile (fresh_uuid env db) (clock env db) p False) db = Inr (db1, m)"
    "record_persona_version env m ''manual'' (Some (''Cloned from '' @ t)) db1 = Inr db'"
  using assms by (auto simp: clone_persona_def clone_row_def not_found_def abind_eq_Inr answer_profile_Inr lift_res_eq_Inr
      split: sum.splits api_error.splits pyexc.splits option.splits prod.splits)

lemma delete_persona_Inr:
  assumes "delete_persona t db = Inr db'"
  obtains i where "delete_persona_row i db = (db', True)"
  using assms by (auto simp: delete_persona_def not_found_def abind_eq_Inr split_beta prod_eq_iff split: if_splits)

lemma blend_route_Inr:
  assumes "blend_route env rq db = Inr (db', q)"
  obtains p source summary m where "create_with_version env p source summary db = Inr (db', m)"
proof (cases "br_persona_ids rq")
  case None
  then show ?thesis using assms that
    by (auto simp: blend_route_def blend_pair_def abind_eq_Inr answer_profile_Inr option_case_Inr split: option.splits)
next
  case (Some ids)
  then show ?thesis using assms that
    by (auto simp: blend_route_def blend_many_def abind_eq_Inr answer_profile_Inr Let_def option_case_Inr split: if_splits)
qed

lemma put_fields_id [simp]: "pm_id (put_fields p m) = pm_id m" "pm_id (preset_fields p m) = pm_id m"
  by (simp_all add: put_fields_def preset_fields_def)

lemma history_ok_step: "persona_step env db db' \<Longrightarrow> inj (ae_uuid env) \<Longrightarrow> history_ok env {} db \<Longrightarrow> history_ok env {} db'"
proof (induction rule: persona_step.induct)
  case (cloned t name db db' q)
  then obtain i p db1 m where c: "create_persona_row (from_profile (fresh_uuid env db) (clock env db) p False) db = Inr (db1, m)"
    "record_persona_version env m ''manual'' (Some (''Cloned from '' @ t)) db1 = Inr db'"
    by (elim clone_persona_Inr)
  note n = history_ok_create [OF cloned(3,2) c(1)]
  then show ?case using history_ok_record [OF _ _ c(2)] by simp
next
  case (blended rq db db' q)
  then show ?case by (elim blend_route_Inr) (rule history_ok_created)
next
  case (updated t p db c c' db' q)
  then show ?case by (auto simp: update_persona_def split: sum.splits elim: history_ok_updated)
next
  case (preset presets x t db c c' db' q)
  then show ?case by (auto simp: apply_preset_route_def not_found_def split: sum.splits option.splits elim: history_ok_updated)
next
  case (deleted t db db')
  then obtain i where "delete_persona_row i db = (db', True)" by (elim delete_persona_Inr)
  then show ?case using deleted history_ok_delete by blast
next
  case (pulled configured t r db db' q)
  then show ?case
    by (auto simp: import_persona_from_cyrex_def abind_eq_Inr answer_profile_Inr intro: history_ok_created split: if_splits sum.splits)
qed (auto simp: create_persona_def import_persona_def extract_analysis_def extract_and_create_persona_def abind_eq_Inr answer_profile_Inr
    intro: history_ok_created history_ok_seed history_ok_analysis split: if_splits)

lemma history_ok_empty: "history_ok env {} api_empty"
  by (simp add: history_ok_def api_empty_def persona_versions_def numbers_Suc)

interpretation persona_sys: invariant_system "persona_step env" "\<lambda>db. db = api_empty \<and> inj (ae_uuid env)"
  "\<lambda>db. history_ok env {} db \<and> inj (ae_uuid env)" for env
proof (unfold_locales, goal_cases)
  case (1 s)
  then show ?case using history_ok_empty by blast
next
  case (2 s s')
  then show ?case using history_ok_step by blast
qed

section \<open>The cache\<close>

definition entry_for :: "PersonaModel \<Rightarrow> cache_entry \<Rightarrow> bool" where
  "entry_for m e \<longleftrightarrow> (\<forall>prompt. ce_system_prompt e = Some prompt \<longrightarrow> (\<exists>p. to_profile m = Inr p \<and> prompt = build_system_prompt p)) \<and>
     (\<forall>params. ce_sampling e = Some params \<longrightarrow> (\<exists>p. to_profile m = Inr p \<and> params = get_sampling_params p))"

definition cache_ok :: "api_env \<Rightarrow> api_db \<times> persona_cache \<Rightarrow> bool" where
  "cache_ok env s \<longleftrightarrow> (case s of (db, c) \<Rightarrow> rc_up c \<and> history_ok env {} db \<and> inj (ae_uuid env) \<and>
     (\<forall>i e. get_entry c i = Some e \<longrightarrow> i \<in> ae_uuid env ` {..<ad_next db} \<and>
        (\<forall>m. row_get pm_id (ad_personas db) i = Some m \<longrightarrow> entry_for m e)))"

text \<open>Routes that answer one after the other, with Redis up; entries may expire at any time.\<close>

inductive cached_step :: "api_env \<Rightarrow> api_db \<times> persona_cache \<Rightarrow> api_db \<times> persona_cache \<Rightarrow> bool" for env where
  created: "create_persona env p db = Inr (db', q) \<Longrightarrow> cached_step env (db, c) (db', c)"
| imported: "import_persona env p db = Inr (db', q) \<Longrightarrow> cached_step env (db, c) (db', c)"
| cloned: "clone_persona env t name db = Inr (db', q) \<Longrightarrow> cached_step env (db, c) (db', c)"
| blended: "blend_route env rq db = Inr (db', q) \<Longrightarrow> cached_step env (db, c) (db', c)"
| updated: "update_persona env t p db c = (c', r) \<Longrightarrow> cached_step env (db, c) (case r of Inl _ \<Rightarrow> db | Inr (db', _) \<Rightarrow> db', c')"
| preset: "apply_preset_route env presets x t db c = (c', r) \<Longrightarrow> cached_step env (db, c) (case r of Inl _ \<Rightarrow> db | Inr (db', _) \<Rightarrow> db', c')"
| deleted: "delete_persona t db = Inr db' \<Longrightarrow> cached_step env (db, c) (db', c)"
| prompt: "system_prompt_route t db c = (c', r) \<Longrightarrow> cached_step env (db, c) (db, c')"
| sampling: "sampling_route t db c = (c', r) \<Longrightarrow> cached_step env (db, c) (db, c')"
| expired: "cached_step env (db, c) (db, c\<lparr>rc_entries := ddel k (rc_entries c)\<rparr>)"

lemma get_entry_expired: "get_entry (c\<lparr>rc_entries := ddel k (rc_entries c)\<rparr>) i = Some e \<Longrightarrow> get_entry c i = Some e"
  by (auto simp: get_entry_def get_generation_def dget_ddel split: if_splits)

lemma get_entry_set:
  "rc_up c \<Longrightarrow> get_entry (set_cache_fields i f c) j =
    (if j = i then Some (f (case get_entry c i of None \<Rightarrow> \<lparr> ce_system_prompt = None, ce_sampling = None \<rparr> | Some e \<Rightarrow> e)) else get_entry c j)"
  by (auto simp: set_cache_fields_def get_entry_def get_generation_def dget_dset Let_def)

lemma get_entry_invalidate: "rc_up c \<Longrightarrow> get_entry (invalidate i c) j = (if j = i then None else get_entry c j)"
  by (auto simp: invalidate_def get_entry_def get_generation_def dget_dset dget_ddel dget_or_def Let_def)

lemma rc_up_ops [simp]: "rc_up (set_cache_fields i f c) = rc_up c" "rc_up (invalidate i c) = rc_up c"
  by (simp_all add: set_cache_fields_def invalidate_def Let_def)

lemma cache_okD:
  assumes "cache_ok env (db, c)"
  shows "rc_up c" "history_ok env {} db" "inj (ae_uuid env)" "get_entry c i = Some e \<Longrightarrow> i \<in> ae_uuid env ` {..<ad_next db}"
    "get_entry c i = Some e \<Longrightarrow> row_get pm_id (ad_personas db) i = Some m \<Longrightarrow> entry_for m e"
  using assms unfolding cache_ok_def prod.case by blast+

lemma cache_okI:
  assumes "rc_up c" "history_ok env {} db" "inj (ae_uuid env)"
    "\<And>i e. get_entry c i = Some e \<Longrightarrow> i \<in> ae_uuid env ` {..<ad_next db}"
    "\<And>i e m. get_entry c i = Some e \<Longrightarrow> row_get pm_id (ad_personas db) i = Some m \<Longrightarrow> entry_for m e"
  shows "cache_ok env (db, c)"
  using assms unfolding cache_ok_def prod.case by blast

lemma row_id_used:
  assumes "history_ok env X db" "row_get pm_id (ad_personas db) i = Some m"
  shows "i \<in> ae_uuid env ` {..<ad_next db}"
proof -
  have "i \<in> pm_id ` set (ad_personas db)" using row_get_SomeD [OF assms(2)] by auto
  then show ?thesis using history_okD(2) [OF assms(1)] by (rule rev_subsetD)
qed

lemma cache_ok_fill:
  assumes "cache_ok env (db, c)" "row_get pm_id (ad_personas db) i = Some m" "\<And>e. entry_for m e \<Longrightarrow> entry_for m (f e)"
  shows "cache_ok env (db, set_cache_fields i f c)"
proof (rule cache_okI)
  note ok = cache_okD [OF assms(1)]
  let ?e = "case get_entry c i of None \<Rightarrow> \<lparr> ce_system_prompt = None, ce_sampling = None \<rparr> | Some e \<Rightarrow> e"
  have e: "entry_for m (f ?e)" using ok(5) assms(2) by (intro assms(3)) (simp add: entry_for_def split: option.split)
  show "rc_up (set_cache_fields i f c)" "history_ok env {} db" "inj (ae_uuid env)" using ok by simp_all
  fix j x
  assume x: "get_entry (set_cache_fields i f c) j = Some x"
  show "j \<in> ae_uuid env ` {..<ad_next db}"
    by (cases "j = i") (use x row_id_used [OF ok(2) assms(2)] ok(4) [of j x] in \<open>simp_all add: get_entry_set [OF ok(1)]\<close>)
  show "entry_for m' x" if "row_get pm_id (ad_personas db) j = Some m'" for m'
    by (cases "j = i") (use x e ok(5) [of j x] assms(2) that in \<open>simp_all add: get_entry_set [OF ok(1)]\<close>)
qed

lemma cache_ok_db:
  assumes "cache_ok env (db, c)" "history_ok env {} db'" "ad_next db \<le> ad_next db'"
    "\<And>i. i \<in> ae_uuid env ` {..<ad_next db} \<Longrightarrow> row_get pm_id (ad_personas db') i \<in> {None, row_get pm_id (ad_personas db) i}"
  shows "cache_ok env (db', c)"
proof (rule cache_okI)
  note ok = cache_okD [OF assms(1)]
  show "rc_up c" "history_ok env {} db'" "inj (ae_uuid env)" using ok assms(2) by simp_all
  fix i e
  assume e: "get_entry c i = Some e"
  show "i \<in> ae_uuid env ` {..<ad_next db'}" using ok(4) [OF e] assms(3) by auto
  show "entry_for m e" if "row_get pm_id (ad_personas db') i = Some m" for m
    using assms(4) [OF ok(4) [OF e]] that ok(5) [OF e] by simp
qed

lemma cache_ok_invalidate:
  assumes "cache_ok env (db, c)"
  shows "cache_ok env (db, invalidate i c)"
  by (rule cache_okI) (use cache_okD [OF assms] in \<open>auto simp: get_entry_invalidate split: if_splits\<close>)

text \<open>After an invalidation the row may change: no entry is left that could disagree with it.\<close>

lemma cache_ok_rewrite:
  assumes "cache_ok env (db, c)" "history_ok env {} db'" "ad_next db \<le> ad_next db'"
    "\<And>j. j \<noteq> i \<Longrightarrow> row_get pm_id (ad_personas db') j = row_get pm_id (ad_personas db) j"
  shows "cache_ok env (db', invalidate i c)"
proof (rule cache_okI)
  note ok = cache_okD [OF assms(1)]
  show "rc_up (invalidate i c)" "history_ok env {} db'" "inj (ae_uuid env)" using ok assms(2) by simp_all
  fix j e
  assume "get_entry (invalidate i c) j = Some e"
  then have e: "get_entry c j = Some e" "j \<noteq> i" using ok(1) by (auto simp: get_entry_invalidate split: if_splits)
  show "j \<in> ae_uuid env ` {..<ad_next db'}" using ok(4) [OF e(1)] assms(3) by auto
  show "entry_for m e" if "row_get pm_id (ad_personas db') j = Some m" for m
    using assms(4) [OF e(2)] that ok(5) [OF e(1)] by simp
qed

text \<open>What a creating route does to the table: one row with an unused identifier, at the end.\<close>

definition adds_persona :: "api_env \<Rightarrow> api_db \<Rightarrow> api_db \<Rightarrow> bool" where
  "adds_persona env db db' \<longleftrightarrow> ad_next db \<le> ad_next db' \<and>
     (\<exists>m. ad_personas db' = ad_personas db @ [m] \<and> pm_id m = fresh_uuid env db)"

lemma adds_persona_record:
  "create_persona_row m db = Inr (db1, m1) \<Longrightarrow> pm_id m = fresh_uuid env db \<Longrightarrow> record_persona_version env m1 source summary db1 = Inr db' \<Longrightarrow>
     adds_persona env db db'"
  by (elim record_version_effect) (auto simp: adds_persona_def create_persona_row_def split: if_splits)

lemma adds_persona_created: "create_with_version env p source summary db = Inr (db', m) \<Longrightarrow> adds_persona env db db'"
  by (auto simp: create_with_version_def abind_eq_Inr intro: adds_persona_record)

lemma adds_persona_routes:
  "create_persona env p db = Inr (db', q) \<Longrightarrow> adds_persona env db db'"
  "import_persona env p db = Inr (db', q) \<Longrightarrow> adds_persona env db db'"
  "clone_persona env t name db = Inr (db', q) \<Longrightarrow> adds_persona env db db'"
  "blend_route env rq db = Inr (db', q) \<Longrightarrow> adds_persona env db db'"
  by (auto simp: create_persona_def import_persona_def abind_eq_Inr answer_profile_Inr intro: adds_persona_created)
    (erule clone_persona_Inr, rule adds_persona_record, assumption, simp, assumption, erule blend_route_Inr, rule adds_persona_created)

lemma cache_ok_adds:
  assumes "cache_ok env (db, c)" "adds_persona env db db'" "persona_step env db db'"
  shows "cache_ok env (db', c)"
proof (rule cache_ok_db [OF assms(1)])
  note ok = cache_okD [OF assms(1)]
  show "history_ok env {} db'" using history_ok_step [OF assms(3)] ok(2,3) by simp
  obtain m where m: "ad_personas db' = ad_personas db @ [m]" "pm_id m = fresh_uuid env db" and next_le: "ad_next db \<le> ad_next db'"
    using assms(2) by (auto simp: adds_persona_def)
  show "ad_next db \<le> ad_next db'" by (rule next_le)
  fix i
  assume "i \<in> ae_uuid env ` {..<ad_next db}"
  then have "i \<noteq> pm_id m" using ok(3) by (auto simp: m(2) dest: injD)
  then show "row_get pm_id (ad_personas db') i \<in> {None, row_get pm_id (ad_personas db) i}" by (simp add: m(1) row_get_append_other)
qed

lemma updated_rows:
  assumes "update_with_version env i f source summary db c = (c', Inr (db', p))" "\<And>x. pm_id (f x) = pm_id x"
  shows "ad_next db \<le> ad_next db'" "j \<noteq> i \<Longrightarrow> row_get pm_id (ad_personas db') j = row_get pm_id (ad_personas db) j" "c' = invalidate i c"
proof -
  obtain db1 m where u: "update_persona_row env i f db = Inr (db1, Some m)" "c' = invalidate i c"
    and r: "record_persona_version env m source (Some summary) db1 = Inr db'"
    using assms(1) by (auto simp: update_with_version_def service_update_def not_found_def abind_eq_Inr answer_profile_Inr
        split: sum.splits option.splits)
  then obtain old where old: "row_get pm_id (ad_personas db) i = Some old" "m = flushed (clock env db) old (f old)"
    "db1 = tick_db (db\<lparr>ad_personas := row_set pm_id i (\<lambda>_. m) (ad_personas db)\<rparr>)"
    by (auto simp: update_persona_row_def Let_def split: option.splits if_splits)
  have "pm_id m = i" using row_get_SomeD [OF old(1)] assms(2) by (simp add: old(2) flushed_def)
  moreover obtain v where "db' = tick_db (db1\<lparr>ad_versions := ad_versions db1 @ [v]\<rparr>)" using record_version_effect [OF r] .
  ultimately show "ad_next db \<le> ad_next db'" "j \<noteq> i \<Longrightarrow> row_get pm_id (ad_personas db') j = row_get pm_id (ad_personas db) j" "c' = invalidate i c"
    using u(2) by (simp_all add: old(3) row_get_replace)
qed

lemma updated_answer:
  assumes "update_with_version env i f source summary db c = (c', Inr (db', p))" "\<And>x. pm_id (f x) = pm_id x"
  obtains m old where "row_get pm_id (ad_personas db') i = Some m" "to_profile m = Inr p" "row_get pm_id (ad_personas db) i = Some old"
    "m = flushed (clock env db) old (f old)"
proof -
  obtain db1 m where u: "update_persona_row env i f db = Inr (db1, Some m)" "record_persona_version env m source (Some summary) db1 = Inr db'"
    and m: "to_profile m = Inr p"
    using assms by (auto simp: update_with_version_def service_update_def not_found_def abind_eq_Inr answer_profile_Inr
        split: sum.splits option.splits)
  then obtain old where old: "row_get pm_id (ad_personas db) i = Some old" "m = flushed (clock env db) old (f old)"
    "db1 = tick_db (db\<lparr>ad_personas := row_set pm_id i (\<lambda>_. m) (ad_personas db)\<rparr>)"
    by (auto simp: update_persona_row_def Let_def split: option.splits if_splits)
  obtain v where "db' = tick_db (db1\<lparr>ad_versions := ad_versions db1 @ [v]\<rparr>)" using record_version_effect [OF u(2)] .
  moreover have "row_get pm_id (row_set pm_id i (\<lambda>_. m) (ad_personas db)) i = Some m"
    using row_get_SomeD [OF old(1)] assms(2) old(1) by (intro row_get_replaced) (simp_all add: old(2) flushed_def)
  ultimately show thesis using that [OF _ m old(1,2)] by (simp add: old(3))
qed

lemma cache_ok_updated:
  assumes "cache_ok env (db, c)" "update_with_version env i f source summary db c = (c', r)" "\<And>x. pm_id (f x) = pm_id x"
  shows "cache_ok env (case r of Inl _ \<Rightarrow> db | Inr (db', _) \<Rightarrow> db', c')"
proof (cases r)
  case (Inl e)
  then have "c' = c \<or> c' = invalidate i c"
    using assms(2) by (auto simp: update_with_version_def service_update_def split: sum.splits option.splits prod.splits)
  then show ?thesis using assms(1) cache_ok_invalidate Inl by auto
next
  case (Inr x)
  obtain db' p where x: "x = (db', p)" by fastforce
  have u: "update_with_version env i f source summary db c = (c', Inr (db', p))" using assms(2) Inr x by simp
  obtain m where "history_ok env {} db'" using history_ok_updated [OF cache_okD(2) [OF assms(1)] u assms(3)] .
  then show ?thesis using cache_ok_rewrite [OF assms(1)] updated_rows [OF u assms(3)] by (simp add: Inr x)
qed

lemma preset_route_cases:
  "apply_preset_route env presets x t db c = (c', r) \<Longrightarrow> c' = c \<and> (\<exists>e. r = Inl e) \<or>
     (\<exists>i p. update_with_version env i (preset_fields p) ''preset'' (''Applied preset '' @ preset_value x) db c = (c', r))"
  unfolding apply_preset_route_def not_found_def by (auto simp del: append_Cons split: sum.splits option.splits)

lemma cache_ok_reads:
  assumes "cache_ok env (db, c)"
  shows "cache_ok env (db, fst (service_system_prompt i db c))" "cache_ok env (db, fst (service_sampling_params i db c))"
proof -
  have "cache_ok env (db, cache_system_prompt i (build_system_prompt p) c)" "cache_ok env (db, cache_sampling i (get_sampling_params p) c)"
    if "row_get pm_id (ad_personas db) i = Some m" "to_profile m = Inr p" for m p
    unfolding cache_system_prompt_def cache_sampling_def
    by (rule cache_ok_fill [OF assms that(1)], simp add: entry_for_def that(2))+
  then show "cache_ok env (db, fst (service_system_prompt i db c))" "cache_ok env (db, fst (service_sampling_params i db c))"
    using assms by (auto simp: service_system_prompt_def service_sampling_params_def Let_def split: option.split sum.split)
qed

lemma cache_ok_step: "cached_step env s s' \<Longrightarrow> cache_ok env s \<Longrightarrow> cache_ok env s'"
proof (induction rule: cached_step.induct)
  case (created p db db' q c)
  then show ?case using cache_ok_adds adds_persona_routes(1) persona_step.created by metis
next
  case (imported p db db' q c)
  then show ?case using cache_ok_adds adds_persona_routes(2) persona_step.imported by metis
next
  case (cloned t name db db' q c)
  then show ?case using cache_ok_adds adds_persona_routes(3) persona_step.cloned by metis
next
  case (blended rq db db' q c)
  then show ?case using cache_ok_adds adds_persona_routes(4) persona_step.blended by metis
next
  case (updated t p db c c' r)
  then show ?case by (cases "to_uuid t") (auto simp: update_persona_def intro: cache_ok_updated)
next
  case (preset presets x t db c c' r)
  then consider e where "c' = c" "r = Inl e"
    | i p where "update_with_version env i (preset_fields p) ''preset'' (''Applied preset '' @ preset_value x) db c = (c', r)"
    using preset_route_cases [OF preset(1)] by blast
  then show ?case
  proof cases
    case 2
    show ?thesis by (rule cache_ok_updated [OF preset(2) 2]) simp
  qed (use preset in simp)
next
  case (deleted t db db' c)
  have h: "history_ok env {} db'" using history_ok_step [OF persona_step.deleted [OF deleted(1)]] cache_okD [OF deleted(2)] by simp
  obtain i where "delete_persona_row i db = (db', True)" using deleted(1) by (elim delete_persona_Inr)
  then have rows: "ad_personas db' = filter (\<lambda>m. pm_id m \<noteq> i) (ad_personas db)" "ad_next db' = ad_next db"
    by (auto simp: delete_persona_row_def split: option.splits)
  show ?case by (rule cache_ok_db [OF deleted(2) h]) (simp_all add: rows row_get_without)
next
  case (prompt t db c c' r)
  then show ?case using cache_ok_reads(1) by (auto simp: system_prompt_route_def split: sum.splits prod.splits) (metis fst_conv)
next
  case (sampling t db c c' r)
  then show ?case using cache_ok_reads(2) by (auto simp: sampling_route_def split: sum.splits prod.splits) (metis fst_conv)
next
  case (expired db c k)
  show ?case by (rule cache_okI) (use cache_okD [OF expired] get_entry_expired [of k c] in \<open>simp_all, metis+\<close>)
qed

interpretation cache_sys: invariant_system "cached_step env" "\<lambda>s. s = (api_empty, cache_init) \<and> inj (ae_uuid env)" "cache_ok env" for env
proof (unfold_locales, goal_cases)
  case (1 s)
  then show ?case by (simp add: cache_ok_def history_ok_empty cache_init_def get_entry_def get_generation_def dget_def)
next
  case (2 s s')
  then show ?case using cache_ok_step by blast
qed

section \<open>What the routes guarantee\<close>

text \<open>
  C5. After any sequence of persona routes, starting from an empty database, the versions of every stored
  persona are numbered 1, 2, 3 and so on, and the newest one holds the knobs and settings the row has
  now; only a preset that nobody has changed has no version. No version outlives its persona.
\<close>

theorem persona_history_complete:
  assumes "inj (ae_uuid env)" "(persona_step env)\<^sup>*\<^sup>* api_empty db"
  shows "(\<forall>m \<in> set (ad_personas db). let vs = persona_versions db (pm_id m) in
      map vn_version_number vs = map int [1..<Suc (length vs)] \<and>
      (if vs = [] then pm_is_preset m
       else vn_knob_snapshot (last vs) = knob_values m \<and> vn_settings_snapshot (last vs) = settings_values m)) \<and>
    (\<forall>v \<in> set (ad_versions db). vn_persona_id v \<in> pm_id ` set (ad_personas db))"
proof -
  have ok: "history_ok env {} db" using persona_sys.reachable_inv [of api_empty env db] assms by blast
  have "snapshot_of db m" if "m \<in> set (ad_personas db)" for m using history_okD(5) [OF ok that] by blast
  then show ?thesis using history_okD(3,4) [OF ok] by (auto simp: Let_def snapshot_of_def numbers_def)
qed


lemma prompt_nonempty [simp]: "build_system_prompt p \<noteq> []"
  by (simp add: build_system_prompt_def Let_def)

lemma cached_prompt_fill: "rc_up c \<Longrightarrow> prompt \<noteq> [] \<Longrightarrow> cached_prompt (cache_system_prompt i prompt c) i = Some prompt"
  by (simp add: cached_prompt_def cache_system_prompt_def get_entry_set nonempty_def)

lemma service_prompt_hit: "cached_prompt c i = Some prompt \<Longrightarrow> service_system_prompt i db c = (c, Inr (Some prompt))"
  by (simp add: service_system_prompt_def)

text \<open>
  C36. Interleaved with an update the cache does serve an old prompt: a reader that missed the cache and
  built the prompt from the old row stores it after the update has invalidated the cache. The prompt is
  then filed under the new generation, and every later read returns it although the row has changed.
\<close>

theorem late_fill_serves_old:
  assumes "rc_up c" "row_get pm_id (ad_personas db) i = Some m" "to_profile m = Inr p" "to_uuid t = Inr i"
    and "update_persona env t q db c = (c1, Inr (db1, r))"
    and "c2 = cache_system_prompt i (build_system_prompt p) c1"
  shows "service_system_prompt i db1 c2 = (c2, Inr (Some (build_system_prompt p))) \<and>
    snd (service_system_prompt i db1 c1) = Inr (Some (build_system_prompt r))"
proof -
  have u: "update_with_version env i (put_fields q) ''manual'' ''Persona updated'' db c = (c1, Inr (db1, r))"
    using assms(4,5) by (simp add: update_persona_def)
  have c1: "c1 = invalidate i c" by (rule updated_rows(3) [OF u]) simp
  then have "get_entry c1 i = None" using assms(1) by (simp add: get_entry_invalidate)
  moreover obtain m' where "row_get pm_id (ad_personas db1) i = Some m'" "to_profile m' = Inr r"
    by (rule updated_answer [OF u]) simp
  ultimately show ?thesis using assms(1,6) c1
    by (simp add: service_prompt_hit cached_prompt_fill) (simp add: service_system_prompt_def cached_prompt_def Let_def)
qed

text \<open>
  Deleting a persona leaves its cached prompt behind: the route deletes the row and does not
  invalidate the cache, so the prompt route goes on answering for a persona that no longer exists.
\<close>

theorem deleted_prompt_still_served:
  assumes "rc_up c" "to_uuid t = Inr i" "system_prompt_route t db c = (c1, Inr prompt)" "prompt \<noteq> []" "delete_persona t db = Inr db1"
  shows "system_prompt_route t db1 c1 = (c1, Inr prompt) \<and> get_persona t db1 = not_found \<and>
    snd (system_prompt_route t db1 (fst (service_delete i db c1))) = not_found"
proof -
  have d: "delete_persona_row i db = (db1, True)" "row_get pm_id (ad_personas db1) i = None"
    using assms(2,5) by (auto simp: delete_persona_def delete_persona_row_def not_found_def row_get_without split: option.splits if_splits)
  obtain x where s: "service_system_prompt i db c = (c1, x)" "x = Inr (Some prompt)"
    using assms(2,3) by (auto simp: system_prompt_route_def not_found_def abind_eq_Inr split: prod.splits option.splits)
  have "cached_prompt c1 i = Some prompt \<and> rc_up c1"
  proof (cases "cached_prompt c i")
    case None
    then show ?thesis using s assms(1,4)
      by (auto simp: service_system_prompt_def Let_def cached_prompt_fill split: option.splits sum.splits)
        (simp add: cache_system_prompt_def)
  qed (use s assms(1) in \<open>auto simp: service_system_prompt_def\<close>)
  then have "service_system_prompt i db1 c1 = (c1, Inr (Some prompt))" "cached_prompt (invalidate i c1) i = None"
    by (simp_all add: service_prompt_hit) (simp add: cached_prompt_def get_entry_invalidate)
  then show ?thesis
    by (simp add: system_prompt_route_def assms(2) get_persona_def d service_delete_def) (simp add: service_system_prompt_def d not_found_def)
qed

lemma to_profile_updated_at: "to_profile (m\<lparr>pm_updated_at := u\<rparr>) = map_sum id (p_updated_at_update (\<lambda>_. u)) (to_profile m)"
  by (simp add: to_profile_def knob_values_def split: sum.split)

lemma to_profile_put:
  assumes "valid_profile p"
  shows "to_profile (put_fields p m) =
    Inr (p\<lparr>p_id := pm_id m, p_created_at := pm_created_at m, p_system_prompt := or_default (pm_system_prompt m) []\<rparr>)"
proof -
  have "knob_values (put_fields p m) = get_knobs p"
    by (simp add: knob_values_def put_fields_def knob_value_map) (simp flip: knob_value_map)
  moreover have "valid_profile (p\<lparr>p_system_prompt := s, p_id := i, p_created_at := t, p_updated_at := x\<rparr>)" for s i t x using assms by (simp add: valid_profile_def get_knobs_def)
  moreover have "get_knobs (p\<lparr>p_system_prompt := s\<rparr>) = get_knobs p" for s by (simp add: get_knobs_def)
  note raw_profile_get_knobs [of "pm_created_at m" "pm_id m" "p\<lparr>p_system_prompt := or_default (pm_system_prompt m) []\<rparr>", unfolded this]
  ultimately show ?thesis
    by (simp add: to_profile_def put_fields_def PersonaProfile_init_def or_default_def [of "Some _"] Let_def)
qed

lemma named_other:
  "create_persona_row m db = Inr (db', m') \<Longrightarrow> pm_name m \<noteq> name \<Longrightarrow> get_persona_by_name name db' = get_persona_by_name name db"
  by (auto simp: create_persona_row_def get_persona_by_name_def split: if_splits)

lemma named_new:
  "create_persona_row m db = Inr (db', m') \<Longrightarrow> get_persona_by_name (pm_name m) db = Inr None \<Longrightarrow>
     get_persona_by_name (pm_name m) db' = Inr (Some m)"
  by (auto simp: create_persona_row_def get_persona_by_name_def scalar_one_or_none_def split: if_splits list.splits)

lemma named_clash:
  "create_persona_row m db = Inr (db', m') \<Longrightarrow> get_persona_by_name (pm_name m) db = Inr (Some x) \<Longrightarrow>
     get_persona_by_name (pm_name m) db' = Inl MultipleResultsFound"
  by (auto simp: create_persona_row_def get_persona_by_name_def scalar_one_or_none_def split: if_splits list.splits)

lemma from_profile_name [simp]: "pm_name (from_profile i now p preset) = p_name p"
  by (simp add: from_profile_def apply_profile_def)

lemma seed_keeps_named:
  "seed_presets env ps db = Inr db' \<Longrightarrow> name \<notin> (\<lambda>x. preset_value (fst x)) ` set ps \<Longrightarrow> get_persona_by_name name db' = get_persona_by_name name db"
proof (induction ps arbitrary: db)
  case (Cons xp rest)
  then show ?case
    by (cases xp) (auto simp: Let_def abind_eq_Inr lift_res_eq_Inr named_other split: option.splits)
qed simp

lemma seeded_names:
  "seed_presets env ps db = Inr db' \<Longrightarrow> distinct (map (\<lambda>x. preset_value (fst x)) ps) \<Longrightarrow> x \<in> set ps \<Longrightarrow>
     \<exists>m. get_persona_by_name (preset_value (fst x)) db' = Inr (Some m)"
proof (induction ps arbitrary: db)
  case (Cons xp rest)
  obtain y p where xp: "xp = (y, p)" by fastforce
  obtain ex where ex: "get_persona_by_name (preset_value y) db = Inr ex"
    using Cons.prems(1) by (auto simp: xp Let_def abind_eq_Inr lift_res_eq_Inr)
  have "\<exists>db1. seed_presets env rest db1 = Inr db' \<and> (\<exists>m. get_persona_by_name (preset_value y) db1 = Inr (Some m))"
  proof (cases ex)
    case None
    then obtain m db1 m1 where "create_persona_row m db = Inr (db1, m1)" "pm_name m = preset_value y" "seed_presets env rest db1 = Inr db'"
      using Cons.prems(1) ex by (auto simp: xp Let_def abind_eq_Inr)
    then show ?thesis using named_new ex None by metis
  qed (use Cons.prems(1) ex in \<open>auto simp: xp Let_def\<close>)
  then obtain db1 where r: "seed_presets env rest db1 = Inr db'" "\<exists>m. get_persona_by_name (preset_value y) db1 = Inr (Some m)" by blast
  show ?case
  proof (cases "x = xp")
    case True
    then show ?thesis using r seed_keeps_named [OF r(1)] Cons.prems(2) by (simp add: xp)
  qed (use Cons r in auto)
qed simp

lemma seed_again: "(\<And>x. x \<in> set ps \<Longrightarrow> \<exists>m. get_persona_by_name (preset_value (fst x)) db = Inr (Some m)) \<Longrightarrow> seed_presets env ps db = Inr db"
proof (induction ps)
  case (Cons xp rest)
  obtain m where "get_persona_by_name (preset_value (fst xp)) db = Inr (Some m)" using Cons.prems by fastforce
  then show ?case using Cons by (cases xp) (simp add: lift_res_def)
qed simp

lemma seed_stuck:
  "x \<in> set ps \<Longrightarrow> get_persona_by_name (preset_value (fst x)) db = Inl MultipleResultsFound \<Longrightarrow>
   (\<And>y. y \<in> set ps \<Longrightarrow> get_persona_by_name (preset_value (fst y)) db \<noteq> Inr None) \<Longrightarrow>
   seed_presets env ps db = Inl (Unhandled MultipleResultsFound)"
proof (induction ps)
  case (Cons xp rest)
  obtain y p where xp: "xp = (y, p)" by fastforce
  consider m where "get_persona_by_name (preset_value y) db = Inr (Some m)" | "get_persona_by_name (preset_value y) db = Inl MultipleResultsFound"
    using Cons.prems(3) [of xp] by (auto simp: get_persona_by_name_def scalar_one_or_none_def xp split: list.splits)
  then show ?case
  proof cases
    case 1
    then have "x \<noteq> xp" using Cons.prems(2) by (auto simp: xp)
    then show ?thesis using Cons 1 by (simp add: xp lift_res_def)
  qed (simp add: xp lift_res_def)
qed simp

lemma history_ok_unseen: "history_ok env X db \<Longrightarrow> v \<in> set (ad_versions db) \<Longrightarrow> vn_version_number v \<noteq> get_latest_version_number db (vn_persona_id v) + 1"
proof
  assume ok: "history_ok env X db" and v: "v \<in> set (ad_versions db)"
    and eq: "vn_version_number v = get_latest_version_number db (vn_persona_id v) + 1"
  let ?vs = "persona_versions db (vn_persona_id v)"
  have "vn_version_number v \<in> set (map vn_version_number ?vs)" using v by (auto simp: persona_versions_def)
  then show False unfolding history_okD(4) [OF ok] eq latest_version_length [OF ok] by (auto simp: numbers_def)
qed

lemma record_version_ok:
  assumes "history_ok env X db" "m \<in> set (ad_personas db)" "to_profile m = Inr p"
  shows "\<exists>db'. record_persona_version env m source summary db = Inr db'"
proof -
  have "row_get pm_id (ad_personas db) (pm_id m) \<noteq> None" using assms(2) by (auto simp: row_get_None_iff)
  moreover have "\<not> list_ex (\<lambda>w. vn_persona_id w = pm_id m \<and> vn_version_number w = get_latest_version_number db (pm_id m) + 1) (ad_versions db)"
    unfolding list_ex_iff using history_ok_unseen [OF assms(1)] by metis
  ultimately show ?thesis by (simp add: record_persona_version_def assms(3) create_version_row_def Let_def)
qed

lemma valid_fits:
  assumes "valid_profile p" "length (p_model p) \<le> 100"
  shows "persona_fits (from_profile i now p preset)" "persona_fits (flushed now m (put_fields p m))"
proof -
  have k: "list_all (\<lambda>kv. 0 \<le> snd kv \<and> snd kv \<le> 1) (get_knobs p)" using assms(1) by (auto simp: valid_profile_def list_all_iff)
  have "pm_knobs (from_profile i now p preset) = get_knobs p" by (simp add: from_profile_def apply_profile_def knob_value_map)
  then show "persona_fits (from_profile i now p preset)"
    using assms k by (simp add: persona_fits_def valid_profile_def) (simp add: from_profile_def apply_profile_def)
  have "persona_fits ((put_fields p m)\<lparr>pm_updated_at := u\<rparr>)" "persona_fits (put_fields p m)" for u
    using assms k by (simp_all add: persona_fits_def valid_profile_def put_fields_def)
  then show "persona_fits (flushed now m (put_fields p m))" unfolding flushed_def by metis
qed
lemma update_accepted:
  assumes "history_ok env {} db" "valid_profile p" "length (p_model p) \<le> 100" "to_uuid t = Inr i" "row_get pm_id (ad_personas db) i = Some old"
  shows "\<exists>c' db' q. update_persona env t p db c = (c', Inr (db', q))"
proof -
  let ?m = "flushed (clock env db) old (put_fields p old)"
  obtain db1 where u: "update_persona_row env i (put_fields p) db = Inr (db1, Some ?m)"
    using valid_fits(2) [OF assms(2,3)] by (simp add: update_persona_row_def assms(5) Let_def)
  note n = history_ok_update [OF assms(1) u put_fields_id(1)]
  have "?m = put_fields p old \<or> ?m = (put_fields p old)\<lparr>pm_updated_at := clock env db\<rparr>" by (auto simp: flushed_def)
  then obtain q where q: "to_profile ?m = Inr q" using to_profile_put [OF assms(2), of old] by (auto simp: to_profile_updated_at)
  obtain db' where "record_persona_version env ?m ''manual'' (Some ''Persona updated'') db1 = Inr db'"
    using record_version_ok [OF n(1) n(3) q] by blast
  then show ?thesis using q by (simp add: update_persona_def assms(4) update_with_version_def service_update_def u answer_profile_def)
qed

lemma update_read_back:
  assumes "valid_profile p" "to_uuid t = Inr i" "row_get pm_id (ad_personas db) i = Some old"
    and "update_persona env t p db c = (c', Inr (db', q))"
  shows "get_persona t db' = Inr q \<and>
    q\<lparr>p_updated_at := p_updated_at p\<rparr> = p\<lparr>p_id := i, p_created_at := pm_created_at old, p_system_prompt := or_default (pm_system_prompt old) []\<rparr>"
proof -
  have u: "update_with_version env i (put_fields p) ''manual'' ''Persona updated'' db c = (c', Inr (db', q))"
    using assms(2,4) by (simp add: update_persona_def)
  obtain m old' where m: "row_get pm_id (ad_personas db') i = Some m" "to_profile m = Inr q" "row_get pm_id (ad_personas db) i = Some old'"
    "m = flushed (clock env db) old' (put_fields p old')"
    by (rule updated_answer [OF u]) simp
  have "old' = old" "pm_id old = i" using m(3) assms(3) row_get_SomeD [OF assms(3)] by simp_all
  then have "m = put_fields p old \<or> m = (put_fields p old)\<lparr>pm_updated_at := clock env db\<rparr>" using m(4) by (auto simp: flushed_def)
  then show ?thesis using m(1,2) to_profile_put [OF assms(1), of old] \<open>pm_id old = i\<close>
    by (auto simp: get_persona_def assms(2) lift_res_def to_profile_updated_at)
qed


text \<open>
  Seeding the presets at every start is idempotent: a second run finds each preset by its name and
  writes nothing. But a persona that a user has given a preset's name is found as well: from then on
  seeding raises, so the service does not start again.
\<close>

theorem seeding_restart:
  assumes "distinct (map (\<lambda>x. preset_value (fst x)) presets)" "seed_presets env presets db = Inr db1"
  shows "seed_presets env presets db1 = Inr db1 \<and>
    (\<forall>p db2 q. create_persona env p db1 = Inr (db2, q) \<longrightarrow> p_name p \<in> (\<lambda>x. preset_value (fst x)) ` set presets \<longrightarrow>
       seed_presets env presets db2 = Inl (Unhandled MultipleResultsFound))"
proof -
  note named = seeded_names [OF assms(2,1)]
  have "seed_presets env presets db2 = Inl (Unhandled MultipleResultsFound)"
    if c: "create_persona env p db1 = Inr (db2, q)" and x: "x \<in> set presets" "p_name p = preset_value (fst x)" for p db2 q x
  proof -
    let ?m = "from_profile (fresh_uuid env db1) (clock env db1) p False"
    obtain db' m where m: "create_persona_row ?m db1 = Inr (db', m)" "record_persona_version env m ''manual'' (Some ''Persona created'') db' = Inr db2"
      using c by (auto simp: create_persona_def create_with_version_def abind_eq_Inr answer_profile_Inr)
    obtain v where "db2 = tick_db (db'\<lparr>ad_versions := ad_versions db' @ [v]\<rparr>)" using record_version_effect [OF m(2)] .
    then have same: "get_persona_by_name n db2 = get_persona_by_name n db'" for n by (simp add: get_persona_by_name_def)
    show ?thesis
    proof (rule seed_stuck [OF x(1)])
      show "get_persona_by_name (preset_value (fst x)) db2 = Inl MultipleResultsFound"
        using named [OF x(1)] named_clash [OF m(1)] by (auto simp: same x(2))
      show "get_persona_by_name (preset_value (fst y)) db2 \<noteq> Inr None" if "y \<in> set presets" for y
        using named [OF that] named_clash [OF m(1)] named_other [OF m(1), of "preset_value (fst y)"]
        by (cases "preset_value (fst y) = pm_name ?m") (auto simp: same)
    qed
  qed
  then show ?thesis using seed_again [OF named] by blast
qed

section \<open>Witnesses\<close>

definition demo_uuid :: "nat \<Rightarrow> string" where
  "demo_uuid n = (if n = 0 then ''123e4567-e89b-12d3-a456-426614174000'' else replicate n CHR ''u'')"

definition demo_api :: api_env where
  "demo_api = \<lparr> ae_uuid = demo_uuid, ae_clock = int, ae_sum = Plain, ae_show_weights = (\<lambda>_. []), ae_show_ratio = (\<lambda>_. []) \<rparr>"

lemma demo_uuid_inj: "inj (ae_uuid demo_api)"
proof (rule injI)
  fix x y
  have "replicate n CHR ''u'' \<noteq> CHR ''1'' # s" for n s by (cases n) auto
  then show "ae_uuid demo_api x = ae_uuid demo_api y \<Longrightarrow> x = y"
    by (auto simp: demo_api_def demo_uuid_def split: if_splits) (metis replicate_eq_replicate)+
qed


definition demo_row :: "PersonaProfile \<Rightarrow> PersonaModel" where
  "demo_row p = from_profile (demo_uuid 0) 0 p False"

definition demo_db :: "PersonaProfile \<Rightarrow> api_db" where
  "demo_db p = (case create_persona demo_api p api_empty of Inl _ \<Rightarrow> api_empty | Inr (db, _) \<Rightarrow> db)"

lemma demo_create:
  assumes "valid_profile p" "length (p_model p) \<le> 100"
  shows "\<exists>q. create_persona demo_api p api_empty = Inr (demo_db p, q)" "ad_personas (demo_db p) = [demo_row p]"
    "length (ad_versions (demo_db p)) = 1"
proof -
  let ?m = "from_profile (fresh_uuid demo_api api_empty) (clock demo_api api_empty) p False"
  obtain db1 where c: "create_persona_row ?m api_empty = Inr (db1, ?m)" "ad_personas db1 = [?m]" "ad_versions db1 = []"
    using valid_fits(1) [OF assms] by (simp add: create_persona_row_def api_empty_def)
  note n = history_ok_create [OF history_ok_empty demo_uuid_inj c(1)]
  have q: "to_profile ?m = Inr (p\<lparr>p_id := pm_id ?m, p_created_at := 0, p_updated_at := 0\<rparr>)"
    using persona_row_roundtrip [OF assms(1)] by (simp add: demo_api_def api_empty_def)
  obtain db2 where r: "record_persona_version demo_api ?m ''manual'' (Some ''Persona created'') db1 = Inr db2"
    using record_version_ok [OF n(1) n(3) q] n(2) by auto
  have m: "?m = demo_row p" by (simp add: demo_row_def demo_api_def api_empty_def)
  have e: "create_persona demo_api p api_empty = Inr (db2, p\<lparr>p_id := pm_id ?m, p_created_at := 0, p_updated_at := 0\<rparr>)"
    by (simp add: create_persona_def create_with_version_def c(1) r answer_profile_def q)
  then have "demo_db p = db2" by (simp add: demo_db_def)
  moreover obtain v where "db2 = tick_db (db1\<lparr>ad_versions := ad_versions db1 @ [v]\<rparr>)" using record_version_effect [OF r] .
  ultimately show "\<exists>q. create_persona demo_api p api_empty = Inr (demo_db p, q)" "ad_personas (demo_db p) = [demo_row p]"
    "length (ad_versions (demo_db p)) = 1"
    using e c(2,3) m by simp_all
qed

lemma sample_fits: "valid_profile sample_profile" "length (p_model sample_profile) \<le> 100"
  using sample_profile_valid by (simp_all add: sample_profile_def raw_profile_def preset_args_def or_default_def Let_def)

lemma demo_uuid_ok: "to_uuid (demo_uuid 0) = Inr (demo_uuid 0)"
  by (simp add: to_uuid_def demo_uuid_def sample_uuid)

lemma demo_row_get: "row_get pm_id (ad_personas (demo_db sample_profile)) (demo_uuid 0) = Some (demo_row sample_profile)"
  by (simp add: demo_create(2) [OF sample_fits] row_get_def demo_row_def)

lemma demo_reached: "(persona_step demo_api)\<^sup>*\<^sup>* api_empty (demo_db sample_profile)"
  using demo_create(1) [OF sample_fits] persona_step.created by blast

lemma demo_cached: "(cached_step demo_api)\<^sup>*\<^sup>* (api_empty, cache_init) (demo_db sample_profile, cache_init)"
  using demo_create(1) [OF sample_fits] cached_step.created by blast

theorem persona_history_complete_witness:
  "map vn_version_number (persona_versions (demo_db sample_profile) (demo_uuid 0)) = [1] \<and>
   vn_knob_snapshot (last (persona_versions (demo_db sample_profile) (demo_uuid 0))) = knob_values (demo_row sample_profile)"
proof -
  let ?db = "demo_db sample_profile"
  note d = demo_create [OF sample_fits]
  note h = persona_history_complete [OF demo_uuid_inj demo_reached]
  have id: "pm_id (demo_row sample_profile) = demo_uuid 0" by (simp add: demo_row_def)
  then have "\<forall>v \<in> set (ad_versions ?db). vn_persona_id v = demo_uuid 0" using h by (simp add: d(2))
  then have vs: "persona_versions ?db (demo_uuid 0) = ad_versions ?db" by (simp add: persona_versions_def)
  then show ?thesis using h d(3) by (auto simp: d(2) id Let_def split: if_splits)
qed


definition renamed_profile :: PersonaProfile where
  "renamed_profile = sample_profile\<lparr>p_name := ''Other''\<rparr>"

lemma renamed_fits: "valid_profile renamed_profile" "length (p_model renamed_profile) \<le> 100"
  using sample_fits by (simp_all add: renamed_profile_def valid_profile_def get_knobs_def)

lemma demo_history_ok: "history_ok demo_api {} (demo_db sample_profile)"
  using persona_sys.reachable_inv [of api_empty demo_api] demo_reached demo_uuid_inj by blast

lemma demo_row_profile: "to_profile (demo_row sample_profile) = Inr (sample_profile\<lparr>p_id := demo_uuid 0, p_created_at := 0, p_updated_at := 0\<rparr>)"
  unfolding demo_row_def by (rule persona_row_roundtrip [OF sample_fits(1)])

theorem late_fill_serves_old_witness:
  "\<exists>c1 db1 r prompt. update_persona demo_api (demo_uuid 0) renamed_profile (demo_db sample_profile) cache_init = (c1, Inr (db1, r)) \<and>
     snd (service_system_prompt (demo_uuid 0) db1 (cache_system_prompt (demo_uuid 0) prompt c1)) = Inr (Some prompt) \<and>
     prompt \<noteq> build_system_prompt r"
proof -
  let ?p = "sample_profile\<lparr>p_id := demo_uuid 0, p_created_at := 0, p_updated_at := 0\<rparr>"
  obtain c1 db1 r where u: "update_persona demo_api (demo_uuid 0) renamed_profile (demo_db sample_profile) cache_init = (c1, Inr (db1, r))"
    using update_accepted [OF demo_history_ok renamed_fits demo_uuid_ok demo_row_get] by blast
  have "p_name (r\<lparr>p_updated_at := p_updated_at renamed_profile\<rparr>) = ''Other''"
    using update_read_back [OF renamed_fits(1) demo_uuid_ok demo_row_get u] by (simp add: renamed_profile_def)
  moreover have "p_name ?p = ''Creative Writer''" by (simp add: sample_profile_def raw_profile_def preset_args_def or_default_def Let_def)
  ultimately have "build_system_prompt ?p \<noteq> build_system_prompt r" by (simp add: build_system_prompt_def Let_def)
  moreover have "rc_up cache_init" by (simp add: cache_init_def)
  moreover note late_fill_serves_old [OF _ demo_row_get demo_row_profile demo_uuid_ok u refl]
  ultimately have "snd (service_system_prompt (demo_uuid 0) db1 (cache_system_prompt (demo_uuid 0) (build_system_prompt ?p) c1)) =
      Inr (Some (build_system_prompt ?p)) \<and> build_system_prompt ?p \<noteq> build_system_prompt r" by simp
  then show ?thesis using u by blast
qed

theorem deleted_prompt_still_served_witness:
  "\<exists>c1 db1 prompt. delete_persona (demo_uuid 0) (demo_db sample_profile) = Inr db1 \<and>
     system_prompt_route (demo_uuid 0) db1 c1 = (c1, Inr prompt) \<and> get_persona (demo_uuid 0) db1 = not_found"
proof -
  let ?prompt = "build_system_prompt (sample_profile\<lparr>p_id := demo_uuid 0, p_created_at := 0, p_updated_at := 0\<rparr>)"
  have up: "rc_up cache_init" "cached_prompt cache_init (demo_uuid 0) = None"
    by (simp_all add: cache_init_def cached_prompt_def get_entry_def dget_def)
  obtain c1 where c1: "system_prompt_route (demo_uuid 0) (demo_db sample_profile) cache_init = (c1, Inr ?prompt)"
    by (simp add: system_prompt_route_def demo_uuid_ok service_system_prompt_def up demo_row_get demo_row_profile Let_def)
  obtain db1 where d: "delete_persona (demo_uuid 0) (demo_db sample_profile) = Inr db1"
    by (simp add: delete_persona_def demo_uuid_ok delete_persona_row_def demo_row_get)
  show ?thesis using deleted_prompt_still_served [OF up(1) demo_uuid_ok c1 prompt_nonempty d] d by blast
qed


theorem seeding_restart_witness:
  "\<exists>db1. seed_presets demo_api [(PresetCreative, sample_profile)] api_empty = Inr db1 \<and>
     seed_presets demo_api [(PresetCreative, sample_profile)] db1 = Inr db1 \<and> length (ad_personas db1) = 1"
proof -
  let ?p = "sample_profile\<lparr>p_id := ''preset_creative'', p_name := ''creative''\<rparr>"
  have "valid_profile ?p" "length (p_model ?p) \<le> 100" using sample_fits by (simp_all add: valid_profile_def get_knobs_def)
  note f = valid_fits(1) [OF this]
  have "get_persona_by_name ''creative'' api_empty = Inr None" by (simp add: get_persona_by_name_def api_empty_def scalar_one_or_none_def)
  then obtain db1 where s: "seed_presets demo_api [(PresetCreative, sample_profile)] api_empty = Inr db1" "length (ad_personas db1) = 1"
    using f by (simp add: create_persona_row_def api_empty_def Let_def)
  show ?thesis using seeding_restart [OF _ s(1)] s by simp
qed

end
