(* ===== verification/AgentRuns.thy ===== *)
theory AgentRuns
  imports AgentApi PersonaHistory
begin

text \<open>
  What the agent and session routes guarantee: the tables stay consistent, every invocation is settled, and what
  becomes of sessions and histories.
\<close>

section \<open>Frames\<close>

text \<open>The tables that the persona routes leave alone.\<close>

definition chat_tables :: "api_db \<Rightarrow> string list \<times> SessionModel list \<times> MessageModel list \<times> AgentRunModel list" where
  "chat_tables db = (map am_id (ad_agents db), ad_sessions db, ad_messages db, ad_runs db)"

definition keeps_chat :: "api_db \<Rightarrow> api_db \<Rightarrow> bool" where
  "keeps_chat db db' \<longleftrightarrow> chat_tables db' = chat_tables db \<and> ad_next db \<le> ad_next db'"

lemma keeps_chat_refl [simp]: "keeps_chat db db"
  by (simp add: keeps_chat_def)

lemma keeps_chat_trans: "keeps_chat a b \<Longrightarrow> keeps_chat b c \<Longrightarrow> keeps_chat a c"
  by (simp add: keeps_chat_def)

lemma keeps_chat_rows:
  "create_persona_row m db = Inr (db', m') \<Longrightarrow> keeps_chat db db'"
  "update_persona_row env i f db = Inr (db', x) \<Longrightarrow> keeps_chat db db'"
  "delete_persona_row i db = (db', d) \<Longrightarrow> keeps_chat db db'"
  "record_persona_version env m source summary db = Inr db' \<Longrightarrow> keeps_chat db db'"
  "record_analysis_run env text knobs conf notes pid db = Inr db' \<Longrightarrow> keeps_chat db db'"
  by (auto simp: keeps_chat_def chat_tables_def create_persona_row_def update_persona_row_def delete_persona_row_def Let_def
      record_persona_version_def create_version_row_def record_analysis_run_def create_analysis_row_def abind_eq_Inr
      split: if_splits option.splits)

lemma keeps_chat_created: "create_with_version env p source summary db = Inr (db', m) \<Longrightarrow> keeps_chat db db'"
  by (auto simp: create_with_version_def abind_eq_Inr intro: keeps_chat_trans keeps_chat_rows)

lemma keeps_chat_updated: "update_with_version env i f source summary db c = (c', Inr (db', p)) \<Longrightarrow> keeps_chat db db'"
  by (auto simp: update_with_version_def service_update_def not_found_def abind_eq_Inr answer_profile_Inr
      dest!: keeps_chat_rows(2,4) intro: keeps_chat_trans split: sum.splits option.splits)

lemma keeps_chat_seed: "seed_presets env ps db = Inr db' \<Longrightarrow> keeps_chat db db'"
proof (induction ps arbitrary: db)
  case (Cons xp rest)
  then show ?case
    by (cases xp) (auto simp: Let_def abind_eq_Inr lift_res_eq_Inr split: option.splits intro: keeps_chat_trans [OF keeps_chat_rows(1)])
qed simp

lemma keeps_chat_step: "persona_step env db db' \<Longrightarrow> keeps_chat db db'"
proof (induction rule: persona_step.induct)
  case (cloned t name db db' q)
  then show ?case by (elim clone_persona_Inr) (rule keeps_chat_trans [OF keeps_chat_rows(1) keeps_chat_rows(4)])
next
  case (blended rq db db' q)
  then show ?case by (elim blend_route_Inr) (rule keeps_chat_created)
next
  case (deleted t db db')
  then show ?case by (elim delete_persona_Inr) (rule keeps_chat_rows(3))
qed (auto simp: create_persona_def import_persona_def extract_analysis_def extract_and_create_persona_def import_persona_from_cyrex_def
    update_persona_def apply_preset_route_def not_found_def abind_eq_Inr answer_profile_Inr
    dest!: keeps_chat_created keeps_chat_updated keeps_chat_seed keeps_chat_rows(5) intro: keeps_chat_trans
    split: if_splits sum.splits option.splits)

section \<open>Consistent tables\<close>

definition turns :: "api_db \<Rightarrow> string \<Rightarrow> MessageModel list" where
  "turns db i = filter (\<lambda>m. me_session_id m = i) (ad_messages db)"

text \<open>
  Agents, sessions and runs have identifiers of their own, a session has an agent, a message a session, a run an agent; every
  run is settled; a session counts at most the messages it has.
\<close>

definition settled :: "AgentRunModel \<Rightarrow> bool" where
  "settled r \<longleftrightarrow> ar_status r \<in> {''completed'', ''failed'', ''unavailable''} \<and> ar_completed_at r \<noteq> None \<and> ar_response_message r \<noteq> None"

lemma settled_other [simp]: "settled (r\<lparr>ar_session_id := x\<rparr>) = settled r"
  by (simp add: settled_def)

definition used_ids :: "api_db \<Rightarrow> string set" where
  "used_ids db = am_id ` set (ad_agents db) \<union> se_id ` set (ad_sessions db) \<union> ar_id ` set (ad_runs db)"

definition chat_ok :: "api_env \<Rightarrow> api_db \<Rightarrow> bool" where
  "chat_ok env db \<longleftrightarrow> used_ids db \<subseteq> ae_uuid env ` {..<ad_next db} \<and>
     distinct (map am_id (ad_agents db)) \<and> distinct (map se_id (ad_sessions db)) \<and> distinct (map ar_id (ad_runs db)) \<and>
     distinct (map se_session_id (ad_sessions db)) \<and>
     se_agent_id ` set (ad_sessions db) \<subseteq> am_id ` set (ad_agents db) \<and>
     me_session_id ` set (ad_messages db) \<subseteq> se_id ` set (ad_sessions db) \<and>
     ar_agent_id ` set (ad_runs db) \<subseteq> am_id ` set (ad_agents db) \<and>
     (\<forall>r \<in> set (ad_runs db). settled r) \<and>
     (\<forall>s \<in> set (ad_sessions db). se_message_count s \<le> int (length (turns db (se_id s))))"

lemma chat_okI:
  assumes "used_ids db \<subseteq> ae_uuid env ` {..<ad_next db}"
    "distinct (map am_id (ad_agents db))" "distinct (map se_id (ad_sessions db))" "distinct (map ar_id (ad_runs db))"
    "distinct (map se_session_id (ad_sessions db))" "se_agent_id ` set (ad_sessions db) \<subseteq> am_id ` set (ad_agents db)"
    "me_session_id ` set (ad_messages db) \<subseteq> se_id ` set (ad_sessions db)" "ar_agent_id ` set (ad_runs db) \<subseteq> am_id ` set (ad_agents db)"
    "\<And>r. r \<in> set (ad_runs db) \<Longrightarrow> settled r"
    "\<And>s. s \<in> set (ad_sessions db) \<Longrightarrow> se_message_count s \<le> int (length (turns db (se_id s)))"
  shows "chat_ok env db"
  unfolding chat_ok_def using assms by blast

lemma chat_okD:
  assumes "chat_ok env db"
  shows "used_ids db \<subseteq> ae_uuid env ` {..<ad_next db}"
    "distinct (map am_id (ad_agents db))" "distinct (map se_id (ad_sessions db))" "distinct (map ar_id (ad_runs db))"
    "distinct (map se_session_id (ad_sessions db))" "se_agent_id ` set (ad_sessions db) \<subseteq> am_id ` set (ad_agents db)"
    "me_session_id ` set (ad_messages db) \<subseteq> se_id ` set (ad_sessions db)" "ar_agent_id ` set (ad_runs db) \<subseteq> am_id ` set (ad_agents db)"
    "r \<in> set (ad_runs db) \<Longrightarrow> settled r"
    "s \<in> set (ad_sessions db) \<Longrightarrow> se_message_count s \<le> int (length (turns db (se_id s)))"
  using assms unfolding chat_ok_def by blast+

lemma used_ids_tables: "chat_tables db' = chat_tables db \<Longrightarrow> used_ids db' = used_ids db"
  unfolding chat_tables_def used_ids_def prod.inject by (metis set_map)

lemma chat_ok_keeps: "chat_ok env db \<Longrightarrow> keeps_chat db db' \<Longrightarrow> chat_ok env db'"
proof -
  assume ok: "chat_ok env db" and k: "keeps_chat db db'"
  then have t: "chat_tables db' = chat_tables db" "ad_next db \<le> ad_next db'" by (simp_all add: keeps_chat_def)
  have e: "map am_id (ad_agents db') = map am_id (ad_agents db)" "ad_sessions db' = ad_sessions db" "ad_messages db' = ad_messages db"
    "ad_runs db' = ad_runs db"
    using t(1) by (simp_all add: chat_tables_def)
  have a: "am_id ` set (ad_agents db') = am_id ` set (ad_agents db)" using e(1) by (metis set_map)
  have n: "ae_uuid env ` {..<ad_next db} \<subseteq> ae_uuid env ` {..<ad_next db'}" using t(2) by auto
  note d = chat_okD [OF ok]
  show "chat_ok env db'"
    by (rule chat_okI) (use d n in \<open>simp_all add: e a used_ids_tables [OF t(1)] turns_def subset_trans\<close>)
qed

lemma keeps_chat_tools: "add_tools env i names db = Inr db' \<Longrightarrow> keeps_chat db db'"
  by (induction env i names db rule: add_tools.induct) (auto simp: keeps_chat_def chat_tables_def split: if_splits)

lemma keeps_chat_replace: "replace_for_agent env i names db = Inr db' \<Longrightarrow> keeps_chat db db'"
  unfolding replace_for_agent_def by (drule keeps_chat_tools) (simp add: keeps_chat_def chat_tables_def)

lemma fresh_unused: "chat_ok env db \<Longrightarrow> inj (ae_uuid env) \<Longrightarrow> fresh_uuid env db \<notin> used_ids db"
  using chat_okD(1) [of env db] by (auto dest!: subsetD dest: injD)

lemma ids_grow: "X \<subseteq> ae_uuid env ` {..<n} \<Longrightarrow> X \<subseteq> ae_uuid env ` {..<Suc n}"
  by (auto simp: lessThan_Suc)

lemma chat_ok_new_agent:
  assumes "chat_ok env db" "inj (ae_uuid env)" "create_agent_row a db = Inr db'" "am_id a = fresh_uuid env db"
  shows "chat_ok env db'"
proof -
  have db': "db' = tick_db (db\<lparr>ad_agents := ad_agents db @ [a]\<rparr>)" using assms(3) by (simp add: create_agent_row_def split: if_splits)
  note d = chat_okD [OF assms(1)] and f = fresh_unused [OF assms(1,2)]
  show ?thesis
  proof (rule chat_okI)
    show "used_ids db' \<subseteq> ae_uuid env ` {..<ad_next db'}" using ids_grow [OF d(1)] by (auto simp: db' used_ids_def assms(4) lessThan_Suc)
    show "distinct (map am_id (ad_agents db'))" using d(2) f assms(4) by (simp add: db' used_ids_def)
    show "se_message_count s \<le> int (length (turns db' (se_id s)))" if "s \<in> set (ad_sessions db')" for s
      using d(10) that by (simp add: db' turns_def)
    show "settled r" if "r \<in> set (ad_runs db')" for r using d(9) that by (simp add: db')
  qed (use d(3-8) in \<open>auto simp: db'\<close>)
qed

lemma chat_ok_delete_agent:
  assumes "chat_ok env db" "delete_agent_row i db = Inr (db', True)"
  shows "chat_ok env db'"
proof -
  have none: "\<not> list_ex (\<lambda>s. se_agent_id s = i) (ad_sessions db)"
    and db': "db' = db\<lparr>ad_agents := filter (\<lambda>a. am_id a \<noteq> i) (ad_agents db), ad_tools := filter (\<lambda>t. tl_agent_id t \<noteq> i) (ad_tools db),
      ad_runs := filter (\<lambda>r. ar_agent_id r \<noteq> i) (ad_runs db)\<rparr>"
    using assms(2) by (auto simp: delete_agent_row_def split: option.splits if_splits)
  note d = chat_okD [OF assms(1)]
  show ?thesis
  proof (rule chat_okI)
    show "used_ids db' \<subseteq> ae_uuid env ` {..<ad_next db'}" using d(1) by (auto simp: db' used_ids_def)
    have a: "am_id ` set (ad_agents db') = am_id ` set (ad_agents db) - {i}" by (auto simp: db')
    show "se_agent_id ` set (ad_sessions db') \<subseteq> am_id ` set (ad_agents db')" unfolding a using d(6) none by (auto simp: db' list_ex_iff)
    show "ar_agent_id ` set (ad_runs db') \<subseteq> am_id ` set (ad_agents db')" unfolding a using d(8) by (auto simp: db')
    show "se_message_count s \<le> int (length (turns db' (se_id s)))" if "s \<in> set (ad_sessions db')" for s
      using d(10) that by (simp add: db' turns_def)
    show "settled r" if "r \<in> set (ad_runs db')" for r using d(9) that by (simp add: db')
  qed (use d(2-5,7) in \<open>auto simp: db' distinct_map_filter\<close>)
qed

lemma no_turns:
  assumes "chat_ok env db" "i \<notin> se_id ` set (ad_sessions db)"
  shows "turns db i = []"
proof -
  have "me_session_id m \<noteq> i" if "m \<in> set (ad_messages db)" for m
    using subsetD [OF chat_okD(7) [OF assms(1)] imageI [OF that]] assms(2) by auto
  then show ?thesis by (simp add: turns_def)
qed

lemma chat_ok_new_session:
  assumes "chat_ok env db" "inj (ae_uuid env)" "create_session_row env i sid meta db = Inr (db', s)" "i \<in> am_id ` set (ad_agents db)"
  shows "chat_ok env db'" "ad_sessions db' = ad_sessions db @ [s]" "se_message_count s = 0" "se_session_id s = sid" "turns db' (se_id s) = []"
    "ad_messages db' = ad_messages db" "ad_runs db' = ad_runs db" "ad_agents db' = ad_agents db" "ad_personas db' = ad_personas db" "se_agent_id s = i"
proof -
  have s: "se_id s = fresh_uuid env db" "se_message_count s = 0" "se_session_id s = sid" "se_agent_id s = i"
    and db': "db' = tick_db (db\<lparr>ad_sessions := ad_sessions db @ [s]\<rparr>)" and new: "get_by_session_id sid db = None"
    using assms(3) by (auto simp: create_session_row_def Let_def split: if_splits)
  note d = chat_okD [OF assms(1)] and f = fresh_unused [OF assms(1,2)]
  have sid: "sid \<notin> se_session_id ` set (ad_sessions db)" using new by (auto simp: get_by_session_id_def row_get_None_iff)
  show "chat_ok env db'"
  proof (rule chat_okI)
    show "used_ids db' \<subseteq> ae_uuid env ` {..<ad_next db'}" using ids_grow [OF d(1)] by (auto simp: db' used_ids_def s lessThan_Suc)
    show "distinct (map se_id (ad_sessions db'))" using d(3) f by (simp add: db' used_ids_def s)
    show "distinct (map se_session_id (ad_sessions db'))" using d(5) sid by (simp add: db' s)
    show "se_message_count x \<le> int (length (turns db' (se_id x)))" if "x \<in> set (ad_sessions db')" for x
      using d(10) that s by (auto simp: db' turns_def)
    show "settled r" if "r \<in> set (ad_runs db')" for r using d(9) that by (simp add: db')
  qed (use d(2,4,6-8) assms(4) s in \<open>auto simp: db'\<close>)
  have "turns db (se_id s) = []" using no_turns [OF assms(1)] f by (simp add: s used_ids_def)
  then show "turns db' (se_id s) = []" by (simp add: turns_def db')
  show "ad_sessions db' = ad_sessions db @ [s]" "se_message_count s = 0" "se_session_id s = sid" "se_agent_id s = i"
    "ad_messages db' = ad_messages db" "ad_runs db' = ad_runs db" "ad_agents db' = ad_agents db" "ad_personas db' = ad_personas db"
    using s by (simp_all add: db')
qed

lemma add_message_effect:
  assumes "add_message env i role content meta db = Inr (db', m)"
  shows "db' = tick_db (db\<lparr>ad_messages := ad_messages db @ [m]\<rparr>)" "me_session_id m = i" "me_role m = role" "me_content m = content"
    "me_created_at m = clock env db"
  using assms by (auto simp: add_message_def Let_def split: if_splits)

lemma chat_ok_message:
  assumes "chat_ok env db" "add_message env i role content meta db = Inr (db', m)" "i \<in> se_id ` set (ad_sessions db)"
  shows "chat_ok env db'"
proof -
  note e = add_message_effect [OF assms(2)]
  note d = chat_okD [OF assms(1)]
  show ?thesis
  proof (rule chat_okI)
    show "used_ids db' \<subseteq> ae_uuid env ` {..<ad_next db'}" using ids_grow [OF d(1)] by (simp add: e(1) used_ids_def)
    show "se_message_count s \<le> int (length (turns db' (se_id s)))" if "s \<in> set (ad_sessions db')" for s
      using d(10) [of s] that by (simp add: e(1) turns_def)
    show "settled r" if "r \<in> set (ad_runs db')" for r using d(9) that by (simp add: e(1))
  qed (use d(2-8) assms(3) e(2) in \<open>auto simp: e(1)\<close>)
qed

lemma chat_ok_increment:
  assumes "chat_ok env db" "\<And>s. s \<in> set (ad_sessions db) \<Longrightarrow> se_id s = i \<Longrightarrow> se_message_count s + 1 \<le> int (length (turns db i))"
  shows "chat_ok env (increment_message_count env i db)"
proof -
  let ?f = "\<lambda>s. s\<lparr>se_message_count := se_message_count s + 1, se_last_message_at := Some (clock env db)\<rparr>"
  let ?db = "increment_message_count env i db"
  have db': "?db = db\<lparr>ad_sessions := row_set se_id i ?f (ad_sessions db)\<rparr>" by (simp add: increment_message_count_def)
  have ids: "map se_id (ad_sessions ?db) = map se_id (ad_sessions db)" "map se_session_id (ad_sessions ?db) = map se_session_id (ad_sessions db)"
    "map se_agent_id (ad_sessions ?db) = map se_agent_id (ad_sessions db)"
    by (simp_all add: db' row_set_def)
  note d = chat_okD [OF assms(1)]
  show ?thesis
  proof (rule chat_okI)
    show "used_ids ?db \<subseteq> ae_uuid env ` {..<ad_next ?db}" using d(1) unfolding used_ids_def set_map [symmetric] ids by (simp add: db')
    show "se_agent_id ` set (ad_sessions ?db) \<subseteq> am_id ` set (ad_agents ?db)" using d(6) unfolding set_map [symmetric] ids by (simp add: db')
    show "me_session_id ` set (ad_messages ?db) \<subseteq> se_id ` set (ad_sessions ?db)" using d(7) unfolding set_map [symmetric] ids by (simp add: db')
    show "se_message_count s \<le> int (length (turns ?db (se_id s)))" if "s \<in> set (ad_sessions ?db)" for s
      using that assms(2) d(10) by (auto simp: db' row_set_def turns_def split: if_splits)
    show "settled r" if "r \<in> set (ad_runs ?db)" for r using d(9) that by (simp add: db')
  qed (use d in \<open>simp_all add: ids\<close>, use d in \<open>simp_all add: db'\<close>)
qed

lemma chat_ok_delete_session:
  assumes "chat_ok env db" "delete_session_row i db = Inr db'"
  shows "chat_ok env db'"
proof -
  have none: "\<not> list_ex (\<lambda>m. me_session_id m = i) (ad_messages db)"
    and db': "db' = db\<lparr>ad_sessions := filter (\<lambda>s. se_id s \<noteq> i) (ad_sessions db),
      ad_runs := map (\<lambda>r. if ar_session_id r = Some i then r\<lparr>ar_session_id := None\<rparr> else r) (ad_runs db)\<rparr>"
    using assms(2) by (auto simp: delete_session_row_def split: if_splits)
  have runs: "map ar_id (ad_runs db') = map ar_id (ad_runs db)" "map ar_agent_id (ad_runs db') = map ar_agent_id (ad_runs db)" by (simp_all add: db')
  note d = chat_okD [OF assms(1)]
  show ?thesis
  proof (rule chat_okI)
    show "used_ids db' \<subseteq> ae_uuid env ` {..<ad_next db'}" using d(1) runs(1) [THEN arg_cong, of set] by (auto simp: used_ids_def) (auto simp: db')
    have a: "se_id ` set (ad_sessions db') = se_id ` set (ad_sessions db) - {i}" by (auto simp: db')
    show "me_session_id ` set (ad_messages db') \<subseteq> se_id ` set (ad_sessions db')" unfolding a using d(7) none by (auto simp: db' list_ex_iff)
    show "ar_agent_id ` set (ad_runs db') \<subseteq> am_id ` set (ad_agents db')"
      using d(8) unfolding set_map [symmetric] runs by (simp add: db')
    show "distinct (map ar_id (ad_runs db'))" using d(4) by (simp add: runs)
    show "se_message_count s \<le> int (length (turns db' (se_id s)))" if "s \<in> set (ad_sessions db')" for s
      using d(10) that by (simp add: db' turns_def)
    show "settled r" if "r \<in> set (ad_runs db')" for r using d(9) that by (auto simp: db')
  qed (use d(2,3,5,6) in \<open>auto simp: db' distinct_map_filter\<close>)
qed

lemma chat_ok_run:
  assumes "chat_ok env db" "settled r" "ar_agent_id r \<in> am_id ` set (ad_agents db)" "ar_id r \<in> ae_uuid env ` {..<ad_next db}"
    "ar_id r \<notin> ar_id ` set (ad_runs db)"
  shows "chat_ok env (db\<lparr>ad_runs := ad_runs db @ [r]\<rparr>)"
proof -
  note d = chat_okD [OF assms(1)]
  show ?thesis
    by (rule chat_okI) (use d assms in \<open>auto simp: used_ids_def turns_def\<close>)
qed

section \<open>Invocations\<close>

definition settled_as :: "llm_outcome \<Rightarrow> AgentRunModel \<Rightarrow> bool" where
  "settled_as outcome r \<longleftrightarrow> ar_completed_at r \<noteq> None \<and> (case outcome of
     Unavailable p \<Rightarrow> ar_status r = ''unavailable'' \<and> ar_response_message r = Some no_provider_text \<and> ar_provider r = Some p
   | Answered p response \<Rightarrow> ar_status r = ''completed'' \<and> ar_response_message r = Some response \<and> ar_provider r = Some p
   | Failed _ \<Rightarrow> ar_status r = ''failed'' \<and> ar_response_message r = Some internal_error_text \<and> ar_provider r = None)"

lemma settled_as_settled: "settled_as outcome r \<Longrightarrow> settled r"
  by (cases outcome) (auto simp: settled_as_def settled_def)

lemma row_set_last: "key r \<notin> key ` set xs \<Longrightarrow> row_set key (key r) f (xs @ [r]) = xs @ [f r]"
  by (induction xs) (auto simp: row_set_def)

lemma settle_effect:
  assumes "settle_run env t a s run message outcome db = (db', r)" "ad_runs db = rs @ [run]" "ar_id run \<notin> ar_id ` set rs"
  obtains run' where "settled_as outcome run'" "ar_id run' = ar_id run" "ar_agent_id run' = ar_agent_id run"
    "ar_request_message run' = ar_request_message run" "ar_session_id run' = ar_session_id run"
    "case outcome of
       Answered p response \<Rightarrow> (\<exists>db1 m. add_message env (se_id s) ''assistant'' response [(''provider'', p)] (db\<lparr>ad_runs := rs\<rparr>) = Inr (db1, m) \<and>
         db' = (increment_message_count env (se_id s) db1)\<lparr>ad_runs := rs @ [run']\<rparr>)
     | _ \<Rightarrow> db' = db\<lparr>ad_runs := rs @ [run']\<rparr>"
proof -
  let ?r = "\<lambda>status response provider now. run\<lparr>ar_status := status, ar_response_message := Some response, ar_provider := provider,
    ar_model := am_model a, ar_tokens_used := None, ar_completed_at := Some now\<rparr>"
  note defs = settle_run_def run_completed_def assms(2) row_set_last [OF assms(3)] settled_as_def
  show thesis
  proof (cases outcome)
    case (Unavailable p)
    then show ?thesis using assms(1) by (intro that [of "?r ''unavailable'' no_provider_text (Some p) (clock env db)"]) (auto simp: defs)
  next
    case (Answered p response)
    then show ?thesis using assms(1)
      by (intro that [of "?r ''completed'' response (Some p) (ae_clock env (Suc (ad_next db)))"])
        (auto simp: defs add_message_def Let_def increment_message_count_def tick_db_def)
  next
    case (Failed b)
    then show ?thesis using assms(1) by (intro that [of "?r ''failed'' internal_error_text None (clock env db)"]) (auto simp: defs)
  qed
qed

text \<open>The session an invocation talks in: the one of that name, or a new one.\<close>

lemma get_or_create_session:
  assumes "chat_ok env db" "inj (ae_uuid env)" "get_or_create env i sid db = Inr (db1, s)" "i \<in> am_id ` set (ad_agents db)"
  shows "chat_ok env db1" "s \<in> set (ad_sessions db1)" "se_session_id s = sid" "ad_messages db1 = ad_messages db" "ad_runs db1 = ad_runs db"
    "ad_agents db1 = ad_agents db" "ad_personas db1 = ad_personas db"
    "turns db1 (se_id s) = (case get_by_session_id sid db of None \<Rightarrow> [] | Some s \<Rightarrow> turns db (se_id s))"
    "se_message_count s = (case get_by_session_id sid db of None \<Rightarrow> 0 | Some s \<Rightarrow> se_message_count s)"
proof -
  have "chat_ok env db1 \<and> s \<in> set (ad_sessions db1) \<and> se_session_id s = sid \<and> ad_messages db1 = ad_messages db \<and> ad_runs db1 = ad_runs db \<and>
    ad_agents db1 = ad_agents db \<and> ad_personas db1 = ad_personas db \<and>
    turns db1 (se_id s) = (case get_by_session_id sid db of None \<Rightarrow> [] | Some s \<Rightarrow> turns db (se_id s)) \<and>
    se_message_count s = (case get_by_session_id sid db of None \<Rightarrow> 0 | Some s \<Rightarrow> se_message_count s)"
  proof (cases "get_by_session_id sid db")
    case None
    then have "create_session_row env i sid [] db = Inr (db1, s)" using assms(3) by (simp add: get_or_create_def)
    note n = chat_ok_new_session [OF assms(1,2) this assms(4)]
    show ?thesis using n None by simp
  next
    case (Some x)
    then have "db1 = db" "s = x" using assms(3) by (simp_all add: get_or_create_def)
    then show ?thesis using Some assms(1) row_get_SomeD [of se_session_id] by (auto simp: get_by_session_id_def)
  qed
  then show "chat_ok env db1" "s \<in> set (ad_sessions db1)" "se_session_id s = sid" "ad_messages db1 = ad_messages db" "ad_runs db1 = ad_runs db"
    "ad_agents db1 = ad_agents db" "ad_personas db1 = ad_personas db"
    "turns db1 (se_id s) = (case get_by_session_id sid db of None \<Rightarrow> [] | Some s \<Rightarrow> turns db (se_id s))"
    "se_message_count s = (case get_by_session_id sid db of None \<Rightarrow> 0 | Some s \<Rightarrow> se_message_count s)"
    by simp_all
qed

text \<open>An invocation that gets past the agent and the session ends in \<open>settle_run\<close>.\<close>

lemma invoke_cases:
  assumes "invoke_agent env e settings probe chat t message session_id db = (db', r)"
  obtains (refused) err where "db' = db" "r = Inl err"
    | (asked) i a db1 s db2 um where "to_uuid t = Inr i" "row_get am_id (ad_agents db) i = Some a"
      "get_or_create env i (str_or session_id (t @ ''-default'')) db = Inr (db1, s)"
      "add_message env (se_id s) ''user'' message [] db1 = Inr (db2, um)"
      "settle_run env t a s (new_run env a s message db2) message
         (ask_llm e settings probe chat a (get_history 20 db1 (se_id s)) message (tick_db (db2\<lparr>ad_runs := ad_runs db2 @ [new_run env a s message db2]\<rparr>)))
         (tick_db (db2\<lparr>ad_runs := ad_runs db2 @ [new_run env a s message db2]\<rparr>)) = (db', r)"
proof -
  have id: "am_id a = i" if "row_get am_id (ad_agents db) i = Some a" for i a using row_get_SomeD [OF that] by simp
  show thesis using assms refused asked id
    by (auto simp: invoke_agent_def abind_def agent_not_found_def Let_def split: sum.splits option.splits)
qed

definition said :: "MessageModel \<Rightarrow> chat_message" where
  "said m = (me_role m, me_content m)"

definition new_turns :: "llm_outcome \<Rightarrow> string \<Rightarrow> chat_message list" where
  "new_turns outcome message = (''user'', message) # (case outcome of Answered _ response \<Rightarrow> [(''assistant'', response)] | _ \<Rightarrow> [])"

definition counted :: "llm_outcome \<Rightarrow> int" where
  "counted outcome = (case outcome of Answered _ _ \<Rightarrow> 1 | _ \<Rightarrow> 0)"

lemma incremented_session:
  "get_by_session_id sid db = Some s \<Longrightarrow>
    \<exists>s'. get_by_session_id sid (increment_message_count env (se_id s) db) = Some s' \<and> se_id s' = se_id s \<and> se_agent_id s' = se_agent_id s \<and>
      se_message_count s' = se_message_count s + 1"
proof -
  assume "get_by_session_id sid db = Some s"
  moreover have "row_get se_session_id (row_set se_id j f tbl) sid = Some (if se_id s = j then f s else s)"
    if "row_get se_session_id tbl sid = Some s" "\<And>x. se_session_id (f x) = se_session_id x" for j f and tbl :: "SessionModel list"
    using that by (induction tbl) (auto simp: row_get_def row_set_def split: if_splits)
  ultimately show ?thesis by (simp add: get_by_session_id_def increment_message_count_def)
qed

text \<open>What an invocation leaves behind, whatever the model does.\<close>

lemma invoke_effect:
  assumes ok: "chat_ok env db" "inj (ae_uuid env)" and i: "row_get am_id (ad_agents db) i = Some a"
    and goc: "get_or_create env i sid db = Inr (db1, s)" and um: "add_message env (se_id s) ''user'' message [] db1 = Inr (db2, um)"
    and run: "run = new_run env a s message db2"
    and settle: "settle_run env t a s run message outcome (tick_db (db2\<lparr>ad_runs := ad_runs db2 @ [run]\<rparr>)) = (db', r)"
  shows "chat_ok env db' \<and> (\<exists>run'. ad_runs db' = ad_runs db @ [run'] \<and> settled_as outcome run' \<and> ar_agent_id run' = i \<and>
      ar_session_id run' = Some (se_id s) \<and> ar_request_message run' = message) \<and>
    (\<exists>ms. turns db' (se_id s) = turns db1 (se_id s) @ ms \<and> map said ms = new_turns outcome message \<and>
      (\<forall>m \<in> set ms. \<exists>k. ad_next db1 \<le> k \<and> me_created_at m = ae_clock env k)) \<and>
    (\<exists>s'. get_by_session_id sid db' = Some s' \<and> se_id s' = se_id s \<and> se_agent_id s' = se_agent_id s \<and> se_message_count s' = se_message_count s + counted outcome)"
proof -
  have a: "am_id a = i" "i \<in> am_id ` set (ad_agents db)" using row_get_SomeD [OF i] by auto
  note g = get_or_create_session [OF ok goc a(2)] and m = add_message_effect [OF um]
  have ok2: "chat_ok env db2" using chat_ok_message [OF g(1) um] g(2) by blast
  let ?db3 = "tick_db db2"
  have ok3: "chat_ok env ?db3" by (rule chat_ok_keeps [OF ok2]) (simp add: keeps_chat_def chat_tables_def)
  have rs: "ad_runs db2 = ad_runs db" "ad_agents db2 = ad_agents db" using g by (simp_all add: m(1))
  have fresh: "ar_id run \<notin> ar_id ` set (ad_runs db2)" "ar_id run \<in> ae_uuid env ` {..<ad_next ?db3}"
    using fresh_unused [OF ok2 ok(2)] by (auto simp: run new_run_def used_ids_def)
  let ?db4 = "tick_db (db2\<lparr>ad_runs := ad_runs db2 @ [run]\<rparr>)"
  have st: "?db4\<lparr>ad_runs := ad_runs db2\<rparr> = ?db3" "?db4\<lparr>ad_runs := x\<rparr> = ?db3\<lparr>ad_runs := x\<rparr>" for x by (simp_all add: tick_db_def)
  obtain run' where r0: "settled_as outcome run'" "ar_id run' = ar_id run" "ar_agent_id run' = ar_agent_id run"
      "ar_request_message run' = ar_request_message run" "ar_session_id run' = ar_session_id run"
    and out: "case outcome of
       Answered p response \<Rightarrow> (\<exists>db4 m. add_message env (se_id s) ''assistant'' response [(''provider'', p)] (?db4\<lparr>ad_runs := ad_runs db2\<rparr>) = Inr (db4, m) \<and>
         db' = (increment_message_count env (se_id s) db4)\<lparr>ad_runs := ad_runs db2 @ [run']\<rparr>)
     | _ \<Rightarrow> db' = ?db4\<lparr>ad_runs := ad_runs db2 @ [run']\<rparr>"
    by (rule settle_effect [OF settle _ fresh(1)]) simp_all
  have r': "settled_as outcome run'" "ar_id run' = ar_id run" "ar_agent_id run' = i" "ar_request_message run' = message"
      "ar_session_id run' = Some (se_id s)"
    using r0 a(1) by (simp_all add: run new_run_def)
  note out = out [unfolded st]
  have turns3: "turns ?db3 (se_id s) = turns db1 (se_id s) @ [um]" and um': "said um = (''user'', message)" "me_created_at um = clock env db1"
    using m(2-5) by (simp_all add: turns_def m(1) said_def)
  have s3: "s \<in> set (ad_sessions ?db3)" "ad_sessions ?db3 = ad_sessions db1" using g(2) by (simp_all add: m(1))
  have get3: "get_by_session_id sid ?db3 = Some s"
    using row_get_unique [OF chat_okD(5) [OF ok3] s3(1)] g(3) by (simp add: get_by_session_id_def)
  show ?thesis
  proof (cases "\<exists>p response. outcome = Answered p response")
    case False
    then have db': "db' = ?db3\<lparr>ad_runs := ad_runs ?db3 @ [run']\<rparr>" and new: "new_turns outcome message = [(''user'', message)]" "counted outcome = 0"
      using out by (auto simp: new_turns_def counted_def split: llm_outcome.splits)
    have "chat_ok env db'" unfolding db'
      by (rule chat_ok_run [OF ok3 settled_as_settled [OF r'(1)]]) (use r' fresh a(2) rs in simp_all)
    then show ?thesis using r' turns3 um' get3 new rs by (auto simp: db' turns_def get_by_session_id_def)
  next
    case True
    then obtain p response where o: "outcome = Answered p response" by blast
    then obtain db4 am where am: "add_message env (se_id s) ''assistant'' response [(''provider'', p)] ?db3 = Inr (db4, am)"
      and db': "db' = (increment_message_count env (se_id s) db4)\<lparr>ad_runs := ad_runs db2 @ [run']\<rparr>" using out by auto
    note m4 = add_message_effect [OF am]
    have ok4: "chat_ok env db4" using chat_ok_message [OF ok3 am] s3(1) by blast
    have t4: "turns db4 (se_id s) = turns db1 (se_id s) @ [um, am]" "map said [um, am] = new_turns outcome message"
      "me_created_at am = ae_clock env (ad_next ?db3)" "ad_next db1 \<le> ad_next ?db3"
      using turns3 um' m4(2-5) by (simp_all add: turns_def m4(1) new_turns_def o said_def) (simp add: m(1))
    have inc: "chat_ok env (increment_message_count env (se_id s) db4)"
    proof (rule chat_ok_increment [OF ok4])
      fix x
      assume x: "x \<in> set (ad_sessions db4)" "se_id x = se_id s"
      have "se_message_count x \<le> int (length (turns ?db3 (se_id s)))" using chat_okD(10) [OF ok3, of x] x by (simp add: m4(1))
      then show "se_message_count x + 1 \<le> int (length (turns db4 (se_id s)))" using m4(2) by (simp add: turns_def m4(1))
    qed
    let ?d = "increment_message_count env (se_id s) db4"
    have "db' = ?d\<lparr>ad_runs := ad_runs ?d @ [run']\<rparr>" by (simp add: db' increment_message_count_def m4(1))
    moreover have "chat_ok env (?d\<lparr>ad_runs := ad_runs ?d @ [run']\<rparr>)"
      by (rule chat_ok_run [OF inc settled_as_settled [OF r'(1)]])
        (use r' fresh a(2) rs in \<open>auto simp: increment_message_count_def m4(1)\<close>)
    moreover have "\<exists>s'. get_by_session_id sid ?d = Some s' \<and> se_id s' = se_id s \<and> se_agent_id s' = se_agent_id s \<and> se_message_count s' = se_message_count s + 1"
      using get3 chat_okD(3) [OF ok3] s3(1) incremented_session [of sid db4 s] by (simp add: m4(1) get_by_session_id_def)
    moreover have "turns db' (se_id s) = turns db1 (se_id s) @ [um, am]" using t4(1) by (simp add: db' turns_def increment_message_count_def)
    moreover have "\<forall>x \<in> set [um, am]. \<exists>k. ad_next db1 \<le> k \<and> me_created_at x = ae_clock env k" using um'(2) t4(3,4) by auto
    moreover have "ad_runs db' = ad_runs db @ [run']" by (simp add: db' rs)
    moreover have "get_by_session_id sid db' = get_by_session_id sid ?d" "counted outcome = 1"
      by (simp_all add: db' get_by_session_id_def counted_def o)
    ultimately show ?thesis using r' t4(2) by metis
  qed
qed

section \<open>The routes as a system\<close>

inductive agent_step :: "api_env \<Rightarrow> api_db \<Rightarrow> api_db \<Rightarrow> bool" for env where
  persona: "persona_step env db db' \<Longrightarrow> agent_step env db db'"
| created: "create_agent env c db = Inr (db', q) \<Longrightarrow> agent_step env db db'"
| updated: "update_agent env t c db = Inr (db', q) \<Longrightarrow> agent_step env db db'"
| deleted: "delete_agent t db = Inr db' \<Longrightarrow> agent_step env db db'"
| opened: "create_session env t session_id metadata db = Inr (db', s) \<Longrightarrow> agent_step env db db'"
| appended: "append_message env sid role content db = Inr (db', m) \<Longrightarrow> agent_step env db db'"
| closed: "delete_session sid db = Inr db' \<Longrightarrow> agent_step env db db'"
| invoked: "invoke_agent env e settings probe chat t message session_id db = (db', r) \<Longrightarrow> agent_step env db db'"

lemma keeps_chat_update_agent:
  "update_agent_row i (agent_fields c persona prompt) db = Inr (db', x) \<Longrightarrow> keeps_chat db db'"
  by (auto simp: update_agent_row_def keeps_chat_def chat_tables_def map_key_row_set agent_fields_def split: option.splits if_splits)

lemma keeps_chat_tick: "keeps_chat db (tick_db db)"
  by (simp add: keeps_chat_def chat_tables_def)

lemma from_config_id: "from_config i c = Inr m \<Longrightarrow> am_id m = i"
  by (auto simp: from_config_def split: sum.splits)

lemma chat_ok_step: "agent_step env db db' \<Longrightarrow> inj (ae_uuid env) \<Longrightarrow> chat_ok env db \<Longrightarrow> chat_ok env db'"
proof (induction rule: agent_step.induct)
  case (persona db db')
  then show ?case using chat_ok_keeps keeps_chat_step by blast
next
  case (created c db db' q)
  obtain m db1 where "create_agent_row m db = Inr db1" "am_id m = fresh_uuid env db" "replace_for_agent env (am_id m) (ac_tools c) db1 = Inr db'"
    using created(1) by (auto simp: create_agent_def abind_eq_Inr lift_res_eq_Inr Let_def dest!: from_config_id split: option.splits)
  then show ?case using chat_ok_new_agent [OF created(3,2)] keeps_chat_replace chat_ok_keeps by metis
next
  case (updated t c db db' q)
  obtain i persona prompt db1 a where "update_agent_row i (agent_fields c persona prompt) db = Inr (db1, Some a)"
    "replace_for_agent env (am_id a) (ac_tools c) db1 = Inr db'"
    using updated(1) by (auto simp: update_agent_def agent_not_found_def abind_eq_Inr split: option.splits)
  then show ?case using keeps_chat_update_agent keeps_chat_replace chat_ok_keeps [OF updated(3)] keeps_chat_trans by metis
next
  case (deleted t db db')
  then obtain i where "delete_agent_row i db = Inr (db', True)"
    by (auto simp: delete_agent_def agent_not_found_def abind_eq_Inr split: if_splits)
  then show ?case using chat_ok_delete_agent deleted by blast
next
  case (opened t session_id metadata db db' s)
  obtain i where i: "to_uuid t = Inr i" using opened(1) by (auto simp: create_session_def abind_eq_Inr)
  obtain a where a: "row_get am_id (ad_agents db) i = Some a"
    using opened(1) by (cases "row_get am_id (ad_agents db) i") (auto simp: create_session_def i agent_not_found_def)
  obtain sid d where sd: "(case nonempty session_id of Some sid \<Rightarrow> (sid, db) | None \<Rightarrow> (fresh_uuid env db, tick_db db)) = (sid, d)"
    by fastforce
  then have d: "d = db \<or> d = tick_db db" by (auto split: option.splits)
  have c: "create_session_row env (am_id a) sid metadata d = Inr (db', s)"
    using opened(1) by (simp add: create_session_def i a sd split: option.splits)
  have "chat_ok env d" using d opened(3) chat_ok_keeps [OF _ keeps_chat_tick] by blast
  moreover have "am_id a \<in> am_id ` set (ad_agents d)" using d row_get_SomeD [OF a] by auto
  ultimately show ?case using chat_ok_new_session(1) [OF _ opened(2) c] by blast
next
  case (appended sid role content db db' m)
  obtain s db1 where s: "get_by_session_id sid db = Some s" "add_message env (se_id s) role content [] db = Inr (db1, m)"
    and db': "db' = increment_message_count env (se_id s) db1"
    using appended(1) by (auto simp: append_message_def session_not_found_def abind_eq_Inr split: option.splits if_splits)
  have "s \<in> set (ad_sessions db)" using s(1) row_get_SomeD by (fastforce simp: get_by_session_id_def)
  then have ok1: "chat_ok env db1" using chat_ok_message [OF appended(3) s(2)] by blast
  note m = add_message_effect [OF s(2)]
  show ?case unfolding db'
  proof (rule chat_ok_increment [OF ok1])
    fix x
    assume "x \<in> set (ad_sessions db1)" "se_id x = se_id s"
    then show "se_message_count x + 1 \<le> int (length (turns db1 (se_id s)))"
      using chat_okD(10) [OF appended(3), of x] m(2) by (simp add: turns_def m(1))
  qed
next
  case (closed sid db db')
  then show ?case using chat_ok_delete_session by (auto simp: delete_session_def session_not_found_def split: option.splits)
next
  case (invoked e settings probe chat t message session_id db db' r)
  show ?case using invoked(1)
  proof (cases rule: invoke_cases)
    case (asked i a db1 s db2 um)
    then show ?thesis using invoke_effect [OF invoked(3,2) asked(2,3,4) refl asked(5)] by blast
  qed (use invoked in simp)
qed

lemma chat_ok_empty: "chat_ok env api_empty"
  by (rule chat_okI) (simp_all add: used_ids_def api_empty_def)

interpretation agent_sys: invariant_system "agent_step env" "\<lambda>db. db = api_empty \<and> inj (ae_uuid env)"
  "\<lambda>db. chat_ok env db \<and> inj (ae_uuid env)" for env
proof (unfold_locales, goal_cases)
  case (1 s)
  then show ?case using chat_ok_empty by blast
next
  case (2 s s')
  then show ?case using chat_ok_step by blast
qed

section \<open>What the routes guarantee\<close>

text \<open>
  C7. After any sequence of persona, agent and session routes, starting from an empty database, no run is left
  running: each is completed, failed or unavailable and has a time and a response. Every session belongs to
  an agent, every message to a session, every run to an agent; session names are unique; and no session
  counts more messages than it has.
\<close>

theorem agent_tables_consistent:
  assumes "inj (ae_uuid env)" "(agent_step env)\<^sup>*\<^sup>* api_empty db"
  shows "(\<forall>r \<in> set (ad_runs db). ar_status r \<in> {''completed'', ''failed'', ''unavailable''} \<and> ar_completed_at r \<noteq> None \<and>
      ar_response_message r \<noteq> None \<and> ar_agent_id r \<in> am_id ` set (ad_agents db)) \<and>
    (\<forall>s \<in> set (ad_sessions db). se_agent_id s \<in> am_id ` set (ad_agents db) \<and> se_message_count s \<le> int (length (turns db (se_id s)))) \<and>
    (\<forall>m \<in> set (ad_messages db). me_session_id m \<in> se_id ` set (ad_sessions db)) \<and> distinct (map se_session_id (ad_sessions db))"
proof -
  have "chat_ok env db" using agent_sys.reachable_inv [of api_empty env db] assms by blast
  note d = chat_okD [OF this]
  show ?thesis using d(5-8,10) d(9) [unfolded settled_def] by blast
qed

lemma ask_llm_personas: "ad_personas db' = ad_personas db \<Longrightarrow> ask_llm e settings probe chat a past message db' = ask_llm e settings probe chat a past message db"
proof -
  assume "ad_personas db' = ad_personas db"
  then have q: "persona_prompt x db' = persona_prompt x db" for x by (cases x) (simp_all add: persona_prompt_def)
  have p: "agent_system_prompt a db' = agent_system_prompt a db" unfolding agent_system_prompt_def q ..
  show ?thesis unfolding ask_llm_def p ..
qed

lemma get_history_turns: "get_history n db i = take n (sort_key me_created_at (turns db i))"
  by (simp add: get_history_def session_messages_def turns_def)

definition past_of :: "api_db \<Rightarrow> string \<Rightarrow> MessageModel list" where
  "past_of db sid = (case get_by_session_id sid db of None \<Rightarrow> [] | Some s \<Rightarrow> turns db (se_id s))"

definition counted_of :: "api_db \<Rightarrow> string \<Rightarrow> int" where
  "counted_of db sid = (case get_by_session_id sid db of None \<Rightarrow> 0 | Some s \<Rightarrow> se_message_count s)"

lemma get_or_create_succeeds: "length sid \<le> 100 \<Longrightarrow> \<exists>db1 s. get_or_create env i sid db = Inr (db1, s)"
  by (auto simp: get_or_create_def create_session_row_def Let_def split: option.split)

lemma settle_answer:
  "settle_run env t a s run message outcome db = (db', r) \<Longrightarrow>
    (case outcome of Failed False \<Rightarrow> r = Inl (Unhandled (RuntimeFailure ''UnboundLocalError''))
     | Failed True \<Rightarrow> (\<exists>x. r = Inr x \<and> ia_response x = internal_error_text \<and> ia_error x = Some ''internal_error'')
     | Unavailable p \<Rightarrow> (\<exists>x. r = Inr x \<and> ia_response x = no_provider_text \<and> ia_provider x = Some p \<and> ia_error x = None)
     | Answered p response \<Rightarrow> (\<exists>x. r = Inr x \<and> ia_response x = response \<and> ia_provider x = Some p \<and> ia_error x = None))"
  by (auto simp: settle_run_def add_message_def Let_def split: llm_outcome.splits bool.splits)

text \<open>
  C8. What invoking a stored agent does, for every behaviour of the model. The model is asked with the first
  twenty messages of the session and the new one; the run is recorded and settled according to the
  outcome; the new message is always kept and the reply only when there is one. The session's
  counter goes up by one for a message and its reply, and not at all for a message without a reply.
\<close>

theorem invoke_agent_outcome:
  assumes "inj (ae_uuid env)" "(agent_step env)\<^sup>*\<^sup>* api_empty db" "to_uuid t = Inr i" "row_get am_id (ad_agents db) i = Some a"
    and "length (str_or session_id (t @ ''-default'')) \<le> 100"
    and "invoke_agent env e settings probe chat t message session_id db = (db', r)"
    and "sid = str_or session_id (t @ ''-default'')"
    and "outcome = ask_llm e settings probe chat a (take 20 (sort_key me_created_at (past_of db sid))) message db"
  shows "(\<exists>run. ad_runs db' = ad_runs db @ [run] \<and> settled_as outcome run \<and> ar_agent_id run = i \<and> ar_request_message run = message) \<and>
    map said (past_of db' sid) = map said (past_of db sid) @ new_turns outcome message \<and>
    counted_of db' sid = counted_of db sid + counted outcome \<and>
    (case outcome of Failed False \<Rightarrow> r = Inl (Unhandled (RuntimeFailure ''UnboundLocalError''))
     | Failed True \<Rightarrow> (\<exists>x. r = Inr x \<and> ia_response x = internal_error_text \<and> ia_error x = Some ''internal_error'')
     | Unavailable p \<Rightarrow> (\<exists>x. r = Inr x \<and> ia_response x = no_provider_text \<and> ia_provider x = Some p \<and> ia_error x = None)
     | Answered p response \<Rightarrow> (\<exists>x. r = Inr x \<and> ia_response x = response \<and> ia_provider x = Some p \<and> ia_error x = None))"
proof -
  have ok: "chat_ok env db" using agent_sys.reachable_inv [of api_empty env db] assms(1,2) by blast
  have id: "am_id a = i" "i \<in> am_id ` set (ad_agents db)" using row_get_SomeD [OF assms(4)] by auto
  obtain db1 s where goc: "get_or_create env i sid db = Inr (db1, s)" using get_or_create_succeeds assms(5,7) by blast
  note g = get_or_create_session [OF ok assms(1) goc id(2)]
  obtain db2 um where um: "add_message env (se_id s) ''user'' message [] db1 = Inr (db2, um)" by (simp add: add_message_def Let_def)
  let ?run = "new_run env a s message db2"
  let ?db3 = "tick_db (db2\<lparr>ad_runs := ad_runs db2 @ [?run]\<rparr>)"
  have past: "get_history 20 db1 (se_id s) = take 20 (sort_key me_created_at (past_of db sid))"
    by (simp add: get_history_turns g(8) past_of_def split: option.split)
  have "ad_personas ?db3 = ad_personas db" using g(7) by (simp add: add_message_effect(1) [OF um])
  then have out: "ask_llm e settings probe chat a (get_history 20 db1 (se_id s)) message ?db3 = outcome"
    using ask_llm_personas unfolding past assms(8) by blast
  have settle: "settle_run env t a s ?run message outcome ?db3 = (db', r)"
    using assms(6) goc um out by (simp add: invoke_agent_def assms(3,4,7) id(1) Let_def)
  note eff = invoke_effect [OF ok assms(1,4) goc um refl settle]
  then obtain s' where s': "get_by_session_id sid db' = Some s'" "se_id s' = se_id s" "se_message_count s' = se_message_count s + counted outcome" by blast
  have "past_of db' sid = turns db' (se_id s)" "turns db1 (se_id s) = past_of db sid" "counted_of db' sid = counted_of db sid + counted outcome"
    using s' g(8,9) by (simp_all add: past_of_def counted_of_def)
  then show ?thesis using eff settle_answer [OF settle] by auto
qed

lemma sort_key_append_later:
  assumes "\<And>x y. x \<in> set xs \<Longrightarrow> y \<in> set ys \<Longrightarrow> f x \<le> f y"
  shows "sort_key f (xs @ ys) = sort_key f xs @ sort_key f ys"
  using assms
proof (induction xs)
  case (Cons x xs)
  have "insort_key f x (as @ bs) = insort_key f x as @ bs" if "\<forall>b \<in> set bs. f x \<le> f b" for as bs
    using that by (induction as) (auto intro: insort_is_Cons)
  then show ?case using Cons by simp
qed simp

text \<open>
  Once a session has twenty messages its conversation stalls: invoking the agent in it adds messages, but
  the history the next invocation sends is still the first twenty. The model is never again shown what
  it or the user said last.
\<close>

theorem history_stalls:
  assumes "inj (ae_uuid env)" "mono (ae_clock env)" "(agent_step env)\<^sup>*\<^sup>* api_empty db" "to_uuid t = Inr i"
    and "row_get am_id (ad_agents db) i = Some a" "get_by_session_id sid db = Some s" "sid \<noteq> []" "20 \<le> length (turns db (se_id s))"
    and "\<forall>m \<in> set (turns db (se_id s)). me_created_at m \<le> clock env db"
    and "invoke_agent env e settings probe chat t message (Some sid) db = (db', r)"
  shows "get_history 20 db' (se_id s) = get_history 20 db (se_id s) \<and> length (turns db (se_id s)) < length (turns db' (se_id s))"
proof -
  have ok: "chat_ok env db" using agent_sys.reachable_inv [of api_empty env db] assms(1,3) by blast
  have goc: "get_or_create env i sid db = Inr (db, s)" using assms(6) by (simp add: get_or_create_def)
  obtain db2 um where um: "add_message env (se_id s) ''user'' message [] db = Inr (db2, um)" by (simp add: add_message_def Let_def)
  have "am_id a = i" using row_get_SomeD [OF assms(5)] by simp
  then obtain outcome where "settle_run env t a s (new_run env a s message db2) message outcome
      (tick_db (db2\<lparr>ad_runs := ad_runs db2 @ [new_run env a s message db2]\<rparr>)) = (db', r)"
    using assms(10) goc um by (simp add: invoke_agent_def assms(4,5,7) str_or_def Let_def)
  from invoke_effect [OF ok assms(1,5) goc um refl this] obtain ms where ms: "turns db' (se_id s) = turns db (se_id s) @ ms"
    "map said ms = new_turns outcome message" "\<forall>m \<in> set ms. \<exists>k. ad_next db \<le> k \<and> me_created_at m = ae_clock env k" by blast
  have "me_created_at x \<le> me_created_at y" if "x \<in> set (turns db (se_id s))" "y \<in> set ms" for x y
    using assms(2,9) ms(3) that by (fastforce dest: monoD)
  then have "sort_key me_created_at (turns db' (se_id s)) = sort_key me_created_at (turns db (se_id s)) @ sort_key me_created_at ms"
    unfolding ms(1) by (rule sort_key_append_later)
  moreover have "ms \<noteq> []" using ms(2) by (auto simp: new_turns_def)
  ultimately show ?thesis using assms(8) by (simp add: get_history_turns ms(1))
qed

text \<open>
  An agent that was invoked cannot be deleted any more, and neither can its session: the session
  has messages and the agent a session, and no delete cascade is declared for either, so that the
  mapper tries to clear a reference that may not be null.
\<close>

theorem invoked_agent_undeletable:
  assumes "inj (ae_uuid env)" "(agent_step env)\<^sup>*\<^sup>* api_empty db" "to_uuid t = Inr i" "row_get am_id (ad_agents db) i = Some a"
    and "length (str_or session_id (t @ ''-default'')) \<le> 100" "sid = str_or session_id (t @ ''-default'')"
    and "\<And>s. get_by_session_id sid db = Some s \<Longrightarrow> se_agent_id s = i"
    and "invoke_agent env e settings probe chat t message session_id db = (db', r)"
  shows "delete_session sid db' = Inl integrity_error \<and> delete_agent t db' = Inl integrity_error"
proof -
  have ok: "chat_ok env db" using agent_sys.reachable_inv [of api_empty env db] assms(1,2) by blast
  have id: "am_id a = i" "i \<in> am_id ` set (ad_agents db)" using row_get_SomeD [OF assms(4)] by auto
  obtain db1 s where goc: "get_or_create env i sid db = Inr (db1, s)" using get_or_create_succeeds assms(5,6) by blast
  obtain db2 um where um: "add_message env (se_id s) ''user'' message [] db1 = Inr (db2, um)" by (simp add: add_message_def Let_def)
  obtain outcome where settle: "settle_run env t a s (new_run env a s message db2) message outcome
      (tick_db (db2\<lparr>ad_runs := ad_runs db2 @ [new_run env a s message db2]\<rparr>)) = (db', r)"
    using assms(8) goc um by (simp add: invoke_agent_def assms(3,4) assms(6) [symmetric] id(1) Let_def)
  note eff = invoke_effect [OF ok assms(1,4) goc um refl settle]
  obtain ms s' where ms: "turns db' (se_id s) = turns db1 (se_id s) @ ms" "map said ms = new_turns outcome message"
    and s': "get_by_session_id sid db' = Some s'" "se_id s' = se_id s" "se_agent_id s' = se_agent_id s" using eff by blast
  have "se_agent_id s = i"
    using assms(7) goc chat_ok_new_session(10) [OF ok assms(1) _ id(2)] by (auto simp: get_or_create_def split: option.splits)
  then have own: "s' \<in> set (ad_sessions db')" "se_agent_id s' = i" using s' row_get_SomeD by (fastforce simp: get_by_session_id_def)+
  obtain m where "m \<in> set ms" using ms(2) by (cases ms) (auto simp: new_turns_def)
  then have "m \<in> set (turns db' (se_id s'))" using ms(1) s'(2) by simp
  then have "list_ex (\<lambda>m. me_session_id m = se_id s') (ad_messages db')" by (auto simp: turns_def list_ex_iff)
  moreover have "list_ex (\<lambda>s. se_agent_id s = i) (ad_sessions db')" using own by (auto simp: list_ex_iff)
  moreover have "i \<in> am_id ` set (ad_agents db')" using chat_okD(6) own eff by (metis imageI subsetD)
  then have "row_get am_id (ad_agents db') i \<noteq> None" by (auto simp: row_get_None_iff)
  ultimately show ?thesis
    by (auto simp: delete_session_def s'(1) delete_session_row_def delete_agent_def assms(3) delete_agent_row_def)
qed

section \<open>Witnesses\<close>

definition demo_config :: AgentConfig where
  "demo_config = \<lparr> ac_agent_id = [], ac_name = ''Ada'', ac_role = ''assistant'', ac_model = ''m'', ac_temperature = 1, ac_max_tokens = 100,
     ac_system_prompt = ''Be brief.'', ac_persona_id = None, ac_tools = [], ac_memory_enabled = True, ac_session_id = None \<rparr>"

definition demo_agent :: AgentModel where
  "demo_agent = \<lparr> am_id = demo_uuid 0, am_name = ''Ada'', am_role = ''assistant'', am_model = Some ''m'', am_temperature = Some 1,
     am_max_tokens = Some 100, am_system_prompt = Some ''Be brief.'', am_persona_id = None, am_tools = [], am_memory_enabled = True, am_is_active = True \<rparr>"

definition agent_db :: api_db where
  "agent_db = api_empty\<lparr>ad_agents := [demo_agent], ad_next := 1\<rparr>"

lemma agent_db_step: "create_agent demo_api demo_config api_empty = Inr (agent_db, to_config demo_agent)"
  by (simp add: create_agent_def from_config_def demo_config_def nonempty_def persona_prompt_def create_agent_row_def agent_fits_def
      replace_for_agent_def agent_db_def demo_agent_def api_empty_def tick_db_def demo_api_def Let_def)

lemma agent_db_reached: "(agent_step demo_api)\<^sup>*\<^sup>* api_empty agent_db"
  using agent_step.created [OF agent_db_step] by blast

lemma agent_db_row: "row_get am_id (ad_agents agent_db) (demo_uuid 0) = Some demo_agent"
  by (simp add: agent_db_def row_get_def demo_agent_def)

definition demo_name :: string where
  "demo_name = demo_uuid 0 @ ''-default''"

lemma demo_name: "demo_name = str_or None (demo_uuid 0 @ ''-default'')" "length (str_or None (demo_uuid 0 @ ''-default'')) \<le> 100" "demo_name \<noteq> []"
  by (simp_all add: demo_name_def str_or_def demo_uuid_def)

theorem agent_tables_consistent_witness: "distinct (map se_session_id (ad_sessions agent_db)) \<and> length (ad_agents agent_db) = 1"
  using agent_tables_consistent [OF demo_uuid_inj agent_db_reached] by (simp add: agent_db_def)

theorem invoke_agent_outcome_witness:
  "\<exists>run. ad_runs (fst (invoke_agent demo_api [] (Inl ValidationError) (\<lambda>_. True) (\<lambda>_. Inr ''hi'') (demo_uuid 0) ''hello'' None agent_db)) = [run] \<and>
     ar_status run = ''failed''"
proof -
  obtain db' r where i: "invoke_agent demo_api [] (Inl ValidationError) (\<lambda>_. True) (\<lambda>_. Inr ''hi'') (demo_uuid 0) ''hello'' None agent_db = (db', r)"
    by fastforce
  have "ask_llm [] (Inl ValidationError) (\<lambda>_. True) (\<lambda>_. Inr ''hi'') demo_agent past message db = Failed False" for past message db
    by (simp add: ask_llm_def)
  moreover have "ad_runs agent_db = []" by (simp add: agent_db_def api_empty_def)
  ultimately show ?thesis
    using invoke_agent_outcome [OF demo_uuid_inj agent_db_reached demo_uuid_ok agent_db_row demo_name(2) i demo_name(1) refl] i
    by (auto simp: settled_as_def)
qed

theorem invoked_agent_undeletable_witness:
  "delete_agent (demo_uuid 0) (fst (invoke_agent demo_api [] (Inr plain_settings) (\<lambda>_. True) (\<lambda>_. Inr ''hi'') (demo_uuid 0) ''hello'' None agent_db))
    = Inl integrity_error"
proof -
  obtain db' r where i: "invoke_agent demo_api [] (Inr plain_settings) (\<lambda>_. True) (\<lambda>_. Inr ''hi'') (demo_uuid 0) ''hello'' None agent_db = (db', r)"
    by fastforce
  have "get_by_session_id demo_name agent_db = None" by (simp add: get_by_session_id_def row_get_def agent_db_def api_empty_def)
  then show ?thesis
    using invoked_agent_undeletable [OF demo_uuid_inj agent_db_reached demo_uuid_ok agent_db_row demo_name(2) demo_name(1) _ i] i by simp
qed

fun demo_talk :: "nat \<Rightarrow> api_db" where
  "demo_talk 0 = (case create_session demo_api (demo_uuid 0) (Some ''s'') [] agent_db of Inl _ \<Rightarrow> agent_db | Inr (db, _) \<Rightarrow> db)"
| "demo_talk (Suc n) = (case append_message demo_api ''s'' ''user'' ''hello'' (demo_talk n) of Inl _ \<Rightarrow> demo_talk n | Inr (db, _) \<Rightarrow> db)"

lemma demo_clock: "ae_clock demo_api n = int n"
  by (simp add: demo_api_def)

lemma demo_talk_state:
  "(agent_step demo_api)\<^sup>*\<^sup>* api_empty (demo_talk n) \<and> ad_agents (demo_talk n) = [demo_agent] \<and>
   (\<exists>s. get_by_session_id ''s'' (demo_talk n) = Some s \<and> se_id s = demo_uuid 1 \<and> length (turns (demo_talk n) (demo_uuid 1)) = n) \<and>
   (\<forall>m \<in> set (ad_messages (demo_talk n)). me_created_at m \<le> clock demo_api (demo_talk n))"
proof (induction n)
  case 0
  have new: "get_by_session_id ''s'' agent_db = None" by (simp add: get_by_session_id_def row_get_def agent_db_def api_empty_def)
  have "create_session demo_api (demo_uuid 0) (Some ''s'') [] agent_db =
      create_session_row demo_api (demo_uuid 0) ''s'' [] agent_db"
    using new by (simp add: create_session_def demo_uuid_ok agent_db_row nonempty_def) (simp add: demo_agent_def)
  then obtain db s where c: "create_session demo_api (demo_uuid 0) (Some ''s'') [] agent_db = Inr (db, s)" and
    db: "ad_sessions db = [s]" "ad_messages db = []" "ad_agents db = [demo_agent]" "se_id s = demo_uuid 1" "se_session_id s = ''s''"
    using new by (simp add: create_session_row_def Let_def) (simp add: agent_db_def api_empty_def demo_api_def)
  have "(agent_step demo_api)\<^sup>*\<^sup>* api_empty db" using agent_db_reached agent_step.opened [OF c] by (rule rtranclp.rtrancl_into_rtrancl)
  then show ?case using db by (simp add: c get_by_session_id_def row_get_def turns_def)
next
  case (Suc n)
  then obtain s where s: "get_by_session_id ''s'' (demo_talk n) = Some s" "se_id s = demo_uuid 1" "length (turns (demo_talk n) (demo_uuid 1)) = n" by blast
  obtain db m where m: "add_message demo_api (se_id s) ''user'' ''hello'' [] (demo_talk n) = Inr (db, m)" by (simp add: add_message_def Let_def)
  note e = add_message_effect [OF m]
  have a: "append_message demo_api ''s'' ''user'' ''hello'' (demo_talk n) = Inr (increment_message_count demo_api (se_id s) db, m)"
    using s m by (simp add: append_message_def)
  have "get_by_session_id ''s'' db = Some s" using s(1) by (simp add: e(1) get_by_session_id_def)
  from incremented_session [OF this] have "\<exists>s'. get_by_session_id ''s'' (increment_message_count demo_api (se_id s) db) = Some s' \<and> se_id s' = se_id s" by blast
  moreover have "(agent_step demo_api)\<^sup>*\<^sup>* api_empty (increment_message_count demo_api (se_id s) db)"
    using Suc agent_step.appended [OF a] by (meson rtranclp.rtrancl_into_rtrancl)
  moreover have "ad_agents (increment_message_count demo_api (se_id s) db) = [demo_agent]"
    "length (turns (increment_message_count demo_api (se_id s) db) (demo_uuid 1)) = Suc n"
    using Suc s e(2) by (simp_all add: increment_message_count_def e(1) turns_def)
  moreover have "\<forall>x \<in> set (ad_messages (increment_message_count demo_api (se_id s) db)). me_created_at x \<le> clock demo_api (increment_message_count demo_api (se_id s) db)"
    using Suc e(5) by (auto simp: increment_message_count_def e(1) demo_clock)
  ultimately show ?case using s(2) by (simp add: a)
qed

theorem history_stalls_witness:
  "get_history 20 (fst (invoke_agent demo_api [] (Inr plain_settings) (\<lambda>_. True) (\<lambda>_. Inr ''hi'') (demo_uuid 0) ''hello'' (Some ''s'') (demo_talk 20))) (demo_uuid 1)
    = get_history 20 (demo_talk 20) (demo_uuid 1)"
proof -
  obtain s where s: "get_by_session_id ''s'' (demo_talk 20) = Some s" "se_id s = demo_uuid 1" "20 \<le> length (turns (demo_talk 20) (se_id s))"
    using demo_talk_state [of 20] by auto
  have h: "mono (ae_clock demo_api)" "row_get am_id (ad_agents (demo_talk 20)) (demo_uuid 0) = Some demo_agent"
    "\<forall>m \<in> set (turns (demo_talk 20) (se_id s)). me_created_at m \<le> clock demo_api (demo_talk 20)" "(agent_step demo_api)\<^sup>*\<^sup>* api_empty (demo_talk 20)"
    using demo_talk_state [of 20] by (auto simp: demo_api_def mono_def row_get_def demo_agent_def turns_def)
  obtain db' r where i: "invoke_agent demo_api [] (Inr plain_settings) (\<lambda>_. True) (\<lambda>_. Inr ''hi'') (demo_uuid 0) ''hello'' (Some ''s'') (demo_talk 20) = (db', r)"
    by fastforce
  show ?thesis using history_stalls [OF demo_uuid_inj h(1,4) demo_uuid_ok h(2) s(1) _ s(3) h(3) i] s(2) i by simp
qed

end
