(* ===== verification/TeamTools.thy ===== *)
theory TeamTools
  imports Engine WorkQueue Json
begin

text \<open>
  The memory and the tools of a team: \<open>memory.py\<close>, \<open>redis_memory.py\<close>, \<open>tools.py\<close>, \<open>tool_loader.py\<close>,
  \<open>parallel.py\<close> and \<open>tool_calls.py\<close> of \<open>src/persola/orchestration\<close>.

  The state a tool works on is the memory of the process, the hashes in Redis and the task queue. Redis may
  be down, then its operations do nothing; it may also drop a hash whose time is up. A handler runs as one
  step; what runs in parallel is run in some order, which is an argument. \<open>str(v)\<close> of a JSON value,
  \<open>str(exc)\<close>, \<open>json.loads\<close>, identifiers and clock are arguments too. The key of a memory entry is a text;
  a call with another key is outside the model. Durations and timeouts are left out.
\<close>

section \<open>Memory\<close>

record mem_entry =
  mn_value :: json
  mn_tags :: "string list"
  mn_source_role :: json

type_synonym memory = "(string, (string, mem_entry) dict) dict"

definition mem_bucket :: "string \<Rightarrow> memory \<Rightarrow> (string, mem_entry) dict" where
  "mem_bucket sid m = dget_or m sid []"

definition mem_store :: "string \<Rightarrow> string \<Rightarrow> json \<Rightarrow> string list \<Rightarrow> json \<Rightarrow> memory \<Rightarrow> memory" where
  "mem_store sid key v tags role m =
     dset sid (dset key \<lparr> mn_value = v, mn_tags = tags, mn_source_role = role \<rparr> (mem_bucket sid m)) m"

definition mem_recall :: "string \<Rightarrow> string \<Rightarrow> memory \<Rightarrow> json option" where
  "mem_recall sid key m = map_option mn_value (dget (mem_bucket sid m) key)"

definition haystack :: "(json \<Rightarrow> string) \<Rightarrow> string \<Rightarrow> json \<Rightarrow> string list \<Rightarrow> string" where
  "haystack show key v tags = py_lower (key @ '' '' @ show v @ '' '' @ py_join '' '' tags)"

definition mem_search :: "(json \<Rightarrow> string) \<Rightarrow> nat \<Rightarrow> string \<Rightarrow> string \<Rightarrow> memory \<Rightarrow> (string \<times> mem_entry) list" where
  "mem_search show limit sid query m =
     take limit (filter (\<lambda>(k, e). py_contains (haystack show k (mn_value e) (mn_tags e)) (py_lower query)) (mem_bucket sid m))"

definition mem_snapshot :: "string \<Rightarrow> memory \<Rightarrow> (string, json) dict" where
  "mem_snapshot sid m = map (\<lambda>(k, e). (k, mn_value e)) (mem_bucket sid m)"

definition clear_session :: "string \<Rightarrow> memory \<Rightarrow> memory" where
  "clear_session sid m = ddel sid m"

text \<open>The hash of a session in Redis, with the payload as the JSON object the code stores.\<close>

record redis_store =
  rs_up :: bool
  rs_hashes :: memory

definition redis_set :: "string \<Rightarrow> string \<Rightarrow> json \<Rightarrow> string list \<Rightarrow> json \<Rightarrow> redis_store \<Rightarrow> redis_store" where
  "redis_set sid key v tags role r = (if rs_up r then r\<lparr>rs_hashes := mem_store sid key v tags role (rs_hashes r)\<rparr> else r)"

definition redis_recall :: "string \<Rightarrow> string \<Rightarrow> redis_store \<Rightarrow> json option" where
  "redis_recall sid key r = (if rs_up r then
     case mem_recall sid key (rs_hashes r) of Some JNull \<Rightarrow> None | v \<Rightarrow> v else None)"

definition redis_search :: "(json \<Rightarrow> string) \<Rightarrow> nat \<Rightarrow> string \<Rightarrow> string \<Rightarrow> redis_store \<Rightarrow> (string \<times> mem_entry) list" where
  "redis_search show limit sid query r = (if rs_up r then mem_search show limit sid query (rs_hashes r) else [])"

definition redis_snapshot :: "string \<Rightarrow> redis_store \<Rightarrow> (string, json) dict" where
  "redis_snapshot sid r = (if rs_up r then mem_snapshot sid (rs_hashes r) else [])"

definition redis_clear :: "string \<Rightarrow> redis_store \<Rightarrow> redis_store" where
  "redis_clear sid r = (if rs_up r then r\<lparr>rs_hashes := clear_session sid (rs_hashes r)\<rparr> else r)"

section \<open>Handlers\<close>

record team_world =
  tw_memory :: memory
  tw_redis :: redis_store
  tw_db :: wq_db
  tw_next :: nat

record team_env =
  te_show :: "json \<Rightarrow> string"
  te_exc :: "pyexc \<Rightarrow> string"
  te_uuid :: "nat \<Rightarrow> string"
  te_clock :: "nat \<Rightarrow> int"
  te_sum :: summation
  te_cyrex :: "bool \<times> bool"

type_synonym handler = "(string, json) dict \<Rightarrow> team_world \<Rightarrow> team_world \<times> json res"

record ToolSpec =
  ts_name :: string
  ts_description :: string
  ts_handler :: handler
  ts_parallel_safe :: bool
  ts_tags :: "string list"

type_synonym registry = "(string, ToolSpec) dict"

definition jtext :: "string \<Rightarrow> (string, json) dict \<Rightarrow> string res" where
  "jtext k args = (case dget args k of None \<Rightarrow> Inl (KeyError k) | Some (JStr s) \<Rightarrow> Inr s | Some _ \<Rightarrow> Inl TypeError)"

definition jarg :: "string \<Rightarrow> (string, json) dict \<Rightarrow> json res" where
  "jarg k args = (case dget args k of None \<Rightarrow> Inl (KeyError k) | Some v \<Rightarrow> Inr v)"

definition str_arg :: "team_env \<Rightarrow> json \<Rightarrow> string" where
  "str_arg env v = (case v of JStr s \<Rightarrow> s | _ \<Rightarrow> te_show env v)"

definition jhits :: "(string \<times> mem_entry) list \<Rightarrow> json" where
  "jhits hits = JList (map (\<lambda>(k, e). JObj [(''key'', JStr k), (''value'', mn_value e), (''tags'', jstrs (mn_tags e)),
     (''source_role'', mn_source_role e)]) hits)"

definition memory_store_tool :: "string \<Rightarrow> string \<Rightarrow> json \<Rightarrow> team_world \<Rightarrow> team_world \<times> json res" where
  "memory_store_tool sid key v w =
    (w\<lparr>tw_memory := mem_store sid key v [''tool:memory_store''] (JStr ''system'') (tw_memory w)\<rparr>,
     Inr (JObj [(''stored'', JBool True), (''key'', JStr key)]))"

definition memory_recall_tool :: "string \<Rightarrow> string \<Rightarrow> team_world \<Rightarrow> json" where
  "memory_recall_tool sid key w = (let v = (case mem_recall sid key (tw_memory w) of None \<Rightarrow> JNull | Some v \<Rightarrow> v) in
     JObj [(''key'', JStr key), (''value'', v), (''found'', JBool (v \<noteq> JNull))])"

definition memory_search_tool :: "team_env \<Rightarrow> string \<Rightarrow> string \<Rightarrow> team_world \<Rightarrow> json" where
  "memory_search_tool env sid query w =
     JObj [(''query'', JStr query), (''results'', jhits (mem_search (str_arg env) 5 sid query (tw_memory w)))]"

definition store_local :: "string \<Rightarrow> handler" where
  "store_local sid args w = (case rbind (jtext ''key'' args) (\<lambda>k. rbind (jarg ''value'' args) (\<lambda>v. Inr (k, v))) of
     Inl e \<Rightarrow> (w, Inl e) | Inr (k, v) \<Rightarrow> memory_store_tool sid k v w)"

definition recall_local :: "string \<Rightarrow> handler" where
  "recall_local sid args w = (w, rbind (jtext ''key'' args) (\<lambda>k. Inr (memory_recall_tool sid k w)))"

definition search_local :: "team_env \<Rightarrow> string \<Rightarrow> handler" where
  "search_local env sid args w = (w, rbind (jtext ''query'' args) (\<lambda>q. Inr (memory_search_tool env sid q w)))"

definition echo_tool :: handler where
  "echo_tool args w = (w, Inr (JObj [(''echo'', dget_or args ''text'' (JStr ''''))]))"

text \<open>Both registries queue a subtask the same way; the queue commits in a session of its own.\<close>

definition delegate_subtask :: "team_env \<Rightarrow> string \<Rightarrow> handler" where
  "delegate_subtask env sid args w =
    (let role = dget_or args ''role'' (JStr ''executor''); subtask = dget_or args ''subtask'' (JStr '''')
     in case (role, subtask, dget_or args ''team_id'' (JStr ''default''), dget_or args ''origin'' (JStr ''delegate_subtask'')) of
       (JStr r, JStr s, JStr t, JStr o') \<Rightarrow>
         (case enqueue (te_clock env (tw_next w)) (te_uuid env (tw_next w)) t r s o' None (Some sid) (wq_tasks (tw_db w)) of
            Inl e \<Rightarrow> (w, Inl e)
          | Inr (tasks, task) \<Rightarrow> (w\<lparr>tw_db := (tw_db w)\<lparr>wq_tasks := tasks\<rparr>, tw_next := Suc (tw_next w)\<rparr>,
              Inr (JObj [(''delegated_to'', role), (''subtask'', subtask), (''status'', JStr (status_value (wt_status task))),
                (''task_id'', JStr (wt_task_id task))])))
     | _ \<Rightarrow> (w, Inl (RuntimeFailure ''DBAPIError'')))"

definition store_shared :: "team_env \<Rightarrow> string \<Rightarrow> handler" where
  "store_shared env sid args w = (case rbind (jtext ''key'' args) (\<lambda>k. rbind (jarg ''value'' args) (\<lambda>v. Inr (k, v))) of
     Inl e \<Rightarrow> (w, Inl e)
   | Inr (k, v) \<Rightarrow> memory_store_tool sid k (JStr (str_arg env v))
       (w\<lparr>tw_redis := redis_set sid k v [] (dget_or args ''source_role'' (JStr ''tool'')) (tw_redis w)\<rparr>))"

definition recall_shared :: "string \<Rightarrow> handler" where
  "recall_shared sid args w = (w, rbind (jtext ''key'' args) (\<lambda>k. Inr (case redis_recall sid k (tw_redis w) of
     Some v \<Rightarrow> JObj [(''key'', JStr k), (''value'', v), (''found'', JBool True), (''source'', JStr ''redis'')]
   | None \<Rightarrow> memory_recall_tool sid k w)))"

definition search_shared :: "team_env \<Rightarrow> string \<Rightarrow> handler" where
  "search_shared env sid args w = (w, rbind (jtext ''query'' args) (\<lambda>q.
     let hits = redis_search (str_arg env) 10 sid q (tw_redis w) in
     Inr (if hits \<noteq> [] then JObj [(''query'', JStr q), (''results'', jhits hits), (''source'', JStr ''redis'')]
          else memory_search_tool env sid q w)))"

text \<open>
  The preview of a blend. A profile is a JSON object of knobs; its other fields do not show in the preview and
  their validation is left out.
\<close>

fun json_len :: "json \<Rightarrow> nat res" where
  "json_len (JList l) = Inr (length l)"
| "json_len (JObj d) = Inr (length d)"
| "json_len (JStr s) = Inr (length s)"
| "json_len _ = Inl TypeError"

fun json_number :: "json \<Rightarrow> float64 res" where
  "json_number (JInt i) = Inr (fl (of_int i))"
| "json_number (JFloat x) = Inr x"
| "json_number (JBool b) = Inr (if b then 1 else 0)"
| "json_number _ = Inl TypeError"

fun rmap :: "('a \<Rightarrow> 'b res) \<Rightarrow> 'a list \<Rightarrow> 'b list res" where
  "rmap f [] = Inr []"
| "rmap f (x # xs) = rbind (f x) (\<lambda>y. rbind (rmap f xs) (\<lambda>ys. Inr (y # ys)))"

fun positive_weights :: "json list \<Rightarrow> float64 list res" where
  "positive_weights [] = Inr []"
| "positive_weights (w # ws) = rbind (json_number w) (\<lambda>x.
     if x \<le> 0 then Inl (ValueError ''All weights must be positive'')
     else rbind (positive_weights ws) (\<lambda>xs. Inr (x # xs)))"

definition profile_knobs :: "(string, json) dict \<Rightarrow> (string, float64) dict res" where
  "profile_knobs d = rmap (\<lambda>(k, v). case json_float v of Inl _ \<Rightarrow> Inl ValidationError | Inr x \<Rightarrow> Inr (k, x))
     (filter (\<lambda>(k, _). k \<in> set (concat (dvalues PERSONA_KNOB_GROUPS))) d)"

definition preview_profile :: "int \<Rightarrow> string \<Rightarrow> nat \<times> json \<Rightarrow> PersonaProfile res" where
  "preview_profile now pid ip = (case ip of
     (i, JObj d) \<Rightarrow> if ''name'' \<in> set (dkeys d) then Inl TypeError
       else rbind (profile_knobs d) (\<lambda>knobs. PersonaProfile_init now pid
         \<lparr> kw_name = Some (''P'' @ py_str_int (int i)), kw_description = None, kw_knobs = knobs, kw_system_prompt = None,
           kw_model = None, kw_temperature = None, kw_max_tokens = None \<rparr>)
   | _ \<Rightarrow> Inl TypeError)"

definition blend_preview :: "team_env \<Rightarrow> handler" where
  "blend_preview env args w =
    (let profiles = dget_or args ''profiles'' (JList []); weights = dget_or args ''weights'' (JList []);
         now = te_clock env (tw_next w); pid = te_uuid env (tw_next w)
     in (w, rbind (json_len profiles) (\<lambda>n.
       if n < 2 then Inr (JObj [(''error'', JStr ''need at least 2 persona knob dicts'')])
       else case profiles of
         JList ps \<Rightarrow> rbind (rmap (preview_profile now pid) (enumerate 0 ps)) (\<lambda>personas.
           rbind (json_len weights) (\<lambda>m.
             if n \<noteq> m then Inl (ValueError ''Number of profiles must equal number of weights'')
             else case weights of
               JList ws \<Rightarrow> rbind (positive_weights ws) (\<lambda>ws'. rbind (blend_multiple (te_sum env) now pid personas ws')
                 (\<lambda>b. Inr (JObj [(''name'', JStr (p_name b)), (''knobs'', jknobs (get_knobs b))])))
             | _ \<Rightarrow> Inl TypeError))
       | _ \<Rightarrow> Inl TypeError)))"

definition cyrex_status :: "team_env \<Rightarrow> handler" where
  "cyrex_status env args w = (w, Inr (if \<not> fst (te_cyrex env) then JObj [(''available'', JBool False)]
     else JObj [(''available'', JBool (snd (te_cyrex env))), (''configured'', JBool True)]))"

definition agent_tool :: "string \<Rightarrow> json \<Rightarrow> handler" where
  "agent_tool name cfg args w = (w, Inr (JObj [(''tool'', JStr name), (''config'', cfg), (''input'', JObj args), (''status'', JStr ''simulated'')]))"

section \<open>Registries\<close>

definition register :: "ToolSpec \<Rightarrow> registry \<Rightarrow> registry" where
  "register spec reg = dset (ts_name spec) spec reg"

definition tool :: "string \<Rightarrow> string \<Rightarrow> handler \<Rightarrow> string \<Rightarrow> ToolSpec" where
  "tool name description h tag = \<lparr> ts_name = name, ts_description = description, ts_handler = h, ts_parallel_safe = True, ts_tags = [tag] \<rparr>"

definition list_tools :: "registry \<Rightarrow> (string \<times> string \<times> bool \<times> string list) list" where
  "list_tools reg = map (\<lambda>t. (ts_name t, ts_description t, ts_parallel_safe t, ts_tags t)) (dvalues reg)"

definition build_default_registry :: "team_env \<Rightarrow> string \<Rightarrow> registry" where
  "build_default_registry env sid = fold register
    [tool ''memory_store'' ''Persist a key/value in team session memory.'' (store_local sid) ''memory'',
     tool ''memory_recall'' ''Recall a value from team session memory.'' (recall_local sid) ''memory'',
     tool ''memory_search'' ''Search team session memory.'' (search_local env sid) ''memory'',
     tool ''echo'' ''Echo text (debug / connectivity).'' echo_tool ''utility'',
     tool ''delegate_subtask'' ''Queue a subtask for another personality on the shared task board.'' (delegate_subtask env sid) ''workflow''] []"

text \<open>The rows of an agent's tools that matter here: name, description, configuration and whether it is enabled.\<close>

type_synonym agent_tool_row = "string \<times> string option \<times> json \<times> bool"

definition agent_tool_specs :: "agent_tool_row list \<Rightarrow> ToolSpec list" where
  "agent_tool_specs rows = map (\<lambda>(name, description, cfg, _).
     \<lparr> ts_name = ''agent_'' @ name, ts_description = str_or description (''Agent tool '' @ name), ts_handler = agent_tool name cfg,
       ts_parallel_safe = True, ts_tags = [''agent'', ''db''] \<rparr>) (filter (\<lambda>(_, _, _, enabled). enabled) rows)"

definition build_team_registry :: "team_env \<Rightarrow> string \<Rightarrow> agent_tool_row list \<Rightarrow> registry" where
  "build_team_registry env sid rows = fold register
    ([tool ''memory_store'' ''Persist key/value in team memory (Redis + local).'' (store_shared env sid) ''memory'',
      tool ''memory_recall'' ''Recall from team memory.'' (recall_shared sid) ''memory'',
      tool ''memory_search'' ''Search team memory.'' (search_shared env sid) ''memory'',
      tool ''persona_blend_preview'' ''Blend persona knob profiles.'' (blend_preview env) ''persona'',
      tool ''cyrex_status'' ''Check Cyrex runtime connectivity.'' (cyrex_status env) ''platform'',
      tool ''delegate_subtask'' ''Queue a subtask for another personality.'' (delegate_subtask env sid) ''workflow''] @
     agent_tool_specs rows) []"

section \<open>Running calls\<close>

record json_call =
  cl_name :: string
  cl_args :: "(string, json) dict"

definition run_tool :: "registry \<Rightarrow> string \<Rightarrow> (string, json) dict \<Rightarrow> team_world \<Rightarrow> team_world \<times> json res" where
  "run_tool reg name args w = (case dget reg name of
     None \<Rightarrow> (w, Inr (JObj [(''error'', JStr (''Unknown tool: '' @ name))]))
   | Some spec \<Rightarrow> ts_handler spec args w)"

text \<open>
  What runs as tasks of the event loop takes effect in some order. \<open>sched\<close> is that order, as indices into the
  list of calls; the result of call \<open>i\<close> goes to place \<open>i\<close>.
\<close>

fun run_in_order :: "(nat \<Rightarrow> 'w \<Rightarrow> 'w \<times> 'r) \<Rightarrow> nat list \<Rightarrow> 'w \<times> 'r option list \<Rightarrow> 'w \<times> 'r option list" where
  "run_in_order f [] st = st"
| "run_in_order f (i # sched) (w, rs) = (case f i w of (w', r) \<Rightarrow> run_in_order f sched (w', rs[i := Some r]))"

definition known :: "registry \<Rightarrow> json_call list \<Rightarrow> nat \<Rightarrow> bool" where
  "known reg calls i = (dget reg (cl_name (calls ! i)) \<noteq> None)"

definition serial :: "registry \<Rightarrow> json_call list \<Rightarrow> nat \<Rightarrow> bool" where
  "serial reg calls i = (case dget reg (cl_name (calls ! i)) of None \<Rightarrow> False | Some spec \<Rightarrow> \<not> ts_parallel_safe spec)"

definition run_call :: "registry \<Rightarrow> json_call \<Rightarrow> team_world \<Rightarrow> team_world \<times> json res" where
  "run_call reg c w = (case dget reg (cl_name c) of
     None \<Rightarrow> (w, Inr (JObj [(''name'', JStr (cl_name c)), (''error'', JStr ''unknown_tool'')]))
   | Some spec \<Rightarrow> (case ts_handler spec (cl_args c) w of
        (w', Inl e) \<Rightarrow> (w', Inl e)
      | (w', Inr r) \<Rightarrow> (w', Inr (JObj [(''name'', JStr (cl_name c)), (''result'', r)]))))"

text \<open>
  \<open>run_parallel\<close>: the calls that are not safe run first, in order, and the first exception stops the run; the
  others are then gathered. The first exception of a gathered call is raised, the other calls still finish.
\<close>

fun run_serial :: "(nat \<Rightarrow> 'w \<Rightarrow> 'w \<times> 'r res) \<Rightarrow> nat list \<Rightarrow> 'w \<times> 'r option list \<Rightarrow> 'w \<times> 'r option list res" where
  "run_serial f [] (w, rs) = (w, Inr rs)"
| "run_serial f (i # is) (w, rs) = (case f i w of
     (w', Inl e) \<Rightarrow> (w', Inl e) | (w', Inr r) \<Rightarrow> run_serial f is (w', rs[i := Some r]))"

definition first_error :: "nat list \<Rightarrow> 'r res option list \<Rightarrow> pyexc option" where
  "first_error sched rs = (case filter (\<lambda>i. case rs ! i of Some (Inl _) \<Rightarrow> True | _ \<Rightarrow> False) sched of
     [] \<Rightarrow> None | i # _ \<Rightarrow> (case rs ! i of Some (Inl e) \<Rightarrow> Some e | _ \<Rightarrow> None))"

definition missing_result :: json where
  "missing_result = JObj [(''name'', JStr ''unknown''), (''error'', JStr ''missing'')]"

definition run_parallel :: "registry \<Rightarrow> json_call list \<Rightarrow> nat list \<Rightarrow> team_world \<Rightarrow> team_world \<times> json list res" where
  "run_parallel reg calls sched w =
    (let step = (\<lambda>i. run_call reg (calls ! i)); n = length calls
     in case run_serial step (filter (serial reg calls) [0..<n]) (w, replicate n None) of
       (w1, Inl e) \<Rightarrow> (w1, Inl e)
     | (w1, Inr rs) \<Rightarrow>
         (case run_in_order step sched (w1, map (map_option Inr) rs) of (w2, rs2) \<Rightarrow>
           (w2, case first_error sched rs2 of Some e \<Rightarrow> Inl e
              | None \<Rightarrow> Inr (map (\<lambda>r. case r of Some (Inr v) \<Rightarrow> v | _ \<Rightarrow> missing_result) rs2))))"

text \<open>
  The executor: a call finishes, or its 30 seconds are over first; then its handler is cancelled, which may be
  before or after the handler has done its work. Durations are arguments.
\<close>

datatype call_fate = Finished int | TimedOut bool int

record ToolCallResult =
  tr_name :: string
  tr_success :: bool
  tr_result :: json
  tr_error :: "string option"
  tr_duration_ms :: int

definition run_one :: "team_env \<Rightarrow> call_fate \<Rightarrow> string \<Rightarrow> handler \<Rightarrow> (string, json) dict \<Rightarrow> team_world \<Rightarrow> team_world \<times> ToolCallResult" where
  "run_one env fate name h args w = (case fate of
     Finished ms \<Rightarrow> (case h args w of
         (w', Inr r) \<Rightarrow> (w', \<lparr> tr_name = name, tr_success = True, tr_result = r, tr_error = None, tr_duration_ms = ms \<rparr>)
       | (w', Inl e) \<Rightarrow> (w', \<lparr> tr_name = name, tr_success = False, tr_result = JObj [], tr_error = Some (te_exc env e), tr_duration_ms = ms \<rparr>))
   | TimedOut late ms \<Rightarrow> (if late then fst (h args w) else w,
       \<lparr> tr_name = name, tr_success = False, tr_result = JObj [], tr_error = Some ''timeout after 30.0s'', tr_duration_ms = ms \<rparr>))"

definition failed_call :: "string \<Rightarrow> string \<Rightarrow> ToolCallResult" where
  "failed_call name err = \<lparr> tr_name = name, tr_success = False, tr_result = JObj [], tr_error = Some err, tr_duration_ms = 0 \<rparr>"

definition batch_step :: "team_env \<Rightarrow> (nat \<Rightarrow> call_fate) \<Rightarrow> registry \<Rightarrow> json_call list \<Rightarrow> nat \<Rightarrow> team_world \<Rightarrow> team_world \<times> ToolCallResult" where
  "batch_step env fate reg calls i w = (case dget reg (cl_name (calls ! i)) of
     None \<Rightarrow> (w, failed_call (cl_name (calls ! i)) (''unknown tool: '' @ cl_name (calls ! i)))
   | Some spec \<Rightarrow> run_one env (fate i) (cl_name (calls ! i)) (ts_handler spec) (cl_args (calls ! i)) w)"

definition run_batch ::
  "team_env \<Rightarrow> (nat \<Rightarrow> call_fate) \<Rightarrow> registry \<Rightarrow> json_call list \<Rightarrow> nat list \<Rightarrow> team_world \<Rightarrow> team_world \<times> ToolCallResult list" where
  "run_batch env fate reg calls sched w =
    (let unknown = filter (\<lambda>i. \<not> known reg calls i) [0..<length calls] in
     case run_in_order (batch_step env fate reg calls) (unknown @ sched) (w, replicate (length calls) None) of
       (w', rs) \<Rightarrow> (w', map (\<lambda>r. case r of None \<Rightarrow> failed_call ''unknown'' ''missing'' | Some r \<Rightarrow> r) rs))"

text \<open>
  The orders the event loop can choose. \<open>run_batch\<close> starts a safe call as a task, so it may take effect before a
  later unsafe call, but an unsafe call is over before the loop goes on; \<open>run_parallel\<close> gathers after the unsafe ones.
\<close>

definition batch_order :: "registry \<Rightarrow> json_call list \<Rightarrow> nat list \<Rightarrow> bool" where
  "batch_order reg calls sched \<longleftrightarrow> distinct sched \<and> set sched = set (filter (known reg calls) [0..<length calls]) \<and>
     sorted_wrt (\<lambda>i j. \<not> (serial reg calls j \<and> j < i)) sched"

definition gather_order :: "registry \<Rightarrow> json_call list \<Rightarrow> nat list \<Rightarrow> bool" where
  "gather_order reg calls sched \<longleftrightarrow> distinct sched \<and> set sched = set (filter (\<lambda>i. \<not> serial reg calls i) [0..<length calls])"

section \<open>Memory as a store keyed by session and key\<close>

definition mem_get :: "memory \<Rightarrow> string \<times> string \<Rightarrow> mem_entry option" where
  "mem_get m k = dget (mem_bucket (fst k) m) (snd k)"

definition mem_put :: "string \<times> string \<Rightarrow> mem_entry \<Rightarrow> memory \<Rightarrow> memory" where
  "mem_put k e m = dset (fst k) (dset (snd k) e (mem_bucket (fst k) m)) m"

lemma mem_bucket_dset: "mem_bucket s (dset t b m) = (if s = t then b else mem_bucket s m)"
  by (simp add: mem_bucket_def dget_or_def dget_dset)

interpretation tmem: keyed_store mem_get mem_put
  by unfold_locales (auto simp: mem_get_def mem_put_def mem_bucket_dset dget_dset prod_eq_iff)

lemma mem_store_put: "mem_store sid key v tags role m =
    mem_put (sid, key) \<lparr> mn_value = v, mn_tags = tags, mn_source_role = role \<rparr> m"
  by (simp add: mem_store_def mem_put_def)

lemma mem_recall_get: "mem_recall sid key m = map_option mn_value (mem_get m (sid, key))"
  by (simp add: mem_recall_def mem_get_def)

lemma mem_recall_store [simp]:
  "mem_recall sid' key' (mem_store sid key v tags role m) = (if (sid, key) = (sid', key') then Some v else mem_recall sid' key' m)"
  by (simp only: mem_store_put mem_recall_get tmem.get_put) simp

lemma mem_bucket_store [simp]: "sid' \<noteq> sid \<Longrightarrow> mem_bucket sid' (mem_store sid key v tags role m) = mem_bucket sid' m"
  by (simp add: mem_store_def mem_bucket_dset)

section \<open>A session's tools touch that session only\<close>

definition new_tasks_of :: "string \<Rightarrow> WorkTask list \<Rightarrow> WorkTask list \<Rightarrow> bool" where
  "new_tasks_of sid ts ts' \<longleftrightarrow> (\<exists>us. ts' = ts @ us \<and> (\<forall>u \<in> set us. wt_session_id u = Some sid \<and> wt_status u = QUEUED))"

definition confined :: "string \<Rightarrow> team_world \<Rightarrow> team_world \<Rightarrow> bool" where
  "confined sid w w' \<longleftrightarrow>
     (\<forall>s. s \<noteq> sid \<longrightarrow> mem_bucket s (tw_memory w') = mem_bucket s (tw_memory w)) \<and>
     (\<forall>s. s \<noteq> sid \<longrightarrow> mem_bucket s (rs_hashes (tw_redis w')) = mem_bucket s (rs_hashes (tw_redis w))) \<and>
     rs_up (tw_redis w') = rs_up (tw_redis w) \<and>
     new_tasks_of sid (wq_tasks (tw_db w)) (wq_tasks (tw_db w')) \<and>
     wq_audit (tw_db w') = wq_audit (tw_db w) \<and> wq_nodes (tw_db w') = wq_nodes (tw_db w) \<and>
     wq_events (tw_db w') = wq_events (tw_db w)"

lemma new_tasks_refl [simp]: "new_tasks_of sid ts ts"
  by (simp add: new_tasks_of_def)

lemma new_tasks_trans: "new_tasks_of sid a b \<Longrightarrow> new_tasks_of sid b c \<Longrightarrow> new_tasks_of sid a c"
  by (auto simp: new_tasks_of_def)

lemma confined_refl [simp]: "confined sid w w"
  by (simp add: confined_def)

lemma confined_trans: "confined sid a b \<Longrightarrow> confined sid b c \<Longrightarrow> confined sid a c"
  by (auto simp: confined_def elim: new_tasks_trans)

definition confined_registry :: "string \<Rightarrow> registry \<Rightarrow> bool" where
  "confined_registry sid reg \<longleftrightarrow> (\<forall>spec \<in> set (dvalues reg). \<forall>args w. confined sid w (fst (ts_handler spec args w)))"

lemma dvalues_dset: "set (dvalues (dset k v d)) \<subseteq> insert v (set (dvalues d))"
  by (induction k v d rule: dset.induct) (auto simp: dvalues_def)

lemma registered_values: "set (dvalues (fold register specs reg)) \<subseteq> set specs \<union> set (dvalues reg)"
proof (induction specs arbitrary: reg)
  case (Cons spec specs)
  have "set (dvalues (register spec reg)) \<subseteq> insert spec (set (dvalues reg))"
    unfolding register_def by (rule dvalues_dset)
  then show ?case using Cons [of "register spec reg"] by auto
qed simp

lemma confined_registered:
  assumes "\<forall>spec \<in> set specs. \<forall>args w. confined sid w (fst (ts_handler spec args w))"
  shows "confined_registry sid (fold register specs [])"
  using assms registered_values [of specs "[]"] unfolding confined_registry_def by (auto simp: dvalues_def)

lemma confined_store_tool [simp]: "confined sid w (fst (memory_store_tool sid k v w))"
  by (simp add: confined_def memory_store_tool_def)

lemma confined_redis [simp]: "confined sid w (w\<lparr>tw_redis := redis_set sid k v tags role (tw_redis w)\<rparr>)"
  by (simp add: confined_def redis_set_def)

lemma confined_store_local [simp]: "confined sid w (fst (store_local sid args w))"
  by (auto simp: store_local_def split: sum.split)

lemma confined_store_shared [simp]: "confined sid w (fst (store_shared env sid args w))"
  by (auto simp: store_shared_def split: sum.split intro: confined_trans [OF confined_redis confined_store_tool])

lemma confined_delegate [simp]: "confined sid w (fst (delegate_subtask env sid args w))"
  by (auto simp: delegate_subtask_def Let_def enqueue_def create_task_def confined_def new_tasks_of_def
      split: json.splits)

lemmas reading_tools = recall_local_def search_local_def echo_tool_def recall_shared_def search_shared_def
  cyrex_status_def agent_tool_def blend_preview_def

lemma confined_default_registry: "confined_registry sid (build_default_registry env sid)"
  unfolding build_default_registry_def
  by (rule confined_registered) (auto simp: tool_def reading_tools)

lemma confined_team_registry: "confined_registry sid (build_team_registry env sid rows)"
  unfolding build_team_registry_def
  by (rule confined_registered) (auto simp: tool_def agent_tool_specs_def reading_tools Let_def)

section \<open>Executors\<close>

lemma length_run_in_order [simp]: "length (snd (run_in_order f sched st)) = length (snd st)"
  by (induction f sched st rule: run_in_order.induct) (auto split: prod.splits)

text \<open>
  What every step keeps, a run keeps: the interface is a relation between states that is reflexive and transitive.
\<close>

locale step_preorder =
  fixes R :: "'w \<Rightarrow> 'w \<Rightarrow> bool"
  assumes steps_refl: "R w w"
    and steps_trans: "R a b \<Longrightarrow> R b c \<Longrightarrow> R a c"
begin

lemma run_in_order_steps:
  assumes "\<And>i w. R w (fst (f i w))"
  shows "R (fst st) (fst (run_in_order f sched st))"
  using assms
proof (induction f sched st rule: run_in_order.induct)
  case (2 f i sched w rs)
  obtain w' r where f: "f i w = (w', r)" by force
  have "R w w'" using 2(2) [of w i] f by simp
  then show ?case using 2(1) [OF f [symmetric] 2(2)] by (auto simp: f intro: steps_trans)
qed (simp add: steps_refl)

lemma run_serial_steps:
  assumes "\<And>i w. R w (fst (f i w))"
  shows "R (fst st) (fst (run_serial f is st))"
  using assms
proof (induction f "is" st rule: run_serial.induct)
  case (2 f i "is" w rs)
  obtain w' r where f: "f i w = (w', r)" by force
  have "R w w'" using 2(2) [of w i] f by simp
  then show ?case using 2(1) [OF f [symmetric] _ 2(2)] by (cases r) (auto simp: f intro: steps_trans)
qed (simp add: steps_refl)

end

interpretation conf: step_preorder "confined sid" for sid
  by unfold_locales (auto intro: confined_trans)

lemma run_in_order_results:
  assumes "\<And>i w. P i (snd (f i w))" "\<forall>i < length (snd st). \<forall>r. snd st ! i = Some r \<longrightarrow> P i r"
  shows "\<forall>i < length (snd st). \<forall>r. snd (run_in_order f sched st) ! i = Some r \<longrightarrow> P i r"
  using assms
proof (induction f sched st rule: run_in_order.induct)
  case (2 f i sched w rs)
  obtain w' r where f: "f i w = (w', r)" by force
  have "P i r" using 2(2) [of i w] f by simp
  then have "\<forall>j < length rs. \<forall>q. rs[i := Some r] ! j = Some q \<longrightarrow> P j q"
    using 2(3) by simp (metis nth_list_update_eq nth_list_update_neq option.inject)
  then show ?case using 2(1) [OF f [symmetric]] 2(2) by (simp add: f)
qed simp

lemma run_in_order_filled:
  "i < length (snd st) \<Longrightarrow> i \<in> set sched \<or> snd st ! i \<noteq> None \<Longrightarrow> snd (run_in_order f sched st) ! i \<noteq> None"
proof (induction f sched st rule: run_in_order.induct)
  case (2 f j sched w rs)
  obtain w' r where f: "f j w = (w', r)" by force
  have "j = i \<or> i \<in> set sched \<or> rs[j := Some r] ! i \<noteq> None" using 2(3) by (cases "i = j") auto
  then show ?case using 2(1) [OF f [symmetric]] 2(2) by (cases "i = j") (auto simp: f)
qed simp

text \<open>Both at once: a complete schedule gives every call a result, and what holds of each run holds of it.\<close>

lemma run_in_order_complete:
  assumes "\<And>i w. P i (snd (f i w))" "set sched = {..<n}" "run_in_order f sched (w, replicate n None) = (w', rs)"
  shows "length rs = n \<and> (\<forall>i < n. \<exists>r. rs ! i = Some r \<and> P i r)"
proof -
  have rs: "rs = snd (run_in_order f sched (w, replicate n None))" by (simp add: assms(3))
  have "\<forall>i < n. rs ! i \<noteq> None"
    using run_in_order_filled [of _ "(w, replicate n None)" sched f] assms(2) by (simp add: rs)
  then show ?thesis
    using run_in_order_results [of P f "(w, replicate n None)" sched] assms(1) by (fastforce simp: rs)
qed

lemma batch_step_name: "tr_name (snd (batch_step env fate reg calls i w)) = cl_name (calls ! i)"
  by (simp add: batch_step_def run_one_def failed_call_def split: option.split call_fate.split prod.split sum.split)

lemma batch_step_unknown: "\<not> known reg calls i \<Longrightarrow>
    batch_step env fate reg calls i w = (w, failed_call (cl_name (calls ! i)) (''unknown tool: '' @ cl_name (calls ! i)))"
  by (simp add: batch_step_def known_def)

lemma confined_batch_step:
  assumes "confined_registry sid reg"
  shows "confined sid w (fst (batch_step env fate reg calls i w))"
proof (cases "dget reg (cl_name (calls ! i))")
  case (Some spec)
  then have "spec \<in> set (dvalues reg)" by (force simp: dget_def dvalues_def dest: map_of_SomeD)
  then have "confined sid w (fst (ts_handler spec (cl_args (calls ! i)) w))" 
    using assms by (simp add: confined_registry_def)
  then show ?thesis
    by (auto simp: batch_step_def Some run_one_def split: call_fate.split prod.splits sum.splits)
qed (simp add: batch_step_def)

lemma confined_run_batch:
  assumes "confined_registry sid reg"
  shows "confined sid w (fst (run_batch env fate reg calls sched w))"
proof -
  let ?s = "filter (\<lambda>i. \<not> known reg calls i) [0..<length calls] @ sched"
  have "confined sid w (fst (run_in_order (batch_step env fate reg calls) ?s (w, replicate (length calls) None)))"
    using conf.run_in_order_steps [of sid "batch_step env fate reg calls" "(w, replicate (length calls) None)" ?s]
      confined_batch_step [OF assms] by simp
  then show ?thesis by (auto simp: run_batch_def Let_def split: prod.split)
qed

lemma confined_run_call:
  assumes "confined_registry sid reg"
  shows "confined sid w (fst (run_call reg c w))"
proof (cases "dget reg (cl_name c)")
  case (Some spec)
  then have "spec \<in> set (dvalues reg)" by (force simp: dget_def dvalues_def dest: map_of_SomeD)
  then have "confined sid w (fst (ts_handler spec (cl_args c) w))" using assms by (simp add: confined_registry_def)
  then show ?thesis by (auto simp: run_call_def Some split: prod.splits sum.splits)
qed (simp add: run_call_def)

lemma confined_run_parallel:
  assumes "confined_registry sid reg"
  shows "confined sid w (fst (run_parallel reg calls sched w))"
proof -
  let ?f = "\<lambda>i. run_call reg (calls ! i)" and ?n = "length calls"
  obtain w1 r where r: "run_serial ?f (filter (serial reg calls) [0..<?n]) (w, replicate ?n None) = (w1, r)" by force
  have f: "confined sid v (fst (?f i v))" for i v by (rule confined_run_call [OF assms])
  have 1: "confined sid w w1"
    using conf.run_serial_steps [of sid ?f "(w, replicate ?n None)" "filter (serial reg calls) [0..<?n]"] f r by simp
  show ?thesis
  proof (cases r)
    case (Inr rs)
    have "confined sid w1 (fst (run_in_order ?f sched (w1, map (map_option Inr) rs)))"
      using conf.run_in_order_steps [of sid ?f "(w1, map (map_option Inr) rs)" sched] f by simp
    then show ?thesis using confined_trans [OF 1] by (auto simp: run_parallel_def Let_def r Inr split: prod.split)
  qed (simp add: run_parallel_def Let_def r 1)
qed

lemma batch_schedule:
  assumes "batch_order reg calls sched"
  shows "set (filter (\<lambda>i. \<not> known reg calls i) [0..<length calls] @ sched) = {..<length calls}"
  using assms by (auto simp: batch_order_def)

theorem run_batch_in_call_order:
  assumes "batch_order reg calls sched"
  shows "case run_batch env fate reg calls sched w of (w', rs) \<Rightarrow>
     map tr_name rs = map cl_name calls \<and>
     (\<forall>i < length calls. \<not> known reg calls i \<longrightarrow> rs ! i = failed_call (cl_name (calls ! i)) (''unknown tool: '' @ cl_name (calls ! i))) \<and>
     (\<forall>sid. confined_registry sid reg \<longrightarrow> confined sid w w')"
proof -
  let ?f = "batch_step env fate reg calls"
  let ?s = "filter (\<lambda>i. \<not> known reg calls i) [0..<length calls] @ sched"
  let ?P = "\<lambda>i r. tr_name r = cl_name (calls ! i) \<and>
    (\<not> known reg calls i \<longrightarrow> r = failed_call (cl_name (calls ! i)) (''unknown tool: '' @ cl_name (calls ! i)))"
  obtain w' rs where r: "run_in_order ?f ?s (w, replicate (length calls) None) = (w', rs)" by force
  have "length rs = length calls \<and> (\<forall>i < length calls. \<exists>r. rs ! i = Some r \<and> ?P i r)"
    by (rule run_in_order_complete [OF _ batch_schedule [OF assms] r]) (auto simp: batch_step_name batch_step_unknown)
  moreover have "confined sid w w'" if "confined_registry sid reg" for sid
    using confined_run_batch [OF that, of w env fate calls sched] by (simp add: run_batch_def r)
  ultimately show ?thesis
    by (auto simp: run_batch_def r Let_def intro!: nth_equalityI)
qed

section \<open>Properties\<close>

text \<open>
  C19. The tools of a session cannot reach another session. A batch of calls against the registry of session \<open>sid\<close>,
  in whatever order the event loop lets the calls take effect, with whichever calls timing out or raising, leaves
  the memory and the Redis hash of every other session, the audit log, the chart and the event feed as they were,
  and adds only queued tasks of session \<open>sid\<close> behind the tasks that were there. It gives one result per call, in the
  order of the calls.
\<close>

theorem team_tools_confined:
  assumes "batch_order (build_team_registry env sid rows) calls sched"
  shows "case run_batch env fate (build_team_registry env sid rows) calls sched w of (w', rs) \<Rightarrow>
    confined sid w w' \<and> map tr_name rs = map cl_name calls"
  using run_batch_in_call_order [OF assms, where env = env and fate = fate and w = w] confined_team_registry [of sid env rows]
  by (auto split: prod.split)

definition example_env :: team_env where
  "example_env = \<lparr> te_show = (\<lambda>_. ''5''), te_exc = (\<lambda>_. ''error''), te_uuid = (\<lambda>n. ''t'' @ py_str_int (int n)), te_clock = int,
     te_sum = Plain, te_cyrex = (False, False) \<rparr>"

definition example_world :: team_world where
  "example_world = \<lparr> tw_memory = [(''other'', [])], tw_redis = \<lparr> rs_up = True, rs_hashes = [] \<rparr>,
     tw_db = \<lparr> wq_tasks = [], wq_audit = [], wq_events = [], wq_nodes = [] \<rparr>, tw_next = 0 \<rparr>"

definition example_calls :: "json_call list" where
  "example_calls = [\<lparr> cl_name = ''memory_store'', cl_args = [(''key'', JStr ''k''), (''value'', JInt 5)] \<rparr>,
     \<lparr> cl_name = ''nope'', cl_args = [] \<rparr>, \<lparr> cl_name = ''memory_recall'', cl_args = [(''key'', JStr ''k'')] \<rparr>]"

lemma example_registry_known:
  "known (build_team_registry env sid []) example_calls i = (i \<noteq> 1)" "\<not> serial (build_team_registry env sid []) example_calls i" if "i < 3"
proof -
  have "i = 0 \<or> i = 1 \<or> i = 2" using that by auto
  then show "known (build_team_registry env sid []) example_calls i = (i \<noteq> 1)" "\<not> serial (build_team_registry env sid []) example_calls i"
    by (auto simp: known_def serial_def example_calls_def build_team_registry_def agent_tool_specs_def tool_def register_def dget_def numeral_2_eq_2)
qed

lemma example_order: "batch_order (build_team_registry env sid []) example_calls [2, 0]"
proof -
  have n: "[0..<length example_calls] = [0, 1, 2]" by (simp add: example_calls_def upt_rec)
  show ?thesis unfolding batch_order_def n by (auto simp: example_registry_known)
qed

theorem team_tools_confined_witness:
  "case run_batch example_env (\<lambda>_. Finished 1) (build_team_registry example_env ''s'' []) example_calls [2, 0] example_world of
     (w', rs) \<Rightarrow> confined ''s'' example_world w' \<and> map tr_name rs = [''memory_store'', ''nope'', ''memory_recall'']"
  using team_tools_confined [OF example_order [of example_env "''s''"], where fate = "\<lambda>_. Finished 1" and w = example_world]
  by (simp add: example_calls_def)

text \<open>
  What a team stores it can recall. With the default registry, or with Redis up, the value comes back as it was
  stored; with Redis down the shared registry gives the text of the value.
\<close>

definition set_redis :: "bool \<Rightarrow> team_world \<Rightarrow> team_world" where
  "set_redis up w = w\<lparr>tw_redis := (tw_redis w)\<lparr>rs_up := up\<rparr>\<rparr>"

definition store_args :: "string \<Rightarrow> json \<Rightarrow> (string, json) dict" where
  "store_args k v = [(''key'', JStr k), (''value'', v)]"

definition key_args :: "string \<Rightarrow> (string, json) dict" where
  "key_args k = [(''key'', JStr k)]"

lemma args_simps [simp]:
  "jtext ''key'' (store_args k v) = Inr k" "jarg ''value'' (store_args k v) = Inr v"
  "dget_or (store_args k v) ''source_role'' d = d" "jtext ''key'' (key_args k) = Inr k"
  by (simp_all add: jtext_def jarg_def store_args_def key_args_def dget_def dget_or_def)

definition jvalue :: "json res \<Rightarrow> json option" where
  "jvalue r = (case r of Inr (JObj d) \<Rightarrow> dget d ''value'' | _ \<Rightarrow> None)"

theorem store_recall_roundtrip:
  assumes "v \<noteq> JNull"
  shows "jvalue (snd (recall_local sid (key_args k) (fst (store_local sid (store_args k v) w)))) = Some v \<and>
    jvalue (snd (recall_shared sid (key_args k) (fst (store_shared env sid (store_args k v) w)))) =
       Some (if rs_up (tw_redis w) then v else JStr (str_arg env v))"
  using assms
  by (auto simp: jvalue_def recall_local_def store_local_def recall_shared_def store_shared_def memory_store_tool_def
      memory_recall_tool_def redis_set_def redis_recall_def dget_def split: json.splits)

text \<open>
  C23. A store during an outage of Redis is lost once Redis is back: if Redis already holds a value of the key, a store
  while it is down reports success, and after the outage a recall still gives the old value.
\<close>

theorem outage_store_shadowed:
  assumes "redis_recall sid k (tw_redis (set_redis True w)) = Some old"
  shows "snd (store_shared env sid (store_args k v) (set_redis False w)) = Inr (JObj [(''stored'', JBool True), (''key'', JStr k)]) \<and>
    jvalue (snd (recall_shared sid (key_args k) (set_redis True (fst (store_shared env sid (store_args k v) (set_redis False w)))))) = Some old"
  using assms
  by (simp add: jvalue_def recall_shared_def store_shared_def memory_store_tool_def redis_set_def set_redis_def
      redis_recall_def dget_def)

theorem outage_store_shadowed_witness:
  "jvalue (snd (recall_shared ''s'' (key_args ''k'') (set_redis True (fst (store_shared example_env ''s'' (store_args ''k'' (JInt 2))
     (set_redis False (fst (store_shared example_env ''s'' (store_args ''k'' (JInt 1)) example_world)))))))) = Some (JInt 1)"
  using outage_store_shadowed [of "''s''" "''k''" "fst (store_shared example_env ''s'' (store_args ''k'' (JInt 1)) example_world)" "JInt 1" example_env "JInt 2"]
  by (simp add: store_shared_def memory_store_tool_def redis_set_def set_redis_def redis_recall_def example_world_def)

end
