(* ===== verification/ToolCalls.thy ===== *)
theory ToolCalls
  imports TeamTools
begin

text \<open>
  Reading tool calls out of a model's answer: \<open>src/persola/orchestration/tool_calls.py\<close>. \<open>json.loads\<close> is an argument
  (\<^term>\<open>None\<close> is \<open>JSONDecodeError\<close>), as is \<open>str\<close> of a JSON value. The two regular expressions are written out as
  matchers at a position: neither has two ways to match that differ in their groups, apart from the lazy and the
  greedy star, which the matchers follow. \<open>finditer\<close> is \<open>scan\<close>.
\<close>

section \<open>Calls in a JSON value\<close>

type_synonym loads = "string \<Rightarrow> json option"

lemma dget_size: "dget d k = Some v \<Longrightarrow> size v < size (JObj d)"
  by (induction d) (auto simp: dget_def split: if_splits)

definition first_truthy :: "json option list \<Rightarrow> json" where
  "first_truthy xs = (case filter (\<lambda>x. case x of None \<Rightarrow> False | Some v \<Rightarrow> truthy v) xs of Some v # _ \<Rightarrow> v | _ \<Rightarrow> JObj [])"

definition call_args :: "loads \<Rightarrow> (string, json) dict \<Rightarrow> (string, json) dict" where
  "call_args loads d =
    (let args = first_truthy [dget d ''args'', dget d ''arguments''];
         args' = (case args of JStr s \<Rightarrow> (case loads s of None \<Rightarrow> JObj [(''value'', JStr s)] | Some v \<Rightarrow> v) | _ \<Rightarrow> args)
     in case args' of JObj a \<Rightarrow> a | _ \<Rightarrow> [])"

function normalize_calls :: "loads \<Rightarrow> (json \<Rightarrow> string) \<Rightarrow> json \<Rightarrow> json_call list" where
  "normalize_calls loads str (JObj d) = (case dget d ''tool_calls'' of
     Some v \<Rightarrow> normalize_calls loads str v
   | None \<Rightarrow> (case dget d ''name'' of
        Some n \<Rightarrow> [\<lparr> cl_name = str n, cl_args = call_args loads d \<rparr>]
      | None \<Rightarrow> []))"
| "normalize_calls loads str (JList l) = concat (map (normalize_calls loads str) l)"
| "normalize_calls loads str JNull = []"
| "normalize_calls loads str (JBool b) = []"
| "normalize_calls loads str (JInt i) = []"
| "normalize_calls loads str (JFloat x) = []"
| "normalize_calls loads str (JStr s) = []"
  by pat_completeness auto

termination
  by (relation "measure (\<lambda>(_, _, j). size j)") (auto simp: dget_size less_Suc_eq_le size_list_estimation' dest!: dget_size)

section \<open>The two patterns\<close>

definition newline :: char where
  "newline = CHR 0x0A"

definition skip_ws :: "string \<Rightarrow> string" where
  "skip_ws s = dropWhile py_isspace s"

definition after :: "string \<Rightarrow> string \<Rightarrow> string option" where
  "after p s = (if py_startswith s p then Some (drop (length p) s) else None)"

fun fence_body :: "string \<Rightarrow> (string \<times> string) option" where
  "fence_body [] = None"
| "fence_body (c # s) = (case (if c = CHR ''}'' then after ''```'' (skip_ws s) else None) of
     Some rest \<Rightarrow> Some ([c], rest)
   | None \<Rightarrow> map_option (\<lambda>(b, rest). (c # b, rest)) (fence_body s))"

definition fence_at :: "string \<Rightarrow> (string \<times> string) option" where
  "fence_at s = (case after ''```'' s of None \<Rightarrow> None | Some s1 \<Rightarrow>
     (case skip_ws (if py_lower (take 4 s1) = ''json'' then drop 4 s1 else s1) of
        c # s2 \<Rightarrow> if c = CHR ''{'' then map_option (\<lambda>(b, rest). (c # b, rest)) (fence_body s2) else None
      | [] \<Rightarrow> None))"

definition word_char :: "char \<Rightarrow> bool" where
  "word_char c = (let n = of_char c :: int in 48 \<le> n \<and> n \<le> 57 \<or> 65 \<le> n \<and> n \<le> 90 \<or> n = 95 \<or> 97 \<le> n \<and> n \<le> 122)"

definition line_end :: "string \<Rightarrow> string option" where
  "line_end s = (case after '')'' (skip_ws s) of None \<Rightarrow> None | Some s1 \<Rightarrow>
     if skip_ws s1 = [] \<or> newline \<in> set (takeWhile py_isspace s1) then Some (skip_ws s1) else None)"

fun line_body :: "string \<Rightarrow> (string \<times> string) option" where
  "line_body [] = None"
| "line_body (c # s) = (if c = newline then None else case line_body s of
     Some (b, rest) \<Rightarrow> Some (c # b, rest)
   | None \<Rightarrow> if c = CHR ''}'' then map_option (\<lambda>rest. ([c], rest)) (line_end s) else None)"

definition tool_line_at :: "string \<Rightarrow> ((string \<times> string) \<times> string) option" where
  "tool_line_at s =
    (case after ''TOOL_CALL'' s of None \<Rightarrow> None | Some s1 \<Rightarrow>
     case after '':'' (skip_ws s1) of None \<Rightarrow> None | Some s2 \<Rightarrow>
     let s3 = skip_ws s2; name = takeWhile word_char s3 in
     if name = [] then None else
     case after ''('' (skip_ws (dropWhile word_char s3)) of None \<Rightarrow> None | Some s4 \<Rightarrow>
     case skip_ws s4 of [] \<Rightarrow> None | c # s5 \<Rightarrow>
       if c = CHR ''{'' then map_option (\<lambda>(b, rest). ((name, c # b), rest)) (line_body s5) else None)"

function scan :: "(string \<Rightarrow> ('a \<times> string) option) \<Rightarrow> string \<Rightarrow> 'a list" where
  "scan f [] = []"
| "scan f (c # s) = (case f (c # s) of
     None \<Rightarrow> scan f s
   | Some (x, rest) \<Rightarrow> x # (if length rest \<le> length s then scan f rest else []))"
  by pat_completeness auto

termination
  by (relation "measure (\<lambda>(_, s). length s)") auto

section \<open>Parsing\<close>

text \<open>Two calls count as the same when their JSON with sorted keys is the same text.\<close>

fun canon :: "json \<Rightarrow> json" where
  "canon (JObj d) = JObj (sort_key fst (map (\<lambda>(k, v). (k, canon v)) d))"
| "canon (JList l) = JList (map canon l)"
| "canon v = v"

definition call_key :: "json_call \<Rightarrow> string \<times> json" where
  "call_key c = (cl_name c, canon (JObj (cl_args c)))"

definition whole_calls :: "loads \<Rightarrow> (json \<Rightarrow> string) \<Rightarrow> string \<Rightarrow> json_call list" where
  "whole_calls loads str stripped =
    (if py_startswith stripped ''{'' \<or> py_startswith stripped ''['' then
       (case loads stripped of None \<Rightarrow> [] | Some v \<Rightarrow> normalize_calls loads str v) else [])"

definition fence_calls :: "loads \<Rightarrow> (json \<Rightarrow> string) \<Rightarrow> string \<Rightarrow> json_call list" where
  "fence_calls loads str text =
     concat (map (\<lambda>b. case loads b of None \<Rightarrow> [] | Some v \<Rightarrow> normalize_calls loads str v) (scan fence_at text))"

definition line_call :: "loads \<Rightarrow> string \<times> string \<Rightarrow> json_call list" where
  "line_call loads nb = (case loads (snd nb) of
     None \<Rightarrow> [\<lparr> cl_name = fst nb, cl_args = [] \<rparr>]
   | Some (JObj a) \<Rightarrow> [\<lparr> cl_name = fst nb, cl_args = a \<rparr>]
   | Some _ \<Rightarrow> [])"

definition line_calls :: "loads \<Rightarrow> string \<Rightarrow> json_call list" where
  "line_calls loads text = concat (map (line_call loads) (scan tool_line_at text))"

definition parse_tool_calls :: "loads \<Rightarrow> (json \<Rightarrow> string) \<Rightarrow> string \<Rightarrow> json_call list" where
  "parse_tool_calls loads str text =
    (let stripped = py_strip text in
     if stripped = [] then []
     else dedup_by call_key (whole_calls loads str stripped @ fence_calls loads str text @ line_calls loads text))"

section \<open>Lines that are calls\<close>

definition call_line :: "(json \<Rightarrow> string) \<Rightarrow> json_call \<Rightarrow> string" where
  "call_line dumps c = ''TOOL_CALL: '' @ cl_name c @ ''('' @ dumps (JObj (cl_args c)) @ '')''"

text \<open>What is needed of the rendering of a call: the arguments read back, on one line, without a back quote.\<close>

definition renders :: "loads \<Rightarrow> (json \<Rightarrow> string) \<Rightarrow> json_call \<Rightarrow> bool" where
  "renders loads dumps c \<longleftrightarrow> cl_name c \<noteq> [] \<and> list_all word_char (cl_name c) \<and>
     (let t = dumps (JObj (cl_args c)) in
        loads t = Some (JObj (cl_args c)) \<and> 2 \<le> length t \<and> hd t = CHR ''{'' \<and> last t = CHR ''}'' \<and>
        newline \<notin> set t \<and> CHR 0x60 \<notin> set t)"

lemma space_newline [simp]: "py_isspace newline"
  by (simp add: py_isspace_def newline_def)

lemma space_chars [simp]: "py_isspace (CHR '' '')" "\<not> py_isspace (CHR '':'')" "\<not> py_isspace (CHR ''('')" "\<not> py_isspace (CHR ''{'')"
  "\<not> py_isspace (CHR '')'')" "\<not> py_isspace (CHR ''T'')"
  by (simp_all add: py_isspace_def)

lemma after_append [simp]: "after p (p @ s) = Some s"
  by (simp add: after_def)

lemma after_Cons: "after (a # p) (c # s) = (if a = c then after p s else None)"
  by (simp add: after_def py_startswith_def)

lemma after_Nil [simp]: "after [] s = Some s"
  by (simp add: after_def py_startswith_def)

lemma word_char_not: "word_char c \<Longrightarrow> \<not> py_isspace c \<and> c \<noteq> CHR ''('' \<and> c \<noteq> CHR 0x60"
  by (auto simp: word_char_def py_isspace_def Let_def)

lemma takeWhile_word: "list_all word_char n \<Longrightarrow> takeWhile word_char (n @ CHR ''('' # s) = n"
  "list_all word_char n \<Longrightarrow> dropWhile word_char (n @ CHR ''('' # s) = CHR ''('' # s"
  by (induction n) (auto simp: word_char_def)

definition line_tail :: "string \<Rightarrow> bool" where
  "line_tail s \<longleftrightarrow> s = [] \<or> hd s = newline"

lemma line_body_last:
  "newline \<notin> set b \<Longrightarrow> line_tail s \<Longrightarrow> line_body (b @ ''})'' @ s) = Some (b @ ''}'', skip_ws s)"
proof (induction b)
  case Nil
  then show ?case
    by (cases s) (auto simp: line_tail_def line_end_def skip_ws_def after_Cons newline_def py_isspace_def)
qed auto

lemma braces:
  assumes "2 \<le> length t" "hd t = CHR ''{''" "last t = CHR ''}''"
  obtains b where "t = CHR ''{'' # b @ ''}''" "set b \<subseteq> set t"
proof -
  obtain u where u: "t = CHR ''{'' # u" "u \<noteq> []" using assms by (cases t) (auto split: if_splits)
  then have "u = butlast u @ [CHR ''}'']" using assms(3) by (metis append_butlast_last_id last_ConsR)
  then show thesis using that [of "butlast u"] u by (metis append_is_Nil_conv in_set_butlastD list.set_intros(2) subsetI)
qed

lemma tool_line_at_call:
  assumes "renders loads dumps c" "line_tail s"
  shows "tool_line_at (call_line dumps c @ s) = Some ((cl_name c, dumps (JObj (cl_args c))), skip_ws s)"
proof -
  obtain b where b: "dumps (JObj (cl_args c)) = CHR ''{'' # b @ ''}''" "newline \<notin> set b"
    using assms(1) braces unfolding renders_def Let_def by (metis subsetD)
  obtain x n where n: "cl_name c = x # n" "word_char x" "list_all word_char n"
    using assms(1) by (cases "cl_name c") (auto simp: renders_def)
  show ?thesis
    using line_body_last [OF b(2) assms(2)] takeWhile_word [of "x # n"] n word_char_not [OF n(2)]
    by (simp add: tool_line_at_def call_line_def b n after_Cons skip_ws_def Let_def)
qed

lemma scan_line:
  assumes "renders loads dumps c" "line_tail s"
  shows "scan tool_line_at (call_line dumps c @ s) = (cl_name c, dumps (JObj (cl_args c))) # scan tool_line_at (skip_ws s)"
proof -
  obtain x u where u: "call_line dumps c = x # u" by (simp add: call_line_def)
  have "length (skip_ws s) \<le> length s" by (simp add: skip_ws_def length_dropWhile_le)
  then show ?thesis using tool_line_at_call [OF assms] by (simp add: u)
qed

lemma skip_newline_call: "skip_ws (newline # call_line dumps c @ s) = call_line dumps c @ s"
  by (simp add: skip_ws_def call_line_def)

lemma join_head: "py_join sep (x # xs) = x @ (if xs = [] then [] else sep @ py_join sep xs)"
  by (cases xs) auto

lemma scan_lines:
  assumes "list_all (renders loads dumps) calls"
  shows "scan tool_line_at (py_join [newline] (map (call_line dumps) calls)) = map (\<lambda>c. (cl_name c, dumps (JObj (cl_args c)))) calls"
  using assms
proof (induction calls)
  case (Cons c calls)
  let ?s = "if calls = [] then [] else newline # py_join [newline] (map (call_line dumps) calls)"
  have "skip_ws ?s = py_join [newline] (map (call_line dumps) calls)"
    by (cases calls) (simp_all add: skip_newline_call join_head, simp add: skip_ws_def)
  moreover have "line_tail ?s" by (simp add: line_tail_def)
  moreover have "py_join [newline] (map (call_line dumps) (c # calls)) = call_line dumps c @ ?s" by (simp add: join_head)
  ultimately show ?case using scan_line [of loads dumps c ?s] Cons by simp
qed simp

lemma scan_none: "(\<And>s. set s \<subseteq> set t \<Longrightarrow> f s = None) \<Longrightarrow> scan f t = []"
proof (induction t)
  case (Cons c t)
  show ?case using Cons(2) [of "c # t"] Cons(1) [OF Cons(2)] by auto
qed simp

lemma no_fence: "CHR 0x60 \<notin> set t \<Longrightarrow> scan fence_at t = []"
proof (rule scan_none)
  fix s assume "CHR 0x60 \<notin> set t" "set s \<subseteq> set t"
  then have "CHR 0x60 \<notin> set s" by blast
  then show "fence_at s = None" by (cases s) (auto simp: fence_at_def after_Cons after_def py_startswith_def)
qed

lemma set_py_join: "set (py_join sep ws) \<subseteq> set sep \<union> (\<Union>w \<in> set ws. set w)"
  by (induction sep ws rule: py_join.induct) auto

lemma call_line_plain: "renders loads dumps c \<Longrightarrow> CHR 0x60 \<notin> set (call_line dumps c)"
  by (auto simp: renders_def call_line_def Let_def list_all_iff dest: word_char_not)

lemma lines_plain: "list_all (renders loads dumps) calls \<Longrightarrow> CHR 0x60 \<notin> set (py_join [newline] (map (call_line dumps) calls))"
  using set_py_join [of "[newline]" "map (call_line dumps) calls"] call_line_plain
  by (fastforce simp: list_all_iff newline_def)

lemma line_call_rendered: "renders loads dumps c \<Longrightarrow> line_call loads (cl_name c, dumps (JObj (cl_args c))) = [c]"
  by (simp add: line_call_def renders_def Let_def)

lemma strip_head: "\<not> py_isspace c \<Longrightarrow> \<exists>u. py_strip (c # s) = c # u"
proof -
  assume c: "\<not> py_isspace c"
  have "\<exists>u. rev (dropWhile py_isspace (rev t @ [c])) = c # u" for t
    by (induction t rule: rev_induct) (auto simp: c, metis rev_rev_ident)
  then show ?thesis using c by (simp add: py_strip_def py_strip_by_def)
qed

text \<open>
  C20. A round trip: calls written one per line as \<open>TOOL_CALL: name(json)\<close> are read back, in order, each distinct
  call once. The names are words, and the rendered arguments are an object on one line that \<open>json.loads\<close> reads back.
\<close>

theorem tool_lines_roundtrip:
  assumes "list_all (renders loads dumps) calls"
  shows "parse_tool_calls loads str (py_join [newline] (map (call_line dumps) calls)) = dedup_by call_key calls"
proof (cases calls)
  case (Cons c cs)
  let ?t = "py_join [newline] (map (call_line dumps) calls)"
  obtain u where "?t = CHR ''T'' # u" by (simp add: Cons join_head call_line_def)
  then obtain v where v: "py_strip ?t = CHR ''T'' # v" using strip_head [of "CHR ''T''" u] by auto
  have "line_calls loads ?t = concat (map (\<lambda>c. [c]) calls)"
    using assms unfolding line_calls_def scan_lines [OF assms] by (induction calls) (auto simp: line_call_rendered)
  then show ?thesis
    by (simp add: parse_tool_calls_def v whole_calls_def py_startswith_def fence_calls_def no_fence [OF lines_plain [OF assms]])
qed (simp add: parse_tool_calls_def py_strip_def py_strip_by_def dedup_by_def)

text \<open>No answer makes a team run the same call twice: the calls read from any text are pairwise different.\<close>

theorem parsed_calls_distinct:
  "distinct (map call_key (parse_tool_calls loads str text))"
  by (simp add: parse_tool_calls_def Let_def)

definition example_loads :: loads where
  "example_loads s = (if s = ''{}'' then Some (JObj []) else None)"

theorem tool_lines_roundtrip_witness:
  "parse_tool_calls example_loads (\<lambda>_. []) (py_join [newline] (map (call_line (\<lambda>_. ''{}'')) 
     [\<lparr> cl_name = ''echo'', cl_args = [] \<rparr>, \<lparr> cl_name = ''cyrex_status'', cl_args = [] \<rparr>, \<lparr> cl_name = ''echo'', cl_args = [] \<rparr>])) =
   [\<lparr> cl_name = ''echo'', cl_args = [] \<rparr>, \<lparr> cl_name = ''cyrex_status'', cl_args = [] \<rparr>]"
proof -
  have "list_all (renders example_loads (\<lambda>_. ''{}''))
     [\<lparr> cl_name = ''echo'', cl_args = [] \<rparr>, \<lparr> cl_name = ''cyrex_status'', cl_args = [] \<rparr>, \<lparr> cl_name = ''echo'', cl_args = [] \<rparr>]"
    by (simp add: renders_def word_char_def newline_def example_loads_def)
  from tool_lines_roundtrip [OF this] show ?thesis by (simp add: dedup_by_def call_key_def)
qed

end
