(* ===== verification/TeamRun.thy ===== *)
theory TeamRun
  imports ToolCalls Personalities "HOL-Library.Multiset"
begin

text \<open>
  A run of a team: \<open>state.py\<close>, \<open>workflow.py\<close>, \<open>langgraph_runtime.py\<close> and \<open>team.py\<close> of \<open>src/persola/orchestration\<close>.

  The model's answers come from an argument \<open>llm\<close>: the answer to the \<open>i\<close>-th prompt of a run, for a system prompt
  and a user prompt, or the exception. Prompts that are sent at the same time are answered in some order
  (\<open>rc_answered\<close>), their coroutines finish in some order (\<open>rc_finished\<close>); both orders are arguments. The tools that one
  answer asks for run as one step, in an order of their own (\<open>rc_order\<close>). The graph library runs the two nodes one
  after the other. Identifiers and times of workflows and steps are left out.
\<close>

section \<open>Workflow and session state\<close>

record WorkflowStepRecord =
  sr_role :: string
  sr_task :: string
  sr_output :: string
  sr_tool_calls :: "json list"

record WorkflowState =
  wf_goal :: string
  wf_steps :: "WorkflowStepRecord list"
  wf_context :: "(string, json) dict"
  wf_status :: string

definition new_workflow :: "string \<Rightarrow> WorkflowState" where
  "new_workflow goal = \<lparr> wf_goal = goal, wf_steps = [], wf_context = [], wf_status = ''pending'' \<rparr>"

definition add_step :: "string \<Rightarrow> string \<Rightarrow> string \<Rightarrow> json list \<Rightarrow> WorkflowState \<Rightarrow> WorkflowState" where
  "add_step role task output tool_calls st =
     st\<lparr>wf_steps := wf_steps st @ [\<lparr> sr_role = role, sr_task = task, sr_output = output, sr_tool_calls = tool_calls \<rparr>],
        wf_status := ''running''\<rparr>"

definition complete_workflow :: "WorkflowState \<Rightarrow> WorkflowState" where
  "complete_workflow st = st\<lparr>wf_status := ''completed''\<rparr>"

definition fail_workflow :: "string \<Rightarrow> WorkflowState \<Rightarrow> WorkflowState" where
  "fail_workflow reason st = st\<lparr>wf_context := dset ''error'' (JStr reason) (wf_context st), wf_status := ''failed''\<rparr>"

record TeamSessionState =
  tss_session_id :: string
  tss_team_id :: string
  tss_messages :: "(string \<times> string) list"
  tss_memory_snapshot :: "(string, json) dict"
  tss_active_workflow :: "WorkflowState option"

definition new_session :: "string \<Rightarrow> TeamSessionState" where
  "new_session sid = \<lparr> tss_session_id = sid, tss_team_id = '''', tss_messages = [], tss_memory_snapshot = [], tss_active_workflow = None \<rparr>"

definition push_message :: "string \<Rightarrow> string \<Rightarrow> TeamSessionState \<Rightarrow> TeamSessionState" where
  "push_message role content s = s\<lparr>tss_messages := tss_messages s @ [(role, content)]\<rparr>"

section \<open>Prompts\<close>

type_synonym llm_fn = "nat \<Rightarrow> string \<Rightarrow> string \<Rightarrow> string res"

definition role_of :: "string \<Rightarrow> PersonalityRole option" where
  "role_of key = find (\<lambda>r. role_value r = key) [COORDINATOR, ANALYST, CREATIVE, EXECUTOR, EMPATH]"

definition archetype_of :: "PersonalityRole \<Rightarrow> PersonalityArchetype" where
  "archetype_of r = dget_or BUILTIN_ARCHETYPES r archetype_coordinator"

definition system_prompt_for_role :: "int \<Rightarrow> string \<Rightarrow> PersonaProfile \<Rightarrow> string \<Rightarrow> string res" where
  "system_prompt_for_role now pid base role_key = (case role_of role_key of
     None \<Rightarrow> Inr (build_system_prompt base)
   | Some role \<Rightarrow> (let a = archetype_of role in
       rbind (PersonaProfile_init now pid
         \<lparr> kw_name = Some (pa_name a), kw_description = Some (pa_tagline a), kw_knobs = dmerge (get_knobs base) (pa_knob_overrides a),
           kw_system_prompt = None, kw_model = None, kw_temperature = None, kw_max_tokens = None \<rparr>)
       (\<lambda>blended. Inr (build_system_prompt blended @ NL @ NL @ ''## Team role'' @ NL @ pa_system_directive a @ NL @ NL @
          ''Collaboration style: '' @ pa_collaboration_style a))))"

definition ask :: "llm_fn \<Rightarrow> (string \<Rightarrow> string res) \<Rightarrow> nat \<Rightarrow> string \<Rightarrow> string \<Rightarrow> string res" where
  "ask llm sys i role user = rbind (sys role) (\<lambda>system. llm i system user)"

section \<open>Tools of an answer\<close>

record run_choice =
  rc_answered :: "nat \<Rightarrow> nat list"
  rc_finished :: "nat \<Rightarrow> nat \<Rightarrow> nat list"
  rc_order :: "nat \<Rightarrow> json_call list \<Rightarrow> nat list"
  rc_fate :: "nat \<Rightarrow> nat \<Rightarrow> call_fate"

definition fallback_call :: "string \<Rightarrow> string \<Rightarrow> json_call" where
  "fallback_call role output = \<lparr> cl_name = ''memory_store'',
     cl_args = [(''key'', JStr (role @ '':latest'')), (''value'', JStr (take 2000 output)), (''source_role'', JStr role)] \<rparr>"

definition calls_of :: "loads \<Rightarrow> team_env \<Rightarrow> string \<Rightarrow> string \<Rightarrow> json_call list" where
  "calls_of loads env role output =
    (let parsed = parse_tool_calls loads (str_arg env) output in if parsed \<noteq> [] then parsed else [fallback_call role output])"

definition jresult :: "ToolCallResult \<Rightarrow> json" where
  "jresult r = JObj [(''name'', JStr (tr_name r)), (''success'', JBool (tr_success r)), (''result'', tr_result r),
     (''error'', jopt (tr_error r)), (''duration_ms'', JInt (tr_duration_ms r))]"

text \<open>A registry and whether it carries an executor.\<close>

type_synonym toolbox = "registry \<times> bool"

definition tool_runner :: "team_env \<Rightarrow> loads \<Rightarrow> run_choice \<Rightarrow> toolbox \<Rightarrow> nat \<Rightarrow> string \<Rightarrow> string \<Rightarrow> team_world \<Rightarrow> team_world \<times> json list res" where
  "tool_runner env loads ch tb i role output w =
    (let calls = calls_of loads env role output in
     if snd tb then (case run_batch env (rc_fate ch i) (fst tb) calls (rc_order ch i calls) w of (w', rs) \<Rightarrow> (w', Inr (map jresult rs)))
     else run_parallel (fst tb) calls (rc_order ch i calls) w)"

text \<open>
  \<open>asyncio.gather\<close> over coroutines \<open>0\<close> to \<open>n - 1\<close>, which finish in the given order: the results by position, or the
  first exception to be raised; the other coroutines still finish.
\<close>

definition gather :: "(nat \<Rightarrow> 'w \<Rightarrow> 'w \<times> 'r res) \<Rightarrow> nat \<Rightarrow> nat list \<Rightarrow> 'w \<Rightarrow> 'w \<times> 'r list res" where
  "gather f n order w = (case run_in_order f order (w, replicate n None) of (w', rs) \<Rightarrow>
     (w', case first_error order rs of Some e \<Rightarrow> Inl e
        | None \<Rightarrow> rmap (\<lambda>r. case r of Some x \<Rightarrow> x | None \<Rightarrow> Inl (RuntimeFailure ''pending'')) rs))"

definition answer_and_tools ::
  "llm_fn \<Rightarrow> (string \<Rightarrow> string res) \<Rightarrow> (nat \<Rightarrow> string \<Rightarrow> string \<Rightarrow> team_world \<Rightarrow> team_world \<times> json list res)
    \<Rightarrow> nat \<Rightarrow> string \<Rightarrow> string \<Rightarrow> team_world \<Rightarrow> team_world \<times> (string \<times> json list) res" where
  "answer_and_tools llm sys runner i role user w = (case ask llm sys i role user of
     Inl e \<Rightarrow> (w, Inl e)
   | Inr output \<Rightarrow> (case runner i role output w of (w', r) \<Rightarrow> (w', rbind r (\<lambda>tc. Inr (output, tc)))))"

section \<open>The graph\<close>

record TeamGraphState =
  gs_specialist_outputs :: "(string, string) dict"
  gs_coordinator_output :: string
  gs_tool_results :: "json list"

definition specialist_prompt :: "string \<Rightarrow> string \<Rightarrow> string" where
  "specialist_prompt task role = ''As '' @ role @ '', contribute your perspective on: '' @ task"

definition coordinator_prompt :: "string \<Rightarrow> (string, string) dict \<Rightarrow> string" where
  "coordinator_prompt task outputs =
     ''Synthesize the team'' @ [CHR 0x27] @ ''s work.'' @ NL @ NL @ ''Task: '' @ task @ NL @ NL @ ''Team input:'' @ NL @
     py_join (NL @ NL) (map (\<lambda>(role, output). ''### '' @ role @ NL @ output) outputs)"

type_synonym runner = "nat \<Rightarrow> string \<Rightarrow> string \<Rightarrow> team_world \<Rightarrow> team_world \<times> json list res"

definition specialists_node ::
  "llm_fn \<Rightarrow> (string \<Rightarrow> string res) \<Rightarrow> runner \<Rightarrow> run_choice \<Rightarrow> string \<Rightarrow> string list \<Rightarrow> team_world
    \<Rightarrow> team_world \<times> ((string, string) dict \<times> json list) res" where
  "specialists_node llm sys runner ch task roles w =
    (let n = length roles in
     case gather (\<lambda>i. answer_and_tools llm sys runner i (roles ! i) (specialist_prompt task (roles ! i))) n (rc_finished ch 0 n) w of
       (w', Inl e) \<Rightarrow> (w', Inl e)
     | (w', Inr results) \<Rightarrow> (w', Inr
         (foldl (\<lambda>d i. dset (roles ! i) (fst (results ! i)) d) [] (rc_answered ch n),
          concat (map (\<lambda>i. snd (results ! i)) (rc_finished ch 0 n)))))"

definition coordinator_node :: "llm_fn \<Rightarrow> (string \<Rightarrow> string res) \<Rightarrow> string \<Rightarrow> nat \<Rightarrow> (string, string) dict \<Rightarrow> string res" where
  "coordinator_node llm sys task n outputs = ask llm sys n ''coordinator'' (coordinator_prompt task outputs)"

definition run_langgraph_team ::
  "llm_fn \<Rightarrow> (string \<Rightarrow> string res) \<Rightarrow> runner \<Rightarrow> run_choice \<Rightarrow> string \<Rightarrow> string list \<Rightarrow> team_world \<Rightarrow> team_world \<times> TeamGraphState res" where
  "run_langgraph_team llm sys runner ch task roles w =
    (case specialists_node llm sys runner ch task roles w of
       (w', Inl e) \<Rightarrow> (w', Inl e)
     | (w', Inr (outputs, tool_results)) \<Rightarrow> (w', rbind (coordinator_node llm sys task (length roles) outputs) (\<lambda>response.
         Inr \<lparr> gs_specialist_outputs = outputs, gs_coordinator_output = response, gs_tool_results = tool_results \<rparr>)))"

text \<open>The same without the graph library.\<close>

definition fallback_parallel_team ::
  "llm_fn \<Rightarrow> (string \<Rightarrow> string res) \<Rightarrow> runner \<Rightarrow> run_choice \<Rightarrow> string \<Rightarrow> string list \<Rightarrow> team_world \<Rightarrow> team_world \<times> TeamGraphState res" where
  "fallback_parallel_team llm sys runner ch task roles w =
    (case gather (\<lambda>i. answer_and_tools llm sys runner i (roles ! i) (specialist_prompt task (roles ! i))) (length roles) (rc_finished ch 0 (length roles)) w of
       (w', Inl e) \<Rightarrow> (w', Inl e)
     | (w', Inr results) \<Rightarrow>
         (let outputs = foldl (\<lambda>d i. dset (roles ! i) (fst (results ! i)) d) [] (rc_answered ch (length roles))
          in case ask llm sys (length roles) ''coordinator'' (coordinator_prompt task outputs) of
            Inl e \<Rightarrow> (w', Inl e)
          | Inr response \<Rightarrow> (w', Inr \<lparr> gs_specialist_outputs = outputs, gs_coordinator_output = response,
              gs_tool_results = concat (map (\<lambda>i. snd (results ! i)) (rc_finished ch 0 (length roles))) \<rparr>)))"

section \<open>The chain\<close>

record DelegationStep =
  ds_role :: string
  ds_task :: string
  ds_depends_on :: "string list"
  ds_parallel_group :: "string option"

definition step_prompt :: "(string, string) dict \<Rightarrow> DelegationStep \<Rightarrow> string" where
  "step_prompt completed s =
    (let bits = map (\<lambda>dep. ''['' @ dep @ '']: '' @ dget_or completed dep '''') (filter (\<lambda>dep. dget completed dep \<noteq> None) (ds_depends_on s));
         context = py_join NL bits
     in if context = [] then ds_task s else ds_task s @ NL @ NL @ ''Prior context:'' @ NL @ context)"

text \<open>
  The steps of a group run at once; a step without a group is a group of its own. A result is recorded under the
  task of the first step of the group that has the role.
\<close>

definition group_task :: "DelegationStep list \<Rightarrow> string \<Rightarrow> string" where
  "group_task grp role = (case find (\<lambda>s. ds_role s = role) grp of Some s \<Rightarrow> ds_task s | None \<Rightarrow> '''')"

definition record_results ::
  "DelegationStep list \<Rightarrow> (string \<times> json list) list \<Rightarrow> (string, string) dict \<times> WorkflowState \<Rightarrow> (string, string) dict \<times> WorkflowState" where
  "record_results grp results cs = foldl (\<lambda>(completed, st) (s, output, tc).
     (dset (ds_role s) output completed, add_step (ds_role s) (group_task grp (ds_role s)) output tc st)) cs (zip grp results)"

definition run_group ::
  "llm_fn \<Rightarrow> (string \<Rightarrow> string res) \<Rightarrow> runner \<Rightarrow> run_choice \<Rightarrow> nat \<Rightarrow> DelegationStep list \<Rightarrow> (string, string) dict \<Rightarrow> team_world
    \<Rightarrow> team_world \<times> (string \<times> json list) list res" where
  "run_group llm sys runner ch pos grp completed w =
     gather (\<lambda>i. answer_and_tools llm sys runner (pos + i) (ds_role (grp ! i)) (step_prompt completed (grp ! i))) (length grp)
       (rc_finished ch pos (length grp)) w"

definition group_of :: "DelegationStep \<Rightarrow> DelegationStep list \<Rightarrow> DelegationStep list" where
  "group_of s ss = (if ds_parallel_group s = None \<or> ds_parallel_group s = Some '''' then []
     else takeWhile (\<lambda>t. ds_parallel_group t = ds_parallel_group s) ss)"

function exec_steps ::
  "llm_fn \<Rightarrow> (string \<Rightarrow> string res) \<Rightarrow> runner \<Rightarrow> run_choice \<Rightarrow> nat \<Rightarrow> DelegationStep list \<Rightarrow> (string, string) dict \<Rightarrow> WorkflowState
    \<Rightarrow> team_world \<Rightarrow> team_world \<times> WorkflowState res" where
  "exec_steps llm sys runner ch pos [] completed st w = (w, Inr (complete_workflow st))"
| "exec_steps llm sys runner ch pos (s # ss) completed st w =
    (let grp = s # group_of s ss in
     case run_group llm sys runner ch pos grp completed w of
       (w', Inl e) \<Rightarrow> (w', Inl e)
     | (w', Inr results) \<Rightarrow> (case record_results grp results (completed, st) of (completed', st') \<Rightarrow>
         exec_steps llm sys runner ch (pos + length grp) (drop (length grp) (s # ss)) completed' st' w'))"
  by pat_completeness auto

termination
  by (relation "measure (\<lambda>(_, _, _, _, _, ss, _, _, _). length ss)") auto

definition execute_workflow_chain_parallel ::
  "llm_fn \<Rightarrow> (string \<Rightarrow> string res) \<Rightarrow> runner \<Rightarrow> run_choice \<Rightarrow> string \<Rightarrow> DelegationStep list \<Rightarrow> team_world \<Rightarrow> team_world \<times> WorkflowState res" where
  "execute_workflow_chain_parallel llm sys runner ch goal steps w = exec_steps llm sys runner ch 0 steps [] (new_workflow goal) w"

section \<open>The orchestrator\<close>

record TeamRunResult =
  rr_session_id :: string
  rr_response :: string
  rr_workflow :: WorkflowState
  rr_delegation_plan :: DelegationPlan
  rr_session :: TeamSessionState
  rr_tool_results :: "json list"
  rr_personalities_used :: "string list"
  rr_runtime_mode :: string

definition team_key :: "TeamSessionState \<Rightarrow> string" where
  "team_key s = (if tss_team_id s = '''' then ''default'' else tss_team_id s)"

definition audit :: "team_env \<Rightarrow> TeamSessionState \<Rightarrow> AuditEventType \<Rightarrow> string \<Rightarrow> string \<Rightarrow> string \<Rightarrow> team_world \<Rightarrow> team_world" where
  "audit env s ty actor recipient summary w =
     w\<lparr>tw_db := (tw_db w)\<lparr>wq_audit := record_event (te_clock env (tw_next w)) (te_uuid env (tw_next w)) (team_key s) ty actor
         (take 280 summary) (Some recipient) (Some (tss_session_id s)) None (wq_audit (tw_db w))\<rparr>,
       tw_next := Suc (tw_next w)\<rparr>"

definition finish_session :: "string \<Rightarrow> WorkflowState \<Rightarrow> team_world \<Rightarrow> TeamSessionState \<Rightarrow> TeamSessionState" where
  "finish_session response flow w s = push_message ''assistant'' response
     (s\<lparr>tss_active_workflow := Some flow, tss_memory_snapshot := mem_snapshot (tss_session_id s) (tw_memory w)\<rparr>)"

definition run_langgraph_path ::
  "team_env \<Rightarrow> llm_fn \<Rightarrow> (string \<Rightarrow> string res) \<Rightarrow> runner \<Rightarrow> run_choice \<Rightarrow> string \<Rightarrow> string list \<Rightarrow> TeamSessionState \<Rightarrow> team_world
    \<Rightarrow> team_world \<times> TeamRunResult res" where
  "run_langgraph_path env llm sys runner ch task specialists s w =
    (case run_langgraph_team llm sys runner ch task specialists w of
       (w1, Inl e) \<Rightarrow> (w1, Inl e)
     | (w1, Inr g) \<Rightarrow>
        (let outputs = gs_specialist_outputs g; response = gs_coordinator_output g;
             flow1 = foldl (\<lambda>flow (role, output). add_step role (''As '' @ role @ '', contribute on: '' @ task) output [] flow) (new_workflow task) outputs;
             w2 = foldl (\<lambda>w (role, output). audit env s DECISION role ''coordinator'' output w) w1 outputs;
             flow = complete_workflow (add_step ''coordinator'' (''Synthesize team work for: '' @ task) response [] flow1);
             w3 = audit env s REPLY ''coordinator'' ''user'' response w2
         in (w3, Inr \<lparr> rr_session_id = tss_session_id s, rr_response = response, rr_workflow = flow,
              rr_delegation_plan = select_delegation_plan task, rr_session = finish_session response flow w3 s,
              rr_tool_results = gs_tool_results g, rr_personalities_used = dkeys outputs @ [''coordinator''],
              rr_runtime_mode = ''langgraph'' \<rparr>)))"

definition chain_steps :: "string \<Rightarrow> string list \<Rightarrow> DelegationStep list res" where
  "chain_steps task specialists = rbind
     (rmap (\<lambda>r. case role_of r of None \<Rightarrow> Inl (ValueError (r @ '' is not a valid PersonalityRole''))
        | Some role \<Rightarrow> Inr \<lparr> ds_role = r, ds_task = ''As '' @ pa_name (archetype_of role) @ '', contribute your perspective on: '' @ task,
            ds_depends_on = [], ds_parallel_group = Some ''specialists'' \<rparr>) specialists)
     (\<lambda>steps. Inr (steps @ [\<lparr> ds_role = ''coordinator'',
        ds_task = ''Synthesize the team'' @ [CHR 0x27] @ ''s work into one cohesive answer for the user.'' @ NL @ NL @ ''User task: '' @ task,
        ds_depends_on = specialists, ds_parallel_group = None \<rparr>]))"

definition audit_step :: "team_env \<Rightarrow> TeamSessionState \<Rightarrow> WorkflowStepRecord \<Rightarrow> team_world \<Rightarrow> team_world" where
  "audit_step env s st = (if sr_role st = ''coordinator'' then audit env s REPLY (sr_role st) ''user'' (sr_output st)
     else audit env s DECISION (sr_role st) ''coordinator'' (sr_output st))"

definition run_chain_path ::
  "team_env \<Rightarrow> llm_fn \<Rightarrow> (string \<Rightarrow> string res) \<Rightarrow> runner \<Rightarrow> run_choice \<Rightarrow> string \<Rightarrow> string list \<Rightarrow> TeamSessionState \<Rightarrow> team_world
    \<Rightarrow> team_world \<times> TeamRunResult res" where
  "run_chain_path env llm sys runner ch task specialists s w =
    (case chain_steps task specialists of Inl e \<Rightarrow> (w, Inl e) | Inr steps \<Rightarrow>
     (case execute_workflow_chain_parallel llm sys runner ch task steps w of
       (w1, Inl e) \<Rightarrow> (w1, Inl e)
     | (w1, Inr flow) \<Rightarrow>
        (let response = (if wf_steps flow = [] then '''' else sr_output (last (wf_steps flow))) in
         (fold (audit_step env s) (wf_steps flow) w1,
          Inr \<lparr> rr_session_id = tss_session_id s, rr_response = response, rr_workflow = flow,
              rr_delegation_plan = select_delegation_plan task, rr_session = finish_session response flow w1 s,
              rr_tool_results = concat (map sr_tool_calls (wf_steps flow)), rr_personalities_used = map sr_role (wf_steps flow),
              rr_runtime_mode = ''workflow_chain'' \<rparr>))))"

definition run_team ::
  "team_env \<Rightarrow> loads \<Rightarrow> llm_fn \<Rightarrow> run_choice \<Rightarrow> bool \<Rightarrow> PersonaProfile \<Rightarrow> toolbox option \<Rightarrow> string \<Rightarrow> TeamSessionState \<Rightarrow> team_world
    \<Rightarrow> team_world \<times> TeamRunResult res" where
  "run_team env loads llm ch use_langgraph base tools task s w =
    (let s1 = push_message ''user'' task s;
         specialists = dp_specialists (select_delegation_plan task);
         (nodes, top) = top_of_chart (team_key s) (wq_nodes (tw_db w));
         w1 = audit env s INSTRUCTION ''user'' (case top of Some n \<Rightarrow> o_role n | None \<Rightarrow> ''coordinator'') task
                (w\<lparr>tw_db := (tw_db w)\<lparr>wq_nodes := nodes\<rparr>\<rparr>);
         tb = (case tools of Some t \<Rightarrow> t | None \<Rightarrow> (build_default_registry env (tss_session_id s), False));
         runner = tool_runner env loads ch tb;
         sys = system_prompt_for_role (te_clock env (tw_next w)) (te_uuid env (tw_next w)) base
     in if use_langgraph then run_langgraph_path env llm sys runner ch task specialists s1 w1
        else run_chain_path env llm sys runner ch task specialists s1 w1)"

section \<open>Gathering\<close>

definition perm_of :: "nat \<Rightarrow> nat list \<Rightarrow> bool" where
  "perm_of n order \<longleftrightarrow> distinct order \<and> set order = {..<n}"

text \<open>What the event loop promises: everything that was started is answered and finishes, once.\<close>

definition fair :: "run_choice \<Rightarrow> bool" where
  "fair ch \<longleftrightarrow> (\<forall>n. perm_of n (rc_answered ch n)) \<and> (\<forall>pos n. perm_of n (rc_finished ch pos n))"

lemma rmap_Inr: "rmap f xs = Inr ys \<Longrightarrow> length ys = length xs \<and> (\<forall>i < length xs. f (xs ! i) = Inr (ys ! i))"
proof (induction xs arbitrary: ys)
  case (Cons x xs)
  then obtain y zs where z: "f x = Inr y" "rmap f xs = Inr zs" "ys = y # zs" by (auto simp: rbind_eq_Inr)
  have "\<forall>i < Suc (length xs). f ((x # xs) ! i) = Inr ((y # zs) ! i)"
    using z Cons(1) by (auto simp: nth_Cons split: nat.split)
  then show ?case using z Cons(1) by auto
qed simp

lemma rmap_total: "(\<forall>x \<in> set xs. \<exists>y. f x = Inr y) \<Longrightarrow> \<exists>ys. rmap f xs = Inr ys"
  by (induction xs) auto

lemma first_error_None: "first_error order rs = None \<longleftrightarrow> (\<forall>i \<in> set order. \<forall>e. rs ! i \<noteq> Some (Inl e))"
proof -
  have "first_error order rs = None \<longleftrightarrow> filter (\<lambda>i. case rs ! i of Some (Inl _) \<Rightarrow> True | _ \<Rightarrow> False) order = []"
    unfolding first_error_def
    by (auto split: list.splits option.splits sum.splits simp: filter_eq_Cons_iff)
  then show ?thesis by (auto simp: filter_empty_conv split: option.splits sum.splits)
qed

lemma first_error_Some: "first_error order rs = Some e \<Longrightarrow> \<exists>i \<in> set order. rs ! i = Some (Inl e)"
  unfolding first_error_def
  by (auto split: list.splits option.splits sum.splits simp: filter_eq_Cons_iff)

context step_preorder
begin

lemma gather_steps:
  assumes "\<And>i w. R w (fst (f i w))"
  shows "R w (fst (gather f n order w))"
  using run_in_order_steps [of f "(w, replicate n None)" order] assms by (auto simp: gather_def split: prod.split)

end

lemma gather_cases:
  assumes "perm_of n order" "gather f n order w = (w', r)"
  shows "case r of Inr xs \<Rightarrow> length xs = n \<and> (\<forall>i < n. \<exists>v. snd (f i v) = Inr (xs ! i))
    | Inl e \<Rightarrow> \<exists>i < n. \<exists>v. snd (f i v) = Inl e"
proof -
  obtain rs where rs: "run_in_order f order (w, replicate n None) = (w', rs)"
    using assms(2) by (auto simp: gather_def split: prod.splits)
  have full: "length rs = n \<and> (\<forall>i < n. \<exists>q. rs ! i = Some q \<and> (\<exists>v. snd (f i v) = q))"
    by (rule run_in_order_complete [OF _ _ rs]) (use assms(1) in \<open>auto simp: perm_of_def\<close>)
  show ?thesis
  proof (cases "first_error order rs")
    case (Some e)
    then have "r = Inl e" using assms(2) by (simp add: gather_def rs)
    moreover obtain i where "i < n" "rs ! i = Some (Inl e)"
      using first_error_Some [OF Some] assms(1) by (auto simp: perm_of_def)
    moreover have "\<exists>v. snd (f i v) = Inl e" using full calculation(2,3) by fastforce
    ultimately show ?thesis by auto
  next
    case None
    then have r: "r = rmap (\<lambda>r. case r of Some x \<Rightarrow> x | None \<Rightarrow> Inl (RuntimeFailure ''pending'')) rs"
      using assms(2) by (simp add: gather_def rs)
    have ok: "\<exists>x. rs ! i = Some (Inr x) \<and> (\<exists>v. snd (f i v) = Inr x)" if i: "i < n" for i
    proof -
      obtain q where "rs ! i = Some q" "\<exists>v. snd (f i v) = q" using full i by blast
      moreover have "rs ! i \<noteq> Some (Inl e)" for e using None i assms(1) by (simp add: first_error_None perm_of_def)
      ultimately show ?thesis by (cases q) auto
    qed
    then have "\<exists>ys. r = Inr ys"
      unfolding r using full by (intro rmap_total) (fastforce simp: in_set_conv_nth)
    then obtain ys where y: "r = Inr ys" by blast
    have len: "length ys = n" using rmap_Inr [OF r [symmetric, unfolded y]] full by simp
    have "\<exists>v. snd (f i v) = Inr (ys ! i)" if i: "i < n" for i
    proof -
      obtain x v where x: "rs ! i = Some (Inr x)" "snd (f i v) = Inr x" using ok [OF i] by blast
      moreover have "ys ! i = x" using rmap_Inr [OF r [symmetric, unfolded y]] full i x(1) by auto
      ultimately show ?thesis by blast
    qed
    then show ?thesis by (simp add: y len)
  qed
qed

section \<open>Specialists and coordinator\<close>

text \<open>The answers of a round: what the model says to each of the prompts, position by position.\<close>

definition answers_to :: "llm_fn \<Rightarrow> (string \<Rightarrow> string res) \<Rightarrow> nat \<Rightarrow> (string \<times> string) list \<Rightarrow> string list \<Rightarrow> bool" where
  "answers_to llm sys pos prompts answers \<longleftrightarrow> length answers = length prompts \<and>
     (\<forall>i < length prompts. ask llm sys (pos + i) (fst (prompts ! i)) (snd (prompts ! i)) = Inr (answers ! i))"

lemma answer_and_tools_answer:
  "snd (answer_and_tools llm sys runner i role user w) = Inr (output, tc) \<Longrightarrow> ask llm sys i role user = Inr output"
  by (auto simp: answer_and_tools_def rbind_eq_Inr split: sum.splits prod.splits)

lemma gather_answers:
  assumes "perm_of n order"
    "gather (\<lambda>i. answer_and_tools llm sys runner (pos + i) (role i) (user i)) n order w = (w', Inr results)"
  shows "length results = n \<and> (\<forall>i < n. ask llm sys (pos + i) (role i) (user i) = Inr (fst (results ! i)))"
  using gather_cases [OF assms] by simp (metis answer_and_tools_answer prod.collapse)

lemma foldl_dset_distinct:
  "distinct (map g order) \<Longrightarrow> set (dkeys d) \<inter> g ` set order = {} \<Longrightarrow>
     foldl (\<lambda>d i. dset (g i) (h i) d) d order = d @ map (\<lambda>i. (g i, h i)) order"
proof (induction order arbitrary: d)
  case (Cons i order)
  have "dset (g i) (h i) d = d @ [(g i, h i)]"
  proof -
    have "g i \<notin> set (dkeys d)" using Cons(3) by auto
    then show ?thesis by (induction d) (auto simp: dkeys_def)
  qed
  moreover have "set (dkeys (d @ [(g i, h i)])) \<inter> g ` set order = {}"
    using Cons(2,3) by (auto simp: dkeys_def)
  ultimately show ?case using Cons by simp
qed simp

definition specialist_prompts :: "string \<Rightarrow> string list \<Rightarrow> (string \<times> string) list" where
  "specialist_prompts task roles = map (\<lambda>r. (r, specialist_prompt task r)) roles"

lemma specialists_node_outputs:
  assumes "fair ch" "distinct roles" "specialists_node llm sys runner ch task roles w = (w', Inr (outputs, trs))"
  shows "\<exists>answers. answers_to llm sys 0 (specialist_prompts task roles) answers \<and>
    outputs = map (\<lambda>i. (roles ! i, answers ! i)) (rc_answered ch (length roles))"
proof -
  let ?n = "length roles"
  obtain results where r: "gather (\<lambda>i. answer_and_tools llm sys runner i (roles ! i) (specialist_prompt task (roles ! i))) ?n
      (rc_finished ch 0 ?n) w = (w', Inr results)"
    and o: "outputs = foldl (\<lambda>d i. dset (roles ! i) (fst (results ! i)) d) [] (rc_answered ch ?n)"
    using assms(3) by (auto simp: specialists_node_def Let_def split: prod.splits sum.splits)
  have perms: "perm_of ?n (rc_finished ch 0 ?n)" "perm_of ?n (rc_answered ch ?n)" using assms(1) by (auto simp: fair_def)
  have got: "length results = ?n \<and> (\<forall>i < ?n. ask llm sys i (roles ! i) (specialist_prompt task (roles ! i)) = Inr (fst (results ! i)))"
    using gather_answers [OF perms(1), where pos = 0, unfolded add_0, OF r] .
  then have "answers_to llm sys 0 (specialist_prompts task roles) (map fst results)"
    by (simp add: answers_to_def specialist_prompts_def)
  moreover have "outputs = map (\<lambda>i. (roles ! i, map fst results ! i)) (rc_answered ch ?n)"
  proof -
    have "distinct (map (\<lambda>i. roles ! i) (rc_answered ch ?n))"
      using perms(2) assms(2) by (auto simp: perm_of_def distinct_map inj_on_def nth_eq_iff_index_eq)
    then show ?thesis unfolding o using perms(2) got by (simp add: foldl_dset_distinct dkeys_def perm_of_def)
  qed
  ultimately show ?thesis by blast
qed

lemma graph_run_answers:
  assumes "fair ch" "distinct roles" "run_langgraph_team llm sys runner ch task roles w = (w', Inr g)"
  shows "\<exists>answers. answers_to llm sys 0 (specialist_prompts task roles) answers \<and>
    mset (gs_specialist_outputs g) = mset (zip roles answers) \<and>
    ask llm sys (length roles) ''coordinator'' (coordinator_prompt task (gs_specialist_outputs g)) = Inr (gs_coordinator_output g)"
proof -
  obtain trs where n: "specialists_node llm sys runner ch task roles w = (w', Inr (gs_specialist_outputs g, trs))"
    and c: "ask llm sys (length roles) ''coordinator'' (coordinator_prompt task (gs_specialist_outputs g)) = Inr (gs_coordinator_output g)"
    using assms(3) by (auto simp: run_langgraph_team_def coordinator_node_def rbind_eq_Inr split: prod.splits sum.splits)
  obtain answers where a: "answers_to llm sys 0 (specialist_prompts task roles) answers"
    and o: "gs_specialist_outputs g = map (\<lambda>i. (roles ! i, answers ! i)) (rc_answered ch (length roles))"
    using specialists_node_outputs [OF assms(1,2) n] by blast
  have "mset (rc_answered ch (length roles)) = mset [0..<length roles]"
    using assms(1) by (subst set_eq_iff_mset_eq_distinct [symmetric]) (auto simp: fair_def perm_of_def)
  then have "mset (gs_specialist_outputs g) = mset (map (\<lambda>i. (roles ! i, answers ! i)) [0..<length roles])"
    by (simp add: o)
  moreover have "map (\<lambda>i. (roles ! i, answers ! i)) [0..<length roles] = zip roles answers"
    using a by (intro nth_equalityI) (auto simp: answers_to_def specialist_prompts_def)
  ultimately show ?thesis using a c by auto
qed

text \<open>With and without the graph library a team does the same.\<close>

theorem fallback_same_as_graph:
  "fallback_parallel_team llm sys runner ch task roles w = run_langgraph_team llm sys runner ch task roles w"
  by (simp add: fallback_parallel_team_def run_langgraph_team_def specialists_node_def coordinator_node_def rbind_def Let_def
      split: prod.split sum.split)

section \<open>The chain does not depend on the order\<close>

definition flow_view :: "WorkflowState \<Rightarrow> (string \<times> string \<times> string) list" where
  "flow_view st = map (\<lambda>r. (sr_role r, sr_task r, sr_output r)) (wf_steps st)"

lemma flow_view_add_step [simp]: "flow_view (add_step role task output tc st) = flow_view st @ [(role, task, output)]"
  by (simp add: flow_view_def add_step_def)

lemma flow_view_complete [simp]: "flow_view (complete_workflow st) = flow_view st"
  by (simp add: flow_view_def complete_workflow_def)

lemma record_results_aux:
  "foldl (\<lambda>(completed, st) (s, output, tc).
     (dset (ds_role s) output completed, add_step (ds_role s) (group_task grp (ds_role s)) output tc st)) (completed, st) (zip ss rs)
     = (completed', st') \<Longrightarrow>
   completed' = foldl (\<lambda>d (s, a). dset (ds_role s) a d) completed (zip ss (map fst rs)) \<and>
   flow_view st' = flow_view st @ map (\<lambda>(s, a). (ds_role s, group_task grp (ds_role s), a)) (zip ss (map fst rs))"
proof (induction ss arbitrary: rs completed st)
  case (Cons s ss)
  show ?case
  proof (cases rs)
    case (Cons r rs')
    obtain a tc where r: "r = (a, tc)" by force
    show ?thesis using Cons.IH [of "dset (ds_role s) a completed" "add_step (ds_role s) (group_task grp (ds_role s)) a tc st" rs'] Cons.prems
      by (simp add: Cons r)
  qed (use Cons.prems in simp)
qed simp

lemma record_results_view:
  "record_results grp rs (completed, st) = (completed', st') \<Longrightarrow>
     completed' = foldl (\<lambda>d (s, a). dset (ds_role s) a d) completed (zip grp (map fst rs)) \<and>
     flow_view st' = flow_view st @ map (\<lambda>(s, a). (ds_role s, group_task grp (ds_role s), a)) (zip grp (map fst rs))"
  unfolding record_results_def by (rule record_results_aux)

lemma run_group_answers:
  assumes "fair ch" "run_group llm sys runner ch pos grp completed w = (w', Inr results)"
  shows "length results = length grp \<and>
    (\<forall>i < length grp. ask llm sys (pos + i) (ds_role (grp ! i)) (step_prompt completed (grp ! i)) = Inr (fst (results ! i)))"
proof -
  have "perm_of (length grp) (rc_finished ch pos (length grp))" using assms(1) by (simp add: fair_def)
  from gather_answers [OF this assms(2) [unfolded run_group_def]] show ?thesis .
qed

lemma run_group_same_answers:
  assumes "fair ch" "fair ch'" "run_group llm sys runner ch pos grp completed w = (w1, Inr rs)"
    "run_group llm sys runner' ch' pos grp completed w' = (w2, Inr rs')"
  shows "map fst rs = map fst rs'"
  using run_group_answers [OF assms(1,3)] run_group_answers [OF assms(2,4)]
  by (intro nth_equalityI) auto

lemma exec_steps_same_view:
  assumes "exec_steps llm sys runner ch pos ss completed st w = (w1, Inr f)"
    "exec_steps llm sys runner' ch' pos ss completed st' w' = (w2, Inr f')"
    "fair ch" "fair ch'" "flow_view st = flow_view st'"
  shows "flow_view f = flow_view f'"
  using assms
proof (induction llm sys runner ch pos ss completed st w arbitrary: st' w' rule: exec_steps.induct)
  case (2 llm sys runner ch pos s ss completed st w)
  let ?grp = "s # group_of s ss"
  obtain wa rs where g: "run_group llm sys runner ch pos ?grp completed w = (wa, Inr rs)"
    using 2(2) by (auto simp: Let_def split: prod.splits sum.splits)
  obtain wb rs' where g': "run_group llm sys runner' ch' pos ?grp completed w' = (wb, Inr rs')"
    using 2(3) by (auto simp: Let_def split: prod.splits sum.splits)
  obtain ca sa where r: "record_results ?grp rs (completed, st) = (ca, sa)" by force
  obtain cb sb where r': "record_results ?grp rs' (completed, st') = (cb, sb)" by force
  have same: "map fst rs = map fst rs'" by (rule run_group_same_answers [OF 2(4,5) g g'])
  have "ca = cb" "flow_view sa = flow_view sb"
    using record_results_view [OF r] record_results_view [OF r'] 2(6) same by auto
  then show ?case
    using 2(1) [OF refl g [symmetric] refl r [symmetric], of sb wb] 2(2-5) g g' r r' by (simp add: Let_def)
qed (metis exec_steps.simps(1) flow_view_complete prod.inject sum.inject(2))

section \<open>What a run leaves behind\<close>

definition isolated :: "string \<Rightarrow> team_world \<Rightarrow> team_world \<Rightarrow> bool" where
  "isolated sid w w' \<longleftrightarrow>
     (\<forall>s. s \<noteq> sid \<longrightarrow> mem_bucket s (tw_memory w') = mem_bucket s (tw_memory w)) \<and>
     (\<forall>s. s \<noteq> sid \<longrightarrow> mem_bucket s (rs_hashes (tw_redis w')) = mem_bucket s (rs_hashes (tw_redis w))) \<and>
     new_tasks_of sid (wq_tasks (tw_db w)) (wq_tasks (tw_db w'))"

definition event_view :: "AuditEvent \<Rightarrow> AuditEventType \<times> string \<times> string option" where
  "event_view e = (ae_event_type e, ae_actor e, ae_recipient e)"

text \<open>The run logs exactly these events, all of the session \<open>sid\<close>, and is otherwise isolated.\<close>

definition logged :: "string \<Rightarrow> (AuditEventType \<times> string \<times> string option) list \<Rightarrow> team_world \<Rightarrow> team_world \<Rightarrow> bool" where
  "logged sid evs w w' \<longleftrightarrow> isolated sid w w' \<and>
     (\<exists>new. wq_audit (tw_db w') = wq_audit (tw_db w) @ new \<and> map event_view new = evs \<and> (\<forall>e \<in> set new. ae_session_id e = Some sid))"

lemma logged_trans: "logged sid es a b \<Longrightarrow> logged sid fs b c \<Longrightarrow> logged sid (es @ fs) a c"
  unfolding logged_def isolated_def by (auto elim: new_tasks_trans)

lemma logged_confined: "confined sid w w' \<Longrightarrow> logged sid [] w w'"
  by (auto simp: logged_def isolated_def confined_def)

lemma logged_audit: "tss_session_id s = sid \<Longrightarrow> logged sid [(ty, actor, Some recipient)] w (audit env s ty actor recipient summary w)"
  by (auto simp: logged_def isolated_def audit_def record_event_def event_view_def)

lemma logged_nodes: "logged sid [] w (w\<lparr>tw_db := (tw_db w)\<lparr>wq_nodes := n\<rparr>\<rparr>)"
  by (auto simp: logged_def isolated_def)

lemma logged_audits:
  assumes "tss_session_id s = sid"
  shows "logged sid (map (\<lambda>(role, _). (DECISION, role, Some ''coordinator'')) outs) w
    (foldl (\<lambda>w (role, output). audit env s DECISION role ''coordinator'' output w) w outs)"
proof (induction outs arbitrary: w)
  case (Cons o' outs)
  then show ?case
    using logged_trans [OF logged_audit [OF assms]] by (auto split: prod.split) (metis append_Cons append_Nil)
qed (simp add: logged_confined)

definition step_event :: "string \<Rightarrow> AuditEventType \<times> string \<times> string option" where
  "step_event role = (if role = ''coordinator'' then (REPLY, role, Some ''user'') else (DECISION, role, Some ''coordinator''))"

lemma logged_audit_steps:
  assumes "tss_session_id s = sid"
  shows "logged sid (map (\<lambda>st. step_event (sr_role st)) steps) w (fold (audit_step env s) steps w)"
proof (induction steps arbitrary: w)
  case (Cons st steps)
  have "logged sid [step_event (sr_role st)] w (audit_step env s st w)"
    by (simp add: audit_step_def step_event_def logged_audit [OF assms])
  from logged_trans [OF this Cons] show ?case by simp
qed (simp add: logged_confined)

section \<open>Runs of the tools and of the specialists\<close>

lemma confined_runner:
  "confined_registry sid (fst tb) \<Longrightarrow> confined sid w (fst (tool_runner env loads ch tb i role output w))"
  using confined_run_batch [of sid "fst tb" w] confined_run_parallel [of sid "fst tb" w]
  by (auto simp: tool_runner_def Let_def split: prod.split) (metis fst_conv)

lemma confined_answer:
  assumes "\<And>i role output w. confined sid w (fst (runner i role output w))"
  shows "confined sid w (fst (answer_and_tools llm sys runner i role user w))"
  using assms by (auto simp: answer_and_tools_def split: sum.split prod.split) (metis fst_conv)

lemma confined_run_group:
  assumes "\<And>i role output w. confined sid w (fst (runner i role output w))"
  shows "confined sid w (fst (run_group llm sys runner ch pos grp completed w))"
  unfolding run_group_def by (rule conf.gather_steps) (rule confined_answer [OF assms])

lemma confined_specialists:
  assumes "\<And>i role output w. confined sid w (fst (runner i role output w))"
  shows "confined sid w (fst (specialists_node llm sys runner ch task roles w))"
proof -
  have "confined sid w (fst (gather (\<lambda>i. answer_and_tools llm sys runner i (roles ! i) (specialist_prompt task (roles ! i)))
      (length roles) (rc_finished ch 0 (length roles)) w))"
    by (rule conf.gather_steps) (rule confined_answer [OF assms])
  then show ?thesis by (auto simp: specialists_node_def Let_def split: prod.split sum.split)
qed

lemma confined_exec_steps:
  assumes "\<And>i role output w. confined sid w (fst (runner i role output w))"
  shows "confined sid w (fst (exec_steps llm sys runner ch pos ss completed st w))"
  using assms
proof (induction llm sys runner ch pos ss completed st w rule: exec_steps.induct)
  case (2 llm sys runner ch pos s ss completed st w)
  let ?grp = "s # group_of s ss"
  obtain w' r where g: "run_group llm sys runner ch pos ?grp completed w = (w', r)" by force
  have "confined sid w (fst (run_group llm sys runner ch pos ?grp completed w))" by (rule confined_run_group) (rule 2(2))
  then have c: "confined sid w w'" by (simp add: g)
  show ?case
  proof (cases r)
    case (Inr results)
    obtain ca sa where rr: "record_results ?grp results (completed, st) = (ca, sa)" by force
    show ?thesis using 2(1) [OF refl g [symmetric] Inr rr [symmetric] 2(2)] confined_trans [OF c] by (simp add: g Inr rr)
  qed (simp add: g c)
qed simp

lemma roles_of_view: "map sr_role (wf_steps st) = map fst (flow_view st)"
  by (simp add: flow_view_def)

lemma map_fst_zip_steps: "length as = length grp \<Longrightarrow> map (fst \<circ> (\<lambda>(s, a). (ds_role s, g s, a))) (zip grp as) = map ds_role grp"
  by (intro nth_equalityI) auto

lemma group_prefix: "s # group_of s ss = take (length (s # group_of s ss)) (s # ss)"
  by (simp add: group_of_def) (metis takeWhile_eq_take)

lemma exec_steps_roles:
  assumes "fair ch" "exec_steps llm sys runner ch pos ss completed st w = (w', Inr f)"
  shows "map sr_role (wf_steps f) = map sr_role (wf_steps st) @ map ds_role ss \<and> wf_status f = ''completed''"
  using assms
proof (induction llm sys runner ch pos ss completed st w rule: exec_steps.induct)
  case (2 llm sys runner ch pos s ss completed st w)
  let ?grp = "s # group_of s ss"
  obtain wa rs where g: "run_group llm sys runner ch pos ?grp completed w = (wa, Inr rs)"
    using 2(3) by (auto simp: Let_def split: prod.splits sum.splits)
  obtain ca sa where r: "record_results ?grp rs (completed, st) = (ca, sa)" by force
  have "length rs = length ?grp" using run_group_answers [OF 2(2) g] by simp
  then have "map sr_role (wf_steps sa) = map sr_role (wf_steps st) @ map ds_role ?grp"
    using record_results_view [OF r] by (simp only: roles_of_view) (simp only: map_append map_map map_fst_zip_steps length_map)
  moreover have "map ds_role ?grp @ map ds_role (drop (length ?grp) (s # ss)) = map ds_role (s # ss)"
    by (subst (1) group_prefix) (simp only: map_append [symmetric] append_take_drop_id)
  ultimately show ?case
    using 2(1) [OF refl g [symmetric] refl r [symmetric] 2(2)] 2(3) g r by (simp add: Let_def)
qed (auto simp: complete_workflow_def)

lemma chain_steps_plan:
  assumes "set roles \<subseteq> range role_value"
  shows "\<exists>steps. chain_steps task roles = Inr steps \<and> map ds_role steps = roles @ [''coordinator'']"
proof -
  let ?f = "\<lambda>r. case role_of r of None \<Rightarrow> Inl (ValueError (r @ '' is not a valid PersonalityRole''))
        | Some role \<Rightarrow> Inr \<lparr> ds_role = r, ds_task = ''As '' @ pa_name (archetype_of role) @ '', contribute your perspective on: '' @ task,
            ds_depends_on = [], ds_parallel_group = Some ''specialists'' \<rparr>"
  have "role_of (role_value r) \<noteq> None" for r by (cases r) (simp_all add: role_of_def)
  then have "\<exists>steps. rmap ?f roles = Inr steps \<and> map ds_role steps = roles"
    using assms
  proof (induction roles)
    case (Cons r roles)
    then obtain steps where "rmap ?f roles = Inr steps" "map ds_role steps = roles" by auto
    moreover have "role_of r \<noteq> None" using Cons(2,3) by auto
    ultimately show ?case by auto
  qed simp
  then show ?thesis by (auto simp: chain_steps_def)
qed

section \<open>The outcome of a run\<close>

definition run_shape :: "string \<Rightarrow> string list \<Rightarrow> TeamSessionState \<Rightarrow> TeamRunResult \<Rightarrow> bool" where
  "run_shape task roles s res \<longleftrightarrow>
    (\<exists>order. mset order = mset roles \<and> rr_personalities_used res = order @ [''coordinator'']) \<and>
    map sr_role (wf_steps (rr_workflow res)) = rr_personalities_used res \<and>
    rr_response res = sr_output (last (wf_steps (rr_workflow res))) \<and>
    wf_status (rr_workflow res) = ''completed'' \<and> tss_active_workflow (rr_session res) = Some (rr_workflow res) \<and>
    tss_messages (rr_session res) = tss_messages s @ [(''assistant'', rr_response res)] \<and>
    rr_session_id res = tss_session_id s \<and> rr_delegation_plan res = select_delegation_plan task"

lemma wf_steps_simps [simp]:
  "wf_steps (add_step role task output tc st) =
     wf_steps st @ [\<lparr> sr_role = role, sr_task = task, sr_output = output, sr_tool_calls = tc \<rparr>]"
  "wf_steps (complete_workflow st) = wf_steps st" "wf_status (complete_workflow st) = ''completed''" "wf_steps (new_workflow g) = []"
  by (simp_all add: add_step_def complete_workflow_def new_workflow_def)

lemma steps_foldl:
  "wf_steps (foldl (\<lambda>flow (role, output). add_step role (g role) output [] flow) flow outs) =
     wf_steps flow @ map (\<lambda>(role, output). \<lparr> sr_role = role, sr_task = g role, sr_output = output, sr_tool_calls = [] \<rparr>) outs"
  by (induction outs arbitrary: flow) auto

lemma langgraph_path_record:
  assumes "fair ch" "distinct roles" "tss_session_id s = sid" "\<And>i role output w. confined sid w (fst (runner i role output w))"
    "run_langgraph_path env llm sys runner ch task roles s w = (w', r)" "''coordinator'' \<notin> set roles"
  shows "case r of Inl e \<Rightarrow> logged sid [] w w'
    | Inr res \<Rightarrow> run_shape task roles s res \<and> logged sid (map step_event (rr_personalities_used res)) w w'"
proof -
  obtain w1 q where t: "run_langgraph_team llm sys runner ch task roles w = (w1, q)" by force
  have "confined sid w (fst (specialists_node llm sys runner ch task roles w))" by (rule confined_specialists) (rule assms(4))
  then have c: "confined sid w w1"
    using t by (auto simp: run_langgraph_team_def split: prod.splits sum.splits)
  show ?thesis
  proof (cases q)
    case (Inl e)
    then show ?thesis using assms(5) c by (auto simp: run_langgraph_path_def t intro: logged_confined)
  next
    case (Inr g)
    let ?outs = "gs_specialist_outputs g"
    have m: "mset (dkeys ?outs) = mset roles"
    proof -
      obtain answers where "length answers = length roles" "mset ?outs = mset (zip roles answers)"
        using graph_run_answers [OF assms(1,2) t [unfolded Inr]] by (auto simp: answers_to_def specialist_prompts_def)
      then show ?thesis unfolding dkeys_def by (metis map_fst_zip mset_map)
    qed
    then have "''coordinator'' \<notin> set (dkeys ?outs)" using assms(6) by (metis mset_eq_setD)
    then have ev: "map (\<lambda>(role, _). (DECISION, role, Some ''coordinator'')) ?outs = map step_event (dkeys ?outs)"
      by (force simp: dkeys_def step_event_def case_prod_beta)
    let ?w2 = "foldl (\<lambda>w (role, output). audit env s DECISION role ''coordinator'' output w) w1 ?outs"
    have "logged sid (map step_event (dkeys ?outs)) w ?w2"
      using logged_trans [OF logged_confined [OF c] logged_audits [OF assms(3), of ?outs w1 env]] by (simp add: ev)
    from logged_trans [OF this logged_audit [OF assms(3), of REPLY "''coordinator''" "''user''" ?w2 env "gs_coordinator_output g"]]
    show ?thesis
      using assms(5) m
      by (auto simp: run_langgraph_path_def t Inr Let_def run_shape_def finish_session_def push_message_def
          steps_foldl step_event_def dkeys_def case_prod_beta)
  qed
qed

lemma chain_path_record:
  assumes "fair ch" "set roles \<subseteq> range role_value" "tss_session_id s = sid" "\<And>i role output w. confined sid w (fst (runner i role output w))"
    "run_chain_path env llm sys runner ch task roles s w = (w', r)"
  shows "case r of Inl e \<Rightarrow> logged sid [] w w'
    | Inr res \<Rightarrow> run_shape task roles s res \<and> logged sid (map step_event (rr_personalities_used res)) w w'"
proof -
  obtain steps where st: "chain_steps task roles = Inr steps" "map ds_role steps = roles @ [''coordinator'']"
    using chain_steps_plan [OF assms(2)] by blast
  obtain w1 q where x: "exec_steps llm sys runner ch 0 steps [] (new_workflow task) w = (w1, q)" by force
  have "confined sid w (fst (exec_steps llm sys runner ch 0 steps [] (new_workflow task) w))" by (rule confined_exec_steps) (rule assms(4))
  then have c: "confined sid w w1" by (simp add: x)
  show ?thesis
  proof (cases q)
    case (Inl e)
    then show ?thesis using assms(5) c by (auto simp: run_chain_path_def st x execute_workflow_chain_parallel_def intro: logged_confined)
  next
    case (Inr f)
    have f: "map sr_role (wf_steps f) = roles @ [''coordinator'']" "wf_status f = ''completed''"
      using exec_steps_roles [OF assms(1) x [unfolded Inr]] st by (auto simp: new_workflow_def)
then have ne: "wf_steps f \<noteq> []" by auto
    have "logged sid (map step_event (map sr_role (wf_steps f))) w (fold (audit_step env s) (wf_steps f) w1)"
      using logged_trans [OF logged_confined [OF c] logged_audit_steps [OF assms(3), of "wf_steps f" w1 env]] by (simp add: comp_def)
    moreover have "w' = fold (audit_step env s) (wf_steps f) w1"
      "r = Inr \<lparr> rr_session_id = tss_session_id s, rr_response = sr_output (last (wf_steps f)), rr_workflow = f,
              rr_delegation_plan = select_delegation_plan task, rr_session = finish_session (sr_output (last (wf_steps f))) f w1 s,
              rr_tool_results = concat (map sr_tool_calls (wf_steps f)), rr_personalities_used = map sr_role (wf_steps f),
              rr_runtime_mode = ''workflow_chain'' \<rparr>"
      using assms(5) ne by (simp_all add: run_chain_path_def st x Inr execute_workflow_chain_parallel_def Let_def)
    ultimately show ?thesis using f by (simp add: run_shape_def finish_session_def push_message_def)
  qed
qed

section \<open>System prompts always exist\<close>

lemma fl_le_one: "x \<le> 1 \<Longrightarrow> fl x \<le> 1"
  using fl_mono [of x 1] by simp

lemma overrides_unit: "(k, v) \<in> set (pa_knob_overrides (archetype_of r)) \<Longrightarrow> 0 \<le> v \<and> v \<le> 1"
  by (cases r) (auto simp: archetype_of_def dget_or_def dget_def BUILTIN_ARCHETYPES_def archetype_coordinator_def
      archetype_analyst_def archetype_creative_def archetype_executor_def archetype_empath_def fl_nonneg fl_le_one)

lemma archetype_texts: "length (pa_name (archetype_of r)) \<le> 200" "length (pa_tagline (archetype_of r)) \<le> 2000"
  by (cases r; simp add: archetype_of_def dget_or_def dget_def BUILTIN_ARCHETYPES_def archetype_coordinator_def
      archetype_analyst_def archetype_creative_def archetype_executor_def archetype_empath_def)+

lemma knob_default_unit: "0 \<le> knob_field_default k \<and> knob_field_default k \<le> 1"
  by (simp add: knob_field_default_def fl_nonneg fl_le_one)

lemma merged_knob_unit:
  assumes "valid_profile base"
  shows "0 \<le> knob_or_default (dmerge (get_knobs base) (pa_knob_overrides (archetype_of r))) k \<and>
    knob_or_default (dmerge (get_knobs base) (pa_knob_overrides (archetype_of r))) k \<le> 1"
proof (cases "map_of (rev (pa_knob_overrides (archetype_of r))) k")
  case (Some v)
  then have "(k, v) \<in> set (pa_knob_overrides (archetype_of r))" by (metis map_of_SomeD set_rev)
  then show ?thesis using overrides_unit by (simp add: knob_or_default_def dget_or_def dget_dmerge Some)
next
  case None
  show ?thesis
  proof (cases "dget (get_knobs base) k")
    case (Some v)
    then have "(k, v) \<in> set (get_knobs base)" by (simp add: dget_def map_of_SomeD)
    then show ?thesis using assms by (force simp: valid_profile_def knob_or_default_def dget_or_def dget_dmerge None Some)
  qed (simp add: knob_or_default_def dget_or_def dget_dmerge None knob_default_unit)
qed

lemma raw_profile_knobs: "v \<in> snd ` set (get_knobs (raw_profile now pid kw)) \<Longrightarrow> \<exists>k. v = knob_or_default (kw_knobs kw) k"
  by (auto simp: get_knobs_def raw_profile_def Let_def)

lemma raw_profile_fields:
  "p_name (raw_profile now pid kw) = or_default (kw_name kw) ''Untitled Persona''" "p_description (raw_profile now pid kw) = or_default (kw_description kw) []"
  "p_temperature (raw_profile now pid kw) = or_default (kw_temperature kw) (fl (7/10))" "p_max_tokens (raw_profile now pid kw) = or_default (kw_max_tokens kw) 2000"
  by (simp_all add: raw_profile_def Let_def)

lemma system_prompt_exists:
  assumes "valid_profile base"
  shows "\<exists>t. system_prompt_for_role now pid base key = Inr t"
proof (cases "role_of key")
  case (Some r)
  let ?kw = "\<lparr> kw_name = Some (pa_name (archetype_of r)), kw_description = Some (pa_tagline (archetype_of r)),
    kw_knobs = dmerge (get_knobs base) (pa_knob_overrides (archetype_of r)),
    kw_system_prompt = None, kw_model = None, kw_temperature = None, kw_max_tokens = None \<rparr>"
  have "\<forall>kv \<in> set (get_knobs (raw_profile now pid ?kw)). 0 \<le> snd kv \<and> snd kv \<le> 1"
    using raw_profile_knobs [of _ now pid ?kw] merged_knob_unit [OF assms, of r] by fastforce
  then have "valid_profile (raw_profile now pid ?kw)"
    using archetype_texts [of r] order_trans [OF fl_le_one, of "7/10" 2]
    by (simp add: valid_profile_def raw_profile_fields or_default_def fl_nonneg)
  then show ?thesis by (simp add: system_prompt_for_role_def Some PersonaProfile_init_def Let_def)
qed (simp add: system_prompt_for_role_def)

section \<open>Runs succeed\<close>

definition responsive :: "llm_fn \<Rightarrow> (string \<Rightarrow> string res) \<Rightarrow> runner \<Rightarrow> bool" where
  "responsive llm sys runner \<longleftrightarrow> (\<forall>i s u. succeeds (llm i s u)) \<and> (\<forall>r. succeeds (sys r)) \<and>
     (\<forall>i role output w. succeeds (snd (runner i role output w)))"

lemma succeeds_Inr: "succeeds m \<longleftrightarrow> (\<exists>x. m = Inr x)"
  by (cases m) auto

lemma gather_total:
  assumes "perm_of n order" "\<And>i w. succeeds (snd (f i w))"
  shows "succeeds (snd (gather f n order w))"
proof -
  obtain w' r where g: "gather f n order w = (w', r)" by force
  show ?thesis
  proof (cases r)
    case (Inl e)
    then obtain i v where "snd (f i v) = Inl e" using gather_cases [OF assms(1) g] by auto
    then show ?thesis using assms(2) [of i v] by simp
  qed (simp add: g)
qed

lemma ask_total: "responsive llm sys runner \<Longrightarrow> succeeds (ask llm sys i role user)"
  unfolding ask_def responsive_def succeeds_Inr by (metis rbind_simps(2))

lemma answer_total:
  assumes "responsive llm sys runner"
  shows "succeeds (snd (answer_and_tools llm sys runner i role user w))"
proof -
  obtain a where a: "ask llm sys i role user = Inr a" using ask_total [OF assms] unfolding succeeds_Inr by blast
  obtain w' r where "runner i role a w = (w', r)" by force
  moreover have "succeeds (snd (runner i role a w))" using assms by (simp add: responsive_def)
  ultimately show ?thesis by (auto simp: answer_and_tools_def a succeeds_Inr)
qed

lemma fair_finished: "fair ch \<Longrightarrow> perm_of n (rc_finished ch pos n)"
  by (simp add: fair_def)

lemma specialists_total:
  assumes "fair ch" "responsive llm sys runner"
  shows "succeeds (snd (specialists_node llm sys runner ch task roles w))"
proof -
  let ?f = "\<lambda>i. answer_and_tools llm sys runner i (roles ! i) (specialist_prompt task (roles ! i))" and ?n = "length roles"
  have "succeeds (snd (gather ?f ?n (rc_finished ch 0 ?n) w))"
    by (rule gather_total [OF fair_finished [OF assms(1)] answer_total [OF assms(2)]])
  then show ?thesis by (auto simp: specialists_node_def Let_def split: prod.splits sum.splits)
qed

lemma exec_steps_total:
  assumes "fair ch" "responsive llm sys runner"
  shows "succeeds (snd (exec_steps llm sys runner ch pos ss completed st w))"
  using assms
proof (induction llm sys runner ch pos ss completed st w rule: exec_steps.induct)
  case (2 llm sys runner ch pos s ss completed st w)
  let ?grp = "s # group_of s ss"
  have "succeeds (snd (run_group llm sys runner ch pos ?grp completed w))"
    unfolding run_group_def by (rule gather_total [OF fair_finished [OF 2(2)] answer_total [OF 2(3)]])
  then obtain wa rs where g: "run_group llm sys runner ch pos ?grp completed w = (wa, Inr rs)"
    unfolding succeeds_Inr by (cases "run_group llm sys runner ch pos ?grp completed w") auto
  obtain ca sa where r: "record_results ?grp rs (completed, st) = (ca, sa)" by force
  show ?case using 2(1) [OF refl g [symmetric] refl r [symmetric] 2(2,3)] by (simp add: g r)
qed simp

section \<open>Properties\<close>

lemma plan_roles:
  "distinct (dp_specialists (select_delegation_plan task))" "''coordinator'' \<notin> set (dp_specialists (select_delegation_plan task))"
  "set (dp_specialists (select_delegation_plan task)) \<subseteq> range role_value"
proof -
  have s: "set (dp_specialists (select_delegation_plan task)) \<subseteq> {''analyst'', ''creative'', ''executor'', ''empath''}"
    using delegation_plan_wellformed [of task] by blast
  have "{''analyst'', ''creative'', ''executor'', ''empath''} = role_value ` {ANALYST, CREATIVE, EXECUTOR, EMPATH}" by simp
  then show "set (dp_specialists (select_delegation_plan task)) \<subseteq> range role_value" using s by (metis image_mono subset_UNIV subset_trans)
  show "''coordinator'' \<notin> set (dp_specialists (select_delegation_plan task))" using s by auto
  show "distinct (dp_specialists (select_delegation_plan task))" using delegation_plan_wellformed [of task] by blast
qed

definition session_toolbox :: "team_env \<Rightarrow> string \<Rightarrow> agent_tool_row list option \<Rightarrow> toolbox option" where
  "session_toolbox env sid rows = map_option (\<lambda>rs. (build_team_registry env sid rs, True)) rows"

lemma confined_toolbox:
  "confined_registry sid (fst (case session_toolbox env sid rows of Some t \<Rightarrow> t | None \<Rightarrow> (build_default_registry env sid, False)))"
  by (simp add: session_toolbox_def confined_default_registry confined_team_registry split: option.split)

lemma team_run_record:
  assumes "fair ch" "tss_session_id s = sid"
  shows "\<exists>top. case run_team env loads llm ch use_langgraph base (session_toolbox env sid rows) task s w of
     (w', Inl e) \<Rightarrow> logged sid [(INSTRUCTION, ''user'', Some top)] w w'
   | (w', Inr res) \<Rightarrow> run_shape task (dp_specialists (select_delegation_plan task)) (push_message ''user'' task s) res \<and>
       logged sid ((INSTRUCTION, ''user'', Some top) # map step_event (rr_personalities_used res)) w w'"
proof -
  let ?s1 = "push_message ''user'' task s" and ?roles = "dp_specialists (select_delegation_plan task)"
  let ?tb = "case session_toolbox env sid rows of Some t \<Rightarrow> t | None \<Rightarrow> (build_default_registry env sid, False)"
  let ?runner = "tool_runner env loads ch ?tb"
  let ?sys = "system_prompt_for_role (te_clock env (tw_next w)) (te_uuid env (tw_next w)) base"
  obtain nodes top where t: "top_of_chart (team_key s) (wq_nodes (tw_db w)) = (nodes, top)" by force
  define to where "to = (case top of Some n \<Rightarrow> o_role n | None \<Rightarrow> ''coordinator'')"
  define w1 where "w1 = audit env s INSTRUCTION ''user'' to task (w\<lparr>tw_db := (tw_db w)\<lparr>wq_nodes := nodes\<rparr>\<rparr>)"
  have i: "logged sid [(INSTRUCTION, ''user'', Some to)] w w1"
    using logged_trans [OF logged_nodes logged_audit [OF assms(2)]] by (simp add: w1_def)
  have s1: "tss_session_id ?s1 = sid" using assms(2) by (simp add: push_message_def)
  have c: "confined sid v (fst (?runner i role out v))" for i role out v by (rule confined_runner [OF confined_toolbox])
  obtain w' r where r: "(if use_langgraph then run_langgraph_path env llm ?sys ?runner ch task ?roles ?s1 w1
      else run_chain_path env llm ?sys ?runner ch task ?roles ?s1 w1) = (w', r)" by force
  have "case r of Inl e \<Rightarrow> logged sid [] w1 w'
    | Inr res \<Rightarrow> run_shape task ?roles ?s1 res \<and> logged sid (map step_event (rr_personalities_used res)) w1 w'"
  proof (cases use_langgraph)
    case True
    show ?thesis by (rule langgraph_path_record [OF assms(1) plan_roles(1) s1 c _ plan_roles(2)]) (use r True in simp)
  next
    case False
    show ?thesis by (rule chain_path_record [OF assms(1) plan_roles(3) s1 c]) (use r False in simp)
  qed
  moreover have "run_team env loads llm ch use_langgraph base (session_toolbox env sid rows) task s w = (w', r)"
    using r unfolding run_team_def Let_def t prod.case assms(2) to_def [symmetric] w1_def [symmetric] .
  ultimately show ?thesis using logged_trans [OF i] by (intro exI [of _ to]) (auto split: sum.splits)
qed

lemma team_run_total:
  assumes "fair ch" "valid_profile base" "\<forall>i system user. succeeds (llm i system user)"
  shows "\<exists>res. snd (run_team env loads llm ch use_langgraph base (session_toolbox env sid (Some rows)) task s w) = Inr res"
proof -
  let ?sys = "system_prompt_for_role (te_clock env (tw_next w)) (te_uuid env (tw_next w)) base"
  let ?tb = "(build_team_registry env sid rows, True)" and ?roles = "dp_specialists (select_delegation_plan task)"
  have r: "responsive llm ?sys (tool_runner env loads ch ?tb)"
    using assms(3) system_prompt_exists [OF assms(2)]
    by (auto simp: responsive_def succeeds_Inr tool_runner_def Let_def split: prod.split)
  have "succeeds (snd (run_langgraph_team llm ?sys (tool_runner env loads ch ?tb) ch task roles v))" for roles v
    using specialists_total [OF assms(1) r, of task roles v] ask_total [OF r]
    by (auto simp: run_langgraph_team_def coordinator_node_def succeeds_Inr split: prod.splits sum.splits) (metis rbind_simps(2))
  then have 1: "succeeds (snd (run_langgraph_path env llm ?sys (tool_runner env loads ch ?tb) ch task ?roles s1 v))" for s1 v
    by (auto simp: run_langgraph_path_def Let_def split: prod.splits sum.splits) (metis snd_conv succeeds_simps(1))
  obtain steps where st: "chain_steps task ?roles = Inr steps" using chain_steps_plan [OF plan_roles(3)] by blast
  have 2: "succeeds (snd (run_chain_path env llm ?sys (tool_runner env loads ch ?tb) ch task ?roles s1 v))" for s1 v
    using exec_steps_total [OF assms(1) r, of 0 steps "[]" "new_workflow task" v]
    by (auto simp: run_chain_path_def st execute_workflow_chain_parallel_def Let_def split: prod.splits sum.splits)
  show ?thesis using 1 2
    by (simp add: run_team_def session_toolbox_def Let_def succeeds_Inr split: prod.split)
qed

lemma knobs_of_init: "get_knobs (raw_profile now pid kw) = get_knobs (raw_profile now' pid' kw)"
  by (simp add: get_knobs_def raw_profile_def Let_def)

lemma system_prompt_stable: "system_prompt_for_role now pid base = system_prompt_for_role now' pid' base"
proof
  fix key
  have v: "valid_profile (raw_profile now pid kw) = valid_profile (raw_profile now' pid' kw)" for kw
    by (simp add: valid_profile_def raw_profile_fields knobs_of_init [of now pid kw now' pid'])
  have "build_system_prompt (raw_profile now pid kw) = build_system_prompt (raw_profile now' pid' kw)" for kw
    by (simp add: build_system_prompt_def raw_profile_fields knobs_of_init [of now pid kw now' pid'])
  then show "system_prompt_for_role now pid base key = system_prompt_for_role now' pid' base key"
    by (simp add: system_prompt_for_role_def PersonaProfile_init_def Let_def v split: option.split)
qed

lemma chain_run_view:
  assumes "run_team env loads llm ch False base tools task s w = (w', Inr res)"
  obtains runner steps v v' where "chain_steps task (dp_specialists (select_delegation_plan task)) = Inr steps"
    "exec_steps llm (system_prompt_for_role 0 [] base) runner ch 0 steps [] (new_workflow task) v = (v', Inr (rr_workflow res))"
    "rr_response res = (if wf_steps (rr_workflow res) = [] then [] else sr_output (last (wf_steps (rr_workflow res))))"
  using assms system_prompt_stable [of "te_clock env (tw_next w)" "te_uuid env (tw_next w)" base 0 "[]"]
  by (auto simp: run_team_def run_chain_path_def execute_workflow_chain_parallel_def Let_def split: prod.splits sum.splits)

text \<open>
  C12. On the chain path the answer does not depend on timing: two runs of the same task with the same model and
  persona, in different orders, on different sessions, with different tools and memories, give the same steps,
  tasks, outputs and the same response.
\<close>

theorem chain_answer_deterministic:
  assumes "fair ch" "fair ch'"
    "run_team env loads llm ch False base tools task s w = (w1, Inr a)"
    "run_team env' loads' llm ch' False base tools' task s' w' = (w2, Inr b)"
  shows "flow_view (rr_workflow a) = flow_view (rr_workflow b) \<and> rr_response a = rr_response b"
proof -
obtain ra st va va' where a: "chain_steps task (dp_specialists (select_delegation_plan task)) = Inr st"
    "exec_steps llm (system_prompt_for_role 0 [] base) ra ch 0 st [] (new_workflow task) va = (va', Inr (rr_workflow a))"
    "rr_response a = (if wf_steps (rr_workflow a) = [] then [] else sr_output (last (wf_steps (rr_workflow a))))"
    by (rule chain_run_view [OF assms(3)])
  obtain rb st' vb vb' where b: "chain_steps task (dp_specialists (select_delegation_plan task)) = Inr st'"
    "exec_steps llm (system_prompt_for_role 0 [] base) rb ch' 0 st' [] (new_workflow task) vb = (vb', Inr (rr_workflow b))"
    "rr_response b = (if wf_steps (rr_workflow b) = [] then [] else sr_output (last (wf_steps (rr_workflow b))))"
    by (rule chain_run_view [OF assms(4)])
  have "st' = st" using a(1) b(1) by simp
  then have v: "flow_view (rr_workflow a) = flow_view (rr_workflow b)"
    using exec_steps_same_view [OF a(2) _ assms(1,2) refl] b(2) by blast
  have out: "(if wf_steps f = [] then [] else sr_output (last (wf_steps f))) =
      (if flow_view f = [] then [] else snd (snd (last (flow_view f))))" for f
    by (simp add: flow_view_def last_map)
  show ?thesis using v a(3) b(3) by (simp add: out)
qed


text \<open>
  A run with the shared tools succeeds, on either path and in every order, as long as the model answers: no
  tool call and no system prompt can make it fail.
\<close>

theorem team_run_succeeds:
  assumes "fair ch" "valid_profile base" "\<forall>i system user. succeeds (llm i system user)"
  shows "\<exists>res. snd (run_team env loads llm ch use_langgraph base (session_toolbox env sid (Some rows)) task s w) = Inr res"
  using assms by (rule team_run_total)

text \<open>
  C10. What a run of a team leaves behind, on either path, with the default or the shared tools, whatever order answers
  arrive and tools take effect in, whatever the model says and whichever prompt fails. The log gets one instruction,
  one decision per specialist and one reply, all of the run's session; when the run fails it gets only the
  instruction. On success every specialist of the plan has exactly one step, the coordinator's step is the last
  and is the response, and the session got the user's and the assistant's message. Memory, Redis hash and tasks
  of other sessions stay as they were.
\<close>

theorem team_run_outcome:
  assumes "fair ch" "tss_session_id s = sid"
  shows "\<exists>top. case run_team env loads llm ch use_langgraph base (session_toolbox env sid rows) task s w of
     (w', Inl e) \<Rightarrow> logged sid [(INSTRUCTION, ''user'', Some top)] w w'
   | (w', Inr res) \<Rightarrow> run_shape task (dp_specialists (select_delegation_plan task)) (push_message ''user'' task s) res \<and>
       logged sid ((INSTRUCTION, ''user'', Some top) # map step_event (rr_personalities_used res)) w w'"
  using assms by (rule team_run_record)

section \<open>Instances\<close>

definition example_choice :: "(nat \<Rightarrow> nat list) \<Rightarrow> run_choice" where
  "example_choice order = \<lparr> rc_answered = order, rc_finished = (\<lambda>_. order), rc_order = (\<lambda>_ calls. order (length calls)),
     rc_fate = (\<lambda>_ _. Finished 1) \<rparr>"

lemma example_fair: "fair (example_choice (\<lambda>n. [0..<n]))" "fair (example_choice (\<lambda>n. rev [0..<n]))"
  by (auto simp: fair_def perm_of_def example_choice_def)

definition example_llm :: llm_fn where
  "example_llm i system user = Inr (''answer '' @ py_str_int (int i))"

lemma example_llm_answers: "\<forall>i system user. succeeds (example_llm i system user)"
  by (simp add: example_llm_def)


theorem team_run_outcome_witness:
  "\<exists>top. case run_team example_env example_loads example_llm (example_choice (\<lambda>n. rev [0..<n])) True full_profile
      (session_toolbox example_env ''s'' (Some [])) ''plan'' (new_session ''s'') example_world of
     (w', Inl e) \<Rightarrow> logged ''s'' [(INSTRUCTION, ''user'', Some top)] example_world w'
   | (w', Inr res) \<Rightarrow> run_shape ''plan'' (dp_specialists (select_delegation_plan ''plan'')) (push_message ''user'' ''plan'' (new_session ''s'')) res \<and>
       logged ''s'' ((INSTRUCTION, ''user'', Some top) # map step_event (rr_personalities_used res)) example_world w'"
  by (rule team_run_outcome [OF example_fair(2)]) (simp add: new_session_def)

theorem team_run_succeeds_witness:
  "\<exists>res. snd (run_team example_env example_loads example_llm (example_choice (\<lambda>n. rev [0..<n])) True full_profile
      (session_toolbox example_env ''s'' (Some [])) ''plan'' (new_session ''s'') example_world) = Inr res"
  by (rule team_run_succeeds [OF example_fair(2) full_profile_valid example_llm_answers])

theorem chain_answer_deterministic_witness:
  "\<exists>w1 a w2 b. run_team example_env example_loads example_llm (example_choice (\<lambda>n. [0..<n])) False full_profile
      (session_toolbox example_env ''s'' (Some [])) ''plan'' (new_session ''s'') example_world = (w1, Inr a) \<and>
    run_team example_env example_loads example_llm (example_choice (\<lambda>n. rev [0..<n])) False full_profile
      (session_toolbox example_env ''z'' (Some [])) ''plan'' (new_session ''z'') example_world = (w2, Inr b) \<and>
    rr_response a = rr_response b"
proof -
  obtain w1 a where a: "run_team example_env example_loads example_llm (example_choice (\<lambda>n. [0..<n])) False full_profile
      (session_toolbox example_env ''s'' (Some [])) ''plan'' (new_session ''s'') example_world = (w1, Inr a)"
    using team_run_total [OF example_fair(1) full_profile_valid example_llm_answers] by (metis prod.collapse)
  obtain w2 b where b: "run_team example_env example_loads example_llm (example_choice (\<lambda>n. rev [0..<n])) False full_profile
      (session_toolbox example_env ''z'' (Some [])) ''plan'' (new_session ''z'') example_world = (w2, Inr b)"
    using team_run_total [OF example_fair(2) full_profile_valid example_llm_answers] by (metis prod.collapse)
  from chain_answer_deterministic [OF example_fair a b] a b show ?thesis by blast
qed

text \<open>
  When two steps of a parallel group have the same role, both are recorded with the task of the first: the task
  the second answered is lost.
\<close>

theorem same_role_task_lost:
  assumes "fair ch" "ds_role a = ds_role b" "ds_parallel_group a = Some g" "ds_parallel_group b = Some g" "g \<noteq> []"
    "execute_workflow_chain_parallel llm sys runner ch goal [a, b] w = (w', Inr f)"
  shows "map sr_task (wf_steps f) = [ds_task a, ds_task a]"
proof -
  have grp: "group_of a [b] = [b]" using assms(3-5) by (simp add: group_of_def)
  obtain w1 rs where g: "run_group llm sys runner ch 0 [a, b] [] w = (w1, Inr rs)"
    using assms(6) by (auto simp: execute_workflow_chain_parallel_def grp Let_def split: prod.splits sum.splits)
  obtain c st where r: "record_results [a, b] rs ([], new_workflow goal) = (c, st)" by force
  obtain x y where xy: "rs = [x, y]"
    using run_group_answers [OF assms(1) g] by (auto simp: length_Suc_conv)
  have "flow_view f = flow_view st"
    using assms(6) by (auto simp: execute_workflow_chain_parallel_def grp g r)
  then have "flow_view f = [(ds_role a, ds_task a, fst x), (ds_role b, ds_task a, fst y)]"
    using record_results_view [OF r] assms(2) by (simp add: xy group_task_def flow_view_def)
  moreover have "map sr_task (wf_steps f) = map (fst \<circ> snd) (flow_view f)" by (simp add: flow_view_def comp_def)
  ultimately show ?thesis by simp
qed

end
