(* ===== verification/TeamStore.thy ===== *)
theory TeamStore
  imports TeamRun ApiStore RateLimit
begin

text \<open>
  Team sessions in the database: the team tables of \<open>src/persola/db/models.py\<close>, \<open>db/repositories/team_repository.py\<close>,
  \<open>services/team_service.py\<close> and the routes of \<open>api/teams.py\<close>.

  The team tables live in the transaction of the request: the service commits once, at the end of a run, and a
  request that raises leaves them as they were. What the run does elsewhere (memory, Redis, the task queue and the
  audit log, all with sessions of their own) is not undone. Row identifiers and the time of the request are
  arguments, so is whether a model provider is available. The columns' length limits are those of the database.
\<close>

section \<open>Tables\<close>

datatype TeamWorkflowStatus = TW_PENDING | TW_RUNNING | TW_COMPLETED | TW_FAILED

record TeamSessionModel =
  sm_id :: string
  sm_external_session_id :: string
  sm_name :: "string option"
  sm_persona_id :: "string option"
  sm_team_config :: json
  sm_memory_snapshot :: "(string, json) dict"
  sm_message_count :: int
  sm_created_at :: int
  sm_updated_at :: int

record TeamWorkflowModel =
  wm_id :: string
  wm_team_session_id :: string
  wm_goal :: string
  wm_status :: TeamWorkflowStatus
  wm_delegation_plan :: "DelegationPlan option"
  wm_final_response :: "string option"
  wm_personalities_used :: "string list"
  wm_tool_results :: "json list"
  wm_created_at :: int
  wm_completed_at :: "int option"

record TeamWorkflowStepModel =
  wsm_id :: string
  wsm_workflow_id :: string
  wsm_step_order :: nat
  wsm_role :: string
  wsm_task :: string
  wsm_output :: string
  wsm_tool_calls :: "json list"
  wsm_parallel_group :: "string option"

record TeamMemoryModel =
  mm_id :: string
  mm_team_session_id :: string
  mm_memory_key :: string
  mm_value :: string
  mm_tags :: "string list"
  mm_source_role :: "string option"
  mm_created_at :: int

record team_db =
  td_sessions :: "TeamSessionModel list"
  td_workflows :: "TeamWorkflowModel list"
  td_steps :: "TeamWorkflowStepModel list"
  td_memory :: "TeamMemoryModel list"
  td_next :: nat

record request_env =
  re_id :: "nat \<Rightarrow> string"
  re_now :: int

definition db_error :: pyexc where
  "db_error = RuntimeFailure ''DBAPIError''"

section \<open>Repositories\<close>

definition get_by_external_id :: "string \<Rightarrow> team_db \<Rightarrow> TeamSessionModel option" where
  "get_by_external_id ext db = row_get sm_external_session_id (td_sessions db) ext"

definition list_recent :: "nat \<Rightarrow> team_db \<Rightarrow> TeamSessionModel list" where
  "list_recent limit db = take limit (sort_desc sm_updated_at (td_sessions db))"

definition create_team_session :: "TeamSessionModel \<Rightarrow> team_db \<Rightarrow> team_db res" where
  "create_team_session r db =
    (if 100 < length (sm_external_session_id r) \<or> sm_external_session_id r \<in> sm_external_session_id ` set (td_sessions db) then Inl db_error
     else Inr (db\<lparr>td_sessions := td_sessions db @ [r], td_next := Suc (td_next db)\<rparr>))"

definition increment_messages :: "request_env \<Rightarrow> string \<Rightarrow> int \<Rightarrow> team_db \<Rightarrow> team_db" where
  "increment_messages q i n db = db\<lparr>td_sessions := row_set sm_id i
     (\<lambda>r. r\<lparr>sm_message_count := sm_message_count r + n, sm_updated_at := re_now q\<rparr>) (td_sessions db)\<rparr>"

definition workflows_for_session :: "nat \<Rightarrow> string \<Rightarrow> team_db \<Rightarrow> TeamWorkflowModel list" where
  "workflows_for_session limit i db = take limit (sort_desc wm_created_at (filter (\<lambda>r. wm_team_session_id r = i) (td_workflows db)))"

definition create_workflow :: "TeamWorkflowModel \<Rightarrow> team_db \<Rightarrow> team_db" where
  "create_workflow r db = db\<lparr>td_workflows := td_workflows db @ [r], td_next := Suc (td_next db)\<rparr>"

definition mark_completed :: "request_env \<Rightarrow> string \<Rightarrow> string \<Rightarrow> string list \<Rightarrow> json list \<Rightarrow> DelegationPlan \<Rightarrow> team_db \<Rightarrow> team_db" where
  "mark_completed q i final_response personalities_used tool_results plan db = db\<lparr>td_workflows := row_set wm_id i
     (\<lambda>r. r\<lparr>wm_status := TW_COMPLETED, wm_final_response := Some final_response, wm_personalities_used := personalities_used,
        wm_tool_results := tool_results, wm_delegation_plan := Some plan, wm_completed_at := Some (re_now q)\<rparr>) (td_workflows db)\<rparr>"

definition memory_for_session :: "nat \<Rightarrow> string \<Rightarrow> team_db \<Rightarrow> TeamMemoryModel list" where
  "memory_for_session limit i db = take limit (sort_desc mm_created_at (filter (\<lambda>r. mm_team_session_id r = i) (td_memory db)))"

definition memory_at :: "string \<Rightarrow> string \<Rightarrow> TeamMemoryModel \<Rightarrow> bool" where
  "memory_at i key r \<longleftrightarrow> mm_team_session_id r = i \<and> mm_memory_key r = key"

definition upsert_entry :: "request_env \<Rightarrow> string \<Rightarrow> string \<Rightarrow> string \<Rightarrow> string list \<Rightarrow> string option \<Rightarrow> team_db \<Rightarrow> team_db res" where
  "upsert_entry q i key v tags role db =
    (case filter (memory_at i key) (td_memory db) of
       _ # _ # _ \<Rightarrow> Inl MultipleResultsFound
     | [_] \<Rightarrow> Inr (db\<lparr>td_memory := map (\<lambda>r. if memory_at i key r then r\<lparr>mm_value := v, mm_tags := tags, mm_source_role := role\<rparr> else r)
         (td_memory db)\<rparr>)
     | [] \<Rightarrow> if 255 < length key \<or> 50 < length (or_default role []) then Inl db_error
         else Inr (db\<lparr>td_memory := td_memory db @ [\<lparr> mm_id = re_id q (td_next db), mm_team_session_id = i, mm_memory_key = key,
            mm_value = v, mm_tags = tags, mm_source_role = role, mm_created_at = re_now q \<rparr>], td_next := Suc (td_next db)\<rparr>))"

definition add_workflow_step ::
  "request_env \<Rightarrow> string \<Rightarrow> nat \<Rightarrow> string \<Rightarrow> string \<Rightarrow> string \<Rightarrow> json list \<Rightarrow> string option \<Rightarrow> team_db \<Rightarrow> team_db res" where
  "add_workflow_step q i step_order role task output tool_calls parallel_group db =
    (if 50 < length role then Inl db_error
     else Inr (db\<lparr>td_steps := td_steps db @ [\<lparr> wsm_id = re_id q (td_next db), wsm_workflow_id = i, wsm_step_order = step_order,
        wsm_role = role, wsm_task = task, wsm_output = output, wsm_tool_calls = tool_calls, wsm_parallel_group = parallel_group \<rparr>],
        td_next := Suc (td_next db)\<rparr>))"

section \<open>The service\<close>

definition resolve_or_create_session ::
  "request_env \<Rightarrow> string option \<Rightarrow> string option \<Rightarrow> json \<Rightarrow> redis_store \<Rightarrow> team_db \<Rightarrow> (team_db \<times> string \<times> TeamSessionState) res" where
  "resolve_or_create_session q external persona_id team_config redis db =
    (let ext = str_or external (re_id q (td_next db));
         found = get_by_external_id ext db;
         new = \<lparr> sm_id = re_id q (Suc (td_next db)), sm_external_session_id = ext, sm_name = None, sm_persona_id = persona_id,
           sm_team_config = team_config, sm_memory_snapshot = [], sm_message_count = 0, sm_created_at = re_now q, sm_updated_at = re_now q \<rparr>
     in rbind (case found of
          None \<Rightarrow> rbind (create_team_session new (db\<lparr>td_next := Suc (td_next db)\<rparr>)) (\<lambda>db. Inr (db, new))
        | Some row \<Rightarrow> if persona_id \<noteq> None \<and> sm_persona_id row \<noteq> persona_id
            then Inr (db\<lparr>td_sessions := row_set sm_id (sm_id row) (\<lambda>r. r\<lparr>sm_persona_id := persona_id, sm_updated_at := re_now q\<rparr>) (td_sessions db)\<rparr>, row)
            else Inr (db, row))
       (\<lambda>(db, row). let snap = redis_snapshot ext redis in
          Inr (db, sm_id row, (new_session ext)\<lparr>tss_memory_snapshot := (if snap \<noteq> [] then snap else sm_memory_snapshot row)\<rparr>)))"

definition parallel_group_of :: "json list \<Rightarrow> string option res" where
  "parallel_group_of tool_calls = (case tool_calls of
     [] \<Rightarrow> Inr None
   | JObj d # _ \<Rightarrow> (case dget d ''parallel_group'' of None \<Rightarrow> Inr None | Some JNull \<Rightarrow> Inr None | Some (JStr g) \<Rightarrow> Inr (Some g) | Some _ \<Rightarrow> Inl db_error)
   | _ # _ \<Rightarrow> Inl (RuntimeFailure ''AttributeError''))"

fun persist_steps :: "request_env \<Rightarrow> string \<Rightarrow> string \<Rightarrow> nat \<Rightarrow> WorkflowStepRecord list \<Rightarrow> team_db \<Rightarrow> team_db res" where
  "persist_steps q sid wid order [] db = Inr db"
| "persist_steps q sid wid order (st # sts) db =
    rbind (parallel_group_of (sr_tool_calls st)) (\<lambda>g.
    rbind (add_workflow_step q wid order (sr_role st) (sr_task st) (sr_output st) (sr_tool_calls st) g db) (\<lambda>db.
    rbind (upsert_entry q sid (sr_role st @ '':latest'') (take 4000 (sr_output st)) [''workflow'', sr_role st] (Some (sr_role st)) db) (\<lambda>db.
    persist_steps q sid wid (Suc order) sts db)))"

definition persist_run :: "request_env \<Rightarrow> string \<Rightarrow> string \<Rightarrow> redis_store \<Rightarrow> TeamRunResult \<Rightarrow> team_db \<Rightarrow> team_db res" where
  "persist_run q sid wid redis result db =
    rbind (persist_steps q sid wid 0 (wf_steps (rr_workflow result)) db) (\<lambda>db.
    let snap = redis_snapshot (rr_session_id result) redis;
        snap = (if snap \<noteq> [] then snap else tss_memory_snapshot (rr_session result));
        db = db\<lparr>td_sessions := row_set sm_id sid (\<lambda>r. r\<lparr>sm_memory_snapshot := snap\<rparr>) (td_sessions db)\<rparr>;
        db = increment_messages q sid 2 db
    in Inr (mark_completed q wid (rr_response result) (rr_personalities_used result) (rr_tool_results result) (rr_delegation_plan result) db))"

text \<open>The service's \<open>invoke\<close>: the world as it is afterwards, and the tables to commit or the exception.\<close>

definition invoke_service ::
  "request_env \<Rightarrow> team_env \<Rightarrow> loads \<Rightarrow> llm_fn \<Rightarrow> run_choice \<Rightarrow> string \<Rightarrow> PersonaProfile \<Rightarrow> string option \<Rightarrow> string option \<Rightarrow> agent_tool_row list
    \<Rightarrow> bool \<Rightarrow> team_db \<Rightarrow> team_world \<Rightarrow> team_world \<times> (team_db \<times> TeamRunResult) res" where
  "invoke_service q env loads llm ch task base session_id persona_id rows use_langgraph db w =
    (case resolve_or_create_session q session_id persona_id (JObj [(''use_langgraph'', JBool use_langgraph)]) (tw_redis w) db of
       Inl e \<Rightarrow> (w, Inl e)
     | Inr (db1, sid, runtime) \<Rightarrow>
        (let wid = re_id q (td_next db1);
             db2 = create_workflow \<lparr> wm_id = wid, wm_team_session_id = sid, wm_goal = task, wm_status = TW_RUNNING, wm_delegation_plan = None,
               wm_final_response = None, wm_personalities_used = [], wm_tool_results = [], wm_created_at = re_now q, wm_completed_at = None \<rparr> db1
         in case run_team env loads llm ch use_langgraph base (session_toolbox env (tss_session_id runtime) (Some rows)) task runtime w of
              (w', Inl e) \<Rightarrow> (w', Inl e)
            | (w', Inr result) \<Rightarrow> (w', rbind (persist_run q sid wid (tw_redis w') result db2) (\<lambda>db3. Inr (db3, result)))))"

section \<open>Reading\<close>

record session_detail =
  de_session_id :: string
  de_name :: "string option"
  de_persona_id :: "string option"
  de_message_count :: int
  de_team_config :: json
  de_memory_snapshot :: "(string, json) dict"
  de_memory_entries :: "TeamMemoryModel list"
  de_workflows :: "(TeamWorkflowModel \<times> TeamWorkflowStepModel list) list"

definition steps_of_workflow :: "string \<Rightarrow> team_db \<Rightarrow> TeamWorkflowStepModel list" where
  "steps_of_workflow wid db = filter (\<lambda>t. wsm_workflow_id t = wid) (td_steps db)"

definition get_session_detail :: "string \<Rightarrow> redis_store \<Rightarrow> team_db \<Rightarrow> session_detail option" where
  "get_session_detail ext redis db = (case get_by_external_id ext db of
     None \<Rightarrow> None
   | Some row \<Rightarrow> (let snap = redis_snapshot ext redis in Some
      \<lparr> de_session_id = sm_external_session_id row, de_name = sm_name row, de_persona_id = sm_persona_id row,
        de_message_count = sm_message_count row, de_team_config = sm_team_config row,
        de_memory_snapshot = (if snap \<noteq> [] then snap else sm_memory_snapshot row),
        de_memory_entries = memory_for_session 100 (sm_id row) db,
        de_workflows = map (\<lambda>w. (w, sort_key wsm_step_order (steps_of_workflow (wm_id w) db)))
          (workflows_for_session 20 (sm_id row) db) \<rparr>))"

definition list_sessions :: "nat \<Rightarrow> team_db \<Rightarrow> (string \<times> string option \<times> int \<times> int) list" where
  "list_sessions limit db = map (\<lambda>r. (sm_external_session_id r, sm_name r, sm_message_count r, sm_updated_at r)) (list_recent limit db)"

definition memory_hit :: "TeamMemoryModel \<Rightarrow> string \<times> mem_entry" where
  "memory_hit r = (mm_memory_key r, \<lparr> mn_value = JStr (mm_value r), mn_tags = mm_tags r, mn_source_role = jopt (mm_source_role r) \<rparr>)"

definition search_memory :: "team_env \<Rightarrow> string \<Rightarrow> string \<Rightarrow> redis_store \<Rightarrow> team_db \<Rightarrow> (string \<times> mem_entry) list" where
  "search_memory env ext query redis db =
    (let hits = redis_search (str_arg env) 10 ext query redis in
     if hits \<noteq> [] then hits
     else case get_by_external_id ext db of
       None \<Rightarrow> []
     | Some row \<Rightarrow> map memory_hit (filter (\<lambda>r. py_contains
         (haystack (str_arg env) (mm_memory_key r) (JStr (mm_value r)) (mm_tags r)) (py_lower query)) (memory_for_session 100 (sm_id row) db)))"

section \<open>Routes\<close>

definition list_team_personalities :: "(string \<times> string \<times> string \<times> string list \<times> string \<times> string) list" where
  "list_team_personalities = map (\<lambda>a. (role_value (pa_role a), pa_name a, pa_tagline a, pa_strengths a, pa_collaboration_style a, pa_system_directive a))
     list_archetypes"

definition list_team_tools :: "team_env \<Rightarrow> string \<Rightarrow> (string \<times> string \<times> bool \<times> string list) list" where
  "list_team_tools env session_id = list_tools (build_team_registry env session_id [])"

definition get_team_session :: "string \<Rightarrow> redis_store \<Rightarrow> team_db \<Rightarrow> session_detail api" where
  "get_team_session ext redis db = (case get_session_detail ext redis db of
     None \<Rightarrow> Inl (HTTPException 404 ''Team session not found'') | Some d \<Rightarrow> Inr d)"

definition search_team_memory :: "team_env \<Rightarrow> string \<Rightarrow> string \<Rightarrow> redis_store \<Rightarrow> team_db \<Rightarrow> (string \<times> mem_entry) list api" where
  "search_team_memory env ext query redis db =
    (if query = [] then Inl (HTTPException 422 []) else Inr (search_memory env ext query redis db))"

record TeamInvokeRequest =
  ti_task :: string
  ti_session_id :: "string option"
  ti_persona_id :: "string option"
  ti_agent_id :: "string option"
  ti_use_langgraph :: bool

definition team_default_profile :: "int \<Rightarrow> string \<Rightarrow> PersonaProfile" where
  "team_default_profile now pid = raw_profile now pid \<lparr> kw_name = Some ''Team Default'', kw_description = None, kw_knobs = [],
     kw_system_prompt = None, kw_model = None, kw_temperature = None, kw_max_tokens = None \<rparr>"

text \<open>The persona a request names: nothing when it names none or none exists.\<close>

definition request_persona :: "TeamInvokeRequest \<Rightarrow> api_db \<Rightarrow> (string \<times> PersonaProfile) option api" where
  "request_persona body adb = (case nonempty (ti_persona_id body) of
     None \<Rightarrow> Inr None
   | Some t \<Rightarrow> abind (to_uuid t) (\<lambda>i. case row_get pm_id (ad_personas adb) i of
       None \<Rightarrow> Inr None
     | Some m \<Rightarrow> abind (lift_res (to_profile m)) (\<lambda>p. Inr (Some (pm_id m, p)))))"

definition agent_rows :: "string option \<Rightarrow> api_db \<Rightarrow> agent_tool_row list" where
  "agent_rows agent adb = (case agent of None \<Rightarrow> []
     | Some i \<Rightarrow> map (\<lambda>t. (tl_name t, None, JObj [], tl_enabled t)) (tools_list_by_agent adb i))"

definition invoke_team ::
  "request_env \<Rightarrow> team_env \<Rightarrow> loads \<Rightarrow> llm_fn \<Rightarrow> bool \<Rightarrow> run_choice \<Rightarrow> TeamInvokeRequest \<Rightarrow> api_db \<Rightarrow> team_db \<times> team_world
    \<Rightarrow> (team_db \<times> team_world) \<times> TeamRunResult api" where
  "invoke_team q env loads llm available ch body adb st = (case st of (db, w) \<Rightarrow>
    (if ti_task body = [] then (st, Inl (HTTPException 422 []))
     else case request_persona body adb of Inl e \<Rightarrow> (st, Inl e) | Inr persona \<Rightarrow>
     (case (case nonempty (ti_agent_id body) of None \<Rightarrow> Inr None | Some t \<Rightarrow> abind (to_uuid t) (\<lambda>i. Inr (Some i))) of
        Inl e \<Rightarrow> (st, Inl e)
      | Inr agent \<Rightarrow>
        if \<not> available then (st, Inl (HTTPException 503 ''No LLM provider available''))
        else (case invoke_service q env loads llm ch (ti_task body)
                (case persona of None \<Rightarrow> team_default_profile (re_now q) [] | Some (_, p) \<Rightarrow> p)
                (ti_session_id body) (map_option fst persona) (agent_rows agent adb) (ti_use_langgraph body) db w of
             (w', Inl e) \<Rightarrow> ((db, w'), Inl (HTTPException 500 (te_exc env e)))
           | (w', Inr (db', result)) \<Rightarrow> ((db', w'), Inr result)))))"

text \<open>The route with its rate limit, which spends a token before the handler runs.\<close>

definition post_invoke ::
  "limiter \<Rightarrow> string \<Rightarrow> rate_request \<Rightarrow> request_env \<Rightarrow> team_env \<Rightarrow> loads \<Rightarrow> llm_fn \<Rightarrow> bool \<Rightarrow> run_choice \<Rightarrow> TeamInvokeRequest \<Rightarrow> api_db
    \<Rightarrow> (string, bucket) dict \<times> team_db \<times> team_world \<Rightarrow> ((string, bucket) dict \<times> team_db \<times> team_world) \<times> TeamRunResult api" where
  "post_invoke l client rr q env loads llm available ch body adb bst = (case bst of (buckets, st) \<Rightarrow>
     (case team_rate_limit l client rr buckets of
        (buckets', Inl e) \<Rightarrow> ((buckets', st), Inl e)
      | (buckets', Inr _) \<Rightarrow> (case invoke_team q env loads llm available ch body adb st of (st', r) \<Rightarrow> ((buckets', st'), r))))"

section \<open>Persisting a run\<close>

definition memory_keys :: "team_db \<Rightarrow> (string \<times> string) list" where
  "memory_keys db = map (\<lambda>m. (mm_team_session_id m, mm_memory_key m)) (td_memory db)"

definition step_row :: "TeamWorkflowStepModel \<Rightarrow> string \<times> nat \<times> string \<times> string \<times> string" where
  "step_row t = (wsm_workflow_id t, wsm_step_order t, wsm_role t, wsm_task t, wsm_output t)"

definition step_record :: "string \<Rightarrow> nat \<times> WorkflowStepRecord \<Rightarrow> string \<times> nat \<times> string \<times> string \<times> string" where
  "step_record wid ist = (wid, fst ist, sr_role (snd ist), sr_task (snd ist), sr_output (snd ist))"

lemma upsert_entry_result:
  assumes "upsert_entry q i key v tags role db = Inr db'"
  shows "td_sessions db' = td_sessions db \<and> td_workflows db' = td_workflows db \<and> td_steps db' = td_steps db \<and> td_next db \<le> td_next db' \<and>
    (distinct (memory_keys db) \<longrightarrow> distinct (memory_keys db'))"
proof (cases "filter (memory_at i key) (td_memory db)")
  case Nil
  then have "(i, key) \<notin> set (memory_keys db)" by (auto simp: filter_empty_conv memory_at_def memory_keys_def)
  then show ?thesis using assms Nil by (auto simp: upsert_entry_def memory_keys_def split: if_splits)
next
  case (Cons a as)
  have "memory_keys (db\<lparr>td_memory := map (\<lambda>r. if memory_at i key r then r\<lparr>mm_value := v, mm_tags := tags, mm_source_role := role\<rparr> else r)
      (td_memory db)\<rparr>) = memory_keys db" by (auto simp: memory_keys_def)
  then show ?thesis using assms Cons by (cases as) (auto simp: upsert_entry_def)
qed

lemma persist_steps_result:
  assumes "persist_steps q sid wid k sts db = Inr db'"
  shows "td_sessions db' = td_sessions db \<and> td_workflows db' = td_workflows db \<and> td_next db \<le> td_next db' \<and>
    (distinct (memory_keys db) \<longrightarrow> distinct (memory_keys db')) \<and>
    (\<exists>new. td_steps db' = td_steps db @ new \<and> map step_row new = map (step_record wid) (enumerate k sts))"
  using assms
proof (induction q sid wid k sts db rule: persist_steps.induct)
  case (2 q sid wid k st sts db)
  obtain g db1 db2 where g: "parallel_group_of (sr_tool_calls st) = Inr g"
    "add_workflow_step q wid k (sr_role st) (sr_task st) (sr_output st) (sr_tool_calls st) g db = Inr db1"
    "upsert_entry q sid (sr_role st @ '':latest'') (take 4000 (sr_output st)) [''workflow'', sr_role st] (Some (sr_role st)) db1 = Inr db2"
    "persist_steps q sid wid (Suc k) sts db2 = Inr db'"
    using 2(2) by (auto simp: rbind_eq_Inr)
  obtain t where t: "td_steps db1 = td_steps db @ [t]" "step_row t = step_record wid (k, st)"
    and s: "td_sessions db1 = td_sessions db" "td_workflows db1 = td_workflows db" "td_next db1 = Suc (td_next db)" "memory_keys db1 = memory_keys db"
    using g(2) by (auto simp: add_workflow_step_def step_row_def step_record_def memory_keys_def split: if_splits)
  obtain new where "td_steps db' = td_steps db2 @ new" "map step_row new = map (step_record wid) (enumerate (Suc k) sts)"
    using 2(1) [OF g(4)] by blast
  then have "td_steps db' = td_steps db @ t # new \<and> map step_row (t # new) = map (step_record wid) (enumerate k (st # sts))"
    using t upsert_entry_result [OF g(3)] by simp
  then show ?case using 2(1) [OF g(4)] upsert_entry_result [OF g(3)] s by (auto simp del: enumerate_simps)
qed auto

section \<open>The tables stay consistent\<close>

definition workflow_ok :: "team_db \<Rightarrow> TeamWorkflowModel \<Rightarrow> bool" where
  "workflow_ok db r \<longleftrightarrow> (let steps = steps_of_workflow (wm_id r) db in
     wm_status r = TW_COMPLETED \<and> wm_team_session_id r \<in> sm_id ` set (td_sessions db) \<and>
     map wsm_step_order steps = [0..<length steps] \<and> map wsm_role steps = wm_personalities_used r \<and>
     steps \<noteq> [] \<and> wm_final_response r = Some (wsm_output (last steps)))"

definition workflows_of :: "string \<Rightarrow> team_db \<Rightarrow> TeamWorkflowModel list" where
  "workflows_of sid db = filter (\<lambda>r. wm_team_session_id r = sid) (td_workflows db)"

definition ids_below :: "(nat \<Rightarrow> string) \<Rightarrow> nat \<Rightarrow> string list \<Rightarrow> bool" where
  "ids_below rid n ids \<longleftrightarrow> distinct ids \<and> set ids \<subseteq> rid ` {..<n}"

definition team_tables_ok :: "(nat \<Rightarrow> string) \<Rightarrow> team_db \<Rightarrow> bool" where
  "team_tables_ok rid db \<longleftrightarrow>
     ids_below rid (td_next db) (map sm_id (td_sessions db)) \<and> ids_below rid (td_next db) (map wm_id (td_workflows db)) \<and>
     distinct (map sm_external_session_id (td_sessions db)) \<and> distinct (memory_keys db) \<and>
     (\<forall>r \<in> set (td_workflows db). workflow_ok db r) \<and>
     (\<forall>t \<in> set (td_steps db). wsm_workflow_id t \<in> wm_id ` set (td_workflows db)) \<and>
     (\<forall>r \<in> set (td_sessions db). sm_message_count r = 2 * int (length (workflows_of (sm_id r) db)))"

lemma ids_below_mono: "ids_below rid n ids \<Longrightarrow> n \<le> m \<Longrightarrow> ids_below rid m ids"
  by (force simp: ids_below_def)

lemma ids_below_fresh: "ids_below rid n ids \<Longrightarrow> inj rid \<Longrightarrow> n \<le> k \<Longrightarrow> rid k \<notin> set ids"
  by (auto simp: ids_below_def inj_def dest!: subsetD) (metis leD)

lemma ids_below_append: "ids_below rid n ids \<Longrightarrow> inj rid \<Longrightarrow> n \<le> k \<Longrightarrow> k < m \<Longrightarrow> ids_below rid m (ids @ [rid k])"
  using ids_below_fresh [of rid n ids k] ids_below_mono [of rid n ids m] by (auto simp: ids_below_def)

lemma row_set_append_new: "i \<notin> key ` set xs \<Longrightarrow> key r = i \<Longrightarrow> row_set key i f (xs @ [r]) = xs @ [f r]"
  by (induction xs) (auto simp: row_set_def)

lemma row_set_row_set: "(\<And>r. key (f r) = key r) \<Longrightarrow> row_set key i g (row_set key i f xs) = row_set key i (g \<circ> f) xs"
  by (auto simp: row_set_def)

text \<open>What happens to the sessions when a request begins.\<close>

definition same_counts :: "TeamSessionModel list \<Rightarrow> TeamSessionModel list \<Rightarrow> bool" where
  "same_counts xs ys \<longleftrightarrow> map (\<lambda>r. (sm_id r, sm_external_session_id r, sm_message_count r)) xs =
     map (\<lambda>r. (sm_id r, sm_external_session_id r, sm_message_count r)) ys"

lemma same_counts_D:
  assumes "same_counts xs ys"
  shows "map sm_id xs = map sm_id ys" "map sm_external_session_id xs = map sm_external_session_id ys"
    "r \<in> set xs \<Longrightarrow> \<exists>r' \<in> set ys. sm_id r' = sm_id r \<and> sm_message_count r' = sm_message_count r"
proof -
  have "map fst (map (\<lambda>r. (sm_id r, sm_external_session_id r, sm_message_count r)) xs) = map fst (map (\<lambda>r. (sm_id r, sm_external_session_id r, sm_message_count r)) ys)"
    "map (fst \<circ> snd) (map (\<lambda>r. (sm_id r, sm_external_session_id r, sm_message_count r)) xs) =
     map (fst \<circ> snd) (map (\<lambda>r. (sm_id r, sm_external_session_id r, sm_message_count r)) ys)"
    using assms unfolding same_counts_def by simp_all
  then show "map sm_id xs = map sm_id ys" "map sm_external_session_id xs = map sm_external_session_id ys" by (simp_all add: comp_def)
  assume "r \<in> set xs"
  then have "(sm_id r, sm_external_session_id r, sm_message_count r) \<in> set (map (\<lambda>r. (sm_id r, sm_external_session_id r, sm_message_count r)) ys)"
    using assms unfolding same_counts_def [symmetric, of xs ys] by (metis (no_types, lifting) image_eqI list.set_map same_counts_def)
  then show "\<exists>r' \<in> set ys. sm_id r' = sm_id r \<and> sm_message_count r' = sm_message_count r" by auto
qed

lemma persona_row_set: "same_counts (row_set sm_id i (\<lambda>r. r\<lparr>sm_persona_id := p, sm_updated_at := t\<rparr>) xs) xs"
  by (auto simp: same_counts_def row_set_def)

lemma persona_row_ids: "sm_id ` set (row_set sm_id i (\<lambda>r. r\<lparr>sm_persona_id := p, sm_updated_at := t\<rparr>) xs) = sm_id ` set (xs :: TeamSessionModel list)"
  using arg_cong [OF same_counts_D(1) [OF persona_row_set [where i = i and p = p and t = t and xs = xs]], of set] by simp

lemma same_counts_refl [simp]: "same_counts xs xs"
  by (simp add: same_counts_def)

lemma resolve_result:
  assumes "resolve_or_create_session q external persona cfg redis db = Inr (db1, sid, s)"
  shows "td_workflows db1 = td_workflows db \<and> td_steps db1 = td_steps db \<and> td_memory db1 = td_memory db \<and>
    td_next db \<le> td_next db1 \<and> sid \<in> sm_id ` set (td_sessions db1) \<and> tss_messages s = [] \<and>
    ((same_counts (td_sessions db1) (td_sessions db)) \<or>
     (\<exists>new. td_sessions db1 = td_sessions db @ [new] \<and> sm_id new = re_id q (Suc (td_next db)) \<and> sm_id new = sid \<and> sm_message_count new = 0 \<and>
        sm_external_session_id new \<notin> sm_external_session_id ` set (td_sessions db) \<and> Suc (td_next db) < td_next db1))"
proof -
  let ?ext = "str_or external (re_id q (td_next db))"
  show ?thesis
  proof (cases "get_by_external_id ?ext db")
    case None
    then show ?thesis
      using assms by (auto simp: resolve_or_create_session_def Let_def rbind_eq_Inr create_team_session_def new_session_def split: if_splits)
  next
    case (Some row)
    then have "row \<in> set (td_sessions db)" by (auto simp: get_by_external_id_def dest: row_get_SomeD)
    then show ?thesis
      using assms Some by (auto simp: resolve_or_create_session_def Let_def rbind_eq_Inr persona_row_set persona_row_ids new_session_def split: if_splits)
  qed
qed

lemma workflow_ok_cong:
  "workflow_ok db r \<Longrightarrow> td_steps db1 = td_steps db \<Longrightarrow> sm_id ` set (td_sessions db) \<subseteq> sm_id ` set (td_sessions db1) \<Longrightarrow> workflow_ok db1 r"
  by (auto simp: workflow_ok_def steps_of_workflow_def Let_def)

lemma resolve_ok:
  assumes "inj (re_id q)" "team_tables_ok (re_id q) db" "resolve_or_create_session q external persona cfg redis db = Inr (db1, sid, s)"
  shows "team_tables_ok (re_id q) db1"
proof -
  note res = resolve_result [OF assms(3)]
  have st: "td_steps db1 = td_steps db" "td_workflows db1 = td_workflows db" "td_next db \<le> td_next db1" using res by auto
  have ok: "workflow_ok db r" if "r \<in> set (td_workflows db)" for r using assms(2) that by (simp add: team_tables_ok_def)
  have wf: "workflows_of i db1 = workflows_of i db" for i using res by (simp add: workflows_of_def)
  have mk: "memory_keys db1 = memory_keys db" using res by (simp add: memory_keys_def)
  consider (same) "same_counts (td_sessions db1) (td_sessions db)"
    | (new) new where "td_sessions db1 = td_sessions db @ [new]" "sm_id new = re_id q (Suc (td_next db))" "sm_message_count new = 0"
      "sm_external_session_id new \<notin> sm_external_session_id ` set (td_sessions db)" "Suc (td_next db) < td_next db1"
    using res by blast
  then show ?thesis
  proof cases
    case same
    note d = same_counts_D [OF same]
    have ids: "sm_id ` set (td_sessions db) = sm_id ` set (td_sessions db1)" using arg_cong [OF d(1), of set] by simp
    have "sm_message_count r = 2 * int (length (workflows_of (sm_id r) db1))" if "r \<in> set (td_sessions db1)" for r
      using d(3) [OF that] assms(2) by (auto simp: team_tables_ok_def wf)
    moreover have "workflow_ok db1 r" if "r \<in> set (td_workflows db)" for r
      by (rule workflow_ok_cong [OF ok [OF that] st(1)]) (simp add: ids)
    ultimately show ?thesis using assms(2) st d(1,2) mk by (auto simp: team_tables_ok_def ids_below_mono)
  next
    case new
    have f: "re_id q (Suc (td_next db)) \<notin> set (map sm_id (td_sessions db))"
      using assms(1,2) by (intro ids_below_fresh [of _ "td_next db"]) (auto simp: team_tables_ok_def)
    have "wm_team_session_id r \<noteq> sm_id new" if "r \<in> set (td_workflows db)" for r
    proof -
      have "wm_team_session_id r \<in> sm_id ` set (td_sessions db)" using ok [OF that] by (simp add: workflow_ok_def Let_def)
      then show ?thesis using f new(2) by auto
    qed
    then have "workflows_of (sm_id new) db = []" by (simp add: workflows_of_def filter_empty_conv)
    moreover have "ids_below (re_id q) (td_next db1) (map sm_id (td_sessions db1))"
      using assms(1,2) new(1,2,5) ids_below_append [of "re_id q" "td_next db" "map sm_id (td_sessions db)" "Suc (td_next db)" "td_next db1"]
      by (simp add: team_tables_ok_def)
    moreover have "workflow_ok db1 r" if "r \<in> set (td_workflows db)" for r
      by (rule workflow_ok_cong [OF ok [OF that] st(1)]) (auto simp: new(1))
    ultimately show ?thesis using assms(2) st new mk by (auto simp: team_tables_ok_def wf ids_below_mono)
  qed
qed

lemma persisted_steps:
  assumes "td_steps db' = td_steps db @ new" "map step_row new = map (step_record wid) (enumerate 0 sts)"
    "\<forall>t \<in> set (td_steps db). wsm_workflow_id t \<noteq> wid"
  shows "steps_of_workflow wid db' = new" "i \<noteq> wid \<Longrightarrow> steps_of_workflow i db' = steps_of_workflow i db"
    "map wsm_step_order new = [0..<length sts]" "map wsm_role new = map sr_role sts" "map wsm_output new = map sr_output sts"
    "map wsm_task new = map sr_task sts" "\<forall>t \<in> set new. wsm_workflow_id t = wid"
proof -
  have len: "length new = length sts" using arg_cong [OF assms(2), of length] by simp
  have nth: "step_row (new ! k) = step_record wid (k, sts ! k)" if "k < length sts" for k
    using arg_cong [OF assms(2), of "\<lambda>xs. xs ! k"] that len by (simp add: nth_enumerate_eq)
  show all: "\<forall>t \<in> set new. wsm_workflow_id t = wid"
    using nth len by (auto simp: in_set_conv_nth step_row_def step_record_def)
  then show "steps_of_workflow wid db' = new"
    using assms(1,3) by (simp add: steps_of_workflow_def filter_empty_conv filter_id_conv)
  show "i \<noteq> wid \<Longrightarrow> steps_of_workflow i db' = steps_of_workflow i db"
    using all assms(1) by (auto simp: steps_of_workflow_def filter_empty_conv)
  show "map wsm_step_order new = [0..<length sts]" "map wsm_role new = map sr_role sts" "map wsm_output new = map sr_output sts"
    "map wsm_task new = map sr_task sts"
    using nth len by (auto intro!: nth_equalityI simp: step_row_def step_record_def)
qed

lemma counts_after:
  assumes "td_sessions db3 = row_set sm_id sid f (td_sessions db1)" "\<And>r. sm_id (f r) = sm_id r \<and> sm_message_count (f r) = sm_message_count r + 2"
    "td_workflows db3 = td_workflows db1 @ [wrow]" "wm_team_session_id wrow = sid"
    "\<forall>r \<in> set (td_sessions db1). sm_message_count r = 2 * int (length (workflows_of (sm_id r) db1))" "r \<in> set (td_sessions db3)"
  shows "sm_message_count r = 2 * int (length (workflows_of (sm_id r) db3))"
proof -
  obtain r0 where r0: "r0 \<in> set (td_sessions db1)" "r = (if sm_id r0 = sid then f r0 else r0)"
    using assms(1,6) by (auto simp: row_set_def)
  then show ?thesis using assms(2) [of r0] assms(3,4,5) by (auto simp: workflows_of_def)
qed

text \<open>What a successful request writes.\<close>

lemma invoke_service_writes:
  assumes "invoke_service q env loads llm ch task base session_id persona_id rows use_langgraph db w = (w', Inr (db3, res))"
  obtains db1 sid s new f where "resolve_or_create_session q session_id persona_id (JObj [(''use_langgraph'', JBool use_langgraph)]) (tw_redis w) db = Inr (db1, sid, s)"
    "run_team env loads llm ch use_langgraph base (session_toolbox env (tss_session_id s) (Some rows)) task s w = (w', Inr res)"
    "td_steps db3 = td_steps db1 @ new" "map step_row new = map (step_record (re_id q (td_next db1))) (enumerate 0 (wf_steps (rr_workflow res)))"
    "td_next db1 < td_next db3" "distinct (memory_keys db1) \<longrightarrow> distinct (memory_keys db3)"
    "td_sessions db3 = row_set sm_id sid f (td_sessions db1)"
    "\<And>r. sm_id (f r) = sm_id r \<and> sm_external_session_id (f r) = sm_external_session_id r \<and> sm_message_count (f r) = sm_message_count r + 2"
    "td_workflows db3 = row_set wm_id (re_id q (td_next db1))
       (\<lambda>r. r\<lparr>wm_status := TW_COMPLETED, wm_final_response := Some (rr_response res), wm_personalities_used := rr_personalities_used res,
          wm_tool_results := rr_tool_results res, wm_delegation_plan := Some (rr_delegation_plan res), wm_completed_at := Some (re_now q)\<rparr>)
       (td_workflows db1 @ [\<lparr> wm_id = re_id q (td_next db1), wm_team_session_id = sid, wm_goal = task, wm_status = TW_RUNNING, wm_delegation_plan = None,
               wm_final_response = None, wm_personalities_used = [], wm_tool_results = [], wm_created_at = re_now q, wm_completed_at = None \<rparr>])"
proof -
  obtain db1 sid s where r: "resolve_or_create_session q session_id persona_id (JObj [(''use_langgraph'', JBool use_langgraph)]) (tw_redis w) db = Inr (db1, sid, s)"
    using assms by (auto simp: invoke_service_def split: sum.splits)
  let ?wid = "re_id q (td_next db1)"
  define wrow where "wrow = \<lparr> wm_id = ?wid, wm_team_session_id = sid, wm_goal = task, wm_status = TW_RUNNING, wm_delegation_plan = None,
               wm_final_response = None, wm_personalities_used = [], wm_tool_results = [], wm_created_at = re_now q, wm_completed_at = None \<rparr>"
  have run: "run_team env loads llm ch use_langgraph base (session_toolbox env (tss_session_id s) (Some rows)) task s w = (w', Inr res)"
    and p: "persist_run q sid ?wid (tw_redis w') res (create_workflow wrow db1) = Inr db3"
    using assms r unfolding wrow_def by (auto simp: invoke_service_def Let_def rbind_eq_Inr split: prod.splits sum.splits)
  obtain db2 where d: "persist_steps q sid ?wid 0 (wf_steps (rr_workflow res)) (create_workflow wrow db1) = Inr db2"
    using p by (auto simp: persist_run_def rbind_eq_Inr)
  define f where "f = (\<lambda>r :: TeamSessionModel. r\<lparr>sm_memory_snapshot := (if redis_snapshot (rr_session_id res) (tw_redis w') \<noteq> []
      then redis_snapshot (rr_session_id res) (tw_redis w') else tss_memory_snapshot (rr_session res)),
      sm_message_count := sm_message_count r + 2, sm_updated_at := re_now q\<rparr>)"
  have sess: "td_sessions db3 = row_set sm_id sid f (td_sessions db2)"
    using p d by (auto simp: persist_run_def Let_def increment_messages_def mark_completed_def row_set_def f_def)
  have out: "td_steps db3 = td_steps db2" "td_next db3 = td_next db2" "memory_keys db3 = memory_keys db2"
    "td_workflows db3 = row_set wm_id ?wid
       (\<lambda>r. r\<lparr>wm_status := TW_COMPLETED, wm_final_response := Some (rr_response res), wm_personalities_used := rr_personalities_used res,
          wm_tool_results := rr_tool_results res, wm_delegation_plan := Some (rr_delegation_plan res), wm_completed_at := Some (re_now q)\<rparr>) (td_workflows db2)"
    using p d by (auto simp: persist_run_def Let_def increment_messages_def mark_completed_def memory_keys_def)
  note ps = persist_steps_result [OF d]
  obtain new where new: "td_steps db2 = td_steps (create_workflow wrow db1) @ new"
    "map step_row new = map (step_record ?wid) (enumerate 0 (wf_steps (rr_workflow res)))" using ps by blast
  have cw: "td_sessions (create_workflow wrow db1) = td_sessions db1" "td_steps (create_workflow wrow db1) = td_steps db1"
    "memory_keys (create_workflow wrow db1) = memory_keys db1" "td_next (create_workflow wrow db1) = Suc (td_next db1)"
    "td_workflows (create_workflow wrow db1) = td_workflows db1 @ [wrow]"
    by (simp_all add: create_workflow_def memory_keys_def)
  show thesis
  proof (rule that [OF r run])
    show "td_steps db3 = td_steps db1 @ new" using new(1) out(1) cw(2) by simp
    show "map step_row new = map (step_record ?wid) (enumerate 0 (wf_steps (rr_workflow res)))" by (rule new(2))
    show "td_next db1 < td_next db3" using ps out(2) cw(4) by simp
    show "distinct (memory_keys db1) \<longrightarrow> distinct (memory_keys db3)" using ps out(3) cw(3) by simp
    show "td_sessions db3 = row_set sm_id sid f (td_sessions db1)" using sess ps cw(1) by simp
    show "sm_id (f r) = sm_id r \<and> sm_external_session_id (f r) = sm_external_session_id r \<and> sm_message_count (f r) = sm_message_count r + 2" for r
      by (simp add: f_def)
  qed (use out(4) ps cw(5) in \<open>simp add: wrow_def\<close>)
qed

lemma run_shape_steps:
  assumes "fair ch" "run_team env loads llm ch use_langgraph base (session_toolbox env (tss_session_id s) (Some rows)) task s w = (w', Inr res)"
  shows "map sr_role (wf_steps (rr_workflow res)) = rr_personalities_used res" "wf_steps (rr_workflow res) \<noteq> []"
    "rr_response res = sr_output (last (wf_steps (rr_workflow res)))" "rr_session_id res = tss_session_id s"
proof -
  have "run_shape task (dp_specialists (select_delegation_plan task)) (push_message ''user'' task s) res"
    using team_run_record [OF assms(1) refl, where s = s and rows = "Some rows" and w = w and env = env and loads = loads and llm = llm
        and use_langgraph = use_langgraph and base = base and task = task] assms(2) by auto
  then show "map sr_role (wf_steps (rr_workflow res)) = rr_personalities_used res" "wf_steps (rr_workflow res) \<noteq> []"
    "rr_response res = sr_output (last (wf_steps (rr_workflow res)))" "rr_session_id res = tss_session_id s"
    by (auto simp: run_shape_def push_message_def)
qed

lemma invoke_service_ok:
  assumes "inj (re_id q)" "fair ch" "team_tables_ok (re_id q) db"
    "invoke_service q env loads llm ch task base session_id persona_id rows use_langgraph db w = (w', Inr (db3, res))"
  shows "team_tables_ok (re_id q) db3"
proof (rule invoke_service_writes [OF assms(4)])
  fix db1 :: team_db and sid s new and f :: "TeamSessionModel \<Rightarrow> TeamSessionModel"
  let ?wid = "re_id q (td_next db1)" and ?sts = "wf_steps (rr_workflow res)"
  let ?row = "\<lparr> wm_id = ?wid, wm_team_session_id = sid, wm_goal = task, wm_status = TW_COMPLETED, wm_delegation_plan = Some (rr_delegation_plan res),
     wm_final_response = Some (rr_response res), wm_personalities_used = rr_personalities_used res, wm_tool_results = rr_tool_results res,
     wm_created_at = re_now q, wm_completed_at = Some (re_now q) \<rparr>"
  assume r: "resolve_or_create_session q session_id persona_id (JObj [(''use_langgraph'', JBool use_langgraph)]) (tw_redis w) db = Inr (db1, sid, s)"
    and run: "run_team env loads llm ch use_langgraph base (session_toolbox env (tss_session_id s) (Some rows)) task s w = (w', Inr res)"
    and st: "td_steps db3 = td_steps db1 @ new" "map step_row new = map (step_record ?wid) (enumerate 0 ?sts)"
    and n: "td_next db1 < td_next db3" and mem: "distinct (memory_keys db1) \<longrightarrow> distinct (memory_keys db3)"
    and se: "td_sessions db3 = row_set sm_id sid f (td_sessions db1)"
    and f: "\<And>r. sm_id (f r) = sm_id r \<and> sm_external_session_id (f r) = sm_external_session_id r \<and> sm_message_count (f r) = sm_message_count r + 2"
    and wk: "td_workflows db3 = row_set wm_id ?wid
       (\<lambda>r. r\<lparr>wm_status := TW_COMPLETED, wm_final_response := Some (rr_response res), wm_personalities_used := rr_personalities_used res,
          wm_tool_results := rr_tool_results res, wm_delegation_plan := Some (rr_delegation_plan res), wm_completed_at := Some (re_now q)\<rparr>)
       (td_workflows db1 @ [\<lparr> wm_id = ?wid, wm_team_session_id = sid, wm_goal = task, wm_status = TW_RUNNING, wm_delegation_plan = None,
               wm_final_response = None, wm_personalities_used = [], wm_tool_results = [], wm_created_at = re_now q, wm_completed_at = None \<rparr>])"
  have ok: "team_tables_ok (re_id q) db1" by (rule resolve_ok [OF assms(1,3) r])
  have fresh: "?wid \<notin> wm_id ` set (td_workflows db1)"
    using ids_below_fresh [OF _ assms(1), of "td_next db1" "map wm_id (td_workflows db1)"] ok by (auto simp: team_tables_ok_def)
  have wk': "td_workflows db3 = td_workflows db1 @ [?row]"
    unfolding wk by (subst row_set_append_new [OF fresh]) simp_all
  have ids: "map sm_id (td_sessions db3) = map sm_id (td_sessions db1)" "map sm_external_session_id (td_sessions db3) = map sm_external_session_id (td_sessions db1)"
    using f by (simp_all add: se row_set_def)
  have sid: "sid \<in> sm_id ` set (td_sessions db3)"
    using resolve_result [OF r] arg_cong [OF ids(1), of set] by simp
  have old: "\<forall>t \<in> set (td_steps db1). wsm_workflow_id t \<noteq> ?wid" using ok fresh unfolding team_tables_ok_def by metis
  note p = persisted_steps [OF st old]
  have "workflow_ok db3 r" if "r \<in> set (td_workflows db1)" for r
  proof -
    have "wm_id r \<noteq> ?wid" using fresh that by (metis image_eqI)
    moreover have "workflow_ok db1 r" using ok that by (simp add: team_tables_ok_def)
    ultimately show ?thesis using p(2) [of "wm_id r"] arg_cong [OF ids(1), of set] by (simp add: workflow_ok_def Let_def)
  qed
  moreover have "workflow_ok db3 ?row"
  proof -
    have "wsm_output (last new) = sr_output (last ?sts)" "new \<noteq> []" "length new = length ?sts"
      using p(3,5) run_shape_steps(2) [OF assms(2) run] by (metis last_map map_is_Nil_conv, auto dest: arg_cong [of _ _ length])
    then show ?thesis using p(1,3,4) run_shape_steps [OF assms(2) run] sid by (simp add: workflow_ok_def Let_def)
  qed
  moreover have "\<forall>t \<in> set (td_steps db3). wsm_workflow_id t \<in> wm_id ` set (td_workflows db3)"
    using ok p(7) by (auto simp: st(1) wk' team_tables_ok_def)
  moreover have "\<forall>r \<in> set (td_sessions db3). sm_message_count r = 2 * int (length (workflows_of (sm_id r) db3))"
    using counts_after [OF se _ wk'] f ok by (simp add: team_tables_ok_def)
  moreover have "ids_below (re_id q) (td_next db3) (map wm_id (td_workflows db3))"
    using ids_below_append [OF _ assms(1) order_refl n, of "map wm_id (td_workflows db1)"] ok by (simp add: wk' team_tables_ok_def)
  ultimately show ?thesis
    using ok ids mem n ids_below_mono [of "re_id q" "td_next db1" _ "td_next db3"] by (auto simp: team_tables_ok_def wk')
qed

lemma resolve_row:
  assumes "resolve_or_create_session q external persona cfg redis db = Inr (db1, sid, s)"
  shows "(sid, tss_session_id s) \<in> (\<lambda>r. (sm_id r, sm_external_session_id r)) ` set (td_sessions db1)"
proof (cases "get_by_external_id (str_or external (re_id q (td_next db))) db")
  case None
  then show ?thesis
    using assms by (auto simp: resolve_or_create_session_def Let_def rbind_eq_Inr create_team_session_def new_session_def split: if_splits)
next
  case (Some row)
  have row: "row \<in> set (td_sessions db)" "sm_external_session_id row = str_or external (re_id q (td_next db))"
    using Some by (auto simp: get_by_external_id_def dest: row_get_SomeD)
  have "(\<lambda>r. (sm_id r, sm_external_session_id r)) ` set (row_set sm_id i (\<lambda>r. r\<lparr>sm_persona_id := p, sm_updated_at := t\<rparr>) (td_sessions db)) =
      set (map (\<lambda>r. (sm_id r, sm_external_session_id r)) (td_sessions db))" for i p t
    unfolding set_map [symmetric] row_set_def map_map by (rule arg_cong [of _ _ set]) simp
  moreover have "(sm_id row, str_or external (re_id q (td_next db))) \<in> (\<lambda>r. (sm_id r, sm_external_session_id r)) ` set (td_sessions db)"
    using row by (force intro: rev_image_eqI [of row])
  ultimately show ?thesis
    using assms Some row by (auto simp: resolve_or_create_session_def Let_def rbind_eq_Inr new_session_def split: if_splits)
qed

section \<open>Requests\<close>

definition team_empty :: team_db where
  "team_empty = \<lparr> td_sessions = [], td_workflows = [], td_steps = [], td_memory = [], td_next = 0 \<rparr>"

text \<open>The routes that read leave the tables alone; the world may change between requests.\<close>

inductive team_step :: "(nat \<Rightarrow> string) \<Rightarrow> team_db \<times> team_world \<Rightarrow> team_db \<times> team_world \<Rightarrow> bool" for rid where
  invoke: "re_id q = rid \<Longrightarrow> fair ch \<Longrightarrow> invoke_team q env loads llm available ch body adb st = (st', r) \<Longrightarrow> team_step rid st st'"
| world: "team_step rid (db, w) (db, w')"

lemma invoke_team_error: "invoke_team q env loads llm available ch body adb (db, w) = ((db', w'), Inl e) \<Longrightarrow> db' = db"
  by (auto simp: invoke_team_def split: sum.splits if_splits prod.splits option.splits)

lemma invoke_team_success:
  assumes "invoke_team q env loads llm available ch body adb (db, w) = ((db', w'), Inr res)"
  obtains base persona rows where "invoke_service q env loads llm ch (ti_task body) base (ti_session_id body) persona rows (ti_use_langgraph body) db w
     = (w', Inr (db', res))"
  using assms by (auto simp: invoke_team_def split: sum.splits if_splits prod.splits option.splits)

lemma invoke_team_ok:
  assumes "inj (re_id q)" "fair ch" "team_tables_ok (re_id q) db"
    "invoke_team q env loads llm available ch body adb (db, w) = ((db', w'), r)"
  shows "team_tables_ok (re_id q) db'"
proof (cases r)
  case (Inl e)
  then show ?thesis using invoke_team_error assms(3,4) by blast
next
  case (Inr res)
  then show ?thesis using invoke_team_success [OF assms(4) [unfolded Inr]] invoke_service_ok [OF assms(1-3)] by metis
qed

interpretation teams: invariant_system "team_step rid" "\<lambda>st. fst st = team_empty" "\<lambda>st. inj rid \<longrightarrow> team_tables_ok rid (fst st)" for rid
proof
  show "inj rid \<longrightarrow> team_tables_ok rid (fst st)" if "fst st = team_empty" for st
    using that by (simp add: team_empty_def team_tables_ok_def ids_below_def memory_keys_def)
  show "inj rid \<longrightarrow> team_tables_ok rid (fst st')" if "team_step rid st st'" "inj rid \<longrightarrow> team_tables_ok rid (fst st)" for st st'
    using that
  proof (induction rule: team_step.induct)
    case (invoke q ch env loads llm available body adb st st' r)
    then show ?case using invoke_team_ok [of q ch "fst st" env loads llm available body adb "snd st" "fst st'" "snd st'" r] by auto
  qed simp
qed

text \<open>
  C9. The team tables stay consistent under any sequence of requests, with any model, any timing and any failures in
  between: session names and memory keys are unique, every stored workflow is completed, belongs to a session, has its
  steps numbered from zero without gaps, their roles are the personalities it lists and the last output is its
  response; and a session counts two messages per stored workflow. So a run that fails leaves no trace in them.
\<close>

theorem team_tables_consistent:
  assumes "inj rid" "(team_step rid)\<^sup>*\<^sup>* (team_empty, w) (db, w')"
  shows "team_tables_ok rid db"
  using teams.reachable_inv [of "(team_empty, w)" rid "(db, w')"] assms by simp

section \<open>Reading a run back\<close>

lemma insort_key_last: "\<forall>y \<in> set ys. f y < f x \<Longrightarrow> insort_key f x ys = ys @ [x]"
  by (induction ys) auto

lemma sort_desc_newest: "\<forall>y \<in> set xs. f y < f x \<Longrightarrow> sort_desc f (xs @ [x]) = x # sort_desc f xs"
  by (simp add: sort_desc_def insort_key_last)

text \<open>
  C21. What a request answers is what the session shows afterwards: reading the session gives the run as its first
  workflow, completed, with the goal, the response and the steps of the run in order; and its message count is two
  per workflow. The clock is later than every stored workflow.
\<close>

theorem invoked_run_reads_back:
  assumes "inj (re_id q)" "fair ch" "team_tables_ok (re_id q) db" "\<forall>r \<in> set (td_workflows db). wm_created_at r < re_now q"
    "invoke_team q env loads llm available ch body adb (db, w) = ((db', w'), Inr res)"
  shows "\<exists>d row steps rest. get_team_session (rr_session_id res) redis db' = Inr d \<and> de_workflows d = (row, steps) # rest \<and>
    wm_goal row = ti_task body \<and> wm_status row = TW_COMPLETED \<and> wm_final_response row = Some (rr_response res) \<and>
    wm_personalities_used row = rr_personalities_used res \<and>
    map (\<lambda>t. (wsm_role t, wsm_task t, wsm_output t)) steps = flow_view (rr_workflow res)"
proof -
  obtain base persona rows where sv: "invoke_service q env loads llm ch (ti_task body) base (ti_session_id body) persona rows (ti_use_langgraph body) db w
     = (w', Inr (db', res))" by (rule invoke_team_success [OF assms(5)])
  show ?thesis
  proof (rule invoke_service_writes [OF sv])
    fix db1 :: team_db and sid s new and f :: "TeamSessionModel \<Rightarrow> TeamSessionModel"
    let ?wid = "re_id q (td_next db1)" and ?sts = "wf_steps (rr_workflow res)"
    let ?row = "\<lparr> wm_id = ?wid, wm_team_session_id = sid, wm_goal = ti_task body, wm_status = TW_COMPLETED, wm_delegation_plan = Some (rr_delegation_plan res),
       wm_final_response = Some (rr_response res), wm_personalities_used = rr_personalities_used res, wm_tool_results = rr_tool_results res,
       wm_created_at = re_now q, wm_completed_at = Some (re_now q) \<rparr>"
    assume r: "resolve_or_create_session q (ti_session_id body) persona (JObj [(''use_langgraph'', JBool (ti_use_langgraph body))]) (tw_redis w) db = Inr (db1, sid, s)"
      and run: "run_team env loads llm ch (ti_use_langgraph body) base (session_toolbox env (tss_session_id s) (Some rows)) (ti_task body) s w = (w', Inr res)"
      and st: "td_steps db' = td_steps db1 @ new" "map step_row new = map (step_record ?wid) (enumerate 0 ?sts)"
      and se: "td_sessions db' = row_set sm_id sid f (td_sessions db1)"
      and f: "\<And>r. sm_id (f r) = sm_id r \<and> sm_external_session_id (f r) = sm_external_session_id r \<and> sm_message_count (f r) = sm_message_count r + 2"
      and wk: "td_workflows db' = row_set wm_id ?wid
         (\<lambda>r. r\<lparr>wm_status := TW_COMPLETED, wm_final_response := Some (rr_response res), wm_personalities_used := rr_personalities_used res,
            wm_tool_results := rr_tool_results res, wm_delegation_plan := Some (rr_delegation_plan res), wm_completed_at := Some (re_now q)\<rparr>)
         (td_workflows db1 @ [\<lparr> wm_id = ?wid, wm_team_session_id = sid, wm_goal = ti_task body, wm_status = TW_RUNNING, wm_delegation_plan = None,
                 wm_final_response = None, wm_personalities_used = [], wm_tool_results = [], wm_created_at = re_now q, wm_completed_at = None \<rparr>])"
    have ok: "team_tables_ok (re_id q) db1" "team_tables_ok (re_id q) db'"
      by (rule resolve_ok [OF assms(1,3) r], rule invoke_service_ok [OF assms(1-3) sv])
    have fresh: "?wid \<notin> wm_id ` set (td_workflows db1)"
      using ids_below_fresh [OF _ assms(1), of "td_next db1" "map wm_id (td_workflows db1)"] ok(1) by (auto simp: team_tables_ok_def)
    have wk': "td_workflows db' = td_workflows db1 @ [?row]"
      unfolding wk by (subst row_set_append_new [OF fresh]) simp_all
    have old: "\<forall>t \<in> set (td_steps db1). wsm_workflow_id t \<noteq> ?wid" using ok(1) fresh unfolding team_tables_ok_def by metis
    note p = persisted_steps [OF st old]
    obtain r0 where r0: "r0 \<in> set (td_sessions db1)" "sm_id r0 = sid" "sm_external_session_id r0 = tss_session_id s"
      using resolve_row [OF r] by auto
    then have "f r0 \<in> set (td_sessions db')" by (auto simp: se row_set_def)
    then have get: "get_by_external_id (rr_session_id res) db' = Some (f r0)"
      using row_get_unique [of sm_external_session_id "td_sessions db'" "f r0"] ok(2) f [of r0] r0 run_shape_steps(4) [OF assms(2) run]
      by (simp add: get_by_external_id_def team_tables_ok_def)
    have "workflows_for_session 20 sid db' = ?row # take 19 (sort_desc wm_created_at (filter (\<lambda>r. wm_team_session_id r = sid) (td_workflows db1)))"
      using assms(4) resolve_result [OF r] by (simp add: workflows_for_session_def wk' sort_desc_newest)
    moreover have "sort_key wsm_step_order new = new" by (rule sort_key_id_if_sorted) (simp add: p(3))
    moreover have "map (\<lambda>t. (wsm_role t, wsm_task t, wsm_output t)) new = flow_view (rr_workflow res)"
    proof -
      have "(\<lambda>t. (wsm_role t, wsm_task t, wsm_output t)) = (snd \<circ> snd) \<circ> step_row" by (auto simp: step_row_def)
      then have "map (\<lambda>t. (wsm_role t, wsm_task t, wsm_output t)) new = map (snd \<circ> snd) (map step_row new)" by simp
      also have "\<dots> = flow_view (rr_workflow res)"
        unfolding st(2) by (auto intro!: nth_equalityI simp: flow_view_def step_record_def nth_enumerate_eq)
      finally show ?thesis .
    qed
    ultimately show ?thesis
      using f [of r0] r0 p(1) by (simp add: get_team_session_def get_session_detail_def get Let_def)
  qed
qed

section \<open>Requests that succeed\<close>

text \<open>No result of a tool names a parallel group, so none is ever stored.\<close>

theorem no_parallel_group:
  "snd (tool_runner env loads ch (reg, True) i role output w) = Inr tc \<Longrightarrow> parallel_group_of tc = Inr None"
  by (auto simp: tool_runner_def Let_def jresult_def parallel_group_of_def dget_def split: prod.splits list.split)

lemma record_results_tools:
  "record_results grp rs (completed, st) = (completed', st') \<Longrightarrow>
     sr_tool_calls ` set (wf_steps st') \<subseteq> sr_tool_calls ` set (wf_steps st) \<union> snd ` set rs"
proof -
  have "foldl (\<lambda>(completed, st) (s, output, tc).
     (dset (ds_role s) output completed, add_step (ds_role s) (group_task grp (ds_role s)) output tc st)) (completed, st) (zip ss rs)
     = (completed', st') \<Longrightarrow> sr_tool_calls ` set (wf_steps st') \<subseteq> sr_tool_calls ` set (wf_steps st) \<union> snd ` set rs" for ss
  proof (induction ss arbitrary: rs completed st)
    case (Cons s ss)
    show ?case
    proof (cases rs)
      case (Cons r rs')
      obtain a tc where r: "r = (a, tc)" by force
      show ?thesis using Cons.IH [of "dset (ds_role s) a completed" "add_step (ds_role s) (group_task grp (ds_role s)) a tc st" rs'] Cons.prems
        by (auto simp: Cons r)
    qed (use Cons.prems in simp)
  qed simp
  then show "record_results grp rs (completed, st) = (completed', st') \<Longrightarrow> ?thesis" unfolding record_results_def by blast
qed

lemma run_group_tools:
  assumes "fair ch" "run_group llm sys runner ch pos grp completed w = (w', Inr results)"
    "\<And>i role out w tc. snd (runner i role out w) = Inr tc \<Longrightarrow> Q tc"
  shows "\<forall>x \<in> set results. Q (snd x)"
proof -
  have "\<exists>v. snd (answer_and_tools llm sys runner (pos + i) (ds_role (grp ! i)) (step_prompt completed (grp ! i)) v) = Inr (results ! i)"
    if "i < length results" for i
    using gather_cases [OF fair_finished [OF assms(1)] assms(2) [unfolded run_group_def]] that by auto
  moreover have "Q tc" if "snd (answer_and_tools llm sys runner i role user v) = Inr (a, tc)" for i role user v a tc
    using that assms(3) by (auto simp: answer_and_tools_def rbind_eq_Inr split: sum.splits prod.splits) (metis snd_conv)
  ultimately show ?thesis by (metis in_set_conv_nth prod.collapse)
qed

lemma exec_steps_tools:
  assumes "fair ch" "exec_steps llm sys runner ch pos ss completed st w = (w', Inr f)" "\<forall>x \<in> set (wf_steps st). Q (sr_tool_calls x)"
    "\<And>i role out w tc. snd (runner i role out w) = Inr tc \<Longrightarrow> Q tc"
  shows "\<forall>x \<in> set (wf_steps f). Q (sr_tool_calls x)"
  using assms
proof (induction llm sys runner ch pos ss completed st w rule: exec_steps.induct)
  case (2 llm sys runner ch pos s ss completed st w)
  let ?grp = "s # group_of s ss"
  obtain wa rs where g: "run_group llm sys runner ch pos ?grp completed w = (wa, Inr rs)"
    using 2(3) by (auto simp: Let_def split: prod.splits sum.splits)
  obtain ca sa where r: "record_results ?grp rs (completed, st) = (ca, sa)" by force
  have "\<forall>x \<in> set rs. Q (snd x)" by (rule run_group_tools [OF 2(2) g]) (rule 2(5))
  then have "\<forall>x \<in> set (wf_steps sa). Q (sr_tool_calls x)" using record_results_tools [OF r] 2(4) by fastforce
  then show ?case using 2(1) [OF refl g [symmetric] refl r [symmetric] 2(2)] 2(3,5) g r by (simp add: Let_def)
qed auto

lemma run_team_tools:
  assumes "fair ch" "run_team env loads llm ch use_langgraph base (session_toolbox env sid (Some rows)) task s w = (w', Inr res)"
    "x \<in> set (wf_steps (rr_workflow res))"
  shows "parallel_group_of (sr_tool_calls x) = Inr None"
proof (cases use_langgraph)
  case True
  then show ?thesis using assms(2,3)
    by (auto simp: run_team_def run_langgraph_path_def session_toolbox_def Let_def steps_foldl parallel_group_of_def
        split: prod.splits sum.splits)
next
  case False
  let ?runner = "tool_runner env loads ch (build_team_registry env sid rows, True)"
  obtain sys steps v v' where e: "exec_steps llm sys ?runner ch 0 steps [] (new_workflow task) v = (v', Inr (rr_workflow res))"
    using assms(2) False
    by (auto simp: run_team_def run_chain_path_def execute_workflow_chain_parallel_def session_toolbox_def Let_def split: prod.splits sum.splits)
  have "\<forall>x \<in> set (wf_steps (rr_workflow res)). parallel_group_of (sr_tool_calls x) = Inr None"
    by (rule exec_steps_tools [OF assms(1) e]) (auto dest: no_parallel_group)
  then show ?thesis using assms(3) by blast
qed

lemma upsert_total:
  assumes "distinct (memory_keys db)" "length key \<le> 255" "length (or_default role []) \<le> 50"
  shows "succeeds (upsert_entry q i key v tags role db)"
proof -
  let ?l = "filter (memory_at i key) (td_memory db)"
  have d: "distinct (map (\<lambda>m. (mm_team_session_id m, mm_memory_key m)) ?l)"
    using assms(1) unfolding memory_keys_def by (rule distinct_map_filter)
  have all: "(mm_team_session_id m, mm_memory_key m) = (i, key)" if "m \<in> set ?l" for m using that by (auto simp: memory_at_def)
  consider "?l = []" | m where "?l = [m]" | m n ms where "?l = m # n # ms" by (metis list.exhaust)
  then show ?thesis
  proof cases
    case (3 m n ms)
    then show ?thesis using d all [of m] all [of n] by auto
  qed (use assms(2,3) in \<open>auto simp: upsert_entry_def\<close>)
qed

lemma persist_steps_total:
  assumes "distinct (memory_keys db)" "\<forall>x \<in> set sts. parallel_group_of (sr_tool_calls x) = Inr None \<and> length (sr_role x) \<le> 50"
  shows "succeeds (persist_steps q sid wid k sts db)"
  using assms
proof (induction q sid wid k sts db rule: persist_steps.induct)
  case (2 q sid wid k st sts db)
  obtain db1 where a: "add_workflow_step q wid k (sr_role st) (sr_task st) (sr_output st) (sr_tool_calls st) None db = Inr db1"
    and k: "memory_keys db1 = memory_keys db" using 2(3) by (auto simp: add_workflow_step_def memory_keys_def)
  have "succeeds (upsert_entry q sid (sr_role st @ '':latest'') (take 4000 (sr_output st)) [''workflow'', sr_role st] (Some (sr_role st)) db1)"
    using 2(2,3) by (intro upsert_total) (auto simp: k or_default_def)
  then obtain db2 where u: "upsert_entry q sid (sr_role st @ '':latest'') (take 4000 (sr_output st)) [''workflow'', sr_role st] (Some (sr_role st)) db1 = Inr db2"
    unfolding succeeds_Inr by blast
  have "distinct (memory_keys db2)" using upsert_entry_result [OF u] 2(2) k by simp
  then have "succeeds (persist_steps q sid wid (Suc k) sts db2)" using 2(1) 2(3) by simp
  then show ?case using 2(3) a u by simp
qed simp

lemma valid_profile_updated: "valid_profile (p\<lparr>p_updated_at := u\<rparr>) = valid_profile p"
  by (simp add: valid_profile_def get_knobs_def)

lemma to_profile_valid: "to_profile m = Inr p \<Longrightarrow> valid_profile p"
  by (auto simp: to_profile_def PersonaProfile_init_def Let_def valid_profile_updated split: if_splits)

lemma team_default_valid: "valid_profile (team_default_profile now pid)"
proof -
  have "\<forall>kv \<in> set (get_knobs (team_default_profile now pid)). 0 \<le> snd kv \<and> snd kv \<le> 1"
    using raw_profile_knobs knob_default_unit unfolding team_default_profile_def
    by (fastforce simp: knob_or_default_def dget_or_def dget_def)
  then show ?thesis using order_trans [OF fl_le_one, of "7/10" 2]
    by (simp add: valid_profile_def team_default_profile_def raw_profile_fields or_default_def fl_nonneg)
qed

lemma request_persona_valid: "request_persona body adb = Inr (Some (i, p)) \<Longrightarrow> valid_profile p"
  by (auto simp: request_persona_def abind_eq_Inr lift_res_eq_Inr dest: to_profile_valid split: option.splits)

lemma plan_role_lengths:
  assumes "fair ch" "run_team env loads llm ch use_langgraph base (session_toolbox env (tss_session_id s) (Some rows)) task s w = (w', Inr res)"
    "x \<in> set (wf_steps (rr_workflow res))"
  shows "length (sr_role x) \<le> 50"
proof -
  have "run_shape task (dp_specialists (select_delegation_plan task)) (push_message ''user'' task s) res"
    using team_run_record [OF assms(1) refl, where s = s and rows = "Some rows" and w = w and env = env and loads = loads and llm = llm
        and use_langgraph = use_langgraph and base = base and task = task] assms(2) by auto
  then obtain order where o: "mset order = mset (dp_specialists (select_delegation_plan task))"
    "map sr_role (wf_steps (rr_workflow res)) = order @ [''coordinator'']" by (auto simp: run_shape_def)
  have "set order \<subseteq> range role_value" using mset_eq_setD [OF o(1)] plan_roles(3) by simp
  moreover have "sr_role x \<in> set (order @ [''coordinator''])" using assms(3) o(2) by (metis image_eqI list.set_map)
  moreover have "length (role_value r) \<le> 50" for r by (cases r) simp_all
  ultimately show ?thesis by auto
qed

lemma resolve_total:
  assumes "length (str_or external (re_id q (td_next db))) \<le> 100"
  shows "succeeds (resolve_or_create_session q external persona cfg redis db)"
proof (cases "get_by_external_id (str_or external (re_id q (td_next db))) db")
  case None
  then have "str_or external (re_id q (td_next db)) \<notin> sm_external_session_id ` set (td_sessions db)"
    by (simp add: get_by_external_id_def row_get_None_iff)
  then show ?thesis using assms None by (simp add: resolve_or_create_session_def Let_def create_team_session_def)
qed (auto simp: resolve_or_create_session_def Let_def)

lemma invoke_service_total:
  assumes "inj (re_id q)" "fair ch" "team_tables_ok (re_id q) db" "valid_profile base" "\<forall>i system user. succeeds (llm i system user)"
    "length (str_or session_id (re_id q (td_next db))) \<le> 100"
  shows "succeeds (snd (invoke_service q env loads llm ch task base session_id persona rows use_langgraph db w))"
proof -
  obtain db1 sid s where r: "resolve_or_create_session q session_id persona (JObj [(''use_langgraph'', JBool use_langgraph)]) (tw_redis w) db = Inr (db1, sid, s)"
    using resolve_total [OF assms(6), of persona "JObj [(''use_langgraph'', JBool use_langgraph)]" "tw_redis w"] unfolding succeeds_Inr by auto
  obtain w' res where run: "run_team env loads llm ch use_langgraph base (session_toolbox env (tss_session_id s) (Some rows)) task s w = (w', Inr res)"
    using team_run_total [OF assms(2,4,5), of env loads use_langgraph "tss_session_id s" rows task s w] by (metis prod.collapse)
  have "distinct (memory_keys db1)" using resolve_ok [OF assms(1,3) r] by (simp add: team_tables_ok_def)
  then have d: "distinct (memory_keys (create_workflow x db1))" for x by (simp add: create_workflow_def memory_keys_def)
  have "\<forall>x \<in> set (wf_steps (rr_workflow res)). parallel_group_of (sr_tool_calls x) = Inr None \<and> length (sr_role x) \<le> 50"
    using run_team_tools [OF assms(2) run] plan_role_lengths [OF assms(2) run] by blast
  then have "succeeds (persist_steps q sid wid 0 (wf_steps (rr_workflow res)) (create_workflow x db1))" for wid x
    by (rule persist_steps_total [OF d])
  then have "succeeds (persist_run q sid wid redis res (create_workflow x db1))" for wid redis x
    unfolding persist_run_def Let_def succeeds_Inr by (metis rbind_simps(2))
  then have "succeeds (rbind (persist_run q sid wid redis res (create_workflow x db1)) (\<lambda>db3. Inr (db3, res)))" for wid redis x
    unfolding succeeds_Inr by (metis rbind_simps(2))
  then show ?thesis by (simp add: invoke_service_def r run Let_def)
qed

lemma invoke_team_total:
  assumes "inj (re_id q)" "fair ch" "team_tables_ok (re_id q) db" "\<forall>i system user. succeeds (llm i system user)"
    "ti_task body \<noteq> []" "request_persona body adb = Inr persona" "nonempty (ti_agent_id body) = None \<or> py_uuid (the (nonempty (ti_agent_id body))) \<noteq> None"
    "length (str_or (ti_session_id body) (re_id q (td_next db))) \<le> 100"
  shows "\<exists>st' res. invoke_team q env loads llm True ch body adb (db, w) = (st', Inr res)"
proof -
  let ?base = "case persona of None \<Rightarrow> team_default_profile (re_now q) [] | Some (_, p) \<Rightarrow> p"
  have v: "valid_profile ?base" using assms(6) team_default_valid by (auto split: option.splits dest: request_persona_valid)
  obtain agent where a: "(case nonempty (ti_agent_id body) of None \<Rightarrow> Inr None | Some t \<Rightarrow> abind (to_uuid t) (\<lambda>i. Inr (Some i))) = Inr agent"
    using assms(7) by (cases "nonempty (ti_agent_id body)") (auto simp: to_uuid_def)
  have "succeeds (snd (invoke_service q env loads llm ch (ti_task body) ?base (ti_session_id body) (map_option fst persona) (agent_rows agent adb)
      (ti_use_langgraph body) db w))"
    by (rule invoke_service_total [OF assms(1-3) v assms(4,8)])
  then obtain w' db' res where "invoke_service q env loads llm ch (ti_task body) ?base (ti_session_id body) (map_option fst persona) (agent_rows agent adb)
      (ti_use_langgraph body) db w = (w', Inr (db', res))"
    unfolding succeeds_Inr by (metis prod.collapse)
  then show ?thesis using assms(5,6) a by (simp add: invoke_team_def)
qed

text \<open>
  C11. A team request is answered whenever the model answers: with a task, well-formed identifiers and a session name that
  fits its column, on tables the service itself wrote, nothing in planning, tools, audit log or persistence can fail.
\<close>

theorem team_request_answered:
  assumes "inj (re_id q)" "fair ch" "team_tables_ok (re_id q) db" "\<forall>i system user. succeeds (llm i system user)"
    "ti_task body \<noteq> []" "request_persona body adb = Inr persona" "nonempty (ti_agent_id body) = None \<or> py_uuid (the (nonempty (ti_agent_id body))) \<noteq> None"
    "length (str_or (ti_session_id body) (re_id q (td_next db))) \<le> 100"
  shows "\<exists>st' res. invoke_team q env loads llm True ch body adb (db, w) = (st', Inr res)"
  using assms by (rule invoke_team_total)

section \<open>Instances\<close>

definition example_request :: request_env where
  "example_request = \<lparr> re_id = (\<lambda>n. replicate n (CHR ''x'')), re_now = 1 \<rparr>"

definition example_body :: TeamInvokeRequest where
  "example_body = \<lparr> ti_task = ''plan'', ti_session_id = Some ''s'', ti_persona_id = None, ti_agent_id = None, ti_use_langgraph = False \<rparr>"

lemma example_inj: "inj (re_id example_request)"
  by (rule inj_on_inverseI [where g = length]) (simp add: example_request_def)

lemma empty_ok: "team_tables_ok rid team_empty"
  by (simp add: team_empty_def team_tables_ok_def ids_below_def memory_keys_def)

lemma example_persona: "request_persona example_body adb = Inr None"
  by (simp add: request_persona_def example_body_def nonempty_def)

abbreviation example_run :: "(team_db \<times> team_world) \<times> TeamRunResult api" where
  "example_run \<equiv> invoke_team example_request example_env example_loads example_llm True (example_choice (\<lambda>n. rev [0..<n])) example_body api_empty (team_empty, example_world)"

lemma example_run_total: "\<exists>st' res. example_run = (st', Inr res)"
  by (rule invoke_team_total [OF example_inj example_fair(2) empty_ok example_llm_answers _ example_persona])
    (simp_all add: example_body_def str_or_def nonempty_def)

theorem team_request_answered_witness: "\<exists>st' res. example_run = (st', Inr res)"
  by (rule team_request_answered [OF example_inj example_fair(2) empty_ok example_llm_answers _ example_persona])
    (simp_all add: example_body_def str_or_def nonempty_def)

theorem team_tables_consistent_witness:
  "team_tables_ok (re_id example_request) (fst (fst example_run)) \<and> (\<exists>st' res. example_run = (st', Inr res))"
proof -
  obtain db w r where e: "example_run = ((db, w), r)" by (metis prod.collapse)
  have "team_step (re_id example_request) (team_empty, example_world) (db, w)"
    by (rule team_step.invoke [OF refl example_fair(2) e])
  then have "(team_step (re_id example_request))\<^sup>*\<^sup>* (team_empty, example_world) (db, w)" by (rule r_into_rtranclp)
  from team_tables_consistent [OF example_inj this] example_run_total show ?thesis by (simp add: e)
qed

theorem invoked_run_reads_back_witness:
  "\<exists>db w res d row steps rest. example_run = ((db, w), Inr res) \<and> get_team_session (rr_session_id res) (tw_redis w) db = Inr d \<and>
     de_workflows d = (row, steps) # rest \<and> wm_final_response row = Some (rr_response res)"
proof -
  obtain db w res where e: "example_run = ((db, w), Inr res)" using example_run_total by (metis prod.collapse)
  have "\<forall>r \<in> set (td_workflows team_empty). wm_created_at r < re_now example_request" by (simp add: team_empty_def)
  from invoked_run_reads_back [OF example_inj example_fair(2) empty_ok this e, of "tw_redis w"] e show ?thesis by blast
qed

text \<open>
  A request that fails, for any reason, leaves the team tables exactly as they were, and answers with the status of
  its first problem: 422 for an empty task, an unhandled error for a malformed identifier, 503 without a provider, and
  500 when the run or its persistence raises.
\<close>

theorem failed_request_keeps_tables:
  "case invoke_team q env loads llm available ch body adb (db, w) of
     ((db', w'), Inl e) \<Rightarrow> db' = db \<and> status_code e =
       (if ti_task body = [] then 422 else if \<exists>x. request_persona body adb = Inl x then 500
        else if nonempty (ti_agent_id body) \<noteq> None \<and> py_uuid (the (nonempty (ti_agent_id body))) = None then 500
        else if \<not> available then 503 else 500)
   | ((db', w'), Inr res) \<Rightarrow> ti_task body \<noteq> [] \<and> available"
proof -
  have "status_code x = 500" if "request_persona body adb = Inl x" for x
    using that by (auto simp: request_persona_def abind_def to_uuid_def lift_res_def split: option.splits sum.splits)
  then show ?thesis
    by (auto simp: invoke_team_def to_uuid_def split: sum.splits if_splits prod.splits option.splits)
qed

end
