(* ===== verification/Spec2Isabelle.thy ===== *)
theory Spec2Isabelle
  imports Engine WorkQueue Sandbox Governor CityAnnals CityPulse WorkerPool RateLimit AgentRuns TeamStore
begin

text \<open>
  A verification development of Persola (\<open>src/persola\<close>), a service that shapes the personas of language
  model agents, lets them work in teams and runs a "communal city" of agent families.

  \<^bold>\<open>The program.\<close> A persona is a set of 23 knobs; an engine turns it into a prompt and sampling
  parameters and blends personas. A team delegates tasks along an org chart; tasks wait in a queue
  that workers poll. The city keeps families of agents in a database: families are founded, have
  children, age and are succeeded by heirs; they take on jobs, whose tools write versioned files and
  run programs in a sandbox; a cohesion gate decides whether a job is merged; a governor limits how
  much of this happens at once; every change leaves an event that clients read page by page. An HTTP API
  in front of it stores personas, agents, sessions and runs, caches prompts, checks keys and limits
  rates; the agents are invoked through one of several model providers. A team run asks several
  personalities, lets them use tools and a shared memory, and stores what they answered.

  \<^bold>\<open>The theories.\<close>
  \<^item> \<open>Prelude\<close>: Python's exceptions as values, strings, dictionaries, stable sorting, and the interfaces
    \<open>keyed_store\<close> (look up / write) and \<open>invariant_system\<close> (steps that keep an invariant), which the
    components interpret. \<open>PyFloat\<close>: binary64 arithmetic as rounding of rationals, with the interface
    \<open>rounding\<close>. \<open>Json\<close>: JSON values, their truth and their conversion to numbers.
  \<^item> \<open>Persona\<close> (\<open>models.py\<close>, \<open>db/models.py\<close>): profiles, knob groups, presets, rows. The constructor
    validates, rows round-trip.
  \<^item> \<open>Engine\<close> (\<open>engine.py\<close>): prompts, sampling parameters, blending, validation. Bounds with rounding
    included, when blends succeed, what the prompt depends on.
  \<^item> \<open>Personalities\<close> (\<open>orchestration/personalities.py\<close>, \<open>router.py\<close>): scores of a task and delegation plans.
  \<^item> \<open>OrgChart\<close> (\<open>orchestration/org_chart.py\<close>): nodes of a team, seeding, reporting chains, which end even
    when the chart is cyclic.
  \<^item> \<open>WorkQueue\<close> (\<open>orchestration/task_queue.py\<close>, \<open>audit_log.py\<close>, \<open>daemon.py\<close>, \<open>api/workqueue.py\<close>,
    \<open>db/repositories/workqueue_repository.py\<close>): claims, stale claims, the worker. A step relation with
    its invariant; claims take the oldest task; finished tasks do not change; a worker drains its queue.
  \<^item> \<open>Governor\<close> (\<open>orchestration/city_scale.py\<close>): callers, semaphores and counters as a step relation.
    Limits are kept, some caller can always move, a cancelled caller leaks its permits.
  \<^item> \<open>Sandbox\<close> (\<open>orchestration/sandbox.py\<close>, \<open>commons_mirror.py\<close>): path checks, confined writes.
  \<^item> \<open>CityLife\<close> (\<open>orchestration/city_life.py\<close>, \<open>city_personalities.py\<close>, \<open>city_pulse.py\<close>): goals, ageing,
    inherited knobs, personalities of children, pulse plans.
  \<^item> \<open>CityStore\<close> (\<open>db/models.py\<close>, \<open>db/repositories/city_repository.py\<close>, \<open>base.py\<close>, the read side of
    \<open>services/city_service.py\<close>): the city's tables as the record \<open>city_db\<close>, one list of rows per table,
    and the feed, whose pages lose and repeat nothing.
  \<^item> \<open>CityFamilies\<close>, \<open>CityPopulation\<close>, \<open>CitySuccession\<close> (\<open>CityService.create_family\<close>, \<open>spawn_child\<close>,
    \<open>update_family_policy\<close>, \<open>update_member_life\<close>, \<open>_succeed_member\<close>, \<open>life_tick\<close>): the operations, the
    invariant of the population, and that every reachable population satisfies it, with the
    consequences for deaths and heirs.
  \<^item> \<open>CityJobs\<close>, \<open>CityCommons\<close> (\<open>CityService.start_job\<close> to \<open>cohesion_decide\<close>, \<open>orchestration/city_tools.py\<close>):
    jobs, artifacts, runs, tools, cohesion. The artifact table implements a map from paths to
    contents; versions are numbered without gaps; the gate merges only what reaches the threshold.
  \<^item> \<open>CityReports\<close>, \<open>CityAnnals\<close> (\<open>CityService.city_snapshot\<close>, \<open>city_memorial\<close>, \<open>city_chronicle\<close>, \<open>generation_report\<close>,
    \<open>city_health\<close>, \<open>city_heartbeat\<close>, \<open>export_austin_pack\<close>): the read-only reports. They agree with each other on a
    consistent city, every dead member has one heir in the memorial, the exported graph is closed.
  \<^item> \<open>CityPulse\<close> (\<open>CityService.city_pulse\<close>, \<open>conduct_city\<close> without a language model): a round of work over all
    families, as the interface \<open>family_round\<close>; a pulse never raises and settles every job it opens.
  \<^item> \<open>WorkerPool\<close> (\<open>orchestration/city_worker.py\<close>): the bounded queue and the workers that run tool batches,
    as a step relation over the pool and the city; each item is accounted for, queued work is finished.
  \<^item> \<open>ApiGuard\<close> (\<open>auth.py\<close>, \<open>get_static\<close> of \<open>api/main.py\<close>): errors of a route as status codes, the key check and the
    static files. \<open>RateLimit\<close> (\<open>TokenBucketRateLimiter\<close> of \<open>cache.py\<close>): the token bucket over binary64 numbers as the
    interface \<open>budgeted\<close>; in any stretch of time it grants at most its budget.
  \<^item> \<open>ApiStore\<close> (\<open>db/models.py\<close>, \<open>db/repositories\<close>): the tables of personas, versions, agents, tools, sessions, messages
    and runs as the record \<open>api_db\<close>, with the constraints and cascades their classes declare.
  \<^item> \<open>PersonaApi\<close>, \<open>PersonaHistory\<close> (the persona routes of \<open>api/main.py\<close>, \<open>PersonaService\<close>, \<open>PersonaCache\<close>): every
    change of a persona leaves a version, the cache answers what the database would as long as routes
    do not overlap, and what goes wrong when they do.
  \<^item> \<open>LlmProvider\<close> (\<open>integrations/llm_settings.py\<close>, \<open>integrations/llm.py\<close>, \<open>api/settings.py\<close>): settings, their file and
    their public form, the clients and what they send.
  \<^item> \<open>AgentApi\<close>, \<open>AgentRuns\<close> (the agent and session routes of \<open>api/main.py\<close>): what an invocation leaves behind
    for every behaviour of the model, the consistency of the tables, and the limits of sessions.
  \<^item> \<open>TeamTools\<close> (\<open>orchestration/memory.py\<close>, \<open>redis_memory.py\<close>, \<open>tools.py\<close>, \<open>tool_loader.py\<close>, \<open>parallel.py\<close>): the memory of a
    team in the process and in Redis, the tools and the executors. Calls run in parallel: the order of
    their effects and their timeouts are a schedule, an argument. Tools stay in their session.
  \<^item> \<open>ToolCalls\<close> (\<open>orchestration/tool_calls.py\<close>): reading calls out of an answer, inverse to writing them.
  \<^item> \<open>TeamRun\<close> (\<open>orchestration/state.py\<close>, \<open>workflow.py\<close>, \<open>langgraph_runtime.py\<close>, \<open>team.py\<close>): the delegation chain, the
    graph and the orchestrator; what a run leaves behind and what does not depend on timing.
  \<^item> \<open>TeamStore\<close> (\<open>services/team_service.py\<close>, \<open>db/repositories/team_repository.py\<close>, \<open>api/teams.py\<close>): the tables of
    team sessions, workflows, steps and memory, their invariant, and what a request stores and answers.

  \<^bold>\<open>Conventions.\<close> An operation that changes tables takes the database and returns the next one; one that
  can raise returns \<open>pyexc + 'a\<close>, and a raise means the transaction is rolled back, except for tools,
  which commit as they go and return the database beside their outcome. Identifiers, clock, digests,
  the child process, the answers of a language model and path resolution are arguments. Texts are
  over U+0000 to U+00FF, numbers are finite binary64 values or unbounded integers. All functions are
  total; loops that may not end in the source (the worker's polling) consume a list of turns, and the
  property about them says how many turns are enough.

  \<^bold>\<open>Not modelled.\<close> Connection pools, the HTTP transport, metrics, logs and the command line, which move data
  without deciding anything; Redis, PostgreSQL and the model services themselves, of which the models
  have what the code relies on; Cyrex. The conductor's mode with a language model, the routes of the
  city, its demonstrations and the style analysis.
\<close>

end
